(* ===== verification/Prelude.thy ===== *)
theory Prelude
  imports Main "HOL-Library.Word"
begin

text \<open>
  Shared vocabulary of the development: the widths of the C++ integer types the sources use,
  results of fallible operations as sums, early returns, decimal digits, and the generic list
  facts the component theories share.  The collection \<open>numeric_eval\<close> holds the rules that
  evaluate the valid-by-construction numeric wrappers on numerals.
\<close>

named_theorems numeric_eval \<open>evaluation of the numeric wrapper types on numerals\<close>

subsection \<open>Machine constants\<close>

text \<open>
  \<open>std::int64_t\<close> is modelled by \<open>int\<close>.  Signed overflow is undefined behaviour in C++, so a
  component that computes with it proves that every value it forms stays within
  \<open>\<plusminus>INT64_MAX\<close>.  \<open>std::size_t\<close> is modelled by \<open>nat\<close>; where a subtraction could wrap, it is
  written with \<open>size_sub\<close>.
\<close>

abbreviation (input) INT64_MAX :: int where
  "INT64_MAX \<equiv> 9223372036854775807"

abbreviation (input) INT32_MAX :: int where
  "INT32_MAX \<equiv> 2147483647"

abbreviation (input) SIZE_MAX :: nat where
  "SIZE_MAX \<equiv> 18446744073709551615"

type_synonym uint64 = "64 word"
type_synonym uint32 = "32 word"
type_synonym uint8 = "8 word"

definition size_sub :: "nat \<Rightarrow> nat \<Rightarrow> nat" where
  "size_sub a b = (a + (SIZE_MAX + 1) - b) mod (SIZE_MAX + 1)"

lemma size_sub_exact [simp]: "b \<le> a \<Longrightarrow> a \<le> SIZE_MAX \<Longrightarrow> size_sub a b = a - b"
proof -
  assume "b \<le> a" "a \<le> SIZE_MAX"
  then have "a + (SIZE_MAX + 1) - b = (a - b) + (SIZE_MAX + 1)" and "a - b < SIZE_MAX + 1"
    by simp_all
  then show ?thesis
    unfolding size_sub_def by (metis mod_add_self2 mod_less)
qed

subsection \<open>C++ division\<close>

text \<open>Integer division of C++ truncates towards zero.\<close>

definition c_div :: "int \<Rightarrow> int \<Rightarrow> int" where
  "c_div a b = sgn a * sgn b * (\<bar>a\<bar> div \<bar>b\<bar>)"

definition c_mod :: "int \<Rightarrow> int \<Rightarrow> int" where
  "c_mod a b = a - b * c_div a b"

lemma c_div_nonneg [simp]: "0 \<le> a \<Longrightarrow> 0 < b \<Longrightarrow> c_div a b = a div b"
  by (cases "a = 0") (simp_all add: c_div_def)

lemma c_mod_nonneg [simp]: "0 \<le> a \<Longrightarrow> 0 < b \<Longrightarrow> c_mod a b = a mod b"
  by (simp add: c_mod_def minus_mult_div_eq_mod)

lemma div_less_iff_int:
  assumes "(0 :: int) < m"
  shows "x div m < u \<longleftrightarrow> x < u * m"
proof
  assume "x div m < u"
  then have "(x div m + 1) * m \<le> u * m"
    using assms by (simp add: mult_right_mono)
  moreover have "(x div m + 1) * m = x div m * m + m"
    by (simp add: distrib_right)
  moreover have "x < x div m * m + m"
    using pos_mod_bound[OF assms, of x] div_mult_mod_eq[of x m] by linarith
  ultimately show "x < u * m" by linarith
next
  assume "x < u * m"
  show "x div m < u"
  proof (rule ccontr)
    assume "\<not> x div m < u"
    then have "u * m \<le> (x div m) * m" using assms by (simp add: mult_right_mono)
    also have "\<dots> \<le> x"
      using assms pos_mod_sign[OF assms, of x] div_mult_mod_eq[of x m] by linarith
    finally show False using \<open>x < u * m\<close> by simp
  qed
qed

subsection \<open>Results and early returns\<close>

text \<open>
  A \<open>std::variant<T, Error>\<close> is \<open>'e + 'a\<close> with the error on the left.  \<open>bind_result\<close> is the
  pattern \<open>if (const auto* failure = std::get_if<Error>(&r)) return *failure;\<close> followed by the
  use of the value; \<open>return_if_error\<close> is the pattern
  \<open>if (const auto e = validate(...)) return *e;\<close>.
\<close>

definition bind_result :: "'e + 'a \<Rightarrow> ('a \<Rightarrow> 'e + 'b) \<Rightarrow> 'e + 'b" where
  "bind_result r f = (case r of Inl e \<Rightarrow> Inl e | Inr x \<Rightarrow> f x)"

definition return_if_error :: "'e option \<Rightarrow> 'e + 'b \<Rightarrow> 'e + 'b" where
  "return_if_error e k = (case e of None \<Rightarrow> k | Some err \<Rightarrow> Inl err)"

lemma bind_result_simps [simp]:
  "bind_result (Inl e) f = Inl e"
  "bind_result (Inr x) f = f x"
  by (simp_all add: bind_result_def)

lemma bind_result_Inr_iff:
  "bind_result r f = Inr y \<longleftrightarrow> (\<exists>x. r = Inr x \<and> f x = Inr y)"
  by (cases r) auto

lemma bind_result_Inl_iff:
  "bind_result r f = Inl e \<longleftrightarrow> r = Inl e \<or> (\<exists>x. r = Inr x \<and> f x = Inl e)"
  by (cases r) auto

lemma return_if_error_simps [simp]:
  "return_if_error None k = k"
  "return_if_error (Some e) k = Inl e"
  by (simp_all add: return_if_error_def)

lemma return_if_error_Inr_iff:
  "return_if_error e k = Inr y \<longleftrightarrow> e = None \<and> k = Inr y"
  by (cases e) auto

lemmas result_iffs = bind_result_Inr_iff bind_result_Inl_iff return_if_error_Inr_iff

fun is_ok :: "'e + 'a \<Rightarrow> bool" where
  "is_ok (Inl _) = False"
| "is_ok (Inr _) = True"

lemma is_ok_iff: "is_ok r \<longleftrightarrow> (\<exists>x. r = Inr x)"
  by (cases r) auto

subsection \<open>Association lists\<close>

text \<open>With distinct keys in the same order, the map determines the association list.\<close>

lemma assoc_list_determined:
  assumes "map fst xs = map fst ys" and "distinct (map fst xs)" and "map_of xs = map_of ys"
  shows "xs = ys"
proof -
  have "map (\<lambda>k. (k, the (map_of xs k))) (map fst xs) = xs" if "distinct (map fst xs)" for xs :: "('a \<times> 'b) list"
    using that by (auto simp: comp_def intro!: map_idI)
  from this[of xs] this[of ys] assms show ?thesis by simp
qed

subsection \<open>Lists in a strict total order\<close>

text \<open>
  A list sorted by an irreflexive, transitive, total relation is determined by its set of
  elements.  Both sides of a book (one ascending, one descending) rest on this fact.
\<close>

locale key_order =
  fixes lt :: "'k \<Rightarrow> 'k \<Rightarrow> bool"
  assumes lt_irrefl: "\<not> lt a a"
    and lt_trans: "lt a b \<Longrightarrow> lt b c \<Longrightarrow> lt a c"
    and lt_total: "a \<noteq> b \<Longrightarrow> lt a b \<or> lt b a"
begin

lemma lt_asym: "lt a b \<Longrightarrow> \<not> lt b a"
  using lt_irrefl lt_trans by blast

lemma not_lt_both: "\<not> lt a b \<Longrightarrow> \<not> lt b a \<Longrightarrow> a = b"
  using lt_total by blast

lemma sorted_wrt_distinct: "sorted_wrt lt xs \<Longrightarrow> distinct xs"
  by (induction xs) (auto simp: lt_irrefl)

lemma sorted_wrt_set_unique:
  "sorted_wrt lt xs \<Longrightarrow> sorted_wrt lt ys \<Longrightarrow> set xs = set ys \<Longrightarrow> xs = ys"
proof (induction xs arbitrary: ys)
  case Nil
  then show ?case by simp
next
  case (Cons x xs)
  then obtain y ys' where ys: "ys = y # ys'"
    by (cases ys) auto
  have "x = y"
  proof (rule ccontr)
    assume "x \<noteq> y"
    with Cons.prems ys have "x \<in> set ys'" "y \<in> set xs" by auto
    with Cons.prems ys have "lt y x" "lt x y" by auto
    then show False using lt_asym by blast
  qed
  moreover have "set xs = set ys'"
  proof -
    have "x \<notin> set xs" "y \<notin> set ys'"
      using Cons.prems ys sorted_wrt_distinct[of "x # xs"] sorted_wrt_distinct[of "y # ys'"]
      by auto
    with Cons.prems(3) ys \<open>x = y\<close> show ?thesis by auto
  qed
  ultimately show ?case
    using Cons ys by simp
qed

end

interpretation ascending: key_order "(<) :: 'a::linorder \<Rightarrow> 'a \<Rightarrow> bool"
  by unfold_locales auto

interpretation descending: key_order "(>) :: 'a::linorder \<Rightarrow> 'a \<Rightarrow> bool"
  by unfold_locales auto

end
