(* ===== verification/Numeric_Types.thy ===== *)
theory Numeric_Types
  imports Prelude
begin

text \<open>
  The value types of the public numeric headers (\<open>decimal_scale.hpp\<close>, \<open>price_units.hpp\<close>,
  \<open>quantity_units.hpp\<close>, \<open>numeric_spec.hpp\<close>, \<open>decimal_error.hpp\<close>) and of the order-book headers
  (\<open>book_side.hpp\<close>, \<open>book_level.hpp\<close>, \<open>level_update.hpp\<close>).  The C++ classes have a private
  constructor and a checked factory, so every object satisfies the class invariant; they are
  types carved out by that invariant here, and the factories are the only way into them.
\<close>

subsection \<open>PriceUnits\<close>

typedef price_units = "{v :: int. 0 < v \<and> v \<le> INT64_MAX}"
  morphisms price_value Abs_price_units
  by (rule exI[of _ 1]) simp

setup_lifting type_definition_price_units

text \<open>The private constructor; outside the factory's domain its result is arbitrary.\<close>

lift_definition PriceUnits :: "int \<Rightarrow> price_units" is
  "\<lambda>v. if 0 < v \<and> v \<le> INT64_MAX then v else 1"
  by simp

definition PriceUnits_create :: "int \<Rightarrow> price_units option" where
  "PriceUnits_create v = (if v \<le> 0 then None else Some (PriceUnits v))"

instantiation price_units :: linorder
begin

lift_definition less_eq_price_units :: "price_units \<Rightarrow> price_units \<Rightarrow> bool" is "(\<le>)" .
lift_definition less_price_units :: "price_units \<Rightarrow> price_units \<Rightarrow> bool" is "(<)" .

instance
  by standard (transfer; auto)+

end

lemma price_value_PriceUnits [simp, numeric_eval]:
  "0 < v \<Longrightarrow> v \<le> INT64_MAX \<Longrightarrow> price_value (PriceUnits v) = v"
  by (simp add: PriceUnits.rep_eq)

lemma PriceUnits_price_value [simp]: "PriceUnits (price_value p) = p"
  by transfer simp

lemma price_value_range: "0 < price_value p" "price_value p \<le> INT64_MAX"
  using price_value[of p] by auto

lemma price_value_nonneg [simp]:
  "0 \<le> price_value p" "0 < price_value p" "price_value p \<noteq> 0" "\<not> price_value p \<le> 0"
  using price_value_range[of p] by auto

lemma price_eq_iff: "p = q \<longleftrightarrow> price_value p = price_value q"
  by (simp add: price_value_inject)

lemma price_less_iff: "p < q \<longleftrightarrow> price_value p < price_value q"
  by (simp add: less_price_units.rep_eq)

lemma price_le_iff: "p \<le> q \<longleftrightarrow> price_value p \<le> price_value q"
  by (simp add: less_eq_price_units.rep_eq)

lemma PriceUnits_compare [numeric_eval]:
  assumes "0 < v" "v \<le> INT64_MAX" "0 < w" "w \<le> INT64_MAX"
  shows "PriceUnits v = PriceUnits w \<longleftrightarrow> v = w"
    and "PriceUnits v < PriceUnits w \<longleftrightarrow> v < w"
    and "PriceUnits v \<le> PriceUnits w \<longleftrightarrow> v \<le> w"
  using assms by (simp_all add: price_eq_iff price_less_iff price_le_iff)

lemma PriceUnits_create_Some_iff:
  assumes "v \<le> INT64_MAX"
  shows "PriceUnits_create v = Some p \<longleftrightarrow> v = price_value p"
  using assms price_value_range[of p] by (auto simp: PriceUnits_create_def price_eq_iff)

lemma PriceUnits_create_value [simp]: "PriceUnits_create (price_value p) = Some p"
  by (simp add: PriceUnits_create_def)

lemma PriceUnits_create_None_iff: "PriceUnits_create v = None \<longleftrightarrow> v \<le> 0"
  by (simp add: PriceUnits_create_def)

lemma finite_UNIV_price_units: "finite (UNIV :: price_units set)"
  and card_UNIV_price_units: "card (UNIV :: price_units set) \<le> nat INT64_MAX"
proof -
  have "price_value ` UNIV \<subseteq> {1..INT64_MAX}"
    using price_value_range by (auto simp: int_one_le_iff_zero_less)
  then have fin: "finite (price_value ` UNIV)"
    and "card (price_value ` UNIV) \<le> card {1..INT64_MAX}"
    using finite_subset card_mono by (blast, blast)
  moreover have inj: "inj price_value"
    by (simp add: inj_def price_value_inject)
  ultimately show "finite (UNIV :: price_units set)"
    and "card (UNIV :: price_units set) \<le> nat INT64_MAX"
    by (auto dest: finite_imageD simp: card_image)
qed

text \<open>
  A side of a book never holds more levels than there are prices, so its size always fits
  \<open>std::size_t\<close> with room to spare.
\<close>

lemma distinct_prices_length: "distinct (ps :: price_units list) \<Longrightarrow> length ps \<le> nat INT64_MAX"
proof -
  assume "distinct ps"
  then have "length ps = card (set ps)" by (simp add: distinct_card)
  also have "\<dots> \<le> card (UNIV :: price_units set)"
    by (rule card_mono) (auto simp: finite_UNIV_price_units)
  finally show ?thesis using card_UNIV_price_units by linarith
qed

subsection \<open>QuantityUnits\<close>

typedef quantity_units = "{v :: int. 0 \<le> v \<and> v \<le> INT64_MAX}"
  morphisms quantity_value Abs_quantity_units
  by (rule exI[of _ 0]) simp

setup_lifting type_definition_quantity_units

lift_definition QuantityUnits :: "int \<Rightarrow> quantity_units" is
  "\<lambda>v. if 0 \<le> v \<and> v \<le> INT64_MAX then v else 0"
  by simp

definition QuantityUnits_create :: "int \<Rightarrow> quantity_units option" where
  "QuantityUnits_create v = (if v < 0 then None else Some (QuantityUnits v))"

instantiation quantity_units :: linorder
begin

lift_definition less_eq_quantity_units :: "quantity_units \<Rightarrow> quantity_units \<Rightarrow> bool" is "(\<le>)" .
lift_definition less_quantity_units :: "quantity_units \<Rightarrow> quantity_units \<Rightarrow> bool" is "(<)" .

instance
  by standard (transfer; auto)+

end

lemma quantity_value_QuantityUnits [simp, numeric_eval]:
  "0 \<le> v \<Longrightarrow> v \<le> INT64_MAX \<Longrightarrow> quantity_value (QuantityUnits v) = v"
  by (simp add: QuantityUnits.rep_eq)

lemma QuantityUnits_quantity_value [simp]: "QuantityUnits (quantity_value q) = q"
  by transfer simp

lemma quantity_value_range: "0 \<le> quantity_value q" "quantity_value q \<le> INT64_MAX"
  using quantity_value[of q] by auto

lemma quantity_value_nonneg [simp]: "0 \<le> quantity_value q" "\<not> quantity_value q < 0"
  using quantity_value_range[of q] by auto

lemma quantity_pos_iff: "0 < quantity_value q \<longleftrightarrow> quantity_value q \<noteq> 0"
  using quantity_value_range(1)[of q] by linarith

lemma quantity_eq_iff: "p = q \<longleftrightarrow> quantity_value p = quantity_value q"
  by (simp add: quantity_value_inject)

lemma QuantityUnits_eq [numeric_eval]:
  "0 \<le> v \<Longrightarrow> v \<le> INT64_MAX \<Longrightarrow> 0 \<le> w \<Longrightarrow> w \<le> INT64_MAX \<Longrightarrow>
    QuantityUnits v = QuantityUnits w \<longleftrightarrow> v = w"
  by (simp add: quantity_eq_iff)

lemma QuantityUnits_create_Some_iff:
  assumes "v \<le> INT64_MAX"
  shows "QuantityUnits_create v = Some q \<longleftrightarrow> v = quantity_value q"
  using assms quantity_value_range[of q] by (auto simp: QuantityUnits_create_def quantity_eq_iff)

lemma QuantityUnits_create_value [simp]: "QuantityUnits_create (quantity_value q) = Some q"
  by (simp add: QuantityUnits_create_def)

subsection \<open>DecimalScale and NumericSpec\<close>

abbreviation (input) kMaxDecimalScale :: "'a::numeral" where
  "kMaxDecimalScale \<equiv> 18"

typedef decimal_scale = "{w :: uint8. w \<le> kMaxDecimalScale}"
  morphisms scale_value Abs_decimal_scale
  by (rule exI[of _ 0]) simp

definition DecimalScale :: "uint8 \<Rightarrow> decimal_scale" where
  "DecimalScale w = Abs_decimal_scale (if w \<le> kMaxDecimalScale then w else 0)"

definition DecimalScale_create :: "uint32 \<Rightarrow> decimal_scale option" where
  "DecimalScale_create v = (if v > kMaxDecimalScale then None else Some (DecimalScale (ucast v)))"

text \<open>\<open>static_cast<std::size_t>(scale.value())\<close>.\<close>

definition scale_digits :: "decimal_scale \<Rightarrow> nat" where
  "scale_digits s = unat (scale_value s)"

lemma scale_digits_le: "scale_digits s \<le> 18"
  using scale_value[of s] by (simp add: scale_digits_def word_le_nat_alt)

lemma scale_value_DecimalScale [simp, numeric_eval]:
  "w \<le> kMaxDecimalScale \<Longrightarrow> scale_value (DecimalScale w) = w"
  by (simp add: DecimalScale_def Abs_decimal_scale_inverse)

lemma scale_eq_iff: "s = t \<longleftrightarrow> scale_digits s = scale_digits t"
  by (metis scale_digits_def scale_value_inject word_unat_eq_iff)

lemma DecimalScale_create_Some:
  assumes "DecimalScale_create v = Some s"
  shows "scale_digits s = unat v"
proof -
  from assms have le: "v \<le> 18" and s: "s = DecimalScale (ucast v)"
    by (auto simp: DecimalScale_create_def split: if_splits)
  from le have "unat v \<le> 18" by (simp add: word_le_nat_alt)
  then have u: "unat (ucast v :: uint8) = unat v"
    by (simp add: unsigned_ucast_eq take_bit_nat_eq_self_iff)
  with \<open>unat v \<le> 18\<close> have "(ucast v :: uint8) \<le> 18"
    by (simp add: word_le_nat_alt)
  with s u show ?thesis by (simp add: scale_digits_def)
qed

record numeric_spec =
  price_scale :: decimal_scale
  quantity_scale :: decimal_scale

subsection \<open>Decimal errors\<close>

datatype decimal_error_code =
  Empty | InvalidSyntax | SignNotAllowed | LeadingZero | MissingFractionDigits |
  ZeroNotAllowed | InexactScale | Overflow

abbreviation (input) kNoErrorOffset :: nat where
  "kNoErrorOffset \<equiv> SIZE_MAX"

record decimal_error =
  dec_code :: decimal_error_code
  dec_offset :: nat

abbreviation DecimalError :: "decimal_error_code \<Rightarrow> nat \<Rightarrow> decimal_error" where
  "DecimalError c n \<equiv> \<lparr>dec_code = c, dec_offset = n\<rparr>"

fun decimal_error_code_to_string :: "decimal_error_code \<Rightarrow> string" where
  "decimal_error_code_to_string Empty = ''EMPTY''"
| "decimal_error_code_to_string InvalidSyntax = ''INVALID_SYNTAX''"
| "decimal_error_code_to_string SignNotAllowed = ''SIGN_NOT_ALLOWED''"
| "decimal_error_code_to_string LeadingZero = ''LEADING_ZERO''"
| "decimal_error_code_to_string MissingFractionDigits = ''MISSING_FRACTION_DIGITS''"
| "decimal_error_code_to_string ZeroNotAllowed = ''ZERO_NOT_ALLOWED''"
| "decimal_error_code_to_string InexactScale = ''INEXACT_SCALE''"
| "decimal_error_code_to_string Overflow = ''OVERFLOW''"

subsection \<open>Book vocabulary\<close>

datatype book_side = Bid | Ask

fun book_side_to_string :: "book_side \<Rightarrow> string" where
  "book_side_to_string Bid = ''BID''"
| "book_side_to_string Ask = ''ASK''"

lemma book_side_not_Bid [simp]: "side \<noteq> Bid \<longleftrightarrow> side = Ask" "side \<noteq> Ask \<longleftrightarrow> side = Bid"
  by (cases side; simp)+

record book_level =
  lvl_price :: price_units
  lvl_quantity :: quantity_units

abbreviation BookLevel :: "price_units \<Rightarrow> quantity_units \<Rightarrow> book_level" where
  "BookLevel p q \<equiv> \<lparr>lvl_price = p, lvl_quantity = q\<rparr>"

record level_update =
  upd_side :: book_side
  upd_price :: price_units
  upd_quantity :: quantity_units

abbreviation LevelUpdate :: "book_side \<Rightarrow> price_units \<Rightarrow> quantity_units \<Rightarrow> level_update" where
  "LevelUpdate s p q \<equiv> \<lparr>upd_side = s, upd_price = p, upd_quantity = q\<rparr>"

datatype level_change = Inserted | Updated | Removed | Unchanged

fun level_change_to_string :: "level_change \<Rightarrow> string" where
  "level_change_to_string Inserted = ''INSERTED''"
| "level_change_to_string Updated = ''UPDATED''"
| "level_change_to_string Removed = ''REMOVED''"
| "level_change_to_string Unchanged = ''UNCHANGED''"

end
