(* ===== verification/Ordered_Map.thy ===== *)
theory Ordered_Map
  imports Prelude
begin

text \<open>
  The ordered associative container the sources rely on.  \<open>std::map\<close> is modelled by the sequence
  of its entries in iteration order; \<open>find\<close>, \<open>insert_or_assign\<close> and \<open>erase\<close> compare keys with the
  map's comparator only, as the standard library does.  The locale \<open>ordered_store\<close> is the
  contract a client of such a container uses: what a lookup returns after each mutation, and that
  iteration is in comparator order.  It is interpreted on the \<open>std::map\<close> model below.
\<close>

subsection \<open>std::map\<close>

type_synonym ('k, 'v) std_map = "('k \<times> 'v) list"

fun map_find :: "('k \<Rightarrow> 'k \<Rightarrow> bool) \<Rightarrow> 'k \<Rightarrow> ('k, 'v) std_map \<Rightarrow> 'v option" where
  "map_find lt k [] = None"
| "map_find lt k ((k', v') # m) =
     (if lt k' k then map_find lt k m else if lt k k' then None else Some v')"

fun map_insert_or_assign ::
  "('k \<Rightarrow> 'k \<Rightarrow> bool) \<Rightarrow> 'k \<Rightarrow> 'v \<Rightarrow> ('k, 'v) std_map \<Rightarrow> ('k, 'v) std_map" where
  "map_insert_or_assign lt k v [] = [(k, v)]"
| "map_insert_or_assign lt k v ((k', v') # m) =
     (if lt k' k then (k', v') # map_insert_or_assign lt k v m
      else if lt k k' then (k, v) # (k', v') # m
      else (k', v) # m)"

fun map_erase :: "('k \<Rightarrow> 'k \<Rightarrow> bool) \<Rightarrow> 'k \<Rightarrow> ('k, 'v) std_map \<Rightarrow> ('k, 'v) std_map" where
  "map_erase lt k [] = []"
| "map_erase lt k ((k', v') # m) =
     (if lt k' k then (k', v') # map_erase lt k m
      else if lt k k' then (k', v') # m
      else m)"

definition map_inv :: "('k \<Rightarrow> 'k \<Rightarrow> bool) \<Rightarrow> ('k, 'v) std_map \<Rightarrow> bool" where
  "map_inv lt m \<longleftrightarrow> sorted_wrt lt (map fst m)"

subsection \<open>The contract of an ordered store\<close>

locale ordered_store = key_order lt
  for lt :: "'k \<Rightarrow> 'k \<Rightarrow> bool" +
  fixes store_inv :: "'s \<Rightarrow> bool"
    and store_empty :: 's
    and store_find :: "'k \<Rightarrow> 's \<Rightarrow> 'v option"
    and store_insert :: "'k \<Rightarrow> 'v \<Rightarrow> 's \<Rightarrow> 's"
    and store_erase :: "'k \<Rightarrow> 's \<Rightarrow> 's"
    and entries :: "'s \<Rightarrow> ('k \<times> 'v) list"
  assumes inv_empty: "store_inv store_empty"
    and inv_insert: "store_inv s \<Longrightarrow> store_inv (store_insert k v s)"
    and inv_erase: "store_inv s \<Longrightarrow> store_inv (store_erase k s)"
    and entries_empty: "entries store_empty = []"
    and entries_sorted: "store_inv s \<Longrightarrow> sorted_wrt lt (map fst (entries s))"
    and find_entries: "store_inv s \<Longrightarrow> store_find k s = map_of (entries s) k"
    and find_insert: "store_inv s \<Longrightarrow>
      store_find j (store_insert k v s) = (if j = k then Some v else store_find j s)"
    and find_erase: "store_inv s \<Longrightarrow>
      store_find j (store_erase k s) = (if j = k then None else store_find j s)"
begin

definition contents :: "'s \<Rightarrow> 'k \<rightharpoonup> 'v" where
  "contents s = (\<lambda>k. store_find k s)"

lemma contents_eq: "store_inv s \<Longrightarrow> contents s = map_of (entries s)"
  by (auto simp: contents_def find_entries)

lemma contents_insert: "store_inv s \<Longrightarrow> contents (store_insert k v s) = (contents s)(k \<mapsto> v)"
  by (auto simp: contents_def find_insert)

lemma contents_erase: "store_inv s \<Longrightarrow> contents (store_erase k s) = (contents s)(k := None)"
  by (auto simp: contents_def find_erase)

lemma contents_empty: "contents store_empty = Map.empty"
  using contents_eq[OF inv_empty] by (simp add: entries_empty)

lemma entries_distinct: "store_inv s \<Longrightarrow> distinct (map fst (entries s))"
  using entries_sorted sorted_wrt_distinct by blast

lemma dom_contents: "store_inv s \<Longrightarrow> dom (contents s) = fst ` set (entries s)"
  by (simp add: contents_eq dom_map_of_conv_image_fst)

lemma set_entries: "store_inv s \<Longrightarrow> (k, v) \<in> set (entries s) \<longleftrightarrow> contents s k = Some v"
  by (simp add: contents_eq entries_distinct)

text \<open>Two stores with the same contents iterate alike, even of different container types.\<close>

lemma entries_determined:
  assumes "store_inv s" and "sorted_wrt lt (map fst xs)" and "map_of xs = contents s"
  shows "entries s = xs"
proof -
  have "set (map fst (entries s)) = set (map fst xs)"
    using assms by (metis contents_eq dom_map_of_conv_image_fst set_map)
  then have "map fst (entries s) = map fst xs"
    using assms entries_sorted sorted_wrt_set_unique by blast
  then show ?thesis
    using assms entries_distinct[OF assms(1)] contents_eq[OF assms(1)]
    by (intro assoc_list_determined) simp_all
qed

text \<open>The first entry is the least in comparator order.\<close>

lemma entries_first:
  assumes "store_inv s" and "entries s = (k, v) # es"
  shows "contents s k = Some v" and "contents s j = Some w \<Longrightarrow> j = k \<or> lt k j"
proof -
  show "contents s k = Some v" using assms by (simp add: contents_eq)
  assume "contents s j = Some w"
  then have "j \<in> set (map fst (entries s))"
    using assms(1) by (metis domI dom_contents set_map)
  with assms entries_sorted[OF assms(1)] show "j = k \<or> lt k j" by auto
qed

lemma entries_Nil_iff: "store_inv s \<Longrightarrow> entries s = [] \<longleftrightarrow> contents s = Map.empty"
  by (metis contents_eq map_of_eq_empty_iff)

end

subsection \<open>std::map keeps the contract\<close>

context key_order
begin

lemma set_map_insert: "set (map fst (map_insert_or_assign lt k v m)) = insert k (set (map fst m))"
proof (induction m)
  case (Cons e m)
  then show ?case using not_lt_both[of "fst e" k] by (cases e) auto
qed simp

lemma set_map_erase: "set (map fst (map_erase lt k m)) \<subseteq> set (map fst m)"
  by (induction m rule: map_erase.induct[of _ lt k]) auto

lemma map_inv_insert: "map_inv lt m \<Longrightarrow> map_inv lt (map_insert_or_assign lt k v m)"
proof (induction m)
  case (Cons e m)
  obtain k' v' where e: "e = (k', v')" by force
  with Cons show ?case
    using set_map_insert[of k v m] lt_trans[of k k']
    by (auto simp: map_inv_def)
qed (simp add: map_inv_def)

lemma map_inv_erase: "map_inv lt m \<Longrightarrow> map_inv lt (map_erase lt k m)"
proof (induction m)
  case (Cons e m)
  obtain k' v' where e: "e = (k', v')" by force
  with Cons show ?case
    using set_map_erase[of k m] by (fastforce simp: map_inv_def)
qed (simp add: map_inv_def)

lemma map_find_map_of: "map_inv lt m \<Longrightarrow> map_find lt k m = map_of m k"
proof (induction m)
  case (Cons e m)
  obtain k' v' where e: "e = (k', v')" by force
  have "map_of m k = None" if "lt k k'"
  proof -
    have "k \<notin> set (map fst m)"
      using Cons.prems e that lt_trans[of k k'] lt_irrefl by (auto simp: map_inv_def)
    then show ?thesis by (simp add: map_of_eq_None_iff)
  qed
  with Cons e show ?case
    using not_lt_both[of k' k] lt_irrefl by (auto simp: map_inv_def)
qed simp

lemma map_of_map_insert: "map_of (map_insert_or_assign lt k v m) = (map_of m)(k \<mapsto> v)"
  if "map_inv lt m" for m :: "('k, 'b) std_map"
  using that
proof (induction m)
  case (Cons e m)
  obtain k' v' where e: "e = (k', v')" by force
  with Cons show ?case
    using not_lt_both[of k' k] lt_irrefl by (auto simp: map_inv_def fun_eq_iff)
qed simp

lemma map_of_map_erase: "map_of (map_erase lt k m) = (map_of m)(k := None)"
  if "map_inv lt m" for m :: "('k, 'b) std_map"
  using that
proof (induction m)
  case (Cons e m)
  obtain k' v' where e: "e = (k', v')" by force
  have absent: "map_of m k = None" if "\<not> lt k' k"
  proof -
    have "k \<notin> set (map fst m)"
      using Cons.prems e that by (auto simp: map_inv_def)
    then show ?thesis by (simp add: map_of_eq_None_iff)
  qed
  with Cons e show ?case
    using not_lt_both[of k' k] lt_irrefl by (auto simp: map_inv_def fun_eq_iff)
qed simp

lemma std_map_ordered_store:
  "ordered_store lt (map_inv lt) [] (map_find lt)
     (map_insert_or_assign lt) (map_erase lt) (\<lambda>m. m)"
  by unfold_locales
    (simp_all add: map_inv_insert map_inv_erase map_find_map_of map_of_map_insert map_of_map_erase,
      simp_all add: map_inv_def)

end

text \<open>The two maps of a book: \<open>std::less<>\<close> and \<open>std::greater<>\<close>.\<close>

interpretation std_map_less: ordered_store "(<) :: 'k::linorder \<Rightarrow> 'k \<Rightarrow> bool" "map_inv (<)" "[]"
  "map_find (<)" "map_insert_or_assign (<)" "map_erase (<)" "\<lambda>m. m"
  by (rule ascending.std_map_ordered_store)

interpretation std_map_greater: ordered_store "(>) :: 'k::linorder \<Rightarrow> 'k \<Rightarrow> bool" "map_inv (>)" "[]"
  "map_find (>)" "map_insert_or_assign (>)" "map_erase (>)" "\<lambda>m. m"
  by (rule descending.std_map_ordered_store)

end
