(* ===== verification/Book_Model.thy ===== *)
theory Book_Model
  imports Numeric_Types Ordered_Map
begin

text \<open>
  What an order book promises, independent of its container.  The abstract book maps each side
  and price to a quantity; \<open>spec_apply\<close>, \<open>spec_change\<close>, \<open>spec_updates\<close> and \<open>spec_replace\<close> are its
  operations.  The record \<open>book_ops\<close> is the operation table required by \<open>Phase8ModelConcept\<close>
  (\<open>benchmarks/phase8/phase8_model.hpp\<close>), which mirrors the public surface of \<open>OrderBook\<close>; the locale
  \<open>book_model\<close> is the contract of such a table.  Every book of the repository interprets it, so the
  lemmas proved here once (refinement over command sequences, determinism of what can be observed,
  last write wins, best-first order) hold of each.
\<close>

subsection \<open>Sides and their order\<close>

text \<open>\<open>std::greater<>\<close> orders the bids, \<open>std::less<>\<close> the asks: best level first on both sides.\<close>

fun side_lt :: "book_side \<Rightarrow> price_units \<Rightarrow> price_units \<Rightarrow> bool" where
  "side_lt Bid a b \<longleftrightarrow> a > b"
| "side_lt Ask a b \<longleftrightarrow> a < b"

lemma side_lt_alt [simp]: "side_lt Bid = (>)" "side_lt Ask = (<)"
  by (auto simp: fun_eq_iff)

interpretation side_order: key_order "side_lt side" for side
proof -
  show "key_order (side_lt side)"
    by (cases side) (simp_all add: ascending.key_order_axioms descending.key_order_axioms)
qed

interpretation side_map: ordered_store "side_lt side" "map_inv (side_lt side)" "[]"
  "map_find (side_lt side)" "map_insert_or_assign (side_lt side)" "map_erase (side_lt side)"
  "\<lambda>m. m" for side
  by (rule side_order.std_map_ordered_store)

lemma side_contents_eq:
  "map_inv (side_lt side) m \<Longrightarrow> (\<lambda>k. map_find (side_lt side) k m) = map_of m"
  by (simp add: side_order.map_find_map_of)

abbreviation level_of :: "price_units \<times> quantity_units \<Rightarrow> book_level" where
  "level_of e \<equiv> BookLevel (fst e) (snd e)"

abbreviation level_entry :: "book_level \<Rightarrow> price_units \<times> quantity_units" where
  "level_entry l \<equiv> (lvl_price l, lvl_quantity l)"

subsection \<open>The abstract book\<close>

type_synonym book_abs = "book_side \<Rightarrow> price_units \<rightharpoonup> quantity_units"

text \<open>A zero quantity deletes the level; any other replaces it.\<close>

definition level_value :: "quantity_units \<Rightarrow> quantity_units option" where
  "level_value q = (if quantity_value q = 0 then None else Some q)"

definition spec_apply :: "book_side \<Rightarrow> price_units \<Rightarrow> quantity_units \<Rightarrow> book_abs \<Rightarrow> book_abs" where
  "spec_apply side p q B = B(side := (B side)(p := level_value q))"

definition spec_change ::
  "book_side \<Rightarrow> price_units \<Rightarrow> quantity_units \<Rightarrow> book_abs \<Rightarrow> level_change" where
  "spec_change side p q B =
     (case (B side p, level_value q) of
        (None, None) \<Rightarrow> Unchanged
      | (None, Some _) \<Rightarrow> Inserted
      | (Some _, None) \<Rightarrow> Removed
      | (Some old, Some new) \<Rightarrow> if old = new then Unchanged else Updated)"

definition spec_updates :: "level_update list \<Rightarrow> book_abs \<Rightarrow> book_abs" where
  "spec_updates us B = fold (\<lambda>u. spec_apply (upd_side u) (upd_price u) (upd_quantity u)) us B"

definition side_of_levels :: "book_level list \<Rightarrow> price_units \<rightharpoonup> quantity_units" where
  "side_of_levels ls = fold (\<lambda>l m. m(lvl_price l := level_value (lvl_quantity l))) ls Map.empty"

definition spec_replace :: "book_level list \<Rightarrow> book_level list \<Rightarrow> book_abs" where
  "spec_replace bids asks = case_book_side (side_of_levels bids) (side_of_levels asks)"

text \<open>The levels of a side, best first, as the abstract book determines them.\<close>

definition best_first :: "book_side \<Rightarrow> price_units set \<Rightarrow> price_units list" where
  "best_first side ps = (case side of Bid \<Rightarrow> rev (sorted_list_of_set ps) | Ask \<Rightarrow> sorted_list_of_set ps)"

definition spec_levels :: "book_side \<Rightarrow> (price_units \<rightharpoonup> quantity_units) \<Rightarrow> book_level list" where
  "spec_levels side m = map (\<lambda>p. BookLevel p (the (m p))) (best_first side (dom m))"

subsection \<open>The operation table\<close>

record 'm book_ops =
  bo_create :: "numeric_spec \<Rightarrow> 'm"
  bo_numeric_spec :: "'m \<Rightarrow> numeric_spec"
  bo_empty :: "'m \<Rightarrow> bool"
  bo_side_empty :: "'m \<Rightarrow> book_side \<Rightarrow> bool"
  bo_level_count :: "'m \<Rightarrow> book_side \<Rightarrow> nat"
  bo_best_bid :: "'m \<Rightarrow> book_level option"
  bo_best_ask :: "'m \<Rightarrow> book_level option"
  bo_quantity_at :: "'m \<Rightarrow> book_side \<Rightarrow> price_units \<Rightarrow> quantity_units option"
  bo_top_levels :: "'m \<Rightarrow> book_side \<Rightarrow> nat \<Rightarrow> book_level list"
  bo_all_levels :: "'m \<Rightarrow> book_side \<Rightarrow> book_level list"
  bo_apply_level :: "'m \<Rightarrow> book_side \<Rightarrow> price_units \<Rightarrow> quantity_units \<Rightarrow> level_change \<times> 'm"
  bo_apply_updates :: "'m \<Rightarrow> level_update list \<Rightarrow> 'm"
  bo_replace_all :: "'m \<Rightarrow> book_level list \<Rightarrow> book_level list \<Rightarrow> 'm"
  bo_clear :: "'m \<Rightarrow> 'm"
  bo_clear_side :: "'m \<Rightarrow> book_side \<Rightarrow> 'm"

text \<open>A command sequence against a table, with the \<open>LevelChange\<close> each \<open>apply_level\<close> returns.\<close>

datatype book_cmd =
  ApplyLevel book_side price_units quantity_units |
  ApplyUpdates "level_update list" |
  ReplaceAll "book_level list" "book_level list" |
  Clear |
  ClearSide book_side

fun exec :: "'m book_ops \<Rightarrow> book_cmd \<Rightarrow> 'm \<Rightarrow> level_change option \<times> 'm" where
  "exec ops (ApplyLevel side p q) m =
     (case bo_apply_level ops m side p q of (c, m') \<Rightarrow> (Some c, m'))"
| "exec ops (ApplyUpdates us) m = (None, bo_apply_updates ops m us)"
| "exec ops (ReplaceAll bids asks) m = (None, bo_replace_all ops m bids asks)"
| "exec ops Clear m = (None, bo_clear ops m)"
| "exec ops (ClearSide side) m = (None, bo_clear_side ops m side)"

fun exec_all :: "'m book_ops \<Rightarrow> book_cmd list \<Rightarrow> 'm \<Rightarrow> level_change option list \<times> 'm" where
  "exec_all ops [] m = ([], m)"
| "exec_all ops (c # cs) m =
     (case exec ops c m of (r, m1) \<Rightarrow> case exec_all ops cs m1 of (rs, m2) \<Rightarrow> (r # rs, m2))"

fun spec_exec :: "book_cmd \<Rightarrow> book_abs \<Rightarrow> level_change option \<times> book_abs" where
  "spec_exec (ApplyLevel side p q) B = (Some (spec_change side p q B), spec_apply side p q B)"
| "spec_exec (ApplyUpdates us) B = (None, spec_updates us B)"
| "spec_exec (ReplaceAll bids asks) B = (None, spec_replace bids asks)"
| "spec_exec Clear B = (None, \<lambda>_. Map.empty)"
| "spec_exec (ClearSide side) B = (None, B(side := Map.empty))"

fun spec_exec_all :: "book_cmd list \<Rightarrow> book_abs \<Rightarrow> level_change option list \<times> book_abs" where
  "spec_exec_all [] B = ([], B)"
| "spec_exec_all (c # cs) B =
     (case spec_exec c B of (r, B1) \<Rightarrow> case spec_exec_all cs B1 of (rs, B2) \<Rightarrow> (r # rs, B2))"

text \<open>Everything the const member functions can tell about a book.\<close>

record book_view =
  v_numeric_spec :: numeric_spec
  v_empty :: bool
  v_side_empty :: "book_side \<Rightarrow> bool"
  v_level_count :: "book_side \<Rightarrow> nat"
  v_best_bid :: "book_level option"
  v_best_ask :: "book_level option"
  v_quantity_at :: "book_side \<Rightarrow> price_units \<Rightarrow> quantity_units option"
  v_top_levels :: "book_side \<Rightarrow> nat \<Rightarrow> book_level list"
  v_all_levels :: "book_side \<Rightarrow> book_level list"

definition view :: "'m book_ops \<Rightarrow> 'm \<Rightarrow> book_view" where
  "view ops m = \<lparr>v_numeric_spec = bo_numeric_spec ops m, v_empty = bo_empty ops m,
     v_side_empty = bo_side_empty ops m, v_level_count = bo_level_count ops m,
     v_best_bid = bo_best_bid ops m, v_best_ask = bo_best_ask ops m,
     v_quantity_at = bo_quantity_at ops m, v_top_levels = bo_top_levels ops m,
     v_all_levels = bo_all_levels ops m\<rparr>"

definition first_level :: "book_level list \<Rightarrow> book_level option" where
  "first_level ls = (case ls of [] \<Rightarrow> None | l # _ \<Rightarrow> Some l)"

definition spec_view :: "numeric_spec \<Rightarrow> book_abs \<Rightarrow> book_view" where
  "spec_view spec B = \<lparr>v_numeric_spec = spec, v_empty = (B = (\<lambda>_. Map.empty)),
     v_side_empty = (\<lambda>side. B side = Map.empty), v_level_count = (\<lambda>side. card (dom (B side))),
     v_best_bid = first_level (spec_levels Bid (B Bid)),
     v_best_ask = first_level (spec_levels Ask (B Ask)),
     v_quantity_at = B, v_top_levels = (\<lambda>side n. take n (spec_levels side (B side))),
     v_all_levels = (\<lambda>side. spec_levels side (B side))\<rparr>"

subsection \<open>The abstract operations\<close>

lemma spec_apply_lookup:
  "spec_apply side p q B side' p' = (if side' = side \<and> p' = p then level_value q else B side' p')"
  by (simp add: spec_apply_def)

lemma spec_updates_simps [simp]:
  "spec_updates [] B = B"
  "spec_updates (u # us) B = spec_updates us (spec_apply (upd_side u) (upd_price u) (upd_quantity u) B)"
  "spec_updates (us @ vs) B = spec_updates vs (spec_updates us B)"
  by (simp_all add: spec_updates_def)

text \<open>The updates that name a level; the last of them decides it.\<close>

definition updates_at :: "book_side \<Rightarrow> price_units \<Rightarrow> level_update list \<Rightarrow> level_update list" where
  "updates_at side p us = filter (\<lambda>u. upd_side u = side \<and> upd_price u = p) us"

lemma spec_updates_lookup:
  "spec_updates us B side p =
     (if updates_at side p us = [] then B side p
      else level_value (upd_quantity (last (updates_at side p us))))"
  by (induction us rule: rev_induct) (auto simp: updates_at_def spec_apply_lookup)

lemma spec_updates_permute:
  assumes "\<And>side p. last (updates_at side p us) = last (updates_at side p vs)"
    and "\<And>side p. updates_at side p us = [] \<longleftrightarrow> updates_at side p vs = []"
  shows "spec_updates us B = spec_updates vs B"
  by (simp add: fun_eq_iff spec_updates_lookup assms)

text \<open>Replacing everything is clearing and then applying the levels as updates.\<close>

definition levels_as_updates :: "book_side \<Rightarrow> book_level list \<Rightarrow> level_update list" where
  "levels_as_updates side ls = map (\<lambda>l. LevelUpdate side (lvl_price l) (lvl_quantity l)) ls"

lemma spec_updates_side:
  "spec_updates (levels_as_updates side ls) B =
     B(side := fold (\<lambda>l m. m(lvl_price l := level_value (lvl_quantity l))) ls (B side))"
  by (induction ls arbitrary: B) (simp_all add: levels_as_updates_def spec_apply_def)

lemma spec_replace_updates:
  "spec_replace bids asks =
     spec_updates (levels_as_updates Bid bids @ levels_as_updates Ask asks) (\<lambda>_. Map.empty)"
  by (simp add: fun_eq_iff spec_replace_def side_of_levels_def spec_updates_side split: book_side.split)

lemma spec_exec_finite:
  assumes "\<And>side. finite (dom (B side))"
  shows "finite (dom (snd (spec_exec c B) side))"
proof -
  have apply_fin: "finite (dom (spec_apply side p q B side'))"
    if "\<And>side. finite (dom (B side))" for side side' p q B
    using that by (auto simp: spec_apply_def)
  have "finite (dom (spec_updates us B side'))" if "\<And>side. finite (dom (B side))" for us side' B
    using that by (induction us arbitrary: B) (simp_all add: apply_fin)
  with assms apply_fin show ?thesis
    by (cases c) (simp_all add: spec_replace_updates del: spec_updates_simps(3))
qed

text \<open>No level of zero quantity is ever stored.\<close>

definition no_zero :: "book_abs \<Rightarrow> bool" where
  "no_zero B \<longleftrightarrow> (\<forall>side p q. B side p = Some q \<longrightarrow> 0 < quantity_value q)"

lemma level_value_pos: "level_value q = Some q' \<Longrightarrow> 0 < quantity_value q'"
  by (auto simp: level_value_def quantity_pos_iff split: if_splits)

lemma no_zero_apply: "no_zero B \<Longrightarrow> no_zero (spec_apply side p q B)"
  by (auto simp: no_zero_def spec_apply_lookup level_value_pos split: if_splits)

lemma no_zero_updates: "no_zero B \<Longrightarrow> no_zero (spec_updates us B)"
  by (induction us arbitrary: B) (simp_all add: no_zero_apply)

lemma no_zero_empty: "no_zero (\<lambda>_. Map.empty)"
  by (simp add: no_zero_def)

lemma no_zero_exec: "no_zero B \<Longrightarrow> no_zero (snd (spec_exec c B))"
proof -
  assume B: "no_zero B"
  have "no_zero (B(side := Map.empty))" for side
    using B by (simp add: no_zero_def)
  with B show ?thesis
    by (cases c)
      (simp_all add: no_zero_apply no_zero_updates no_zero_empty spec_replace_updates
        del: spec_updates_simps(3))
qed

subsection \<open>Best-first enumeration\<close>

lemma best_first_sorted: "finite ps \<Longrightarrow> sorted_wrt (side_lt side) (best_first side ps)"
  by (cases side) (simp_all add: best_first_def sorted_wrt_rev)

lemma best_first_set: "finite ps \<Longrightarrow> set (best_first side ps) = ps"
  by (cases side) (simp_all add: best_first_def)

lemma level_entry_level_of [simp]: "level_entry (level_of e) = e"
  by simp

text \<open>A best-first list with the right contents is the enumeration.\<close>

lemma spec_levels_unique:
  assumes "sorted_wrt (side_lt side) (map lvl_price ls)" and "map_of (map level_entry ls) = m"
  shows "spec_levels side m = ls"
proof -
  have dom: "dom m = set (map lvl_price ls)"
    unfolding assms(2)[symmetric] dom_map_of_conv_image_fst by (simp add: image_image)
  have "best_first side (dom m) = map lvl_price ls"
    using assms(1) best_first_sorted[of "dom m" side] best_first_set[of "dom m" side]
    by (intro side_order.sorted_wrt_set_unique) (simp_all add: dom)
  moreover have "BookLevel (lvl_price l) (the (m (lvl_price l))) = l" if "l \<in> set ls" for l
  proof -
    have "distinct (map lvl_price ls)" using assms(1) by (rule side_order.sorted_wrt_distinct)
    then have "m (lvl_price l) = Some (lvl_quantity l)"
      unfolding assms(2)[symmetric] using that by (intro map_of_is_SomeI) (auto simp: comp_def)
    then show ?thesis by simp
  qed
  ultimately show ?thesis by (simp add: spec_levels_def map_idI)
qed

lemma spec_levels_props:
  assumes "finite (dom m)"
  shows "sorted_wrt (side_lt side) (map lvl_price (spec_levels side m))"
    and "map_of (map level_entry (spec_levels side m)) = m"
    and "length (spec_levels side m) = card (dom m)"
    and "spec_levels side m = [] \<longleftrightarrow> m = Map.empty"
proof -
  have prices: "map lvl_price (spec_levels side m) = best_first side (dom m)"
    by (simp add: spec_levels_def comp_def)
  show sorted: "sorted_wrt (side_lt side) (map lvl_price (spec_levels side m))"
    unfolding prices using assms by (rule best_first_sorted)
  have "map level_entry (spec_levels side m) = map (\<lambda>p. (p, the (m p))) (best_first side (dom m))"
    by (simp add: spec_levels_def comp_def)
  then show "map_of (map level_entry (spec_levels side m)) = m"
    by (auto simp: fun_eq_iff map_of_map_keys best_first_set[OF assms] restrict_map_def)
  have "length (spec_levels side m) = card (set (best_first side (dom m)))"
    using side_order.sorted_wrt_distinct[OF sorted] prices by (metis distinct_card length_map)
  then show len: "length (spec_levels side m) = card (dom m)"
    by (simp add: best_first_set[OF assms])
  show "spec_levels side m = [] \<longleftrightarrow> m = Map.empty"
    using len assms by (metis card_eq_0_iff dom_eq_empty_conv length_0_conv)
qed

text \<open>The first of the levels is the best price on its side, with the quantity stored there.\<close>

lemma first_level_best:
  assumes "finite (dom m)" and "first_level (spec_levels side m) = Some l"
  shows "m (lvl_price l) = Some (lvl_quantity l)"
    and "m p = Some q \<Longrightarrow> p = lvl_price l \<or> side_lt side (lvl_price l) p"
proof -
  from assms(2) obtain ls where ls: "spec_levels side m = l # ls"
    by (auto simp: first_level_def split: list.splits)
  then show "m (lvl_price l) = Some (lvl_quantity l)"
    by (subst spec_levels_props(2)[OF assms(1), of side, symmetric]) simp
  assume "m p = Some q"
  then have "p \<in> set (best_first side (dom m))" by (auto simp: best_first_set[OF assms(1)])
  then have "p \<in> set (map lvl_price (spec_levels side m))"
    by (simp add: spec_levels_def comp_def)
  with spec_levels_props(1)[OF assms(1), of side] ls
  show "p = lvl_price l \<or> side_lt side (lvl_price l) p" by auto
qed

text \<open>Storing levels of distinct prices keeps exactly those of positive quantity.\<close>

abbreviation positive_level :: "book_level \<Rightarrow> bool" where
  "positive_level l \<equiv> 0 < quantity_value (lvl_quantity l)"

lemma side_of_levels_filter:
  assumes "distinct (map lvl_price ls)"
  shows "side_of_levels ls = map_of (map level_entry (filter positive_level ls))"
proof -
  have "fold (\<lambda>l m. m(lvl_price l := level_value (lvl_quantity l))) ls m p =
      (if p \<in> lvl_price ` set ls then map_of (map level_entry (filter positive_level ls)) p else m p)" for m p
    using assms
  proof (induction ls arbitrary: m)
    case (Cons l ls)
    have "map_of (map level_entry (filter positive_level ls)) (lvl_price l) = None"
      using Cons.prems by (auto simp: map_of_eq_None_iff)
    with Cons show ?case by (auto simp: level_value_def quantity_pos_iff)
  qed simp
  moreover have "map_of (map level_entry (filter positive_level ls)) p = None"
    if "p \<notin> lvl_price ` set ls" for p
    using that by (auto simp: map_of_eq_None_iff)
  ultimately show ?thesis by (auto simp: side_of_levels_def fun_eq_iff)
qed

lemma side_of_levels_distinct:
  assumes "distinct (map lvl_price ls)" and "\<And>l. l \<in> set ls \<Longrightarrow> positive_level l"
  shows "side_of_levels ls = map_of (map level_entry ls)"
  using side_of_levels_filter[OF assms(1)] assms(2) by (simp add: filter_id_conv[THEN iffD2])

lemma spec_levels_side_of_levels:
  assumes "sorted_wrt (side_lt side) (map lvl_price ls)"
  shows "spec_levels side (side_of_levels ls) = filter positive_level ls"
proof (rule spec_levels_unique)
  show "sorted_wrt (side_lt side) (map lvl_price (filter positive_level ls))"
    using assms by (simp add: sorted_wrt_map sorted_wrt_filter)
  show "map_of (map level_entry (filter positive_level ls)) = side_of_levels ls"
    using side_of_levels_filter[OF side_order.sorted_wrt_distinct[OF assms]] by simp
qed

subsection \<open>The contract\<close>

locale book_model =
  fixes ops :: "'m book_ops" and wf :: "'m \<Rightarrow> bool" and abs :: "'m \<Rightarrow> book_abs"
  assumes create: "wf (bo_create ops spec)" "abs (bo_create ops spec) = (\<lambda>_. Map.empty)"
      "bo_numeric_spec ops (bo_create ops spec) = spec"
    and apply_level: "wf m \<Longrightarrow> bo_apply_level ops m side p q = (c, m') \<Longrightarrow>
      wf m' \<and> c = spec_change side p q (abs m) \<and> abs m' = spec_apply side p q (abs m) \<and>
      bo_numeric_spec ops m' = bo_numeric_spec ops m"
    and apply_updates: "wf m \<Longrightarrow> wf (bo_apply_updates ops m us) \<and>
      abs (bo_apply_updates ops m us) = spec_updates us (abs m) \<and>
      bo_numeric_spec ops (bo_apply_updates ops m us) = bo_numeric_spec ops m"
    and replace_all: "wf m \<Longrightarrow> wf (bo_replace_all ops m bids asks) \<and>
      abs (bo_replace_all ops m bids asks) = spec_replace bids asks \<and>
      bo_numeric_spec ops (bo_replace_all ops m bids asks) = bo_numeric_spec ops m"
    and clear: "wf m \<Longrightarrow> wf (bo_clear ops m) \<and> abs (bo_clear ops m) = (\<lambda>_. Map.empty) \<and>
      bo_numeric_spec ops (bo_clear ops m) = bo_numeric_spec ops m"
    and clear_side: "wf m \<Longrightarrow> wf (bo_clear_side ops m side) \<and>
      abs (bo_clear_side ops m side) = (abs m)(side := Map.empty) \<and>
      bo_numeric_spec ops (bo_clear_side ops m side) = bo_numeric_spec ops m"
    and quantity_at: "wf m \<Longrightarrow> bo_quantity_at ops m side p = abs m side p"
    and all_levels_sorted: "wf m \<Longrightarrow> sorted_wrt (side_lt side) (map lvl_price (bo_all_levels ops m side))"
    and all_levels_contents: "wf m \<Longrightarrow> map_of (map level_entry (bo_all_levels ops m side)) = abs m side"
    and top_levels: "wf m \<Longrightarrow> bo_top_levels ops m side n = take n (bo_all_levels ops m side)"
    and level_count: "wf m \<Longrightarrow> bo_level_count ops m side = length (bo_all_levels ops m side)"
    and side_empty: "wf m \<Longrightarrow> bo_side_empty ops m side \<longleftrightarrow> bo_all_levels ops m side = []"
    and empty: "wf m \<Longrightarrow> bo_empty ops m \<longleftrightarrow> bo_side_empty ops m Bid \<and> bo_side_empty ops m Ask"
    and best_bid: "wf m \<Longrightarrow> bo_best_bid ops m = first_level (bo_all_levels ops m Bid)"
    and best_ask: "wf m \<Longrightarrow> bo_best_ask ops m = first_level (bo_all_levels ops m Ask)"
begin

lemma abs_finite: "wf m \<Longrightarrow> finite (dom (abs m side))"
  using all_levels_contents[of m side] by (metis finite_dom_map_of)

lemma all_levels_eq: "wf m \<Longrightarrow> bo_all_levels ops m side = spec_levels side (abs m side)"
  using spec_levels_unique[OF all_levels_sorted all_levels_contents] by simp

text \<open>What can be observed is determined by the abstract book.\<close>

lemma view_eq:
  assumes "wf m"
  shows "view ops m = spec_view (bo_numeric_spec ops m) (abs m)"
proof -
  note props = spec_levels_props[OF abs_finite[OF assms]]
  have "bo_empty ops m \<longleftrightarrow> abs m = (\<lambda>_. Map.empty)"
    using assms book_side.exhaust
    by (simp add: empty side_empty all_levels_eq props fun_eq_iff[of "abs m"]) metis
  with assms show ?thesis
    by (simp add: view_def spec_view_def fun_eq_iff quantity_at top_levels level_count side_empty
        best_bid best_ask all_levels_eq props)
qed

text \<open>Each command is simulated by the abstract book.\<close>

lemma exec_refines:
  assumes "wf m" and "exec ops c m = (r, m')"
  shows "wf m' \<and> spec_exec c (abs m) = (r, abs m') \<and> bo_numeric_spec ops m' = bo_numeric_spec ops m"
  using assms
  by (cases c) (auto simp: apply_updates replace_all clear clear_side dest: apply_level split: prod.splits)

lemma exec_all_refines:
  assumes "wf m" and "exec_all ops cs m = (rs, m')"
  shows "wf m' \<and> spec_exec_all cs (abs m) = (rs, abs m') \<and>
    bo_numeric_spec ops m' = bo_numeric_spec ops m"
  using assms
proof (induction cs arbitrary: m rs)
  case (Cons c cs)
  obtain r m1 where c: "exec ops c m = (r, m1)" by fastforce
  obtain rs' m2 where "exec_all ops cs m1 = (rs', m2)" by fastforce
  with c Cons.prems have "rs = r # rs'" and cs: "exec_all ops cs m1 = (rs', m')" by simp_all
  with exec_refines[OF Cons.prems(1) c] Cons.IH[OF _ cs] show ?case by simp
qed simp

text \<open>A fresh book driven by a command sequence shows what the abstract book shows.\<close>

lemma run_refines:
  "(let (rs, m) = exec_all ops cs (bo_create ops spec) in (rs, view ops m)) =
   (let (rs, B) = spec_exec_all cs (\<lambda>_. Map.empty) in (rs, spec_view spec B))"
proof -
  obtain rs m where run: "exec_all ops cs (bo_create ops spec) = (rs, m)" by fastforce
  from exec_all_refines[OF create(1) run] show ?thesis
    unfolding run by (simp add: create view_eq)
qed

text \<open>Copying a book level by level into another one copies it.\<close>

lemma rebuild:
  assumes "wf m" and "wf m0" and "no_zero (abs m)"
  shows "abs (bo_replace_all ops m0 (bo_all_levels ops m Bid) (bo_all_levels ops m Ask)) = abs m"
proof -
  have "side_of_levels (bo_all_levels ops m side) = abs m side" for side
  proof -
    have dist: "distinct (map lvl_price (bo_all_levels ops m side))"
      using all_levels_sorted[OF assms(1)] by (rule side_order.sorted_wrt_distinct)
    have "abs m side (lvl_price l) = Some (lvl_quantity l)" if "l \<in> set (bo_all_levels ops m side)" for l
      using dist that unfolding all_levels_contents[OF assms(1), symmetric]
      by (intro map_of_is_SomeI) (auto simp: comp_def)
    with dist assms(3) show ?thesis
      unfolding all_levels_contents[OF assms(1), of side, symmetric]
      by (intro side_of_levels_distinct) (auto simp: no_zero_def all_levels_contents[OF assms(1)])
  qed
  then show ?thesis
    using replace_all[OF assms(2)] by (simp add: spec_replace_def fun_eq_iff split: book_side.split)
qed

lemma run_no_zero:
  assumes "exec_all ops cs (bo_create ops spec) = (rs, m)"
  shows "wf m \<and> no_zero (abs m)"
proof -
  have "no_zero (snd (spec_exec_all cs B))" if "no_zero B" for B
    using that
  proof (induction cs arbitrary: B)
    case (Cons c cs)
    from Cons.IH[OF no_zero_exec[OF Cons.prems, of c]] show ?case
      by (simp add: case_prod_beta)
  qed simp
  from this[OF no_zero_empty] exec_all_refines[OF create(1) assms] show ?thesis
    by (simp add: create)
qed

end

subsection \<open>Simulation\<close>

text \<open>
  A table whose operations commute with a representation function into a model of the contract is a
  model of the contract.
\<close>

locale book_simulation = base: book_model ops wf abs
  for ops :: "'m book_ops" and wf :: "'m \<Rightarrow> bool" and abs :: "'m \<Rightarrow> book_abs" +
  fixes ops' :: "'n book_ops" and rep :: "'n \<Rightarrow> 'm"
  assumes sim_create: "rep (bo_create ops' spec) = bo_create ops spec"
    and sim_apply_level: "wf (rep n) \<Longrightarrow> bo_apply_level ops' n side p q = (c, n') \<Longrightarrow>
      bo_apply_level ops (rep n) side p q = (c, rep n')"
    and sim_apply_updates: "wf (rep n) \<Longrightarrow>
      rep (bo_apply_updates ops' n us) = bo_apply_updates ops (rep n) us"
    and sim_replace_all: "wf (rep n) \<Longrightarrow>
      rep (bo_replace_all ops' n bids asks) = bo_replace_all ops (rep n) bids asks"
    and sim_clear: "rep (bo_clear ops' n) = bo_clear ops (rep n)"
    and sim_clear_side: "rep (bo_clear_side ops' n side) = bo_clear_side ops (rep n) side"
    and sim_view: "wf (rep n) \<Longrightarrow> view ops' n = view ops (rep n)"
begin

lemma sim_observers:
  assumes "wf (rep n)"
  shows "bo_numeric_spec ops' n = bo_numeric_spec ops (rep n)" "bo_empty ops' n = bo_empty ops (rep n)"
    "bo_side_empty ops' n = bo_side_empty ops (rep n)" "bo_level_count ops' n = bo_level_count ops (rep n)"
    "bo_best_bid ops' n = bo_best_bid ops (rep n)" "bo_best_ask ops' n = bo_best_ask ops (rep n)"
    "bo_quantity_at ops' n = bo_quantity_at ops (rep n)" "bo_top_levels ops' n = bo_top_levels ops (rep n)"
    "bo_all_levels ops' n = bo_all_levels ops (rep n)"
  using sim_view[OF assms] by (simp_all add: view_def)

end

sublocale book_simulation \<subseteq> sim: book_model ops' "\<lambda>n. wf (rep n)" "\<lambda>n. abs (rep n)"
proof unfold_locales
  fix n n' :: 'n and side p q c
  assume wf: "wf (rep n)" and step: "bo_apply_level ops' n side p q = (c, n')"
  show "wf (rep n') \<and> c = spec_change side p q (abs (rep n)) \<and>
      abs (rep n') = spec_apply side p q (abs (rep n)) \<and> bo_numeric_spec ops' n' = bo_numeric_spec ops' n"
    using base.apply_level[OF wf sim_apply_level[OF wf step]] wf by (simp add: sim_observers)
qed (simp_all add: sim_create sim_apply_updates sim_replace_all sim_clear sim_clear_side sim_observers
      base.create base.apply_updates base.replace_all base.clear base.clear_side base.quantity_at
      base.all_levels_sorted base.all_levels_contents base.top_levels base.level_count base.side_empty
      base.empty base.best_bid base.best_ask)

end
