(* ===== verification/Order_Book.thy ===== *)
theory Order_Book
  imports Book_Model
begin

text \<open>
  The production order book of \<open>src/order_book/order_book.cpp\<close>: two \<open>std::map\<close>s, bids under
  \<open>std::greater<>\<close> and asks under \<open>std::less<>\<close>.  \<open>OrderBook\<close> forwards every call to its \<open>Impl\<close>; the
  definitions here are those of \<open>Impl\<close>, with the state passed and returned.  The book is shown to
  keep the contract \<open>book_model\<close> of \<open>Book_Model\<close>.
\<close>

record order_book =
  ob_spec :: numeric_spec
  ob_bids :: "(price_units, quantity_units) std_map"
  ob_asks :: "(price_units, quantity_units) std_map"

subsection \<open>Observers\<close>

definition OrderBook_create :: "numeric_spec \<Rightarrow> order_book" where
  "OrderBook_create spec = \<lparr>ob_spec = spec, ob_bids = [], ob_asks = []\<rparr>"

definition OrderBook_numeric_spec :: "order_book \<Rightarrow> numeric_spec" where
  "OrderBook_numeric_spec b = ob_spec b"

definition OrderBook_empty :: "order_book \<Rightarrow> bool" where
  "OrderBook_empty b \<longleftrightarrow> ob_bids b = [] \<and> ob_asks b = []"

definition OrderBook_side_empty :: "order_book \<Rightarrow> book_side \<Rightarrow> bool" where
  "OrderBook_side_empty b side \<longleftrightarrow> (if side = Bid then ob_bids b = [] else ob_asks b = [])"

definition OrderBook_level_count :: "order_book \<Rightarrow> book_side \<Rightarrow> nat" where
  "OrderBook_level_count b side = (if side = Bid then length (ob_bids b) else length (ob_asks b))"

definition OrderBook_best_bid :: "order_book \<Rightarrow> book_level option" where
  "OrderBook_best_bid b = (if ob_bids b = [] then None else Some (level_of (hd (ob_bids b))))"

definition OrderBook_best_ask :: "order_book \<Rightarrow> book_level option" where
  "OrderBook_best_ask b = (if ob_asks b = [] then None else Some (level_of (hd (ob_asks b))))"

definition OrderBook_quantity_at ::
  "order_book \<Rightarrow> book_side \<Rightarrow> price_units \<Rightarrow> quantity_units option" where
  "OrderBook_quantity_at b side price =
     (if side = Bid then
        (case map_find (>) price (ob_bids b) of Some q \<Rightarrow> Some q | None \<Rightarrow> None)
      else
        (case map_find (<) price (ob_asks b) of Some q \<Rightarrow> Some q | None \<Rightarrow> None))"

text \<open>The loop of \<open>copy_from_map\<close>, with its \<open>break\<close>.\<close>

fun copy_from_map_loop ::
  "nat \<Rightarrow> (price_units, quantity_units) std_map \<Rightarrow> book_level list \<Rightarrow> book_level list" where
  "copy_from_map_loop limit [] result = result"
| "copy_from_map_loop limit ((price, quantity) # m) result =
     (if length result \<ge> limit then result
      else copy_from_map_loop limit m (result @ [BookLevel price quantity]))"

definition copy_from_map ::
  "(price_units, quantity_units) std_map \<Rightarrow> nat \<Rightarrow> book_level list" where
  "copy_from_map m limit = copy_from_map_loop limit m []"

definition OrderBook_copy_levels :: "order_book \<Rightarrow> book_side \<Rightarrow> nat \<Rightarrow> book_level list" where
  "OrderBook_copy_levels b side limit =
     (if side = Bid then copy_from_map (ob_bids b) limit else copy_from_map (ob_asks b) limit)"

definition OrderBook_top_levels :: "order_book \<Rightarrow> book_side \<Rightarrow> nat \<Rightarrow> book_level list" where
  "OrderBook_top_levels b side limit =
     (if limit = 0 then [] else OrderBook_copy_levels b side limit)"

definition OrderBook_all_levels :: "order_book \<Rightarrow> book_side \<Rightarrow> book_level list" where
  "OrderBook_all_levels b side = OrderBook_copy_levels b side SIZE_MAX"

subsection \<open>Mutators\<close>

definition OrderBook_apply_remove ::
  "order_book \<Rightarrow> book_side \<Rightarrow> price_units \<Rightarrow> level_change \<times> order_book" where
  "OrderBook_apply_remove b side price =
     (if side = Bid then
        (case map_find (>) price (ob_bids b) of
           None \<Rightarrow> (Unchanged, b)
         | Some _ \<Rightarrow> (Removed, b\<lparr>ob_bids := map_erase (>) price (ob_bids b)\<rparr>))
      else
        (case map_find (<) price (ob_asks b) of
           None \<Rightarrow> (Unchanged, b)
         | Some _ \<Rightarrow> (Removed, b\<lparr>ob_asks := map_erase (<) price (ob_asks b)\<rparr>)))"

text \<open>
  \<open>it->second = quantity\<close> writes the value of the entry found, which is what \<open>insert_or_assign\<close>
  does at a key that is present.
\<close>

definition OrderBook_apply_insert_or_update ::
  "order_book \<Rightarrow> book_side \<Rightarrow> price_units \<Rightarrow> quantity_units \<Rightarrow> level_change \<times> order_book" where
  "OrderBook_apply_insert_or_update b side price quantity =
     (if side = Bid then
        (case map_find (>) price (ob_bids b) of
           None \<Rightarrow> (Inserted, b\<lparr>ob_bids := map_insert_or_assign (>) price quantity (ob_bids b)\<rparr>)
         | Some old \<Rightarrow>
             if old = quantity then (Unchanged, b)
             else (Updated, b\<lparr>ob_bids := map_insert_or_assign (>) price quantity (ob_bids b)\<rparr>))
      else
        (case map_find (<) price (ob_asks b) of
           None \<Rightarrow> (Inserted, b\<lparr>ob_asks := map_insert_or_assign (<) price quantity (ob_asks b)\<rparr>)
         | Some old \<Rightarrow>
             if old = quantity then (Unchanged, b)
             else (Updated, b\<lparr>ob_asks := map_insert_or_assign (<) price quantity (ob_asks b)\<rparr>)))"

definition OrderBook_apply_level ::
  "order_book \<Rightarrow> book_side \<Rightarrow> price_units \<Rightarrow> quantity_units \<Rightarrow> level_change \<times> order_book" where
  "OrderBook_apply_level b side price quantity =
     (if quantity_value quantity = 0 then OrderBook_apply_remove b side price
      else OrderBook_apply_insert_or_update b side price quantity)"

fun OrderBook_apply_updates :: "order_book \<Rightarrow> level_update list \<Rightarrow> order_book" where
  "OrderBook_apply_updates b [] = b"
| "OrderBook_apply_updates b (u # us) =
     OrderBook_apply_updates
       (snd (OrderBook_apply_level b (upd_side u) (upd_price u) (upd_quantity u))) us"

text \<open>The two loops of \<open>replace_all\<close>, over the map under construction.\<close>

fun replace_loop ::
  "(price_units \<Rightarrow> price_units \<Rightarrow> bool) \<Rightarrow> (price_units, quantity_units) std_map \<Rightarrow>
   book_level list \<Rightarrow> (price_units, quantity_units) std_map" where
  "replace_loop lt m [] = m"
| "replace_loop lt m (level # levels) =
     replace_loop lt
       (if quantity_value (lvl_quantity level) = 0 then map_erase lt (lvl_price level) m
        else map_insert_or_assign lt (lvl_price level) (lvl_quantity level) m) levels"

definition OrderBook_replace_all ::
  "order_book \<Rightarrow> book_level list \<Rightarrow> book_level list \<Rightarrow> order_book" where
  "OrderBook_replace_all b bids asks =
     (let new_bids = replace_loop (>) [] bids;
          new_asks = replace_loop (<) [] asks
      in b\<lparr>ob_bids := new_bids, ob_asks := new_asks\<rparr>)"

definition OrderBook_clear :: "order_book \<Rightarrow> order_book" where
  "OrderBook_clear b = b\<lparr>ob_bids := [], ob_asks := []\<rparr>"

definition OrderBook_clear_side :: "order_book \<Rightarrow> book_side \<Rightarrow> order_book" where
  "OrderBook_clear_side b side = (if side = Bid then b\<lparr>ob_bids := []\<rparr> else b\<lparr>ob_asks := []\<rparr>)"

definition OrderBook_ops :: "order_book book_ops" where
  "OrderBook_ops = \<lparr>bo_create = OrderBook_create, bo_numeric_spec = OrderBook_numeric_spec,
     bo_empty = OrderBook_empty, bo_side_empty = OrderBook_side_empty,
     bo_level_count = OrderBook_level_count, bo_best_bid = OrderBook_best_bid,
     bo_best_ask = OrderBook_best_ask, bo_quantity_at = OrderBook_quantity_at,
     bo_top_levels = OrderBook_top_levels, bo_all_levels = OrderBook_all_levels,
     bo_apply_level = OrderBook_apply_level, bo_apply_updates = OrderBook_apply_updates,
     bo_replace_all = OrderBook_replace_all, bo_clear = OrderBook_clear,
     bo_clear_side = OrderBook_clear_side\<rparr>"

subsection \<open>One side at a time\<close>

text \<open>
  The code spells out both sides of every operation.  The lemmas below fold the two spellings into
  one, over the map of the side the operation names.
\<close>

definition side_of :: "order_book \<Rightarrow> book_side \<Rightarrow> (price_units, quantity_units) std_map" where
  "side_of b side = (case side of Bid \<Rightarrow> ob_bids b | Ask \<Rightarrow> ob_asks b)"

definition set_side ::
  "order_book \<Rightarrow> book_side \<Rightarrow> (price_units, quantity_units) std_map \<Rightarrow> order_book" where
  "set_side b side m = (case side of Bid \<Rightarrow> b\<lparr>ob_bids := m\<rparr> | Ask \<Rightarrow> b\<lparr>ob_asks := m\<rparr>)"

lemma side_of_set_side [simp]:
  "side_of (set_side b side m) side' = (if side' = side then m else side_of b side')"
  by (cases side; cases side') (simp_all add: side_of_def set_side_def)

lemma ob_spec_set_side [simp]: "ob_spec (set_side b side m) = ob_spec b"
  by (cases side) (simp_all add: set_side_def)

definition book_wf :: "order_book \<Rightarrow> bool" where
  "book_wf b \<longleftrightarrow> (\<forall>side. map_inv (side_lt side) (side_of b side))"

definition book_abs :: "order_book \<Rightarrow> book_abs" where
  "book_abs b side = map_of (side_of b side)"

text \<open>The abstract contents determine the representation: it is canonical.\<close>

lemma order_book_eqI:
  assumes "book_wf b" "book_wf b'" and "book_abs b = book_abs b'" and "ob_spec b = ob_spec b'"
  shows "b = b'"
proof -
  have "side_of b side = side_of b' side" for side
  proof -
    have inv: "map_inv (side_lt side) (side_of b side)"
      and inv': "sorted_wrt (side_lt side) (map fst (side_of b' side))"
      using assms(1,2) by (auto simp: book_wf_def map_inv_def)
    have "map_of (side_of b' side) = map_of (side_of b side)"
      using fun_cong[OF assms(3), of side] by (simp add: book_abs_def)
    also note side_map.contents_eq[OF inv, symmetric]
    finally show ?thesis by (rule side_map.entries_determined[OF inv inv'])
  qed
  from this[of Bid] this[of Ask] assms(4) show ?thesis by (simp add: side_of_def)
qed

lemma apply_level_side:
  "OrderBook_apply_level b side p q =
     (let m = side_of b side in
      if quantity_value q = 0 then
        (case map_find (side_lt side) p m of
           None \<Rightarrow> (Unchanged, b)
         | Some _ \<Rightarrow> (Removed, set_side b side (map_erase (side_lt side) p m)))
      else
        (case map_find (side_lt side) p m of
           None \<Rightarrow> (Inserted, set_side b side (map_insert_or_assign (side_lt side) p q m))
         | Some old \<Rightarrow>
             if old = q then (Unchanged, b)
             else (Updated, set_side b side (map_insert_or_assign (side_lt side) p q m))))"
  by (cases side)
    (simp_all add: OrderBook_apply_level_def OrderBook_apply_remove_def
      OrderBook_apply_insert_or_update_def side_of_def set_side_def Let_def split: option.split)

lemma copy_from_map_loop_eq:
  "copy_from_map_loop limit m result =
     result @ take (limit - length result) (map level_of m)"
proof (induction limit m result rule: copy_from_map_loop.induct)
  case (2 limit price quantity m result)
  show ?case
  proof (cases "length result \<ge> limit")
    case False
    then have "limit - length result = Suc (limit - Suc (length result))" by linarith
    with 2 False show ?thesis by simp
  qed simp
qed simp

lemma copy_from_map_eq [simp]: "copy_from_map m limit = take limit (map level_of m)"
  by (simp add: copy_from_map_def copy_from_map_loop_eq)

lemma replace_loop_props:
  assumes "map_inv (side_lt side) m"
  shows "map_inv (side_lt side) (replace_loop (side_lt side) m ls)"
    and "map_of (replace_loop (side_lt side) m ls) =
      fold (\<lambda>l m. m(lvl_price l := level_value (lvl_quantity l))) ls (map_of m)"
  using assms
  by (induction ls arbitrary: m)
    (simp_all add: side_order.map_inv_insert side_order.map_inv_erase side_order.map_of_map_insert
      side_order.map_of_map_erase level_value_def)

subsection \<open>The book keeps the contract\<close>

lemma book_wf_side: "book_wf b \<Longrightarrow> map_inv (side_lt side) (side_of b side)"
  by (simp add: book_wf_def)

lemma book_length: "book_wf b \<Longrightarrow> length (side_of b side) \<le> SIZE_MAX"
proof -
  assume "book_wf b"
  then have "distinct (map fst (side_of b side))"
    using side_map.entries_distinct book_wf_side by blast
  from distinct_prices_length[OF this] show ?thesis by simp
qed

lemma all_levels_side: "book_wf b \<Longrightarrow> OrderBook_all_levels b side = map level_of (side_of b side)"
  using book_length[of b side]
  by (cases side) (simp_all add: OrderBook_all_levels_def OrderBook_copy_levels_def side_of_def)

lemma top_levels_side: "OrderBook_top_levels b side n = take n (map level_of (side_of b side))"
  by (cases side) (simp_all add: OrderBook_top_levels_def OrderBook_copy_levels_def side_of_def)

lemma book_apply_level:
  assumes "book_wf b" and "OrderBook_apply_level b side p q = (c, b')"
  shows "book_wf b' \<and> c = spec_change side p q (book_abs b) \<and>
    book_abs b' = spec_apply side p q (book_abs b) \<and> ob_spec b' = ob_spec b"
proof -
  have inv: "map_inv (side_lt side) (side_of b side)" using assms(1) by (rule book_wf_side)
  note upd = side_order.map_inv_insert[OF inv] side_order.map_inv_erase[OF inv]
    side_order.map_of_map_insert[OF inv] side_order.map_of_map_erase[OF inv]
  have keep: "book_wf (set_side b side m)" if "map_inv (side_lt side) m" for m
    using assms(1) that by (simp add: book_wf_def)
  have abs: "book_abs (set_side b side m) = (book_abs b)(side := map_of m)" for m
    by (auto simp: book_abs_def fun_eq_iff)
  show ?thesis
    using assms upd
    unfolding apply_level_side Let_def side_order.map_find_map_of[OF inv]
    by (auto simp: keep abs spec_change_def spec_apply_def level_value_def book_abs_def fun_eq_iff
        split: if_splits option.splits)
qed

lemma book_apply_updates:
  "book_wf b \<Longrightarrow> book_wf (OrderBook_apply_updates b us) \<and>
    book_abs (OrderBook_apply_updates b us) = spec_updates us (book_abs b) \<and>
    ob_spec (OrderBook_apply_updates b us) = ob_spec b"
proof (induction us arbitrary: b)
  case (Cons u us)
  obtain c b1 where "OrderBook_apply_level b (upd_side u) (upd_price u) (upd_quantity u) = (c, b1)"
    by fastforce
  with book_apply_level[OF Cons.prems this] Cons.IH[of b1] show ?case by simp
qed simp

lemma book_replace_all:
  "book_wf (OrderBook_replace_all b bids asks) \<and>
    book_abs (OrderBook_replace_all b bids asks) = spec_replace bids asks \<and>
    ob_spec (OrderBook_replace_all b bids asks) = ob_spec b"
proof -
  have inv: "map_inv lt []" for lt :: "price_units \<Rightarrow> price_units \<Rightarrow> bool"
    by (simp add: map_inv_def)
  have "side_of (OrderBook_replace_all b bids asks) side =
      replace_loop (side_lt side) [] (case side of Bid \<Rightarrow> bids | Ask \<Rightarrow> asks)" for side
    by (cases side) (simp_all add: side_of_def OrderBook_replace_all_def)
  then show ?thesis
    using replace_loop_props[OF inv]
    by (auto simp: book_wf_def book_abs_def fun_eq_iff spec_replace_def side_of_levels_def
        OrderBook_replace_all_def split: book_side.split)
qed

lemma book_create: "book_wf (OrderBook_create spec)" "book_abs (OrderBook_create spec) = (\<lambda>_. Map.empty)"
  by (simp_all add: OrderBook_create_def book_wf_def book_abs_def side_of_def map_inv_def fun_eq_iff
      split: book_side.split)

lemma book_clear:
  "book_wf (OrderBook_clear b)" "book_abs (OrderBook_clear b) = (\<lambda>_. Map.empty)"
  by (simp_all add: OrderBook_clear_def book_wf_def book_abs_def side_of_def map_inv_def fun_eq_iff
      split: book_side.split)

lemma book_clear_side:
  "book_wf b \<Longrightarrow> book_wf (OrderBook_clear_side b side)"
  "book_abs (OrderBook_clear_side b side) = (book_abs b)(side := Map.empty)"
proof -
  have eq: "OrderBook_clear_side b side = set_side b side []"
    by (cases side) (simp_all add: OrderBook_clear_side_def set_side_def)
  show "book_wf b \<Longrightarrow> book_wf (OrderBook_clear_side b side)"
    by (simp add: eq book_wf_def map_inv_def)
  show "book_abs (OrderBook_clear_side b side) = (book_abs b)(side := Map.empty)"
    by (simp add: eq book_abs_def fun_eq_iff)
qed

lemma book_quantity_at: "book_wf b \<Longrightarrow> OrderBook_quantity_at b side p = book_abs b side p"
  using side_order.map_find_map_of[OF book_wf_side, of b side p]
  by (cases side) (auto simp: OrderBook_quantity_at_def book_abs_def side_of_def split: option.split)

lemma book_counts:
  "OrderBook_level_count b side = length (side_of b side)"
  "OrderBook_side_empty b side \<longleftrightarrow> side_of b side = []"
  "OrderBook_empty b \<longleftrightarrow> side_of b Bid = [] \<and> side_of b Ask = []"
  "OrderBook_best_bid b = first_level (map level_of (side_of b Bid))"
  "OrderBook_best_ask b = first_level (map level_of (side_of b Ask))"
  subgoal by (cases side) (simp_all add: OrderBook_level_count_def side_of_def)
  subgoal by (cases side) (simp_all add: OrderBook_side_empty_def side_of_def)
  subgoal by (simp add: OrderBook_empty_def side_of_def)
  subgoal by (cases "ob_bids b") (simp_all add: OrderBook_best_bid_def side_of_def first_level_def)
  subgoal by (cases "ob_asks b") (simp_all add: OrderBook_best_ask_def side_of_def first_level_def)
  done

lemma OrderBook_ops_sel [simp]:
  "bo_create OrderBook_ops = OrderBook_create" "bo_numeric_spec OrderBook_ops = ob_spec"
  "bo_empty OrderBook_ops = OrderBook_empty" "bo_side_empty OrderBook_ops = OrderBook_side_empty"
  "bo_level_count OrderBook_ops = OrderBook_level_count"
  "bo_best_bid OrderBook_ops = OrderBook_best_bid" "bo_best_ask OrderBook_ops = OrderBook_best_ask"
  "bo_quantity_at OrderBook_ops = OrderBook_quantity_at"
  "bo_top_levels OrderBook_ops = OrderBook_top_levels"
  "bo_all_levels OrderBook_ops = OrderBook_all_levels"
  "bo_apply_level OrderBook_ops = OrderBook_apply_level"
  "bo_apply_updates OrderBook_ops = OrderBook_apply_updates"
  "bo_replace_all OrderBook_ops = OrderBook_replace_all" "bo_clear OrderBook_ops = OrderBook_clear"
  "bo_clear_side OrderBook_ops = OrderBook_clear_side"
  by (simp_all add: OrderBook_ops_def OrderBook_numeric_spec_def fun_eq_iff)

lemma ob_spec_simps [simp]:
  "ob_spec (OrderBook_create spec) = spec" "ob_spec (OrderBook_clear b) = ob_spec b"
  "ob_spec (OrderBook_clear_side b side) = ob_spec b"
  by (simp_all add: OrderBook_create_def OrderBook_clear_def OrderBook_clear_side_def)

interpretation ob: book_model OrderBook_ops book_wf book_abs
proof
  fix b side
  assume wf: "book_wf b"
  note side = side_map.entries_sorted[OF book_wf_side[OF wf, of side]]
  show "sorted_wrt (side_lt side) (map lvl_price (bo_all_levels OrderBook_ops b side))"
    using side by (simp add: all_levels_side[OF wf] comp_def)
  show "map_of (map level_entry (bo_all_levels OrderBook_ops b side)) = book_abs b side"
    by (simp add: all_levels_side[OF wf] comp_def book_abs_def)
qed (simp_all add: book_create book_clear book_clear_side book_apply_updates book_replace_all
      book_quantity_at all_levels_side top_levels_side book_counts book_apply_level)

subsection \<open>Properties\<close>

text \<open>The book a fresh \<open>OrderBook\<close> becomes after a sequence of mutating calls.\<close>

definition book_after :: "numeric_spec \<Rightarrow> book_cmd list \<Rightarrow> order_book" where
  "book_after spec cs = snd (exec_all OrderBook_ops cs (OrderBook_create spec))"

lemma book_after_wf: "book_wf (book_after spec cs)"
  and book_after_no_zero: "no_zero (book_abs (book_after spec cs))"
  and book_after_spec: "ob_spec (book_after spec cs) = spec"
proof -
  obtain rs b where run: "exec_all OrderBook_ops cs (OrderBook_create spec) = (rs, b)" by fastforce
  then have run': "exec_all OrderBook_ops cs (bo_create OrderBook_ops spec) = (rs, b)" by simp
  show "book_wf (book_after spec cs)" "no_zero (book_abs (book_after spec cs))"
    "ob_spec (book_after spec cs) = spec"
    using ob.run_no_zero[OF run'] ob.exec_all_refines[OF ob.create(1) run']
    by (simp_all add: book_after_def run)
qed

text \<open>
  C1: the order book refines the abstract book.  After any sequence of calls, the \<open>LevelChange\<close>
  values returned along the way and everything the const member functions report are those of the
  map from side and price to quantity.
\<close>

theorem order_book_refines_spec:
  "(let (rs, b) = exec_all OrderBook_ops cs (OrderBook_create spec) in (rs, view OrderBook_ops b)) =
   (let (rs, B) = spec_exec_all cs (\<lambda>_. Map.empty) in (rs, spec_view spec B))"
  using ob.run_refines[of cs spec] by simp

text \<open>
  C19: class invariant.  After any sequence of calls each side is strictly sorted, bids from the
  highest price and asks from the lowest (so no price occurs twice), every stored quantity is
  positive, and the level count is the number of levels and fits \<open>std::size_t\<close>.
\<close>

theorem order_book_invariant:
  "sorted_wrt (>) (map lvl_price (OrderBook_all_levels (book_after spec cs) Bid)) \<and>
   sorted_wrt (<) (map lvl_price (OrderBook_all_levels (book_after spec cs) Ask)) \<and>
   list_all (\<lambda>l. 0 < quantity_value (lvl_quantity l)) (OrderBook_all_levels (book_after spec cs) side) \<and>
   OrderBook_level_count (book_after spec cs) side =
     length (OrderBook_all_levels (book_after spec cs) side) \<and>
   OrderBook_level_count (book_after spec cs) side < SIZE_MAX"
proof -
  let ?b = "book_after spec cs"
  have wf: "book_wf ?b" by (rule book_after_wf)
  have "0 < quantity_value (lvl_quantity l)" if "l \<in> set (OrderBook_all_levels ?b side)" for l
  proof -
    from that have "(lvl_price l, lvl_quantity l) \<in> set (side_of ?b side)"
      by (auto simp: all_levels_side[OF wf])
    then have "book_abs ?b side (lvl_price l) = Some (lvl_quantity l)"
      using side_map.entries_distinct[OF book_wf_side[OF wf]] by (simp add: book_abs_def)
    then show ?thesis using book_after_no_zero[of spec cs] by (auto simp: no_zero_def)
  qed
  moreover have "length (side_of ?b side) < SIZE_MAX"
    using distinct_prices_length[OF side_map.entries_distinct[OF book_wf_side[OF wf]], of side] by simp
  ultimately show ?thesis
    using ob.all_levels_sorted[OF wf, of Bid] ob.all_levels_sorted[OF wf, of Ask]
    by (simp add: list_all_iff book_counts all_levels_side[OF wf])
qed

lemma top_levels_rest:
  assumes wf: "book_wf b" and "l \<in> set (OrderBook_top_levels b side n)"
    and at: "OrderBook_quantity_at b side p = Some q"
  shows "BookLevel p q \<in> set (OrderBook_top_levels b side n) \<or> side_lt side (lvl_price l) p"
proof -
  let ?ls = "map level_of (side_of b side)"
  have "(p, q) \<in> set (side_of b side)"
    using at unfolding book_quantity_at[OF wf] by (simp add: book_abs_def map_of_SomeD)
  then have "BookLevel p q \<in> set (take n ?ls @ drop n ?ls)"
    by (simp del: set_append) force
  then consider "BookLevel p q \<in> set (take n ?ls)" | "BookLevel p q \<in> set (drop n ?ls)"
    unfolding set_append by blast
  then show ?thesis
  proof cases
    case 2
    have "sorted_wrt (side_lt side) (map lvl_price (take n ?ls @ drop n ?ls))"
      using ob.all_levels_sorted[OF wf, of side] all_levels_side[OF wf, of side] by simp
    then have "\<forall>x \<in> set (take n ?ls). \<forall>y \<in> set (drop n ?ls). side_lt side (lvl_price x) (lvl_price y)"
      unfolding map_append sorted_wrt_append set_map by blast
    with assms(2) 2 have "side_lt side (lvl_price l) (lvl_price (BookLevel p q))"
      unfolding top_levels_side by blast
    then show ?thesis by simp
  qed (simp add: top_levels_side)
qed

text \<open>
  C33: best prices and top levels.  \<open>best_bid\<close> is the highest bid and \<open>best_ask\<close> the lowest ask,
  with the quantity stored there; they are absent only on an empty side.  \<open>top_levels\<close> returns the
  requested number of levels or all there are, and every level it leaves out is worse than every
  level it returns.
\<close>

theorem order_book_best_and_top:
  fixes spec :: numeric_spec and cs :: "book_cmd list"
  defines "b \<equiv> book_after spec cs"
  shows "(OrderBook_best_bid b = None \<longleftrightarrow> OrderBook_side_empty b Bid) \<and>
    (OrderBook_best_ask b = None \<longleftrightarrow> OrderBook_side_empty b Ask) \<and>
    (\<forall>l. OrderBook_best_bid b = Some l \<longrightarrow>
       OrderBook_quantity_at b Bid (lvl_price l) = Some (lvl_quantity l) \<and>
       (\<forall>p q. OrderBook_quantity_at b Bid p = Some q \<longrightarrow> p \<le> lvl_price l)) \<and>
    (\<forall>l. OrderBook_best_ask b = Some l \<longrightarrow>
       OrderBook_quantity_at b Ask (lvl_price l) = Some (lvl_quantity l) \<and>
       (\<forall>p q. OrderBook_quantity_at b Ask p = Some q \<longrightarrow> lvl_price l \<le> p)) \<and>
    length (OrderBook_top_levels b side n) = min n (OrderBook_level_count b side) \<and>
    (\<forall>l \<in> set (OrderBook_top_levels b side n). \<forall>p q.
       OrderBook_quantity_at b side p = Some q \<longrightarrow>
       BookLevel p q \<in> set (OrderBook_top_levels b side n) \<or> side_lt side (lvl_price l) p)"
proof -
  have wf: "book_wf b" unfolding b_def by (rule book_after_wf)
  note fin = ob.abs_finite[OF wf] and at = book_quantity_at[OF wf]
  have best: "OrderBook_best_bid b = first_level (spec_levels Bid (book_abs b Bid))"
    "OrderBook_best_ask b = first_level (spec_levels Ask (book_abs b Ask))"
    using ob.best_bid[OF wf] ob.best_ask[OF wf] ob.all_levels_eq[OF wf] by simp_all
  have none: "OrderBook_best_bid b = None \<longleftrightarrow> OrderBook_side_empty b Bid"
    "OrderBook_best_ask b = None \<longleftrightarrow> OrderBook_side_empty b Ask"
    by (auto simp: book_counts first_level_def split: list.split)
  have bid: "OrderBook_quantity_at b Bid (lvl_price l) = Some (lvl_quantity l) \<and>
      (\<forall>p q. OrderBook_quantity_at b Bid p = Some q \<longrightarrow> p \<le> lvl_price l)"
    if "OrderBook_best_bid b = Some l" for l
    using first_level_best[OF fin[of Bid], of Bid l] that unfolding best at by fastforce
  have ask: "OrderBook_quantity_at b Ask (lvl_price l) = Some (lvl_quantity l) \<and>
      (\<forall>p q. OrderBook_quantity_at b Ask p = Some q \<longrightarrow> lvl_price l \<le> p)"
    if "OrderBook_best_ask b = Some l" for l
    using first_level_best[OF fin[of Ask], of Ask l] that unfolding best at by fastforce
  from none bid ask top_levels_rest[OF wf, of _ side n] show ?thesis
    by (auto simp: top_levels_side book_counts(1))
qed

lemmas book_eval = book_after_def OrderBook_create_def OrderBook_apply_level_def
  OrderBook_apply_remove_def OrderBook_apply_insert_or_update_def OrderBook_best_bid_def
  OrderBook_best_ask_def OrderBook_side_empty_def OrderBook_quantity_at_def OrderBook_clear_def
  OrderBook_replace_all_def numeric_eval

abbreviation example_spec :: numeric_spec where
  "example_spec \<equiv> \<lparr>price_scale = DecimalScale 2, quantity_scale = DecimalScale 3\<rparr>"

abbreviation example_cmds :: "book_cmd list" where
  "example_cmds \<equiv> [ApplyLevel Bid (PriceUnits 5) (QuantityUnits 7),
     ApplyLevel Bid (PriceUnits 9) (QuantityUnits 1), ApplyLevel Ask (PriceUnits 11) (QuantityUnits 4)]"

theorem order_book_best_and_top_witness:
  "OrderBook_best_bid (book_after example_spec example_cmds) = Some (BookLevel (PriceUnits 9) (QuantityUnits 1)) \<and>
   OrderBook_quantity_at (book_after example_spec example_cmds) Bid (PriceUnits 9) = Some (QuantityUnits 1)"
proof -
  have "OrderBook_best_bid (book_after example_spec example_cmds) =
      Some (BookLevel (PriceUnits 9) (QuantityUnits 1))"
    by (simp add: book_eval)
  with order_book_best_and_top[of example_spec example_cmds Bid 1] show ?thesis by auto
qed

text \<open>
  Last write wins.  After \<open>apply_updates\<close>, a level named by the batch holds the quantity of the
  last update that names it, or is gone when that quantity is zero; every other level is as before.
\<close>

lemma apply_updates_last_write_wins:
  "OrderBook_quantity_at (OrderBook_apply_updates (book_after spec cs) us) side p =
     (if updates_at side p us = [] then OrderBook_quantity_at (book_after spec cs) side p
      else level_value (upd_quantity (last (updates_at side p us))))"
  using book_apply_updates[OF book_after_wf, of spec cs us] book_after_wf[of spec cs]
  by (simp add: book_quantity_at spec_updates_lookup)

text \<open>
  What \<open>apply_level\<close> returns.  \<open>Inserted\<close>, \<open>Updated\<close>, \<open>Removed\<close> and \<open>Unchanged\<close> say exactly how
  the level changed, no other level changes, and \<open>Unchanged\<close> is reported exactly when the whole book
  is left as it was.
\<close>

lemma apply_level_reports_change:
  fixes spec :: numeric_spec and cs :: "book_cmd list"
  defines "b \<equiv> book_after spec cs"
  shows "OrderBook_apply_level b side p q = (c, b') \<Longrightarrow>
    OrderBook_quantity_at b' side' p' =
      (if side' = side \<and> p' = p then level_value q else OrderBook_quantity_at b side' p') \<and>
    (c = Inserted \<longleftrightarrow> OrderBook_quantity_at b side p = None \<and> quantity_value q \<noteq> 0) \<and>
    (c = Removed \<longleftrightarrow> OrderBook_quantity_at b side p \<noteq> None \<and> quantity_value q = 0) \<and>
    (c = Updated \<longleftrightarrow> quantity_value q \<noteq> 0 \<and>
       (\<exists>old. OrderBook_quantity_at b side p = Some old \<and> old \<noteq> q)) \<and>
    (c = Unchanged \<longleftrightarrow> b' = b)"
proof -
  assume step: "OrderBook_apply_level b side p q = (c, b')"
  have wf: "book_wf b" and nz: "no_zero (book_abs b)"
    unfolding b_def by (rule book_after_wf, rule book_after_no_zero)
  from book_apply_level[OF wf step] have wf': "book_wf b'" and c: "c = spec_change side p q (book_abs b)"
    and abs: "book_abs b' = spec_apply side p q (book_abs b)" and spec: "ob_spec b' = ob_spec b"
    by auto
  have "c = Unchanged \<longleftrightarrow> level_value q = book_abs b side p"
    unfolding c spec_change_def by (auto split: option.split)
  also have "\<dots> \<longleftrightarrow> book_abs b' = book_abs b"
    unfolding abs by (metis spec_apply_def fun_upd_same fun_upd_triv)
  also have "\<dots> \<longleftrightarrow> b' = b" using order_book_eqI[OF wf' wf _ spec] by auto
  finally have "c = Unchanged \<longleftrightarrow> b' = b" .
  moreover have "OrderBook_quantity_at b' side' p' =
      (if side' = side \<and> p' = p then level_value q else OrderBook_quantity_at b side' p')"
    by (simp add: book_quantity_at wf wf' abs spec_apply_lookup)
  moreover have "c = Inserted \<longleftrightarrow> book_abs b side p = None \<and> quantity_value q \<noteq> 0"
    "c = Removed \<longleftrightarrow> book_abs b side p \<noteq> None \<and> quantity_value q = 0"
    "c = Updated \<longleftrightarrow> quantity_value q \<noteq> 0 \<and> (\<exists>old. book_abs b side p = Some old \<and> old \<noteq> q)"
    unfolding c spec_change_def level_value_def by (auto split: option.split)
  ultimately show ?thesis by (simp add: book_quantity_at[OF wf])
qed

text \<open>
  Replacement is a fresh start.  \<open>replace_all\<close> gives the book that clearing and applying the
  levels one by one would give, whatever was stored before; and two batches whose last updates of
  every level agree give the same book, so batching and reordering of independent updates is safe.
\<close>

lemma replace_all_and_batch_equivalence:
  "OrderBook_replace_all b bids asks =
     OrderBook_apply_updates (OrderBook_clear b) (levels_as_updates Bid bids @ levels_as_updates Ask asks) \<and>
   ((\<forall>side p. updates_at side p us = [] \<longleftrightarrow> updates_at side p vs = []) \<and>
    (\<forall>side p. updates_at side p us \<noteq> [] \<longrightarrow>
       last (updates_at side p us) = last (updates_at side p vs)) \<longrightarrow>
    OrderBook_apply_updates (book_after spec cs) us = OrderBook_apply_updates (book_after spec cs) vs)"
proof (intro conjI impI)
  have wf: "book_wf (OrderBook_clear b)" by (simp add: book_clear)
  show "OrderBook_replace_all b bids asks =
      OrderBook_apply_updates (OrderBook_clear b) (levels_as_updates Bid bids @ levels_as_updates Ask asks)"
    using book_replace_all[of b bids asks] book_apply_updates[OF wf]
    by (intro order_book_eqI) (simp_all only: spec_replace_updates book_clear ob_spec_simps)
  assume same: "(\<forall>side p. updates_at side p us = [] \<longleftrightarrow> updates_at side p vs = []) \<and>
    (\<forall>side p. updates_at side p us \<noteq> [] \<longrightarrow> last (updates_at side p us) = last (updates_at side p vs))"
  then have "spec_updates us B = spec_updates vs B" for B
    by (auto simp: fun_eq_iff spec_updates_lookup)
  then show "OrderBook_apply_updates (book_after spec cs) us = OrderBook_apply_updates (book_after spec cs) vs"
    using book_apply_updates[OF book_after_wf] by (intro order_book_eqI) simp_all
qed

end
