(* ===== verification/Book_Projection.thy ===== *)
theory Book_Projection
  imports Order_Book
begin

text \<open>
  The projection state machine of \<open>src/projection_state/book_projection.cpp\<close>: a book, the id of the
  last update it reflects, a status and the last gap seen.  A baseline is installed, a bridging
  batch synchronizes it, live batches advance it, and a batch that does not connect stops it until
  a new baseline.  \<open>std::optional::value()\<close> throws on an empty optional; the operations that use it
  return an option here, with \<open>None\<close> for that exception, and it is a theorem that they never do.
\<close>

subsection \<open>Identifiers and ranges\<close>

type_synonym update_id = uint64

text \<open>\<open>UpdateRange\<close> has a private constructor and a checked factory.\<close>

typedef update_range = "{r :: update_id \<times> update_id. fst r \<le> snd r}"
  morphisms range_pair Abs_update_range
  by (rule exI[of _ "(0, 0)"]) simp

definition UpdateRange :: "update_id \<Rightarrow> update_id \<Rightarrow> update_range" where
  "UpdateRange first final = Abs_update_range (if first \<le> final then (first, final) else (0, 0))"

definition UpdateRange_try_create :: "update_id \<Rightarrow> update_id \<Rightarrow> update_range option" where
  "UpdateRange_try_create first final = (if first > final then None else Some (UpdateRange first final))"

definition range_first :: "update_range \<Rightarrow> update_id" where
  "range_first r = fst (range_pair r)"

definition range_final :: "update_range \<Rightarrow> update_id" where
  "range_final r = snd (range_pair r)"

lemma range_ordered: "range_first r \<le> range_final r"
  using range_pair[of r] by (simp add: range_first_def range_final_def)

lemma UpdateRange_sel [simp]:
  "f \<le> l \<Longrightarrow> range_first (UpdateRange f l) = f" "f \<le> l \<Longrightarrow> range_final (UpdateRange f l) = l"
  by (simp_all add: UpdateRange_def range_first_def range_final_def Abs_update_range_inverse)

lemma update_range_eq_iff: "r = s \<longleftrightarrow> range_first r = range_first s \<and> range_final r = range_final s"
  by (metis range_first_def range_final_def range_pair_inject prod_eqI)

lemma UpdateRange_range [simp]: "UpdateRange (range_first r) (range_final r) = r"
  by (simp add: update_range_eq_iff range_ordered)

lemma try_create_Some_iff:
  "UpdateRange_try_create f l = Some r \<longleftrightarrow> f = range_first r \<and> l = range_final r"
proof (cases "f \<le> l")
  case True
  then show ?thesis by (auto simp: UpdateRange_try_create_def update_range_eq_iff)
next
  case False
  then show ?thesis using range_ordered[of r] by (auto simp: UpdateRange_try_create_def)
qed

subsection \<open>Policies, statuses, results\<close>

datatype sequence_policy_kind = Spot | UsdMPerpetual

datatype projection_status = AwaitingBaseline | AwaitingBridge | Synchronized | NeedsResync

datatype apply_disposition =
  Applied | IgnoredStale | IgnoredDuplicate | GapDetected | RejectedWrongState

datatype gap_reason =
  SpotBootstrapForwardGap | SpotLiveForwardGap | FuturesBootstrapRangeMiss |
  FuturesMissingPreviousFinal | FuturesPreviousFinalMismatch

record gap_info =
  last_accepted_final :: update_id
  incoming_range :: update_range
  incoming_previous_final :: "update_id option"
  reason :: gap_reason
  gap_policy :: sequence_policy_kind

record depth_batch =
  db_range :: update_range
  db_previous_final :: "update_id option"
  db_levels :: "level_update list"

record book_baseline =
  bb_last_update_id :: update_id
  bb_bids :: "book_level list"
  bb_asks :: "book_level list"

datatype install_disposition = Installed | InstallRejectedWrongState

record install_result =
  ir_disposition :: install_disposition
  ir_status_after :: projection_status
  ir_last_update_id_after :: "update_id option"

record apply_result =
  ar_disposition :: apply_disposition
  ar_status_after :: projection_status
  ar_last_update_id_after :: "update_id option"
  ar_gap :: "gap_info option"

subsection \<open>Sequence classification\<close>

datatype sequence_decision = Apply | Stale | Duplicate | Gap

record classification =
  decision :: sequence_decision
  cl_gap_reason :: "gap_reason option"

definition apply_decision :: classification where
  "apply_decision = \<lparr>decision = Apply, cl_gap_reason = None\<rparr>"

definition stale_decision :: classification where
  "stale_decision = \<lparr>decision = Stale, cl_gap_reason = None\<rparr>"

definition duplicate_decision :: classification where
  "duplicate_decision = \<lparr>decision = Duplicate, cl_gap_reason = None\<rparr>"

definition gap_decision :: "gap_reason \<Rightarrow> classification" where
  "gap_decision r = \<lparr>decision = Gap, cl_gap_reason = Some r\<rparr>"

abbreviation (input) UINT64_MAX :: uint64 where
  "UINT64_MAX \<equiv> 18446744073709551615"

definition covers_successor :: "update_id \<Rightarrow> update_id \<Rightarrow> bool" where
  "covers_successor current first =
     (if first \<le> current then True
      else current \<noteq> UINT64_MAX \<and> first = current + 1)"

definition classify_spot_bootstrap :: "update_id \<Rightarrow> update_range \<Rightarrow> classification" where
  "classify_spot_bootstrap current rng =
     (if range_final rng < current then stale_decision
      else if range_final rng = current then duplicate_decision
      else if covers_successor current (range_first rng) then apply_decision
      else gap_decision SpotBootstrapForwardGap)"

definition classify_spot_live :: "update_id \<Rightarrow> update_range \<Rightarrow> classification" where
  "classify_spot_live current rng =
     (if range_final rng < current then stale_decision
      else if range_final rng = current then duplicate_decision
      else if covers_successor current (range_first rng) then apply_decision
      else gap_decision SpotLiveForwardGap)"

definition classify_usdm_bootstrap ::
  "update_id \<Rightarrow> update_range \<Rightarrow> update_id option \<Rightarrow> classification" where
  "classify_usdm_bootstrap current rng previous_final =
     (if range_final rng < current then stale_decision
      else if range_first rng > current then gap_decision FuturesBootstrapRangeMiss
      else if previous_final = None then gap_decision FuturesMissingPreviousFinal
      else apply_decision)"

definition classify_usdm_live ::
  "update_id \<Rightarrow> update_range \<Rightarrow> update_id option \<Rightarrow> classification" where
  "classify_usdm_live current rng previous_final =
     (if range_final rng < current then stale_decision
      else if range_final rng = current then duplicate_decision
      else case previous_final of
             None \<Rightarrow> gap_decision FuturesMissingPreviousFinal
           | Some previous \<Rightarrow>
               if previous \<noteq> current then gap_decision FuturesPreviousFinalMismatch
               else apply_decision)"

subsection \<open>The projection\<close>

record book_projection =
  bp_numeric_spec :: numeric_spec
  bp_policy :: sequence_policy_kind
  bp_status :: projection_status
  bp_last_update_id :: "update_id option"
  bp_last_gap :: "gap_info option"
  bp_book :: order_book

definition BookProjection_create :: "numeric_spec \<Rightarrow> sequence_policy_kind \<Rightarrow> book_projection" where
  "BookProjection_create spec policy =
     \<lparr>bp_numeric_spec = spec, bp_policy = policy, bp_status = AwaitingBaseline,
      bp_last_update_id = None, bp_last_gap = None, bp_book = OrderBook_create spec\<rparr>"

definition make_install_result :: "book_projection \<Rightarrow> install_disposition \<Rightarrow> install_result" where
  "make_install_result p d = \<lparr>ir_disposition = d, ir_status_after = bp_status p,
     ir_last_update_id_after = bp_last_update_id p\<rparr>"

definition make_apply_result :: "book_projection \<Rightarrow> apply_disposition \<Rightarrow> apply_result" where
  "make_apply_result p d = \<lparr>ar_disposition = d, ar_status_after = bp_status p,
     ar_last_update_id_after = bp_last_update_id p, ar_gap = None\<rparr>"

definition install_baseline ::
  "book_projection \<Rightarrow> book_baseline \<Rightarrow> install_result \<times> book_projection" where
  "install_baseline p baseline =
     (if bp_status p = Synchronized then (make_install_result p InstallRejectedWrongState, p)
      else
        let p1 = p\<lparr>bp_book := OrderBook_replace_all (bp_book p) (bb_bids baseline) (bb_asks baseline)\<rparr>;
            p2 = p1\<lparr>bp_last_update_id := Some (bb_last_update_id baseline)\<rparr>;
            p3 = p2\<lparr>bp_status := AwaitingBridge\<rparr>
        in (make_install_result p3 Installed, p3))"

definition classify :: "book_projection \<Rightarrow> update_id \<Rightarrow> depth_batch \<Rightarrow> classification" where
  "classify p current batch =
     (case bp_policy p of
        Spot \<Rightarrow>
          if bp_status p = AwaitingBridge then classify_spot_bootstrap current (db_range batch)
          else classify_spot_live current (db_range batch)
      | UsdMPerpetual \<Rightarrow>
          if bp_status p = AwaitingBridge
          then classify_usdm_bootstrap current (db_range batch) (db_previous_final batch)
          else classify_usdm_live current (db_range batch) (db_previous_final batch))"

definition apply_transaction :: "book_projection \<Rightarrow> level_update list \<Rightarrow> book_projection" where
  "apply_transaction p levels =
     (let bids = OrderBook_all_levels (bp_book p) Bid;
          asks = OrderBook_all_levels (bp_book p) Ask;
          candidate = OrderBook_create (bp_numeric_spec p);
          candidate = OrderBook_replace_all candidate bids asks;
          candidate = OrderBook_apply_updates candidate levels
      in p\<lparr>bp_book := candidate\<rparr>)"

definition record_gap ::
  "book_projection \<Rightarrow> depth_batch \<Rightarrow> gap_reason \<Rightarrow> (apply_result \<times> book_projection) option" where
  "record_gap p batch r =
     (case bp_last_update_id p of
        None \<Rightarrow> None
      | Some last_id \<Rightarrow>
          let gap = \<lparr>last_accepted_final = last_id, incoming_range = db_range batch,
                     incoming_previous_final = db_previous_final batch, reason = r,
                     gap_policy = bp_policy p\<rparr>;
              p1 = p\<lparr>bp_last_gap := Some gap, bp_status := NeedsResync\<rparr>
          in Some (\<lparr>ar_disposition = GapDetected, ar_status_after = bp_status p1,
                    ar_last_update_id_after = bp_last_update_id p1, ar_gap = Some gap\<rparr>, p1))"

definition apply_batch ::
  "book_projection \<Rightarrow> depth_batch \<Rightarrow> (apply_result \<times> book_projection) option" where
  "apply_batch p batch =
     (if bp_status p = AwaitingBaseline \<or> bp_status p = NeedsResync
      then Some (make_apply_result p RejectedWrongState, p)
      else case bp_last_update_id p of
        None \<Rightarrow> None
      | Some current \<Rightarrow>
          let c = classify p current batch in
          (case decision c of
             Stale \<Rightarrow> Some (make_apply_result p IgnoredStale, p)
           | Duplicate \<Rightarrow> Some (make_apply_result p IgnoredDuplicate, p)
           | Gap \<Rightarrow> (case cl_gap_reason c of None \<Rightarrow> None | Some r \<Rightarrow> record_gap p batch r)
           | Apply \<Rightarrow>
               let p1 = apply_transaction p (db_levels batch);
                   p2 = (if range_final (db_range batch) > current
                         then p1\<lparr>bp_last_update_id := Some (range_final (db_range batch))\<rparr> else p1);
                   p3 = p2\<lparr>bp_status := Synchronized\<rparr>
               in Some (make_apply_result p3 Applied, p3)))"

definition BookProjection_reset :: "book_projection \<Rightarrow> book_projection" where
  "BookProjection_reset p =
     p\<lparr>bp_book := OrderBook_clear (bp_book p), bp_last_update_id := None, bp_last_gap := None,
       bp_status := AwaitingBaseline\<rparr>"

definition synchronized_book :: "book_projection \<Rightarrow> order_book option" where
  "synchronized_book p = (if bp_status p \<noteq> Synchronized then None else Some (bp_book p))"

definition diagnostic_book :: "book_projection \<Rightarrow> order_book" where
  "diagnostic_book p = bp_book p"

subsection \<open>Transactions\<close>

text \<open>
  Rebuilding the book in a candidate and committing it by a move gives the book that applying the
  updates in place would give.
\<close>

lemma apply_transaction_eq:
  assumes "book_wf (bp_book p)" "no_zero (book_abs (bp_book p))"
    and "ob_spec (bp_book p) = bp_numeric_spec p"
  shows "apply_transaction p levels = p\<lparr>bp_book := OrderBook_apply_updates (bp_book p) levels\<rparr>"
proof -
  let ?c = "OrderBook_replace_all (OrderBook_create (bp_numeric_spec p))
      (OrderBook_all_levels (bp_book p) Bid) (OrderBook_all_levels (bp_book p) Ask)"
  have "book_abs ?c = book_abs (bp_book p)"
    using ob.rebuild[OF assms(1) book_create(1) assms(2)] by simp
  then have "?c = bp_book p"
    using book_replace_all assms by (intro order_book_eqI) simp_all
  then show ?thesis by (simp add: apply_transaction_def)
qed

subsection \<open>The classification in terms of numbers\<close>

lemma covers_successor_iff: "covers_successor current first \<longleftrightarrow> unat first \<le> unat current + 1"
proof (cases "first \<le> current")
  case True
  then show ?thesis by (simp add: covers_successor_def word_le_nat_alt)
next
  case False
  then have gt: "unat current < unat first" by (simp add: word_le_nat_alt)
  have "unat first < 2 ^ 64" using unsigned_less[of first] by simp
  then have no_wrap: "unat current + 1 < 2 ^ 64" using gt by linarith
  have "current \<noteq> UINT64_MAX"
  proof
    assume "current = UINT64_MAX"
    then have "unat current = 2 ^ 64 - 1" by simp
    with no_wrap show False by simp
  qed
  moreover have "unat (current + 1) = unat current + 1"
    using no_wrap by (subst unat_plus_simple[THEN iffD1]) (simp_all add: no_olen_add_nat)
  ultimately have "covers_successor current first \<longleftrightarrow> unat first = unat current + 1"
    using False by (simp add: covers_successor_def word_unat_eq_iff)
  with gt show ?thesis by linarith
qed

text \<open>
  When a batch connects: on Spot it starts no later than the successor of the current id and ends
  after it; on USD-M the first batch after a baseline spans the current id and names a previous
  final id, and every later one names the current id as its predecessor and ends after it.
\<close>

definition connects :: "sequence_policy_kind \<Rightarrow> bool \<Rightarrow> update_id \<Rightarrow> depth_batch \<Rightarrow> bool" where
  "connects policy bridging current batch =
     (case policy of
        Spot \<Rightarrow> current < range_final (db_range batch) \<and>
          unat (range_first (db_range batch)) \<le> unat current + 1
      | UsdMPerpetual \<Rightarrow>
          if bridging then range_first (db_range batch) \<le> current \<and>
            current \<le> range_final (db_range batch) \<and> db_previous_final batch \<noteq> None
          else current < range_final (db_range batch) \<and> db_previous_final batch = Some current)"

definition gap_reason_for :: "sequence_policy_kind \<Rightarrow> bool \<Rightarrow> update_id \<Rightarrow> depth_batch \<Rightarrow> gap_reason" where
  "gap_reason_for policy bridging current batch =
     (case policy of
        Spot \<Rightarrow> if bridging then SpotBootstrapForwardGap else SpotLiveForwardGap
      | UsdMPerpetual \<Rightarrow>
          if bridging \<and> range_first (db_range batch) > current then FuturesBootstrapRangeMiss
          else if db_previous_final batch = None then FuturesMissingPreviousFinal
          else FuturesPreviousFinalMismatch)"

lemma classify_eq:
  "classify p current batch =
     (let final = range_final (db_range batch); bridging = (bp_status p = AwaitingBridge) in
      if connects (bp_policy p) bridging current batch then apply_decision
      else if final < current then stale_decision
      else if final = current \<and> \<not> (bp_policy p = UsdMPerpetual \<and> bridging) then duplicate_decision
      else gap_decision (gap_reason_for (bp_policy p) bridging current batch))"
proof -
  have order: "range_final (db_range batch) < current \<or> range_final (db_range batch) = current \<or>
      current < range_final (db_range batch)"
    by (rule less_linear)
  show ?thesis
  proof (cases "bp_policy p")
    case Spot
    with order show ?thesis
      by (auto simp: classify_def classify_spot_bootstrap_def classify_spot_live_def connects_def
          gap_reason_for_def covers_successor_iff Let_def)
  next
    case UsdMPerpetual
    with order show ?thesis
      by (auto simp: classify_def classify_usdm_bootstrap_def classify_usdm_live_def connects_def
          gap_reason_for_def Let_def split: option.split)
  qed
qed

lemmas decision_simps [simp] = apply_decision_def stale_decision_def duplicate_decision_def
  gap_decision_def

subsection \<open>The invariant\<close>

definition projection_inv :: "book_projection \<Rightarrow> bool" where
  "projection_inv p \<longleftrightarrow>
     book_wf (bp_book p) \<and> no_zero (book_abs (bp_book p)) \<and> ob_spec (bp_book p) = bp_numeric_spec p \<and>
     (bp_status p = AwaitingBaseline \<longleftrightarrow> bp_last_update_id p = None) \<and>
     (bp_status p = NeedsResync \<longrightarrow> (\<exists>g. bp_last_gap p = Some g \<and>
        bp_last_update_id p = Some (last_accepted_final g) \<and> gap_policy g = bp_policy p))"

definition gap_of :: "book_projection \<Rightarrow> update_id \<Rightarrow> depth_batch \<Rightarrow> gap_info" where
  "gap_of p current batch = \<lparr>last_accepted_final = current, incoming_range = db_range batch,
     incoming_previous_final = db_previous_final batch,
     reason = gap_reason_for (bp_policy p) (bp_status p = AwaitingBridge) current batch,
     gap_policy = bp_policy p\<rparr>"

text \<open>The whole of \<open>apply\<close>, on a projection that satisfies the invariant.\<close>

lemma apply_batch_eq:
  assumes "projection_inv p"
  shows "apply_batch p batch = Some (
    case bp_last_update_id p of
      None \<Rightarrow> (make_apply_result p RejectedWrongState, p)
    | Some current \<Rightarrow>
        let final = range_final (db_range batch); bridging = (bp_status p = AwaitingBridge);
            applied = p\<lparr>bp_book := OrderBook_apply_updates (bp_book p) (db_levels batch),
              bp_last_update_id := Some final, bp_status := Synchronized\<rparr>;
            gap = gap_of p current batch;
            stopped = p\<lparr>bp_last_gap := Some gap, bp_status := NeedsResync\<rparr> in
        if bp_status p = NeedsResync then (make_apply_result p RejectedWrongState, p)
        else if connects (bp_policy p) bridging current batch then (make_apply_result applied Applied, applied)
        else if final < current then (make_apply_result p IgnoredStale, p)
        else if final = current \<and> \<not> (bp_policy p = UsdMPerpetual \<and> bridging)
          then (make_apply_result p IgnoredDuplicate, p)
        else ((make_apply_result stopped GapDetected)\<lparr>ar_gap := Some gap\<rparr>, stopped))"
proof (cases "bp_last_update_id p")
  case None
  with assms show ?thesis by (simp add: projection_inv_def apply_batch_def)
next
  case (Some current)
  let ?final = "range_final (db_range batch)"
  have status: "bp_status p \<noteq> AwaitingBaseline" using assms Some by (simp add: projection_inv_def)
  have tx: "apply_transaction p levels = p\<lparr>bp_book := OrderBook_apply_updates (bp_book p) levels\<rparr>" for levels
    using assms by (intro apply_transaction_eq) (simp_all add: projection_inv_def)
  have final: "current < ?final \<or> ?final = current"
    if "connects (bp_policy p) (bp_status p = AwaitingBridge) current batch"
    using that by (auto simp: connects_def split: sequence_policy_kind.splits if_splits)
  have same_id: "p\<lparr>bp_book := b, bp_status := st\<rparr> = p\<lparr>bp_book := b, bp_last_update_id := Some current, bp_status := st\<rparr>"
    for b st using Some by (cases p) simp
  show ?thesis
    using Some status final same_id
    by (auto simp: apply_batch_def classify_eq Let_def tx record_gap_def gap_of_def make_apply_result_def)
qed

lemma apply_batch_total:
  assumes "projection_inv p"
  obtains r p' where "apply_batch p batch = Some (r, p')"
proof -
  obtain x where "apply_batch p batch = Some x" using apply_batch_eq[OF assms] by blast
  then show ?thesis using that by (cases x) simp
qed

lemma apply_batch_inv:
  assumes "projection_inv p" and "apply_batch p batch = Some (r, p')"
  shows "projection_inv p'"
proof -
  have wf: "book_wf (bp_book p)" and nz: "no_zero (book_abs (bp_book p))"
    using assms(1) by (simp_all add: projection_inv_def)
  note upd = book_apply_updates[OF wf, of "db_levels batch"] no_zero_updates[OF nz, of "db_levels batch"]
  show ?thesis
    using assms(1) assms(2)[unfolded apply_batch_eq[OF assms(1)]] upd
    by (auto simp: projection_inv_def Let_def gap_of_def split: option.splits if_splits)
qed

lemma install_baseline_inv:
  assumes "projection_inv p" and "install_baseline p b = (r, p')"
  shows "projection_inv p'"
  using assms book_replace_all[of "bp_book p" "bb_bids b" "bb_asks b"]
    no_zero_updates[OF no_zero_empty, of "levels_as_updates Bid (bb_bids b) @ levels_as_updates Ask (bb_asks b)"]
  by (auto simp: install_baseline_def projection_inv_def Let_def spec_replace_updates split: if_splits)

lemma reset_inv: "projection_inv p \<Longrightarrow> projection_inv (BookProjection_reset p)"
  by (auto simp: projection_inv_def BookProjection_reset_def book_clear no_zero_empty)

lemma create_inv: "projection_inv (BookProjection_create spec policy)"
  by (simp add: projection_inv_def BookProjection_create_def book_create no_zero_empty)

subsection \<open>Runs and their histories\<close>

text \<open>
  A run is a sequence of calls on a fresh projection.  Its history is what the book should reflect:
  nothing, or the last baseline installed and the batches applied since.
\<close>

type_synonym history = "(book_baseline \<times> depth_batch list) option"

inductive projection_run ::
  "numeric_spec \<Rightarrow> sequence_policy_kind \<Rightarrow> history \<Rightarrow> book_projection \<Rightarrow> bool"
  for spec policy where
  created: "projection_run spec policy None (BookProjection_create spec policy)"
| installed: "projection_run spec policy h p \<Longrightarrow> install_baseline p b = (r, p') \<Longrightarrow>
    ir_disposition r = Installed \<Longrightarrow> projection_run spec policy (Some (b, [])) p'"
| install_rejected: "projection_run spec policy h p \<Longrightarrow> install_baseline p b = (r, p') \<Longrightarrow>
    ir_disposition r \<noteq> Installed \<Longrightarrow> projection_run spec policy h p'"
| applied: "projection_run spec policy h p \<Longrightarrow> apply_batch p batch = Some (r, p') \<Longrightarrow>
    ar_disposition r = Applied \<Longrightarrow>
    projection_run spec policy (map_option (\<lambda>(b, bs). (b, bs @ [batch])) h) p'"
| not_applied: "projection_run spec policy h p \<Longrightarrow> apply_batch p batch = Some (r, p') \<Longrightarrow>
    ar_disposition r \<noteq> Applied \<Longrightarrow> projection_run spec policy h p'"
| reset: "projection_run spec policy h p \<Longrightarrow> projection_run spec policy None (BookProjection_reset p)"

definition last_final :: "update_id \<Rightarrow> depth_batch list \<Rightarrow> update_id" where
  "last_final base bs = (if bs = [] then base else range_final (db_range (last bs)))"

fun linked :: "sequence_policy_kind \<Rightarrow> bool \<Rightarrow> update_id \<Rightarrow> depth_batch list \<Rightarrow> bool" where
  "linked policy bridging current [] \<longleftrightarrow> True"
| "linked policy bridging current (b # bs) \<longleftrightarrow>
     connects policy bridging current b \<and> linked policy False (range_final (db_range b)) bs"

definition replay :: "book_baseline \<Rightarrow> depth_batch list \<Rightarrow> book_abs" where
  "replay b bs = spec_updates (concat (map db_levels bs)) (spec_replace (bb_bids b) (bb_asks b))"

definition history_inv :: "history \<Rightarrow> book_projection \<Rightarrow> bool" where
  "history_inv h p \<longleftrightarrow> (case h of
     None \<Rightarrow> bp_status p = AwaitingBaseline \<and> book_abs (bp_book p) = (\<lambda>_. Map.empty) \<and> bp_last_gap p = None
   | Some (b, bs) \<Rightarrow>
       bp_last_update_id p = Some (last_final (bb_last_update_id b) bs) \<and>
       book_abs (bp_book p) = replay b bs \<and>
       linked (bp_policy p) True (bb_last_update_id b) bs \<and>
       (bp_status p = AwaitingBridge \<longrightarrow> bs = []) \<and> (bp_status p = Synchronized \<longrightarrow> bs \<noteq> []))"

lemma linked_snoc:
  "linked policy bridging current (bs @ [b]) \<longleftrightarrow>
     linked policy bridging current bs \<and>
     connects policy (bridging \<and> bs = []) (last_final current bs) b"
  by (induction bs arbitrary: bridging current) (auto simp: last_final_def)

lemma projection_run_config:
  "projection_run spec policy h p \<Longrightarrow> bp_numeric_spec p = spec \<and> bp_policy p = policy \<and> projection_inv p"
proof (induction rule: projection_run.induct)
  case created
  then show ?case using create_inv by (simp add: BookProjection_create_def)
next
  case (installed h p b r p')
  then show ?case
    using install_baseline_inv by (auto simp: install_baseline_def Let_def split: if_splits)
next
  case (install_rejected h p b r p')
  then show ?case
    using install_baseline_inv by (auto simp: install_baseline_def Let_def split: if_splits)
next
  case (applied h p batch r p')
  then show ?case
    using apply_batch_inv[of p batch r p'] apply_batch_eq[of p batch]
    by (auto simp: Let_def split: option.splits if_splits)
next
  case (not_applied h p batch r p')
  then show ?case
    using apply_batch_inv[of p batch r p'] apply_batch_eq[of p batch]
    by (auto simp: Let_def split: option.splits if_splits)
next
  case (reset h p)
  then show ?case using reset_inv by (auto simp: BookProjection_reset_def)
qed

lemma applied_iff:
  assumes "projection_inv p" and "apply_batch p batch = Some (r, p')"
  shows "ar_disposition r = Applied \<longleftrightarrow>
    (\<exists>current. bp_last_update_id p = Some current \<and> bp_status p \<noteq> NeedsResync \<and>
       connects (bp_policy p) (bp_status p = AwaitingBridge) current batch)"
  using assms(2)[unfolded apply_batch_eq[OF assms(1)]]
  by (auto simp: Let_def make_apply_result_def split: option.splits if_splits)

lemma apply_batch_applied:
  assumes "projection_inv p" and "apply_batch p batch = Some (r, p')" and "ar_disposition r = Applied"
  shows "p' = p\<lparr>bp_book := OrderBook_apply_updates (bp_book p) (db_levels batch),
    bp_last_update_id := Some (range_final (db_range batch)), bp_status := Synchronized\<rparr>"
  using assms(2,3) unfolding apply_batch_eq[OF assms(1)]
  by (auto simp: Let_def make_apply_result_def split: option.splits if_splits)

lemma apply_batch_not_applied:
  assumes "projection_inv p" and "apply_batch p batch = Some (r, p')" and "ar_disposition r \<noteq> Applied"
  shows "bp_book p' = bp_book p \<and> bp_last_update_id p' = bp_last_update_id p \<and>
    bp_policy p' = bp_policy p \<and>
    (if ar_disposition r = GapDetected then bp_status p' = NeedsResync \<and> bp_last_update_id p \<noteq> None
     else p' = p)"
  using assms(2,3) unfolding apply_batch_eq[OF assms(1)]
  by (auto simp: Let_def make_apply_result_def split: option.splits if_splits)

lemma projection_run_history: "projection_run spec policy h p \<Longrightarrow> history_inv h p"
proof (induction rule: projection_run.induct)
  case created
  then show ?case by (simp add: history_inv_def BookProjection_create_def book_create)
next
  case (installed h p b r p')
  then show ?case
    using book_replace_all[of "bp_book p" "bb_bids b" "bb_asks b"]
    by (auto simp: install_baseline_def make_install_result_def Let_def history_inv_def last_final_def
        replay_def split: if_splits)
next
  case (install_rejected h p b r p')
  then show ?case
    by (auto simp: install_baseline_def make_install_result_def Let_def split: if_splits)
next
  case (applied h p batch r p')
  have inv: "projection_inv p" using projection_run_config[OF applied.hyps(1)] by simp
  note p' = apply_batch_applied[OF inv applied.hyps(2,3)]
  from applied_iff[OF inv applied.hyps(2)] applied.hyps(3) obtain current where
    cur: "bp_last_update_id p = Some current" "bp_status p \<noteq> NeedsResync"
    and con: "connects (bp_policy p) (bp_status p = AwaitingBridge) current batch"
    by auto
  have st: "bp_status p = AwaitingBridge \<or> bp_status p = Synchronized"
    using cur inv by (cases "bp_status p") (auto simp: projection_inv_def)
  then obtain b bs where h: "h = Some (b, bs)" using applied.IH by (cases h) (auto simp: history_inv_def)
  with st applied.IH have "(bp_status p = AwaitingBridge) = (bs = [])" by (auto simp: history_inv_def)
  with con h applied.IH cur have "linked (bp_policy p) True (bb_last_update_id b) (bs @ [batch])"
    by (simp add: history_inv_def linked_snoc)
  moreover have "book_abs (OrderBook_apply_updates (bp_book p) (db_levels batch)) = replay b (bs @ [batch])"
    using inv h applied.IH by (simp add: projection_inv_def history_inv_def replay_def book_apply_updates)
  ultimately show ?case using p' h by (simp add: history_inv_def last_final_def)
next
  case (not_applied h p batch r p')
  have inv: "projection_inv p" using projection_run_config[OF not_applied.hyps(1)] by simp
  show ?case
    using apply_batch_not_applied[OF inv not_applied.hyps(2,3)] not_applied.IH inv
    by (auto simp: history_inv_def projection_inv_def split: option.splits if_splits)
next
  case (reset h p)
  then show ?case by (simp add: history_inv_def BookProjection_reset_def book_clear)
qed

lemma run_synchronized:
  assumes "projection_run spec policy h p" and "bp_status p = Synchronized"
  obtains b bs where "h = Some (b, bs)" "bs \<noteq> []" "book_abs (bp_book p) = replay b bs"
    "bp_last_update_id p = Some (range_final (db_range (last bs)))"
    "linked policy True (bb_last_update_id b) bs"
  using projection_run_history[OF assms(1)] projection_run_config[OF assms(1)] assms(2)
  by (auto simp: history_inv_def last_final_def split: option.splits)

text \<open>On Spot, linked batches leave no id uncovered and end at increasing ids.\<close>

lemma linked_spot_covers:
  assumes "linked Spot bridging current bs" and "current < i" and "i \<le> last_final current bs"
  shows "\<exists>batch \<in> set bs. range_first (db_range batch) \<le> i \<and> i \<le> range_final (db_range batch)"
  using assms
proof (induction bs arbitrary: bridging current)
  case Nil
  then show ?case by (auto simp: last_final_def)
next
  case (Cons b bs)
  let ?final = "range_final (db_range b)"
  show ?case
  proof (cases "i \<le> ?final")
    case True
    have "unat (range_first (db_range b)) \<le> unat i"
      using Cons.prems(1,2) by (simp add: connects_def word_less_nat_alt)
    with True show ?thesis by (auto simp: word_le_nat_alt)
  next
    case False
    with Cons.prems(3) have "bs \<noteq> []" by (auto simp: last_final_def split: if_splits)
    with Cons.prems False show ?thesis
      using Cons.IH[of False ?final] by (auto simp: last_final_def)
  qed
qed

lemma linked_live_nth:
  assumes "linked policy False current bs" and "i < length bs"
  shows "connects policy False (last_final current (take i bs)) (bs ! i)"
  using assms
proof (induction bs arbitrary: current i)
  case (Cons b bs)
  show ?case
  proof (cases i)
    case 0
    with Cons.prems show ?thesis by (simp add: last_final_def)
  next
    case (Suc j)
    have "last_final current (take (Suc j) (b # bs)) = last_final (range_final (db_range b)) (take j bs)"
      by (auto simp: last_final_def)
    with Suc Cons show ?thesis by simp
  qed
qed simp

lemma linked_nth:
  assumes "linked policy bridging current bs" and "Suc i < length bs"
  shows "connects policy False (range_final (db_range (bs ! i))) (bs ! Suc i)"
proof -
  from assms(2) obtain b bs' where bs: "bs = b # bs'" by (cases bs) auto
  with assms have i: "i < length bs'" and link: "linked policy False (range_final (db_range b)) bs'"
    by simp_all
  have "last_final (range_final (db_range b)) (take i bs') = range_final (db_range (bs ! i))"
  proof (cases i)
    case (Suc j)
    with i bs show ?thesis by (simp add: last_final_def take_Suc_conv_app_nth)
  qed (simp add: last_final_def bs)
  with linked_live_nth[OF link i] bs show ?thesis by simp
qed

subsection \<open>An example run\<close>

abbreviation example_baseline :: book_baseline where
  "example_baseline \<equiv> \<lparr>bb_last_update_id = 10,
     bb_bids = [BookLevel (PriceUnits 5) (QuantityUnits 7)],
     bb_asks = [BookLevel (PriceUnits 11) (QuantityUnits 4)]\<rparr>"

abbreviation example_batch :: depth_batch where
  "example_batch \<equiv> \<lparr>db_range = UpdateRange 9 12, db_previous_final = Some 8,
     db_levels = [LevelUpdate Bid (PriceUnits 6) (QuantityUnits 2)]\<rparr>"

lemma example_installed:
  "projection_run example_spec policy (Some (example_baseline, []))
     (snd (install_baseline (BookProjection_create example_spec policy) example_baseline))"
proof -
  obtain r p' where step:
    "install_baseline (BookProjection_create example_spec policy) example_baseline = (r, p')"
    by fastforce
  then have "ir_disposition r = Installed"
    by (auto simp: install_baseline_def BookProjection_create_def Let_def make_install_result_def)
  with projection_run.installed[OF projection_run.created step] step show ?thesis by simp
qed

lemma example_bridge_applied:
  "\<exists>r p'. apply_batch (snd (install_baseline (BookProjection_create example_spec policy) example_baseline))
     example_batch = Some (r, p') \<and> ar_disposition r = Applied"
proof -
  let ?p = "snd (install_baseline (BookProjection_create example_spec policy) example_baseline)"
  have inv: "projection_inv ?p" using projection_run_config[OF example_installed] by simp
  have st: "bp_status ?p = AwaitingBridge" "bp_last_update_id ?p = Some 10" "bp_policy ?p = policy"
    by (simp_all add: install_baseline_def BookProjection_create_def Let_def)
  obtain r p' where step: "apply_batch ?p example_batch = Some (r, p')"
    using apply_batch_total[OF inv] by blast
  have "connects policy True 10 example_batch"
    by (cases policy) (simp_all add: connects_def)
  with applied_iff[OF inv step] st step show ?thesis by auto
qed

lemma example_synchronized:
  "\<exists>p. projection_run example_spec policy (Some (example_baseline, [example_batch])) p \<and>
     bp_status p = Synchronized \<and> bp_last_update_id p = Some 12"
proof -
  obtain r p' where step: "apply_batch (snd (install_baseline (BookProjection_create example_spec policy)
      example_baseline)) example_batch = Some (r, p')" and app: "ar_disposition r = Applied"
    using example_bridge_applied by blast
  have "projection_inv (snd (install_baseline (BookProjection_create example_spec policy) example_baseline))"
    using projection_run_config[OF example_installed] by simp
  from apply_batch_applied[OF this step app] projection_run.applied[OF example_installed step app]
  show ?thesis by (intro exI[of _ p']) simp
qed

subsection \<open>Properties\<close>

text \<open>
  C2: a synchronized book is the replay of its inputs.  Whenever \<open>synchronized_book\<close> hands out a
  book, everything it reports is what the last installed baseline followed by the levels of the
  batches applied since would give, in order and with nothing else; and the projection's
  \<open>last_update_id\<close> is the final id of the last of them.
\<close>

theorem synchronized_book_is_replay:
  assumes "projection_run spec policy h p" and "synchronized_book p = Some b"
  shows "\<exists>baseline bs. h = Some (baseline, bs) \<and> bs \<noteq> [] \<and>
    view OrderBook_ops b = spec_view spec (replay baseline bs) \<and>
    bp_last_update_id p = Some (range_final (db_range (last bs)))"
proof -
  have st: "bp_status p = Synchronized" and b: "b = bp_book p"
    using assms(2) by (auto simp: synchronized_book_def split: if_splits)
  obtain baseline bs where h: "h = Some (baseline, bs)" "bs \<noteq> []"
    "book_abs (bp_book p) = replay baseline bs"
    "bp_last_update_id p = Some (range_final (db_range (last bs)))"
    using run_synchronized[OF assms(1) st] by blast
  have "book_wf (bp_book p)" "ob_spec (bp_book p) = spec"
    using projection_run_config[OF assms(1)] by (simp_all add: projection_inv_def)
  with h b show ?thesis using ob.view_eq[of "bp_book p"] by simp
qed

theorem synchronized_book_is_replay_witness:
  "\<exists>p b. synchronized_book p = Some b \<and>
     view OrderBook_ops b = spec_view example_spec (replay example_baseline [example_batch])"
proof -
  obtain p where run: "projection_run example_spec Spot (Some (example_baseline, [example_batch])) p"
    and "bp_status p = Synchronized"
    using example_synchronized by blast
  then have sync: "synchronized_book p = Some (bp_book p)" by (simp add: synchronized_book_def)
  with synchronized_book_is_replay[OF run sync] show ?thesis by blast
qed

text \<open>
  C6: no Spot update is skipped.  On a Spot projection every update id after the baseline's and up
  to \<open>last_update_id\<close> lies in the range of some batch that was applied, and the batches applied end
  at strictly increasing ids, up to the largest 64-bit id.
\<close>

theorem spot_updates_gap_free:
  assumes "projection_run spec Spot (Some (baseline, bs)) p"
  shows "\<exists>last_id. bp_last_update_id p = Some last_id \<and> bb_last_update_id baseline \<le> last_id \<and>
    (\<forall>i. bb_last_update_id baseline < i \<and> i \<le> last_id \<longrightarrow>
       (\<exists>batch \<in> set bs. range_first (db_range batch) \<le> i \<and> i \<le> range_final (db_range batch))) \<and>
    sorted_wrt (<) (bb_last_update_id baseline # map (\<lambda>b. range_final (db_range b)) bs)"
proof -
  have inv: "bp_last_update_id p = Some (last_final (bb_last_update_id baseline) bs)"
    and link: "linked Spot True (bb_last_update_id baseline) bs"
    using projection_run_history[OF assms] projection_run_config[OF assms]
    by (simp_all add: history_inv_def)
  have sorted: "sorted_wrt (<) (base # map (\<lambda>b. range_final (db_range b)) bs)"
    if "linked Spot bridging base bs" for base bridging
    using that
  proof (induction bs arbitrary: base bridging)
    case (Cons b bs)
    then have "base < range_final (db_range b)" "linked Spot False (range_final (db_range b)) bs"
      by (simp_all add: connects_def)
    with Cons.IH[OF this(2)] show ?case by auto
  qed simp
  have "bb_last_update_id baseline \<le> last_final (bb_last_update_id baseline) bs"
    using sorted[OF link] by (cases bs rule: rev_cases) (auto simp: last_final_def less_imp_le)
  with inv linked_spot_covers[OF link] sorted[OF link] show ?thesis by blast
qed

theorem spot_updates_gap_free_witness:
  "\<exists>p :: book_projection. bp_last_update_id p = Some 12 \<and>
     (\<exists>batch \<in> set [example_batch]. range_first (db_range batch) \<le> 11 \<and> 11 \<le> range_final (db_range batch))"
proof -
  obtain p where run: "projection_run example_spec Spot (Some (example_baseline, [example_batch])) p"
    and id: "bp_last_update_id p = Some 12"
    using example_synchronized by blast
  have "(10 :: update_id) < 11" "(11 :: update_id) \<le> 12" by simp_all
  with spot_updates_gap_free[OF run] id show ?thesis by (intro exI[of _ p]) auto
qed

text \<open>
  C15: the USD-M chain.  On a USD-M projection the first batch applied after the baseline spans the
  baseline's id and carries a previous final id, and each later one names the final id of its
  predecessor as its previous final and ends after it.
\<close>

theorem usdm_updates_chained:
  assumes "projection_run spec UsdMPerpetual (Some (baseline, bs)) p"
  shows "(\<forall>b cs. bs = b # cs \<longrightarrow> range_first (db_range b) \<le> bb_last_update_id baseline \<and>
      bb_last_update_id baseline \<le> range_final (db_range b) \<and> db_previous_final b \<noteq> None) \<and>
    (\<forall>i. Suc i < length bs \<longrightarrow>
      db_previous_final (bs ! Suc i) = Some (range_final (db_range (bs ! i))) \<and>
      range_final (db_range (bs ! i)) < range_final (db_range (bs ! Suc i)))"
proof -
  have link: "linked UsdMPerpetual True (bb_last_update_id baseline) bs"
    using projection_run_history[OF assms] projection_run_config[OF assms]
    by (simp add: history_inv_def)
  with linked_nth[OF link] show ?thesis by (auto simp: connects_def)
qed

theorem usdm_updates_chained_witness:
  "\<exists>p :: book_projection. bp_status p = Synchronized \<and> bp_policy p = UsdMPerpetual \<and>
     range_first (db_range example_batch) \<le> bb_last_update_id example_baseline"
proof -
  obtain p where run: "projection_run example_spec UsdMPerpetual (Some (example_baseline, [example_batch])) p"
    and st: "bp_status p = Synchronized"
    using example_synchronized by blast
  with usdm_updates_chained[OF run] projection_run_config[OF run] show ?thesis by auto
qed

text \<open>
  C18: \<open>apply\<close> never throws.  On every projection a sequence of calls can produce, the optionals
  \<open>apply\<close> and \<open>record_gap\<close> read with \<open>value()\<close> are present, so \<open>apply\<close> returns a result.
\<close>

theorem apply_never_throws:
  assumes "projection_run spec policy h p"
  shows "\<exists>r p'. apply_batch p batch = Some (r, p')"
proof -
  have "projection_inv p" using projection_run_config[OF assms] by simp
  then show ?thesis using apply_batch_total by blast
qed

theorem apply_never_throws_witness:
  "\<exists>r p'. apply_batch (BookProjection_create example_spec Spot) example_batch = Some (r, p')"
  by (rule apply_never_throws[OF projection_run.created])

text \<open>
  C17: the decision table of \<open>apply\<close>.  Without a baseline, or after a gap, every batch is rejected.
  Otherwise a batch is applied exactly when it connects, ignored as stale when it ends before the
  current id, ignored as a duplicate when it ends at it (unless it is the bridging batch of a USD-M
  projection), and is a gap in every other case, with the reason, the range and the current id on
  record.  On Spot, connecting to id \<open>n\<close> means starting at most at \<open>n + 1\<close>, without wrap-around.
\<close>

theorem apply_decision_table:
  assumes "projection_run spec policy h p" and "apply_batch p batch = Some (r, p')"
  shows "(bp_status p \<in> {AwaitingBaseline, NeedsResync} \<longleftrightarrow> ar_disposition r = RejectedWrongState) \<and>
    (\<forall>current. bp_status p \<in> {AwaitingBridge, Synchronized} \<and> bp_last_update_id p = Some current \<longrightarrow>
      (let final = range_final (db_range batch); bridging = (bp_status p = AwaitingBridge);
           exempt = (policy = UsdMPerpetual \<and> bridging) in
       (ar_disposition r = Applied \<longleftrightarrow> connects policy bridging current batch) \<and>
       (ar_disposition r = IgnoredStale \<longleftrightarrow> final < current) \<and>
       (ar_disposition r = IgnoredDuplicate \<longleftrightarrow> final = current \<and> \<not> exempt) \<and>
       (ar_disposition r = GapDetected \<longleftrightarrow>
          (final > current \<or> final = current \<and> exempt) \<and> \<not> connects policy bridging current batch) \<and>
       ar_gap r = (if ar_disposition r = GapDetected then Some (gap_of p current batch) else None)))"
proof -
  have inv: "projection_inv p" and pol: "bp_policy p = policy"
    using projection_run_config[OF assms(1)] by simp_all
  have id: "bp_last_update_id p = None \<longleftrightarrow> bp_status p = AwaitingBaseline"
    using inv by (auto simp: projection_inv_def)
  have stale: "\<not> connects policy bridging current batch" if "range_final (db_range batch) < current"
    for bridging current
    using that by (auto simp: connects_def split: sequence_policy_kind.split)
  have dup: "\<not> connects policy bridging current batch"
    if "range_final (db_range batch) = current" "\<not> (policy = UsdMPerpetual \<and> bridging)" for bridging current
    using that by (auto simp: connects_def split: sequence_policy_kind.split)
  show ?thesis
    using assms(2)[unfolded apply_batch_eq[OF inv] pol] id stale dup
    by (auto simp: Let_def make_apply_result_def split: option.splits if_splits)
qed

theorem apply_decision_table_witness:
  "\<exists>r p'. apply_batch (BookProjection_create example_spec Spot) example_batch = Some (r, p') \<and>
     ar_disposition r = RejectedWrongState"
proof -
  obtain r p' where step: "apply_batch (BookProjection_create example_spec Spot) example_batch = Some (r, p')"
    using apply_batch_total[OF create_inv] by blast
  with apply_decision_table[OF projection_run.created step] show ?thesis
    by (simp add: BookProjection_create_def)
qed

text \<open>
  C29: only an applied batch changes the data.  Any other outcome of \<open>apply\<close> leaves the book and the
  last id as they were; a gap also stops the projection, so that no book is handed out, and every
  other outcome leaves the projection entirely unchanged.  The last id never decreases.
\<close>

theorem apply_frame:
  assumes "projection_run spec policy h p" and "apply_batch p batch = Some (r, p')"
  shows "(ar_disposition r \<noteq> Applied \<longrightarrow> bp_book p' = bp_book p \<and> bp_last_update_id p' = bp_last_update_id p) \<and>
    (ar_disposition r \<in> {IgnoredStale, IgnoredDuplicate, RejectedWrongState} \<longrightarrow> p' = p) \<and>
    (ar_disposition r = GapDetected \<longrightarrow> bp_status p' = NeedsResync \<and> synchronized_book p' = None) \<and>
    (ar_disposition r = Applied \<longrightarrow> synchronized_book p' =
       Some (OrderBook_apply_updates (bp_book p) (db_levels batch))) \<and>
    (\<forall>current. bp_last_update_id p = Some current \<longrightarrow>
       (\<exists>later. bp_last_update_id p' = Some later \<and> current \<le> later)) \<and>
    ar_status_after r = bp_status p' \<and> ar_last_update_id_after r = bp_last_update_id p'"
proof -
  have inv: "projection_inv p" using projection_run_config[OF assms(1)] by simp
  have mono: "current \<le> range_final (db_range batch)"
    if "connects (bp_policy p) (bp_status p = AwaitingBridge) current batch" for current
    using that by (auto simp: connects_def split: sequence_policy_kind.splits if_splits)
  show ?thesis
    using assms(2)[unfolded apply_batch_eq[OF inv]] mono
    by (auto simp: Let_def make_apply_result_def synchronized_book_def split: option.splits if_splits)
qed

theorem apply_frame_witness:
  "\<exists>r. apply_batch (BookProjection_create example_spec Spot) example_batch =
     Some (r, BookProjection_create example_spec Spot)"
proof -
  obtain r p' where step: "apply_batch (BookProjection_create example_spec Spot) example_batch = Some (r, p')"
    using apply_batch_total[OF create_inv] by blast
  then have "ar_disposition r = RejectedWrongState"
    by (auto simp: apply_batch_def BookProjection_create_def make_apply_result_def)
  with apply_frame[OF projection_run.created step] step show ?thesis by auto
qed

text \<open>
  Redelivery is harmless.  A batch that was just applied and arrives again is ignored as a
  duplicate and changes nothing, under both policies.
\<close>

lemma apply_redelivery_ignored:
  assumes "projection_run spec policy h p" and "apply_batch p batch = Some (r, p')"
    and "ar_disposition r = Applied"
  shows "apply_batch p' batch = Some (make_apply_result p' IgnoredDuplicate, p')"
proof -
  have inv: "projection_inv p" using projection_run_config[OF assms(1)] by simp
  have inv': "projection_inv p'" by (rule apply_batch_inv[OF inv assms(2)])
  have "bp_status p' = Synchronized" "bp_last_update_id p' = Some (range_final (db_range batch))"
    using apply_batch_applied[OF inv assms(2,3)] by simp_all
  moreover have "\<not> connects (bp_policy p') False (range_final (db_range batch)) batch"
    by (simp add: connects_def split: sequence_policy_kind.split)
  ultimately show ?thesis using apply_batch_eq[OF inv', of batch] by (simp add: Let_def)
qed

text \<open>A baseline and the first batch that connects to it synchronize any projection that is not synchronized.\<close>

lemma install_then_bridge:
  assumes "projection_run spec policy h p" and "bp_status p \<noteq> Synchronized"
    and "connects policy True (bb_last_update_id baseline) batch"
  shows "\<exists>r1 p1 r2 p2. install_baseline p baseline = (r1, p1) \<and> ir_disposition r1 = Installed \<and>
    bp_status p1 = AwaitingBridge \<and> synchronized_book p1 = None \<and>
    apply_batch p1 batch = Some (r2, p2) \<and> ar_disposition r2 = Applied \<and>
    bp_status p2 = Synchronized \<and> book_abs (bp_book p2) = replay baseline [batch] \<and>
    bp_last_update_id p2 = Some (range_final (db_range batch)) \<and>
    projection_run spec policy (Some (baseline, [batch])) p2"
proof -
  have cfg: "bp_policy p = policy" using projection_run_config[OF assms(1)] by simp
  obtain r1 p1 where inst: "install_baseline p baseline = (r1, p1)" by fastforce
  have p1: "ir_disposition r1 = Installed" "bp_status p1 = AwaitingBridge" "bp_policy p1 = policy"
    "bp_last_update_id p1 = Some (bb_last_update_id baseline)"
    using inst assms(2) cfg by (auto simp: install_baseline_def Let_def make_install_result_def)
  have run1: "projection_run spec policy (Some (baseline, [])) p1"
    by (rule projection_run.installed[OF assms(1) inst p1(1)])
  have inv1: "projection_inv p1" using projection_run_config[OF run1] by simp
  obtain r2 p2 where step: "apply_batch p1 batch = Some (r2, p2)"
    using apply_batch_total[OF inv1] by blast
  have app: "ar_disposition r2 = Applied" using applied_iff[OF inv1 step] p1 assms(3) by simp
  have st2: "bp_status p2 = Synchronized" using apply_batch_applied[OF inv1 step app] by simp
  have run2: "projection_run spec policy (Some (baseline, [batch])) p2"
    using projection_run.applied[OF run1 step app] by simp
  from projection_run_history[OF this] have "book_abs (bp_book p2) = replay baseline [batch]"
    "bp_last_update_id p2 = Some (range_final (db_range batch))"
    by (simp_all add: history_inv_def last_final_def)
  with inst p1 step app st2 run2 show ?thesis by (auto simp: synchronized_book_def)
qed

lemma reset_is_fresh:
  assumes "projection_run spec policy h p"
  shows "BookProjection_reset p = BookProjection_create spec policy"
proof -
  have "projection_inv p" and cfg: "bp_numeric_spec p = spec" "bp_policy p = policy"
    using projection_run_config[OF assms] by simp_all
  then have "OrderBook_clear (bp_book p) = OrderBook_create spec"
    by (simp add: projection_inv_def OrderBook_clear_def OrderBook_create_def)
  then show ?thesis using cfg by (simp add: BookProjection_reset_def BookProjection_create_def)
qed

text \<open>
  C30: every projection can be resynchronized.  \<open>reset\<close> makes any projection, synchronized or not, as
  freshly constructed with its specification and policy.  A synchronized projection refuses a
  baseline and stays as it is; any other projection, and any projection after \<open>reset\<close>, installs a
  baseline, replacing whatever was stored, and the first batch that connects to it then synchronizes
  the projection with exactly the baseline and that batch.
\<close>

theorem resynchronization:
  assumes "projection_run spec policy h p"
  shows "BookProjection_reset p = BookProjection_create spec policy \<and>
    (bp_status p = Synchronized \<longrightarrow>
      (\<exists>r. install_baseline p baseline = (r, p) \<and> ir_disposition r = InstallRejectedWrongState)) \<and>
    (\<forall>q. (q = BookProjection_reset p \<or> q = p \<and> bp_status p \<noteq> Synchronized) \<and>
         connects policy True (bb_last_update_id baseline) batch \<longrightarrow>
      (\<exists>r1 p1 r2 p2. install_baseline q baseline = (r1, p1) \<and> ir_disposition r1 = Installed \<and>
        bp_status p1 = AwaitingBridge \<and> synchronized_book p1 = None \<and>
        apply_batch p1 batch = Some (r2, p2) \<and> ar_disposition r2 = Applied \<and>
        bp_status p2 = Synchronized \<and> book_abs (bp_book p2) = replay baseline [batch] \<and>
        bp_last_update_id p2 = Some (range_final (db_range batch))))"
proof (intro conjI allI impI)
  show "BookProjection_reset p = BookProjection_create spec policy" by (rule reset_is_fresh[OF assms])
next
  assume "bp_status p = Synchronized"
  then show "\<exists>r. install_baseline p baseline = (r, p) \<and> ir_disposition r = InstallRejectedWrongState"
    by (simp add: install_baseline_def make_install_result_def)
next
  fix q
  assume q: "(q = BookProjection_reset p \<or> q = p \<and> bp_status p \<noteq> Synchronized) \<and>
    connects policy True (bb_last_update_id baseline) batch"
  have "bp_status (BookProjection_create spec policy) \<noteq> Synchronized" by (simp add: BookProjection_create_def)
  with q reset_is_fresh[OF assms] have "bp_status q \<noteq> Synchronized" by auto
  moreover obtain h' where "projection_run spec policy h' q"
    using q assms reset_is_fresh[OF assms] projection_run.created by metis
  ultimately show "\<exists>r1 p1 r2 p2. install_baseline q baseline = (r1, p1) \<and> ir_disposition r1 = Installed \<and>
        bp_status p1 = AwaitingBridge \<and> synchronized_book p1 = None \<and>
        apply_batch p1 batch = Some (r2, p2) \<and> ar_disposition r2 = Applied \<and>
        bp_status p2 = Synchronized \<and> book_abs (bp_book p2) = replay baseline [batch] \<and>
        bp_last_update_id p2 = Some (range_final (db_range batch))"
    using install_then_bridge q by blast
qed

theorem resynchronization_witness:
  "\<exists>p r1 p1 r2 p2. bp_status p = Synchronized \<and> snd (install_baseline p example_baseline) = p \<and>
     BookProjection_reset p = BookProjection_create example_spec Spot \<and>
     install_baseline (BookProjection_reset p) example_baseline = (r1, p1) \<and>
     apply_batch p1 example_batch = Some (r2, p2) \<and> bp_status p2 = Synchronized \<and>
     book_abs (bp_book p2) = replay example_baseline [example_batch]"
proof -
  have conn: "connects Spot True (bb_last_update_id example_baseline) example_batch"
    by (simp add: connects_def)
  moreover have "bp_status (BookProjection_create example_spec Spot) \<noteq> Synchronized"
    by (simp add: BookProjection_create_def)
  ultimately obtain p where p: "bp_status p = Synchronized"
    and run: "projection_run example_spec Spot (Some (example_baseline, [example_batch])) p"
    using install_then_bridge[OF projection_run.created] by blast
  have "snd (install_baseline p example_baseline) = p"
    using resynchronization[OF run, of example_baseline example_batch] p by (metis snd_conv)
  then show ?thesis
    using resynchronization[OF run, of example_baseline example_batch] p conn by blast
qed

text \<open>
  The transaction is equivalent to applying in place.  On every projection a sequence of calls
  can produce, copying the book into a candidate, updating the candidate and committing it changes
  nothing but the book, and gives the book \<open>apply_updates\<close> would give.
\<close>

lemma apply_transaction_in_place:
  assumes "projection_run spec policy h p"
  shows "apply_transaction p levels = p\<lparr>bp_book := OrderBook_apply_updates (bp_book p) levels\<rparr>"
  using projection_run_config[OF assms]
  by (intro apply_transaction_eq) (simp_all add: projection_inv_def)

end
