(* ===== verification/Decimal_Text.thy ===== *)
theory Decimal_Text
  imports Numeric_Types Complex_Main
begin

text \<open>
  Decimal text as the numeric component reads and writes it: ASCII digits, the number a digit
  string denotes, the digits of a number (\<open>std::to_chars\<close> on a non-negative value), the grammar of
  a Contracts decimal and the exact rational it denotes.  The last two are the specification
  against which \<open>Decimal_Parse\<close> and \<open>Decimal_Format\<close> are proved.
\<close>

subsection \<open>Digits\<close>

text \<open>
  A byte of a \<open>std::string_view\<close> is a \<open>char\<close>.  Whether \<open>char\<close> is signed does not matter to the
  comparisons with ASCII constants: bytes from 128 on are outside each range either way.
\<close>

abbreviation char_code :: "char \<Rightarrow> nat" where
  "char_code c \<equiv> of_char c"

definition is_ascii_digit :: "char \<Rightarrow> bool" where
  "is_ascii_digit c \<longleftrightarrow> char_code CHR ''0'' \<le> char_code c \<and> char_code c \<le> char_code CHR ''9''"

definition digit_value :: "char \<Rightarrow> nat" where
  "digit_value c = char_code c - char_code CHR ''0''"

definition digits_value :: "string \<Rightarrow> nat" where
  "digits_value ds = foldl (\<lambda>v c. v * 10 + digit_value c) 0 ds"

lemma is_ascii_digit_alt: "is_ascii_digit c \<longleftrightarrow> 48 \<le> char_code c \<and> char_code c \<le> 57"
  by (simp add: is_ascii_digit_def)

lemma digit_value_less: "is_ascii_digit c \<Longrightarrow> digit_value c < 10"
  unfolding is_ascii_digit_alt digit_value_def by (elim conjE) simp

lemma digit_value_eq_0: "is_ascii_digit c \<Longrightarrow> digit_value c = 0 \<longleftrightarrow> c = CHR ''0''"
proof -
  assume "is_ascii_digit c"
  then have "digit_value c = 0 \<longleftrightarrow> char_code c = char_code CHR ''0''"
    by (auto simp: is_ascii_digit_alt digit_value_def)
  also have "\<dots> \<longleftrightarrow> c = CHR ''0''"
    by (simp only: of_char_eq_iff)
  finally show ?thesis .
qed

lemma digit_not_point [simp]: "\<not> is_ascii_digit CHR ''.''" "\<not> is_ascii_digit CHR ''-''"
  "\<not> is_ascii_digit CHR ''+''"
  by (simp_all add: is_ascii_digit_alt)

lemma digit_zero [simp]: "is_ascii_digit CHR ''0''" "digit_value CHR ''0'' = 0"
  by (simp_all add: is_ascii_digit_alt digit_value_def)

lemma digits_value_Nil [simp]: "digits_value [] = 0"
  by (simp add: digits_value_def)

lemma digits_value_snoc [simp]: "digits_value (ds @ [c]) = digits_value ds * 10 + digit_value c"
  by (simp add: digits_value_def)

lemma digits_value_append:
  "digits_value (xs @ ys) = digits_value xs * 10 ^ length ys + digits_value ys"
proof (induction ys rule: rev_induct)
  case Nil
  then show ?case by simp
next
  case (snoc y ys)
  have "digits_value (xs @ ys @ [y]) = digits_value (xs @ ys) * 10 + digit_value y"
    by (simp add: digits_value_snoc[of "xs @ ys", simplified])
  with snoc show ?case by (simp add: algebra_simps)
qed

lemma digits_value_Cons:
  "digits_value (c # ds) = digit_value c * 10 ^ length ds + digits_value ds"
  using digits_value_append[of "[c]" ds] by (simp add: digits_value_def)

lemma digits_value_zeros [simp]: "digits_value (replicate n CHR ''0'') = 0"
  by (induction n) (simp_all add: digits_value_Cons)

lemma digits_value_less: "list_all is_ascii_digit ds \<Longrightarrow> digits_value ds < 10 ^ length ds"
proof (induction ds rule: rev_induct)
  case Nil
  then show ?case by simp
next
  case (snoc d ds)
  then have "digits_value ds + 1 \<le> 10 ^ length ds" and "digit_value d < 10"
    by (simp_all add: digit_value_less)
  then have "digits_value ds * 10 + digit_value d < (digits_value ds + 1) * 10"
    by simp
  also have "\<dots> \<le> 10 ^ length ds * 10"
    using \<open>digits_value ds + 1 \<le> 10 ^ length ds\<close> by (rule mult_right_mono) simp
  finally show ?case by simp
qed

lemma digits_value_eq_0:
  "list_all is_ascii_digit ds \<Longrightarrow> digits_value ds = 0 \<longleftrightarrow> list_all (\<lambda>c. c = CHR ''0'') ds"
  by (induction ds) (auto simp: digits_value_Cons digit_value_eq_0)

lemma list_all_zero_replicate:
  "list_all (\<lambda>c. c = CHR ''0'') ds \<longleftrightarrow> ds = replicate (length ds) CHR ''0''"
  by (induction ds) auto

subsection \<open>Printing a number\<close>

text \<open>\<open>std::to_chars\<close> in base ten on a non-negative value: no leading zeros, \<open>"0"\<close> for zero.\<close>

definition digit_char :: "nat \<Rightarrow> char" where
  "digit_char d = char_of (48 + d)"

fun to_chars_nat :: "nat \<Rightarrow> string" where
  "to_chars_nat n = (if n < 10 then [digit_char n] else to_chars_nat (n div 10) @ [digit_char (n mod 10)])"

declare to_chars_nat.simps [simp del]

definition to_chars :: "int \<Rightarrow> string" where
  "to_chars v = (if v < 0 then CHR ''-'' # to_chars_nat (nat (- v)) else to_chars_nat (nat v))"

lemma digit_char_props:
  assumes "d < 10"
  shows "is_ascii_digit (digit_char d)" and "digit_value (digit_char d) = d"
  using assms by (simp_all add: is_ascii_digit_alt digit_value_def digit_char_def)

lemma digit_char_digit_value: "is_ascii_digit c \<Longrightarrow> digit_char (digit_value c) = c"
  by (simp add: is_ascii_digit_alt digit_value_def digit_char_def)

lemma digit_char_eq_0: "d < 10 \<Longrightarrow> digit_char d = CHR ''0'' \<longleftrightarrow> d = 0"
  by (metis digit_char_props digit_value_eq_0)

lemma to_chars_nat_digits: "list_all is_ascii_digit (to_chars_nat n)"
proof (induction n rule: to_chars_nat.induct)
  case (1 n)
  then show ?case
    by (subst to_chars_nat.simps) (simp add: digit_char_props)
qed

lemma to_chars_nat_value [simp]: "digits_value (to_chars_nat n) = n"
proof (induction n rule: to_chars_nat.induct)
  case (1 n)
  show ?case
  proof (cases "n < 10")
    case True
    then show ?thesis
      by (subst to_chars_nat.simps) (simp add: digits_value_Cons digit_char_props)
  next
    case False
    with "1.IH" show ?thesis
      by (subst to_chars_nat.simps) (simp add: digit_char_props)
  qed
qed

lemma to_chars_nat_nonempty [simp]: "to_chars_nat n \<noteq> []"
  by (subst to_chars_nat.simps) simp

lemma to_chars_nat_no_leading_zero: "hd (to_chars_nat n) = CHR ''0'' \<longleftrightarrow> n = 0"
proof (induction n rule: to_chars_nat.induct)
  case (1 n)
  show ?case
  proof (cases "n < 10")
    case True
    then show ?thesis
      by (subst to_chars_nat.simps) (simp add: digit_char_eq_0)
  next
    case False
    with "1.IH" show ?thesis
      by (subst to_chars_nat.simps) simp
  qed
qed

text \<open>A digit string without a leading zero is the printed form of its value.\<close>

lemma to_chars_nat_unique:
  assumes "list_all is_ascii_digit ds" and "ds \<noteq> []" and "hd ds = CHR ''0'' \<longrightarrow> length ds = 1"
  shows "to_chars_nat (digits_value ds) = ds"
  using assms
proof (induction ds rule: rev_induct)
  case Nil
  then show ?case by simp
next
  case (snoc d ds)
  show ?case
  proof (cases "ds = []")
    case True
    with snoc.prems show ?thesis
      by (subst to_chars_nat.simps)
        (simp add: digits_value_Cons digit_value_less digit_char_digit_value)
  next
    case False
    with snoc.prems have hd: "hd ds \<noteq> CHR ''0''" and digs: "list_all is_ascii_digit ds"
      and d: "is_ascii_digit d"
      by auto
    with False have "digits_value ds \<noteq> 0"
      using digits_value_eq_0[OF digs] by (cases ds) auto
    moreover have "(digits_value ds * 10 + digit_value d) div 10 = digits_value ds"
      and "(digits_value ds * 10 + digit_value d) mod 10 = digit_value d"
      using digit_value_less[OF d] by simp_all
    ultimately show ?thesis
      using snoc.IH[OF digs False] hd d
      by (subst to_chars_nat.simps) (simp add: digit_char_digit_value)
  qed
qed

lemma length_to_chars_nat_le: "n < 10 ^ k \<Longrightarrow> 0 < k \<Longrightarrow> length (to_chars_nat n) \<le> k"
proof (induction n arbitrary: k rule: to_chars_nat.induct)
  case (1 n)
  show ?case
  proof (cases "n < 10")
    case True
    with "1.prems" show ?thesis by (subst to_chars_nat.simps) simp
  next
    case False
    with "1.prems" obtain k' where k: "k = Suc k'" "0 < k'"
      by (cases k; cases "k - 1") auto
    with "1.prems" have "n div 10 < 10 ^ k'"
      by (simp add: less_mult_imp_div_less mult.commute)
    with "1.IH" False k show ?thesis
      by (subst to_chars_nat.simps) simp
  qed
qed

subsection \<open>The decimal grammar\<close>

definition integer_part :: "string \<Rightarrow> bool" where
  "integer_part ip \<longleftrightarrow>
     ip \<noteq> [] \<and> list_all is_ascii_digit ip \<and> (hd ip = CHR ''0'' \<longrightarrow> length ip = 1)"

text \<open>\<open>fp\<close> is the fraction, empty when the text has no decimal point.\<close>

definition decimal_text :: "string \<Rightarrow> string \<Rightarrow> string" where
  "decimal_text ip fp = ip @ (if fp = [] then [] else CHR ''.'' # fp)"

definition denotes :: "string \<Rightarrow> string \<Rightarrow> string \<Rightarrow> bool" where
  "denotes text ip fp \<longleftrightarrow>
     text = decimal_text ip fp \<and> integer_part ip \<and> list_all is_ascii_digit fp"

definition well_formed_decimal :: "string \<Rightarrow> bool" where
  "well_formed_decimal text \<longleftrightarrow> (\<exists>ip fp. denotes text ip fp)"

definition decimal_rat :: "string \<Rightarrow> string \<Rightarrow> rat" where
  "decimal_rat ip fp = of_nat (digits_value (ip @ fp)) / 10 ^ length fp"

text \<open>The text determines its two parts.\<close>

lemma denotes_unique:
  assumes "denotes text ip fp" and "denotes text ip' fp'"
  shows "ip' = ip \<and> fp' = fp"
proof -
  have split: "takeWhile is_ascii_digit (decimal_text jp gp) = jp"
    if "integer_part jp" for jp gp
    using that by (auto simp: decimal_text_def integer_part_def list_all_iff takeWhile_append2)
  from assms have eq: "decimal_text ip fp = decimal_text ip' fp'"
    and "integer_part ip" "integer_part ip'"
    by (auto simp: denotes_def)
  then have "ip' = ip" using split by metis
  with eq show ?thesis by (auto simp: decimal_text_def split: if_splits)
qed

text \<open>
  Scaling to \<open>s\<close> fraction digits: the digits kept, and the condition under which nothing but
  zeros is dropped.
\<close>

definition scaled_units :: "nat \<Rightarrow> string \<Rightarrow> string \<Rightarrow> nat" where
  "scaled_units s ip fp = digits_value (ip @ take s fp) * 10 ^ (s - length fp)"

definition exact_at :: "nat \<Rightarrow> string \<Rightarrow> bool" where
  "exact_at s fp \<longleftrightarrow> list_all (\<lambda>c. c = CHR ''0'') (drop s fp)"

lemma decimal_rat_scaled:
  assumes "list_all is_ascii_digit fp"
  shows "decimal_rat ip fp * 10 ^ s =
    of_nat (scaled_units s ip fp) + of_nat (digits_value (drop s fp)) / 10 ^ (length fp - s)"
proof (cases "length fp \<le> s")
  case True
  then have "(10::rat) ^ s = 10 ^ length fp * 10 ^ (s - length fp)"
    by (simp flip: power_add)
  with True show ?thesis
    by (simp add: decimal_rat_def scaled_units_def)
next
  case False
  then have "(10::rat) ^ length fp = 10 ^ s * 10 ^ (length fp - s)"
    by (simp flip: power_add)
  moreover have "digits_value (ip @ fp) =
      digits_value (ip @ take s fp) * 10 ^ (length fp - s) + digits_value (drop s fp)"
    using digits_value_append[of "ip @ take s fp" "drop s fp"] by simp
  ultimately show ?thesis
    using False by (simp add: decimal_rat_def scaled_units_def field_simps)
qed

lemma exact_at_iff:
  assumes "list_all is_ascii_digit fp"
  shows "exact_at s fp \<longleftrightarrow> digits_value (drop s fp) = 0"
proof -
  have "list_all is_ascii_digit (drop s fp)"
    using assms by (auto simp: list_all_iff dest: in_set_dropD)
  then show ?thesis by (simp add: exact_at_def digits_value_eq_0)
qed

text \<open>The scaled value is an integer exactly when only zeros are dropped.\<close>

lemma decimal_rat_integral_iff:
  assumes "list_all is_ascii_digit fp"
  shows "decimal_rat ip fp * 10 ^ s = of_int u \<longleftrightarrow>
    exact_at s fp \<and> u = int (scaled_units s ip fp)"
proof -
  let ?r = "of_nat (digits_value (drop s fp)) / 10 ^ (length fp - s) :: rat"
  have digs: "list_all is_ascii_digit (drop s fp)"
    using assms by (auto simp: list_all_iff dest: in_set_dropD)
  have "digits_value (drop s fp) < 10 ^ (length fp - s)"
    using digits_value_less[OF digs] by simp
  then have "(of_nat (digits_value (drop s fp)) :: rat) < of_nat (10 ^ (length fp - s))"
    by (simp only: of_nat_less_iff)
  then have r: "0 \<le> ?r" "?r < 1" by simp_all
  have "decimal_rat ip fp * 10 ^ s = of_int u \<longleftrightarrow> of_int (u - int (scaled_units s ip fp)) = ?r"
    using decimal_rat_scaled[OF assms, of ip s] by auto
  also have "\<dots> \<longleftrightarrow> u = int (scaled_units s ip fp) \<and> ?r = 0"
  proof
    assume eq: "of_int (u - int (scaled_units s ip fp)) = ?r"
    with r have "(0::rat) \<le> of_int (u - int (scaled_units s ip fp))"
      and "of_int (u - int (scaled_units s ip fp)) < (1::rat)" by simp_all
    then have "u - int (scaled_units s ip fp) = 0" by linarith
    with eq show "u = int (scaled_units s ip fp) \<and> ?r = 0" by simp
  qed simp
  finally show ?thesis using exact_at_iff[OF assms] by auto
qed

end
