(* ===== verification/Decimal_Parse.thy ===== *)
theory Decimal_Parse
  imports Decimal_Text
begin

text \<open>
  The strict decimal parser of \<open>src/numeric/decimal_parse.cpp\<close>: one pass over the text with a
  \<open>ParseState\<close>, then padding to the storage scale.  The theorems say which texts are accepted,
  that the accepted value is exact, that no signed overflow is ever executed, and which error
  every other text gets.
\<close>

subsection \<open>Tables and state\<close>

definition kPowersOfTen :: "int list" where
  "kPowersOfTen = [
    1,
    10,
    100,
    1000,
    10000,
    100000,
    1000000,
    10000000,
    100000000,
    1000000000,
    10000000000,
    100000000000,
    1000000000000,
    10000000000000,
    100000000000000,
    1000000000000000,
    10000000000000000,
    100000000000000000,
    1000000000000000000]"

record parsed_magnitude =
  mag_units :: int
  mag_fraction_digits :: nat

record parse_state =
  target_fraction_digits :: nat
  ps_units :: int
  source_fraction_digits :: nat
  decimal_point_offset :: nat
  overflow_offset :: nat
  inexact_offset :: nat
  in_fraction :: bool
  ps_overflow :: bool

definition initial_parse_state :: parse_state where
  "initial_parse_state = \<lparr>target_fraction_digits = 0, ps_units = 0, source_fraction_digits = 0,
     decimal_point_offset = kNoErrorOffset, overflow_offset = kNoErrorOffset,
     inexact_offset = kNoErrorOffset, in_fraction = False, ps_overflow = False\<rparr>"

record scanned_character =
  sc_value :: char
  sc_offset :: nat

record 'a parsed_decimal =
  pd_value :: 'a
  pd_fraction_digits :: nat

subsection \<open>The scanner\<close>

definition consume_decimal_point ::
  "parse_state \<Rightarrow> nat \<Rightarrow> decimal_error option \<times> parse_state" where
  "consume_decimal_point st offset =
     (if in_fraction st \<or> offset = 0 then (Some (DecimalError InvalidSyntax offset), st)
      else (None, st\<lparr>in_fraction := True, decimal_point_offset := offset\<rparr>))"

definition should_consume_digit ::
  "parse_state \<Rightarrow> scanned_character \<Rightarrow> bool \<times> parse_state" where
  "should_consume_digit st ch =
     (if \<not> in_fraction st then (True, st)
      else
        let st1 = st\<lparr>source_fraction_digits := source_fraction_digits st + 1\<rparr> in
        if source_fraction_digits st1 \<le> target_fraction_digits st1 then (True, st1)
        else if sc_value ch \<noteq> CHR ''0'' \<and> inexact_offset st1 = kNoErrorOffset
          then (False, st1\<lparr>inexact_offset := sc_offset ch\<rparr>)
        else (False, st1))"

definition append_digit :: "parse_state \<Rightarrow> scanned_character \<Rightarrow> parse_state" where
  "append_digit st ch =
     (if ps_overflow st then st
      else
        let digit = int (char_code (sc_value ch)) - int (char_code CHR ''0'') in
        if ps_units st > c_div (INT64_MAX - digit) 10
          then st\<lparr>ps_overflow := True, overflow_offset := sc_offset ch\<rparr>
        else st\<lparr>ps_units := ps_units st * 10 + digit\<rparr>)"

definition consume_character ::
  "string \<Rightarrow> parse_state \<Rightarrow> nat \<Rightarrow> decimal_error option \<times> parse_state" where
  "consume_character text st offset =
     (let ch = \<lparr>sc_value = text ! offset, sc_offset = offset\<rparr> in
      if sc_value ch = CHR ''.'' then consume_decimal_point st offset
      else if \<not> is_ascii_digit (sc_value ch) then (Some (DecimalError InvalidSyntax offset), st)
      else if \<not> in_fraction st \<and> offset > 0 \<and> hd text = CHR ''0''
        then (Some (DecimalError LeadingZero offset), st)
      else
        let (consume, st1) = should_consume_digit st ch in
        (None, if consume then append_digit st1 ch else st1))"

definition pad_to_storage_scale :: "parse_state \<Rightarrow> parse_state" where
  "pad_to_storage_scale st =
     (if ps_overflow st \<or> source_fraction_digits st \<ge> target_fraction_digits st then st
      else
        let multiplier = kPowersOfTen ! (target_fraction_digits st - source_fraction_digits st) in
        if ps_units st > c_div INT64_MAX multiplier then st\<lparr>ps_overflow := True\<rparr>
        else st\<lparr>ps_units := ps_units st * multiplier\<rparr>)"

text \<open>The \<open>for\<close> loop of \<open>parse_magnitude\<close>, with its early return.\<close>

function parse_chars :: "string \<Rightarrow> parse_state \<Rightarrow> nat \<Rightarrow> decimal_error + parse_state" where
  "parse_chars text st offset =
     (if offset < length text then
        (case consume_character text st offset of
           (Some e, _) \<Rightarrow> Inl e
         | (None, st1) \<Rightarrow> parse_chars text st1 (offset + 1))
      else Inr st)"
  by pat_completeness auto
termination
  by (relation "measure (\<lambda>(text, st, offset). length text - offset)") auto

declare parse_chars.simps [simp del]

definition parse_magnitude ::
  "string \<Rightarrow> decimal_scale \<Rightarrow> decimal_error + parsed_magnitude" where
  "parse_magnitude text storage_scale =
     (if text = [] then Inl (DecimalError Empty kNoErrorOffset)
      else if hd text = CHR ''+'' \<or> hd text = CHR ''-'' then Inl (DecimalError SignNotAllowed 0)
      else
        bind_result
          (parse_chars text
             (initial_parse_state\<lparr>target_fraction_digits := scale_digits storage_scale\<rparr>) 0)
          (\<lambda>st.
             if in_fraction st \<and> source_fraction_digits st = 0
               then Inl (DecimalError MissingFractionDigits (decimal_point_offset st))
             else if inexact_offset st \<noteq> kNoErrorOffset
               then Inl (DecimalError InexactScale (inexact_offset st))
             else
               let st1 = pad_to_storage_scale st in
               if ps_overflow st1 then Inl (DecimalError Overflow (overflow_offset st1))
               else Inr \<lparr>mag_units = ps_units st1, mag_fraction_digits = source_fraction_digits st1\<rparr>))"

subsection \<open>The public entry points\<close>

definition parse_price ::
  "string \<Rightarrow> decimal_scale \<Rightarrow> decimal_error + price_units parsed_decimal" where
  "parse_price text storage_scale =
     bind_result (parse_magnitude text storage_scale) (\<lambda>magnitude.
       case PriceUnits_create (mag_units magnitude) of
         None \<Rightarrow> Inl (DecimalError ZeroNotAllowed kNoErrorOffset)
       | Some v \<Rightarrow> Inr \<lparr>pd_value = v, pd_fraction_digits = mag_fraction_digits magnitude\<rparr>)"

definition parse_quantity ::
  "string \<Rightarrow> decimal_scale \<Rightarrow> decimal_error + quantity_units parsed_decimal" where
  "parse_quantity text storage_scale =
     bind_result (parse_magnitude text storage_scale) (\<lambda>magnitude.
       case QuantityUnits_create (mag_units magnitude) of
         None \<Rightarrow> Inl (DecimalError Overflow kNoErrorOffset)
       | Some v \<Rightarrow> Inr \<lparr>pd_value = v, pd_fraction_digits = mag_fraction_digits magnitude\<rparr>)"

definition parse_positive_quantity ::
  "string \<Rightarrow> decimal_scale \<Rightarrow> decimal_error + quantity_units parsed_decimal" where
  "parse_positive_quantity text storage_scale =
     bind_result (parse_quantity text storage_scale) (\<lambda>parsed.
       if quantity_value (pd_value parsed) = 0
         then Inl (DecimalError ZeroNotAllowed kNoErrorOffset)
       else Inr parsed)"

subsection \<open>Arithmetic of the scanner\<close>

lemma kPowersOfTen_nth:
  assumes "i \<le> 18"
  shows "kPowersOfTen ! i = 10 ^ i"
proof -
  have eq: "kPowersOfTen = map (\<lambda>i. 10 ^ i) [0..<19]"
    by (simp add: kPowersOfTen_def upt_rec)
  show ?thesis unfolding eq using assms by (simp del: upt_Suc)
qed

text \<open>The two overflow guards are exact: they fire precisely when the product would not fit.\<close>

lemma append_guard_exact:
  "(u :: int) > (INT64_MAX - d) div 10 \<longleftrightarrow> u * 10 + d > INT64_MAX"
  using div_less_iff_int[of 10 "INT64_MAX - d" u] by linarith

lemma pad_guard_exact: "(0 :: int) < m \<Longrightarrow> u > INT64_MAX div m \<longleftrightarrow> u * m > INT64_MAX"
  by (rule div_less_iff_int)

text \<open>
  \<open>overflow_index ds\<close> is the index of the first digit at which the accumulated value of \<open>ds\<close>
  leaves the signed 64-bit range.
\<close>

definition overflow_index :: "string \<Rightarrow> nat" where
  "overflow_index ds =
     length (takeWhile (\<lambda>i. int (digits_value (take (Suc i) ds)) \<le> INT64_MAX) [0..<length ds])"


lemma digits_value_take_mono: "i \<le> j \<Longrightarrow> digits_value (take i ds) \<le> digits_value (take j ds)"
proof -
  assume "i \<le> j"
  then have "take j ds = take i ds @ take (j - i) (drop i ds)"
    using take_add[of i "j - i" ds] by simp
  then have "digits_value (take j ds) =
      digits_value (take i ds) * 10 ^ length (take (j - i) (drop i ds)) + digits_value (take (j - i) (drop i ds))"
    by (simp only: digits_value_append)
  moreover have "digits_value (take i ds) * 1 \<le>
      digits_value (take i ds) * 10 ^ length (take (j - i) (drop i ds))"
    by (rule mult_le_mono2) simp
  ultimately show ?thesis by linarith
qed

lemma overflow_index_bound:
  assumes "int (digits_value ds) > INT64_MAX"
  shows "overflow_index ds < length ds"
proof -
  have "ds \<noteq> []" using assms by auto
  then have i: "length ds - 1 \<in> set [0..<length ds]"
    "\<not> int (digits_value (take (Suc (length ds - 1)) ds)) \<le> INT64_MAX"
    using assms by auto
  let ?tw = "takeWhile (\<lambda>i. int (digits_value (take (Suc i) ds)) \<le> INT64_MAX) [0..<length ds]"
  have "?tw \<noteq> [0..<length ds]"
    using i by (metis (no_types, lifting) takeWhile_eq_all_conv)
  moreover have "length ?tw \<le> length [0..<length ds]" by (rule length_takeWhile_le)
  ultimately have "length ?tw < length [0..<length ds]"
    by (metis (no_types, lifting) nat_less_le takeWhile_eq_take take_all_iff)
  then show ?thesis by (simp add: overflow_index_def)
qed

lemma overflow_index_stable:
  assumes "int (digits_value ds) > INT64_MAX"
  shows "overflow_index (ds @ xs) = overflow_index ds"
proof -
  let ?P = "\<lambda>ds i. int (digits_value (take (Suc i) ds)) \<le> INT64_MAX"
  have "ds \<noteq> []" using assms by auto
  then have "length ds - 1 \<in> set [0..<length ds]" "\<not> ?P (ds @ xs) (length ds - 1)"
    using assms by auto
  then have "takeWhile (?P (ds @ xs)) ([0..<length ds] @ [length ds..<length ds + length xs]) =
      takeWhile (?P (ds @ xs)) [0..<length ds]"
    by (rule takeWhile_append1)
  also have "\<dots> = takeWhile (?P ds) [0..<length ds]"
    by (rule takeWhile_cong) auto
  finally show ?thesis
    by (simp only: overflow_index_def length_append upt_add_eq_append[OF le0])
qed

lemma overflow_index_new:
  assumes "int (digits_value ds) \<le> INT64_MAX" and "int (digits_value (ds @ [c])) > INT64_MAX"
  shows "overflow_index (ds @ [c]) = length ds"
proof -
  let ?P = "\<lambda>i. int (digits_value (take (Suc i) (ds @ [c]))) \<le> INT64_MAX"
  have "?P i" if "i < length ds" for i
  proof -
    have "digits_value (take (Suc i) ds) \<le> digits_value (take (length ds) ds)"
      using that by (intro digits_value_take_mono) simp
    with assms(1) that show ?thesis by simp
  qed
  then have "takeWhile ?P [0..<length ds] = [0..<length ds]"
    by (subst takeWhile_eq_all_conv) auto
  moreover have "\<not> ?P (length ds)" using assms(2) by simp
  ultimately show ?thesis
    by (simp add: overflow_index_def takeWhile_append)
qed

subsection \<open>The invariant of the scan\<close>

text \<open>
  After \<open>ip\<close> and, once the point was read, the fraction \<open>fr\<close> have been consumed, the state holds
  the exact value of the digits that count, whether it left the 64-bit range and where, and the
  offset of the first non-zero digit beyond the storage scale.
\<close>

abbreviation fraction_of :: "string option \<Rightarrow> string" where
  "fraction_of fr \<equiv> (case fr of None \<Rightarrow> [] | Some fp \<Rightarrow> fp)"

definition consumed :: "string \<Rightarrow> string option \<Rightarrow> string" where
  "consumed ip fr = ip @ (case fr of None \<Rightarrow> [] | Some fp \<Rightarrow> CHR ''.'' # fp)"

text \<open>The offset in the text of the \<open>i\<close>-th digit.\<close>

definition digit_offset :: "string \<Rightarrow> nat \<Rightarrow> nat" where
  "digit_offset ip i = (if i < length ip then i else i + 1)"

definition overflow_position :: "nat \<Rightarrow> string \<Rightarrow> string \<Rightarrow> nat" where
  "overflow_position s ip fp =
     (if int (digits_value (ip @ take s fp)) \<le> INT64_MAX then kNoErrorOffset
      else digit_offset ip (overflow_index (ip @ take s fp)))"

definition inexact_position :: "nat \<Rightarrow> string \<Rightarrow> string \<Rightarrow> nat" where
  "inexact_position s ip fp =
     (if exact_at s fp then kNoErrorOffset
      else length ip + 1 + s + length (takeWhile (\<lambda>c. c = CHR ''0'') (drop s fp)))"

definition scan_inv :: "nat \<Rightarrow> string \<Rightarrow> string option \<Rightarrow> parse_state \<Rightarrow> bool" where
  "scan_inv s ip fr st \<longleftrightarrow>
     target_fraction_digits st = s \<and>
     in_fraction st = (fr \<noteq> None) \<and>
     source_fraction_digits st = length (fraction_of fr) \<and>
     (fr \<noteq> None \<longrightarrow> decimal_point_offset st = length ip) \<and>
     0 \<le> ps_units st \<and> ps_units st \<le> INT64_MAX \<and>
     ps_overflow st = (int (digits_value (ip @ take s (fraction_of fr))) > INT64_MAX) \<and>
     (\<not> ps_overflow st \<longrightarrow> ps_units st = int (digits_value (ip @ take s (fraction_of fr)))) \<and>
     overflow_offset st = overflow_position s ip (fraction_of fr) \<and>
     inexact_offset st = inexact_position s ip (fraction_of fr)"

lemma digit_int: "is_ascii_digit c \<Longrightarrow>
    int (char_code c) - int (char_code CHR ''0'') = int (digit_value c)"
  by (simp add: is_ascii_digit_alt digit_value_def)

text \<open>\<open>append_digit\<close> extends the exact value by one digit.\<close>

lemma append_digit_value:
  fixes n :: nat
  assumes "is_ascii_digit c"
    and "0 \<le> ps_units st" "ps_units st \<le> INT64_MAX"
    and "ps_overflow st = (int (digits_value ds) > INT64_MAX)"
    and "\<not> ps_overflow st \<longrightarrow> ps_units st = int (digits_value ds)"
  defines "st' \<equiv> append_digit st \<lparr>sc_value = c, sc_offset = n\<rparr>"
  shows "0 \<le> ps_units st'" and "ps_units st' \<le> INT64_MAX"
    and "ps_overflow st' = (int (digits_value (ds @ [c])) > INT64_MAX)"
    and "\<not> ps_overflow st' \<Longrightarrow> ps_units st' = int (digits_value (ds @ [c]))"
    and "overflow_offset st' =
      (if ps_overflow st' \<and> \<not> ps_overflow st then n else overflow_offset st)"
proof -
  have d: "digit_value c < 10" using assms(1) by (rule digit_value_less)
  then have guard: "c_div (INT64_MAX - int (digit_value c)) 10 = (INT64_MAX - int (digit_value c)) div 10"
    by (intro c_div_nonneg) auto
  note defs = st'_def append_digit_def Let_def scanned_character.simps digit_int[OF assms(1)] guard
  show "0 \<le> ps_units st'" "ps_units st' \<le> INT64_MAX"
    and "ps_overflow st' = (int (digits_value (ds @ [c])) > INT64_MAX)"
    and "\<not> ps_overflow st' \<Longrightarrow> ps_units st' = int (digits_value (ds @ [c]))"
    and "overflow_offset st' =
      (if ps_overflow st' \<and> \<not> ps_overflow st then n else overflow_offset st)"
    using assms(2-5) unfolding defs append_guard_exact by auto
qed

lemma consumed_simps:
  "consumed ip None = ip"
  "consumed ip (Some fp) = ip @ CHR ''.'' # fp"
  by (simp_all add: consumed_def)

text \<open>Reading a digit of the integer part.\<close>

lemma scan_inv_integer_digit:
  assumes inv: "scan_inv s ip None st" and c: "is_ascii_digit c"
  shows "scan_inv s (ip @ [c]) None (append_digit st \<lparr>sc_value = c, sc_offset = length ip\<rparr>)"
    (is "scan_inv s _ None ?st'")
proof -
  have frame: "target_fraction_digits ?st' = target_fraction_digits st"
    "in_fraction ?st' = in_fraction st" "source_fraction_digits ?st' = source_fraction_digits st"
    "inexact_offset ?st' = inexact_offset st"
    by (simp_all add: append_digit_def Let_def)
  have pre: "0 \<le> ps_units st" "ps_units st \<le> INT64_MAX"
    "ps_overflow st = (int (digits_value ip) > INT64_MAX)"
    "\<not> ps_overflow st \<longrightarrow> ps_units st = int (digits_value ip)"
    "overflow_offset st = overflow_position s ip []"
    using inv by (simp_all add: scan_inv_def)
  note val = append_digit_value[OF c pre(1-4), of "length ip"]
  have "overflow_offset ?st' = overflow_position s (ip @ [c]) []"
  proof (cases "int (digits_value ip) > INT64_MAX")
    case True
    have "int (digits_value (ip @ [c])) > INT64_MAX" using True by simp
    moreover have "overflow_index (ip @ [c]) = overflow_index ip"
      using True by (rule overflow_index_stable)
    moreover have "overflow_index ip < length ip"
      using True by (rule overflow_index_bound)
    ultimately show ?thesis
      using True val(3,5) pre(3,5) by (simp add: overflow_position_def digit_offset_def)
  next
    case False
    then show ?thesis
      using val(3,5) pre(3,5) overflow_index_new[of ip c]
      by (auto simp: overflow_position_def digit_offset_def)
  qed
  with inv frame val(1-4) show ?thesis
    by (simp add: scan_inv_def inexact_position_def exact_at_def)
qed

text \<open>Reading the decimal point.\<close>

lemma scan_inv_point:
  assumes "scan_inv s ip None st"
  shows "scan_inv s ip (Some []) (st\<lparr>in_fraction := True, decimal_point_offset := length ip\<rparr>)"
  using assms by (simp add: scan_inv_def)

text \<open>Reading a digit of the fraction.\<close>

lemma inexact_position_snoc:
  assumes "s \<le> length fp" and "length ip + 1 + length fp < SIZE_MAX"
  shows "inexact_position s ip (fp @ [c]) =
    (if c \<noteq> CHR ''0'' \<and> inexact_position s ip fp = kNoErrorOffset then length ip + 1 + length fp
     else inexact_position s ip fp)"
proof (cases "exact_at s fp")
  case True
  then have "takeWhile (\<lambda>c. c = CHR ''0'') (drop s fp) = drop s fp"
    by (simp add: exact_at_def list_all_iff takeWhile_eq_all_conv)
  with True assms show ?thesis
    by (auto simp: inexact_position_def exact_at_def takeWhile_append list_all_iff)
next
  case False
  then have "\<exists>d \<in> set (drop s fp). d \<noteq> CHR ''0''"
    by (auto simp: exact_at_def list_all_iff)
  then have "takeWhile (\<lambda>c. c = CHR ''0'') (drop s fp @ [c]) =
      takeWhile (\<lambda>c. c = CHR ''0'') (drop s fp)"
    by (auto intro: takeWhile_append1)
  moreover have "length (takeWhile (\<lambda>c. c = CHR ''0'') (drop s fp)) \<le> length fp - s"
    using length_takeWhile_le[of _ "drop s fp"] by simp
  ultimately show ?thesis
    using False assms by (auto simp: inexact_position_def exact_at_def)
qed

lemma inexact_position_less:
  assumes "\<not> exact_at s fp"
  shows "inexact_position s ip fp < length ip + 1 + length fp"
proof -
  let ?tw = "takeWhile (\<lambda>c. c = CHR ''0'') (drop s fp)"
  have "?tw \<noteq> drop s fp"
    using assms by (auto simp: exact_at_def list_all_iff takeWhile_eq_all_conv)
  then have "length ?tw < length (drop s fp)"
    by (metis length_takeWhile_le nat_less_le takeWhile_eq_take take_all_iff)
  with assms show ?thesis by (simp add: inexact_position_def)
qed

lemma inexact_position_short: "length fp \<le> s \<Longrightarrow> inexact_position s ip fp = kNoErrorOffset"
  by (simp add: inexact_position_def exact_at_def)

lemma overflow_position_snoc:
  assumes "length fp + 1 \<le> s"
  shows "overflow_position s ip (fp @ [c]) =
    (if int (digits_value (ip @ fp)) > INT64_MAX then overflow_position s ip fp
     else if int (digits_value ((ip @ fp) @ [c])) > INT64_MAX then length ip + 1 + length fp
     else overflow_position s ip fp)"
proof (cases "int (digits_value (ip @ fp)) > INT64_MAX")
  case True
  moreover have "overflow_index ((ip @ fp) @ [c]) = overflow_index (ip @ fp)"
    using True by (rule overflow_index_stable)
  moreover have "int (digits_value ((ip @ fp) @ [c])) > INT64_MAX"
    using True by (simp only: digits_value_snoc)
  ultimately show ?thesis using assms by (simp add: overflow_position_def)
next
  case False
  with assms overflow_index_new[of "ip @ fp" c] show ?thesis
    by (auto simp: overflow_position_def digit_offset_def)
qed

lemma scan_inv_fraction_digit:
  assumes inv: "scan_inv s ip (Some fp) st" and c: "is_ascii_digit c"
    and small: "length ip + 1 + length fp < SIZE_MAX"
  defines "ch \<equiv> \<lparr>sc_value = c, sc_offset = length ip + 1 + length fp\<rparr>"
  shows "scan_inv s ip (Some (fp @ [c]))
    (case should_consume_digit st ch of (consume, st1) \<Rightarrow>
       if consume then append_digit st1 ch else st1)"
proof -
  have tgt: "target_fraction_digits st = s" "in_fraction st"
    "source_fraction_digits st = length fp"
    using inv by (auto simp: scan_inv_def)
  let ?st1 = "st\<lparr>source_fraction_digits := length fp + 1\<rparr>"
  show ?thesis
  proof (cases "length fp + 1 \<le> s")
    case True
    let ?st' = "append_digit ?st1 ch"
    have step: "(case should_consume_digit st ch of (consume, st1) \<Rightarrow>
        if consume then append_digit st1 ch else st1) = ?st'"
      using tgt True by (simp add: should_consume_digit_def)
    have frame: "target_fraction_digits ?st' = s" "in_fraction ?st'"
      "source_fraction_digits ?st' = length fp + 1" "decimal_point_offset ?st' = decimal_point_offset st"
      "inexact_offset ?st' = inexact_offset st"
      using tgt by (simp_all add: append_digit_def Let_def)
    have pre: "0 \<le> ps_units ?st1" "ps_units ?st1 \<le> INT64_MAX"
      "ps_overflow ?st1 = (int (digits_value (ip @ fp)) > INT64_MAX)"
      "\<not> ps_overflow ?st1 \<longrightarrow> ps_units ?st1 = int (digits_value (ip @ fp))"
      "overflow_offset ?st1 = overflow_position s ip fp"
      using inv True by (simp_all add: scan_inv_def)
    note val = append_digit_value[OF c pre(1-4), of "length ip + 1 + length fp", folded ch_def]
    have "overflow_offset ?st' = overflow_position s ip (fp @ [c])"
      using val(3,5) pre(3,5) overflow_position_snoc[OF True, of ip c] by simp
    with inv tgt frame val(1-4) True show ?thesis
      unfolding step by (simp add: scan_inv_def inexact_position_short)
  next
    case False
    then have "s \<le> length fp" by simp
    note snoc = inexact_position_snoc[OF this small, of c]
    have "overflow_position s ip (fp @ [c]) = overflow_position s ip fp"
      using False by (simp add: overflow_position_def)
    then show ?thesis
      using inv tgt False snoc
      by (auto simp: scan_inv_def should_consume_digit_def Let_def ch_def)
  qed
qed

subsection \<open>The loop on a well-formed text\<close>

lemma parse_chars_end [simp]: "parse_chars text st (length text) = Inr st"
  by (simp add: parse_chars.simps)

lemma scan_integer:
  assumes "scan_inv s ip None st" and "list_all is_ascii_digit ds" and "text = ip @ ds @ rest"
    and "text \<noteq> [] \<Longrightarrow> hd text = CHR ''0'' \<Longrightarrow> length (ip @ ds) \<le> 1"
  shows "\<exists>st'. scan_inv s (ip @ ds) None st' \<and>
    parse_chars text st (length ip) = parse_chars text st' (length (ip @ ds))"
  using assms
proof (induction ds arbitrary: ip st)
  case Nil
  then show ?case by auto
next
  case (Cons c ds)
  let ?st1 = "append_digit st \<lparr>sc_value = c, sc_offset = length ip\<rparr>"
  have at: "text ! length ip = c" "length ip < length text" "c \<noteq> CHR ''.''"
    using Cons.prems by (auto simp: nth_append)
  have nolead: "\<not> (length ip > 0 \<and> hd text = CHR ''0'')"
    using Cons.prems at by (cases ip) auto
  have "consume_character text st (length ip) = (None, ?st1)"
    using Cons.prems(1,2) at nolead
    by (auto simp: consume_character_def should_consume_digit_def scan_inv_def Let_def)
  then have step: "parse_chars text st (length ip) = parse_chars text ?st1 (length (ip @ [c]))"
    using at by (subst parse_chars.simps) simp
  have "scan_inv s (ip @ [c]) None ?st1"
    using Cons.prems by (simp add: scan_inv_integer_digit)
  then obtain st' where "scan_inv s ((ip @ [c]) @ ds) None st'"
    "parse_chars text ?st1 (length (ip @ [c])) = parse_chars text st' (length ((ip @ [c]) @ ds))"
    using Cons.IH[of "ip @ [c]" ?st1] Cons.prems by auto
  with step show ?case by auto
qed

lemma scan_fraction:
  assumes "scan_inv s ip (Some fp) st" and "list_all is_ascii_digit ds"
    and "text = ip @ CHR ''.'' # fp @ ds @ rest" and "length text \<le> SIZE_MAX"
  shows "\<exists>st'. scan_inv s ip (Some (fp @ ds)) st' \<and>
    parse_chars text st (length ip + 1 + length fp) =
      parse_chars text st' (length ip + 1 + length (fp @ ds))"
  using assms
proof (induction ds arbitrary: fp st)
  case Nil
  then show ?case by auto
next
  case (Cons c ds)
  let ?n = "length ip + 1 + length fp"
  let ?ch = "\<lparr>sc_value = c, sc_offset = ?n\<rparr>"
  let ?st1 = "case should_consume_digit st ?ch of (consume, st1) \<Rightarrow>
    if consume then append_digit st1 ?ch else st1"
  have at: "text ! ?n = c" "?n < length text" "c \<noteq> CHR ''.''"
    using Cons.prems by (auto simp: nth_append)
  have "in_fraction st" using Cons.prems by (simp add: scan_inv_def)
  then have "consume_character text st ?n = (None, ?st1)"
    using Cons.prems at
    by (simp add: consume_character_def split: prod.split)
  then have step: "parse_chars text st ?n = parse_chars text ?st1 (length ip + 1 + length (fp @ [c]))"
    using at by (subst parse_chars.simps) simp
  have "scan_inv s ip (Some (fp @ [c])) ?st1"
    using Cons.prems at by (intro scan_inv_fraction_digit) auto
  then obtain st' where "scan_inv s ip (Some ((fp @ [c]) @ ds)) st'"
    "parse_chars text ?st1 (length ip + 1 + length (fp @ [c])) =
      parse_chars text st' (length ip + 1 + length ((fp @ [c]) @ ds))"
    using Cons.IH[of "fp @ [c]" ?st1] Cons.prems by auto
  with step show ?case by auto
qed

definition scan_start :: "nat \<Rightarrow> parse_state" where
  "scan_start s = initial_parse_state\<lparr>target_fraction_digits := s\<rparr>"

lemma scan_inv_start: "scan_inv s [] None (scan_start s)"
  by (simp add: scan_inv_def scan_start_def initial_parse_state_def overflow_position_def
      inexact_position_def exact_at_def)

lemma parse_chars_denotes:
  assumes "denotes text ip fp" and "length text \<le> SIZE_MAX"
  shows "\<exists>st. parse_chars text (scan_start s) 0 = Inr st \<and>
    scan_inv s ip (if fp = [] then None else Some fp) st"
proof -
  have ip: "ip \<noteq> []" "list_all is_ascii_digit ip" "hd ip = CHR ''0'' \<longrightarrow> length ip = 1"
    and fp: "list_all is_ascii_digit fp" and tx: "text = decimal_text ip fp"
    using assms(1) by (auto simp: denotes_def integer_part_def)
  have "text = [] @ ip @ (if fp = [] then [] else CHR ''.'' # fp)"
    using tx by (simp add: decimal_text_def)
  moreover have "hd text = CHR ''0'' \<Longrightarrow> length ([] @ ip) \<le> 1"
    using ip tx by (auto simp: decimal_text_def)
  ultimately obtain st1 where st1: "scan_inv s ip None st1"
    "parse_chars text (scan_start s) 0 = parse_chars text st1 (length ip)"
    using scan_integer[OF scan_inv_start, of ip "text"] ip by fastforce
  show ?thesis
  proof (cases "fp = []")
    case True
    with st1 tx show ?thesis by (auto simp: decimal_text_def)
  next
    case False
    with tx have text': "text = ip @ CHR ''.'' # fp" by (simp add: decimal_text_def)
    let ?st2 = "st1\<lparr>in_fraction := True, decimal_point_offset := length ip\<rparr>"
    have "consume_character text st1 (length ip) = (None, ?st2)"
      using st1(1) ip(1) text'
      by (simp add: consume_character_def consume_decimal_point_def scan_inv_def)
    then have "parse_chars text st1 (length ip) = parse_chars text ?st2 (length ip + 1)"
      using text' by (subst parse_chars.simps) simp
    moreover obtain st3 where "scan_inv s ip (Some fp) st3"
      "parse_chars text ?st2 (length ip + 1) = parse_chars text st3 (length text)"
      using scan_fraction[OF scan_inv_point[OF st1(1)] fp, of "text" "[]"] text' assms(2) by auto
    ultimately show ?thesis
      using st1(2) False by auto
  qed
qed

subsection \<open>The loop on any text\<close>

definition viable :: "string \<Rightarrow> string option \<Rightarrow> bool" where
  "viable ip fr \<longleftrightarrow> list_all is_ascii_digit ip \<and> list_all is_ascii_digit (fraction_of fr) \<and>
     (ip \<noteq> [] \<longrightarrow> hd ip = CHR ''0'' \<longrightarrow> length ip = 1) \<and> (fr \<noteq> None \<longrightarrow> ip \<noteq> [])"

text \<open>A character that is consumed without an error extends what was read so far.\<close>

lemma consume_character_sound:
  fixes ip :: string and fr :: "string option"
  defines "n \<equiv> length (consumed ip fr)"
  assumes inv: "scan_inv s ip fr st" and viable: "viable ip fr"
    and "text": "text = consumed ip fr @ c # rest" and small: "length text \<le> SIZE_MAX"
    and step: "consume_character text st n = (None, st1)"
  shows "\<exists>ip1 fr1. scan_inv s ip1 fr1 st1 \<and> viable ip1 fr1 \<and> consumed ip1 fr1 = consumed ip fr @ [c]"
proof -
  have at: "text ! n = c" "n < length text" using "text" by (auto simp: nth_append n_def)
  have infr: "in_fraction st = (fr \<noteq> None)" using inv by (simp add: scan_inv_def)
  show ?thesis
  proof (cases fr)
    case None
    show ?thesis
    proof (cases "c = CHR ''.''")
      case True
      with step at None infr have "ip \<noteq> []" and
        "st1 = st\<lparr>in_fraction := True, decimal_point_offset := length ip\<rparr>"
        by (auto simp: n_def consume_character_def consume_decimal_point_def consumed_simps split: if_splits)
      with inv viable None True show ?thesis
        by (intro exI[of _ ip] exI[of _ "Some []"]) (auto simp: scan_inv_point viable_def consumed_simps)
    next
      case False
      with step at None infr have "is_ascii_digit c" and "\<not> (ip \<noteq> [] \<and> hd text = CHR ''0'')"
        and "st1 = append_digit st \<lparr>sc_value = c, sc_offset = length ip\<rparr>"
        by (auto simp: n_def consume_character_def should_consume_digit_def consumed_simps Let_def
            split: if_splits)
      moreover have "ip \<noteq> [] \<Longrightarrow> hd text = hd ip" using "text" None by (simp add: consumed_simps)
      ultimately show ?thesis
        using inv viable None
        by (intro exI[of _ "ip @ [c]"] exI[of _ None])
          (auto simp: scan_inv_integer_digit viable_def consumed_simps hd_append split: if_splits)
    qed
  next
    case (Some fp)
    then have n: "n = length ip + 1 + length fp" by (simp add: n_def consumed_simps)
    have "is_ascii_digit c" and
      "st1 = (case should_consume_digit st \<lparr>sc_value = c, sc_offset = n\<rparr> of (consume, st1) \<Rightarrow>
         if consume then append_digit st1 \<lparr>sc_value = c, sc_offset = n\<rparr> else st1)"
      using step at infr Some
      by (auto simp: consume_character_def consume_decimal_point_def Let_def split: if_splits prod.splits)
    moreover have "length ip + 1 + length fp < SIZE_MAX" using n at small by simp
    ultimately have "scan_inv s ip (Some (fp @ [c])) st1" "is_ascii_digit c"
      using inv Some scan_inv_fraction_digit[of s ip fp st c] unfolding n by blast+
    with viable Some show ?thesis
      by (intro exI[of _ ip] exI[of _ "Some (fp @ [c])"]) (auto simp: viable_def consumed_simps)
  qed
qed

lemma parse_chars_sound:
  assumes "scan_inv s ip fr st" and "viable ip fr"
    and "text = consumed ip fr @ rest" and "length text \<le> SIZE_MAX"
    and "parse_chars text st (length (consumed ip fr)) = Inr st'"
  shows "\<exists>ip' fr'. text = consumed ip' fr' \<and> viable ip' fr' \<and> scan_inv s ip' fr' st'"
  using assms
proof (induction rest arbitrary: ip fr st)
  case Nil
  then show ?case by auto
next
  case (Cons c rest)
  let ?n = "length (consumed ip fr)"
  have "?n < length text" using Cons.prems(3) by simp
  then obtain st1 where step: "consume_character text st ?n = (None, st1)"
    and rec: "parse_chars text st1 (?n + 1) = Inr st'"
    using Cons.prems(5)
    by (subst (asm) parse_chars.simps) (auto split: prod.splits option.splits)
  obtain ip1 fr1 where nx: "scan_inv s ip1 fr1 st1" "viable ip1 fr1"
    "consumed ip1 fr1 = consumed ip fr @ [c]"
    using consume_character_sound[OF Cons.prems(1-4) step] by blast
  have "text = consumed ip1 fr1 @ rest" using Cons.prems(3) nx(3) by simp
  moreover have "parse_chars text st1 (length (consumed ip1 fr1)) = Inr st'"
    using rec nx(3) by simp
  ultimately show ?case using Cons.IH nx(1,2) Cons.prems(4) by blast
qed

lemma parse_chars_error_code:
  "parse_chars text st n = Inl e \<Longrightarrow> dec_code e \<in> {InvalidSyntax, LeadingZero}"
proof (induction "text" st n rule: parse_chars.induct)
  case (1 "text" st n)
  have one: "dec_code e' \<in> {InvalidSyntax, LeadingZero}"
    if "consume_character text st n = (Some e', st1)" for e' st1
    using that by (auto simp: consume_character_def consume_decimal_point_def Let_def
        split: if_splits prod.splits)
  from "1.prems" have "n < length text"
    by (subst (asm) parse_chars.simps) (auto split: if_splits)
  with "1.prems" consider (err) st1 where "consume_character text st n = (Some e, st1)"
    | (rec) st1 where "consume_character text st n = (None, st1)" "parse_chars text st1 (n + 1) = Inl e"
    by (subst (asm) parse_chars.simps) (auto split: prod.splits option.splits)
  then show ?case
  proof cases
    case err
    then show ?thesis by (rule one)
  next
    case rec
    with "1.IH" \<open>n < length text\<close> show ?thesis by fastforce
  qed
qed

subsection \<open>What \<open>parse_magnitude\<close> computes\<close>

lemma pad_to_storage_scale_value:
  assumes "scan_inv s ip fr st" and "s \<le> 18"
  defines "fp \<equiv> fraction_of fr"
  shows "ps_overflow (pad_to_storage_scale st) = (int (scaled_units s ip fp) > INT64_MAX)"
    and "\<not> ps_overflow (pad_to_storage_scale st) \<Longrightarrow>
      ps_units (pad_to_storage_scale st) = int (scaled_units s ip fp)"
    and "source_fraction_digits (pad_to_storage_scale st) = length fp"
    and "overflow_offset (pad_to_storage_scale st) = overflow_position s ip fp"
proof -
  let ?v = "digits_value (ip @ take s fp)"
  let ?m = "10 ^ (s - length fp) :: int"
  have inv: "target_fraction_digits st = s" "source_fraction_digits st = length fp"
    "ps_overflow st = (int ?v > INT64_MAX)" "\<not> ps_overflow st \<longrightarrow> ps_units st = int ?v"
    "overflow_offset st = overflow_position s ip fp"
    using assms(1) unfolding fp_def by (simp_all add: scan_inv_def)
  have scaled: "int (scaled_units s ip fp) = int ?v * ?m"
    by (simp add: scaled_units_def)
  have grow: "int ?v \<le> int ?v * ?m"
    using mult_left_mono[of 1 ?m "int ?v"] by simp
  have table: "kPowersOfTen ! (s - length fp) = ?m"
    using assms(2) by (intro kPowersOfTen_nth) simp
  have guard: "c_div INT64_MAX ?m = INT64_MAX div ?m"
    by (rule c_div_nonneg) auto
  note defs = pad_to_storage_scale_def Let_def inv(1,2) table guard scaled
  show "ps_overflow (pad_to_storage_scale st) = (int (scaled_units s ip fp) > INT64_MAX)"
    and "\<not> ps_overflow (pad_to_storage_scale st) \<Longrightarrow>
      ps_units (pad_to_storage_scale st) = int (scaled_units s ip fp)"
    using inv(3,4) grow pad_guard_exact[of ?m "int ?v"] unfolding defs by auto
  show "source_fraction_digits (pad_to_storage_scale st) = length fp"
    and "overflow_offset (pad_to_storage_scale st) = overflow_position s ip fp"
    using inv(2,5) by (simp_all add: pad_to_storage_scale_def Let_def)
qed

text \<open>The result on a well-formed text.\<close>

lemma parse_magnitude_denotes:
  fixes scale :: decimal_scale
  assumes "denotes text ip fp" and "length text \<le> SIZE_MAX"
  defines "s \<equiv> scale_digits scale"
  shows "parse_magnitude text scale =
    (if \<not> exact_at s fp then Inl (DecimalError InexactScale (inexact_position s ip fp))
     else if int (scaled_units s ip fp) > INT64_MAX
       then Inl (DecimalError Overflow (overflow_position s ip fp))
     else Inr \<lparr>mag_units = int (scaled_units s ip fp), mag_fraction_digits = length fp\<rparr>)"
proof -
  let ?fr = "if fp = [] then None else Some fp"
  obtain st where st: "parse_chars text (scan_start s) 0 = Inr st" "scan_inv s ip ?fr st"
    using parse_chars_denotes[OF assms(1,2)] by blast
  have fr: "fraction_of ?fr = fp" by simp
  have first: "text \<noteq> []" "is_ascii_digit (hd text)"
    using assms(1) by (auto simp: denotes_def integer_part_def decimal_text_def hd_append list_all_iff)
  then have nosign: "hd text \<noteq> CHR ''+''" "hd text \<noteq> CHR ''-''" by auto
  have "s \<le> 18" unfolding s_def by (rule scale_digits_le)
  note pad = pad_to_storage_scale_value[OF st(2) this, unfolded fr]
  have present: "\<not> (in_fraction st \<and> source_fraction_digits st = 0)"
    and inexact: "inexact_offset st = inexact_position s ip fp"
    using st(2) by (auto simp: scan_inv_def split: if_splits)
  have "inexact_position s ip fp = kNoErrorOffset \<longleftrightarrow> exact_at s fp"
  proof (cases "exact_at s fp")
    case False
    then have "fp \<noteq> []" by (auto simp: exact_at_def)
    then have "length ip + 1 + length fp \<le> SIZE_MAX"
      using assms(1,2) by (auto simp: denotes_def decimal_text_def)
    with False inexact_position_less[OF False, of ip] show ?thesis by simp
  qed (simp add: inexact_position_def)
  with st(1) nosign first(1) present inexact pad show ?thesis
    by (simp add: parse_magnitude_def scan_start_def s_def Let_def)
qed

text \<open>Every other text gets one of the syntax errors.\<close>

lemma parse_magnitude_ill_formed:
  assumes "\<not> well_formed_decimal text" and "length text \<le> SIZE_MAX"
  shows "\<exists>e. parse_magnitude text scale = Inl e \<and>
    dec_code e \<in> {Empty, InvalidSyntax, SignNotAllowed, LeadingZero, MissingFractionDigits}"
proof (cases "text = [] \<or> hd text = CHR ''+'' \<or> hd text = CHR ''-''")
  case True
  then show ?thesis by (auto simp: parse_magnitude_def)
next
  case False
  let ?s = "scale_digits scale"
  show ?thesis
  proof (cases "parse_chars text (scan_start ?s) 0")
    case (Inl e)
    with False parse_chars_error_code[OF Inl] show ?thesis
      by (auto simp: parse_magnitude_def scan_start_def)
  next
    case (Inr st)
    have "viable [] None" by (simp add: viable_def)
    moreover have "text = consumed [] None @ text" "parse_chars text (scan_start ?s) (length (consumed [] None)) = Inr st"
      using Inr by (simp_all add: consumed_simps)
    ultimately obtain ip fr where
      fin: "text = consumed ip fr" "viable ip fr" "scan_inv ?s ip fr st"
      using parse_chars_sound[OF scan_inv_start] assms(2) by blast
    have "fr = Some []"
    proof (rule ccontr)
      assume "fr \<noteq> Some []"
      with fin(1,2) False have "denotes text ip (fraction_of fr)"
        by (cases fr) (auto simp: denotes_def viable_def integer_part_def decimal_text_def consumed_simps)
      with assms(1) show False by (auto simp: well_formed_decimal_def)
    qed
    with fin(3) have "in_fraction st \<and> source_fraction_digits st = 0"
      by (simp add: scan_inv_def)
    with Inr False show ?thesis
      by (auto simp: parse_magnitude_def scan_start_def)
  qed
qed

lemma parse_magnitude_Inr_iff:
  assumes "length text \<le> SIZE_MAX"
  shows "parse_magnitude text scale = Inr \<lparr>mag_units = u, mag_fraction_digits = n\<rparr> \<longleftrightarrow>
    (\<exists>ip fp. denotes text ip fp \<and> n = length fp \<and> u \<le> INT64_MAX \<and>
       decimal_rat ip fp * 10 ^ scale_digits scale = of_int u)"
proof (cases "well_formed_decimal text")
  case True
  then obtain ip fp where d: "denotes text ip fp" by (auto simp: well_formed_decimal_def)
  then have fp: "list_all is_ascii_digit fp" by (simp add: denotes_def)
  have "parse_magnitude text scale = Inr \<lparr>mag_units = u, mag_fraction_digits = n\<rparr> \<longleftrightarrow>
      exact_at (scale_digits scale) fp \<and> u = int (scaled_units (scale_digits scale) ip fp) \<and>
      u \<le> INT64_MAX \<and> n = length fp"
    using parse_magnitude_denotes[OF d assms, of scale] by auto
  also have "\<dots> \<longleftrightarrow> n = length fp \<and> u \<le> INT64_MAX \<and>
      decimal_rat ip fp * 10 ^ scale_digits scale = of_int u"
    unfolding decimal_rat_integral_iff[OF fp] by blast
  also have "\<dots> \<longleftrightarrow> (\<exists>ip fp. denotes text ip fp \<and> n = length fp \<and> u \<le> INT64_MAX \<and>
      decimal_rat ip fp * 10 ^ scale_digits scale = of_int u)"
    using d denotes_unique[OF d] by blast
  finally show ?thesis .
next
  case False
  with parse_magnitude_ill_formed[OF False assms, of scale] show ?thesis
    by (auto simp: well_formed_decimal_def)
qed

lemma parse_magnitude_nonneg:
  assumes "length text \<le> SIZE_MAX" and "parse_magnitude text scale = Inr m"
  shows "0 \<le> mag_units m \<and> mag_units m \<le> INT64_MAX"
proof -
  have wf: "well_formed_decimal text"
    using parse_magnitude_ill_formed[OF _ assms(1), of scale] assms(2) by auto
  then obtain ip fp where "denotes text ip fp" by (auto simp: well_formed_decimal_def)
  from parse_magnitude_denotes[OF this assms(1), of scale] assms(2) show ?thesis
    by (auto split: if_splits)
qed

lemma parse_price_Inr_iff:
  assumes "length text \<le> SIZE_MAX"
  shows "parse_price text scale = Inr \<lparr>pd_value = p, pd_fraction_digits = n\<rparr> \<longleftrightarrow>
    parse_magnitude text scale = Inr \<lparr>mag_units = price_value p, mag_fraction_digits = n\<rparr>"
proof (cases "parse_magnitude text scale")
  case (Inr m)
  have "mag_units m \<le> INT64_MAX" using parse_magnitude_nonneg[OF assms Inr] by simp
  with Inr show ?thesis
    by (cases m) (auto simp: parse_price_def PriceUnits_create_Some_iff price_value_inject
        split: option.splits)
qed (simp add: parse_price_def)

lemma parse_quantity_Inr_iff:
  assumes "length text \<le> SIZE_MAX"
  shows "parse_quantity text scale = Inr \<lparr>pd_value = q, pd_fraction_digits = n\<rparr> \<longleftrightarrow>
    parse_magnitude text scale = Inr \<lparr>mag_units = quantity_value q, mag_fraction_digits = n\<rparr>"
proof (cases "parse_magnitude text scale")
  case (Inr m)
  have "mag_units m \<le> INT64_MAX" using parse_magnitude_nonneg[OF assms Inr] by simp
  with Inr show ?thesis
    by (cases m) (auto simp: parse_quantity_def QuantityUnits_create_Some_iff quantity_value_inject
        split: option.splits)
qed (simp add: parse_quantity_def)

lemma parse_positive_quantity_Inr_iff:
  "parse_positive_quantity text scale = Inr r \<longleftrightarrow>
    parse_quantity text scale = Inr r \<and> 0 < quantity_value (pd_value r)"
proof (cases "parse_quantity text scale")
  case (Inr r')
  have "quantity_value (pd_value r') = 0 \<or> 0 < quantity_value (pd_value r')"
    using quantity_value_range(1)[of "pd_value r'"] by linarith
  with Inr show ?thesis
    by (auto simp: parse_positive_quantity_def)
qed (simp add: parse_positive_quantity_def)

subsection \<open>Properties\<close>

text \<open>
  C7: exact or rejected.  \<open>parse_magnitude\<close> accepts a text exactly when it is a well-formed
  decimal whose value times \<open>10 ^ scale\<close> is an integer that fits a signed 64-bit value; the result
  is that integer, never a rounded one, with the number of fraction digits of the text.
\<close>

theorem parse_magnitude_exact_or_rejected:
  assumes "length text \<le> SIZE_MAX"
  shows "parse_magnitude text scale = Inr \<lparr>mag_units = u, mag_fraction_digits = n\<rparr> \<longleftrightarrow>
    (\<exists>ip fp. denotes text ip fp \<and> n = length fp \<and> u \<le> INT64_MAX \<and>
       decimal_rat ip fp * 10 ^ scale_digits scale = of_int u)"
  using assms by (rule parse_magnitude_Inr_iff)

theorem parse_magnitude_exact_or_rejected_witness:
  "parse_magnitude ''1.50'' (DecimalScale 3) = Inr \<lparr>mag_units = 1500, mag_fraction_digits = 2\<rparr>"
proof -
  have len: "length ''1.50'' \<le> SIZE_MAX" by simp
  have "denotes ''1.50'' ''1'' ''50''"
    by (simp add: denotes_def decimal_text_def integer_part_def is_ascii_digit_alt)
  moreover have "decimal_rat ''1'' ''50'' * 10 ^ scale_digits (DecimalScale 3) = of_int 1500"
    by (simp add: decimal_rat_def digits_value_def digit_value_def scale_digits_def)
  ultimately show ?thesis
    unfolding parse_magnitude_exact_or_rejected[OF len]
    by (intro exI[of _ "''1''"] exI[of _ "''50''"]) simp
qed

text \<open>
  C22: the error says what is wrong.  A rejected text is reported as a syntax error exactly when it
  is not a well-formed decimal; otherwise as inexact, at the offset of the first non-zero digit
  beyond the scale, or as an overflow, at the digit that left the 64-bit range or without an
  offset when only padding with zeros leaves it.
\<close>

theorem parse_magnitude_error_classified:
  assumes "length text \<le> SIZE_MAX" and "parse_magnitude text scale = Inl e"
  shows "(dec_code e \<in> {Empty, InvalidSyntax, SignNotAllowed, LeadingZero, MissingFractionDigits}
          \<and> \<not> well_formed_decimal text)
    \<or> (\<exists>ip fp. denotes text ip fp \<and> \<not> exact_at (scale_digits scale) fp \<and>
          e = DecimalError InexactScale (inexact_position (scale_digits scale) ip fp))
    \<or> (\<exists>ip fp. denotes text ip fp \<and> exact_at (scale_digits scale) fp \<and>
          int (scaled_units (scale_digits scale) ip fp) > INT64_MAX \<and>
          e = DecimalError Overflow (overflow_position (scale_digits scale) ip fp))"
proof (cases "well_formed_decimal text")
  case True
  then obtain ip fp where d: "denotes text ip fp" by (auto simp: well_formed_decimal_def)
  with parse_magnitude_denotes[OF d assms(1), of scale] assms(2) show ?thesis
    by (auto split: if_splits)
next
  case False
  with parse_magnitude_ill_formed[OF False assms(1), of scale] assms(2) show ?thesis by auto
qed

lemma parse_magnitude_0_05_inexact:
  "parse_magnitude ''0.05'' (DecimalScale 1) = Inl (DecimalError InexactScale 3)"
proof -
  have d: "denotes ''0.05'' ''0'' ''05''"
    by (simp add: denotes_def decimal_text_def integer_part_def is_ascii_digit_alt)
  have len: "length ''0.05'' \<le> SIZE_MAX" by simp
  show ?thesis
    using parse_magnitude_denotes[OF d len, of "DecimalScale 1"]
    by (simp add: exact_at_def inexact_position_def scale_digits_def)
qed

theorem parse_magnitude_error_classified_witness:
  "\<exists>ip fp. denotes ''0.05'' ip fp \<and> \<not> exact_at (scale_digits (DecimalScale 1)) fp \<and>
     inexact_position (scale_digits (DecimalScale 1)) ip fp = 3"
proof -
  have len: "length ''0.05'' \<le> SIZE_MAX" by simp
  from parse_magnitude_error_classified[OF len parse_magnitude_0_05_inexact] show ?thesis
    by auto
qed

text \<open>
  The states the loop visits: the initial state, and every state a successful
  \<open>consume_character\<close> leads to.
\<close>

inductive scan_state :: "string \<Rightarrow> nat \<Rightarrow> nat \<Rightarrow> parse_state \<Rightarrow> bool" for t s where
  start: "scan_state t s 0 (initial_parse_state\<lparr>target_fraction_digits := s\<rparr>)"
| step: "scan_state t s n st \<Longrightarrow> n < length t \<Longrightarrow> consume_character t st n = (None, st') \<Longrightarrow>
    scan_state t s (n + 1) st'"

lemma append_digit_eq:
  assumes "is_ascii_digit (sc_value ch)" and "\<not> ps_overflow st"
  shows "append_digit st ch =
    (if ps_units st * 10 + int (digit_value (sc_value ch)) \<le> INT64_MAX
     then st\<lparr>ps_units := ps_units st * 10 + int (digit_value (sc_value ch))\<rparr>
     else st\<lparr>ps_overflow := True, overflow_offset := sc_offset ch\<rparr>)"
proof -
  have "digit_value (sc_value ch) < 10" using assms(1) by (rule digit_value_less)
  then have "c_div (INT64_MAX - int (digit_value (sc_value ch))) 10 =
      (INT64_MAX - int (digit_value (sc_value ch))) div 10"
    by (intro c_div_nonneg) auto
  with assms(2) show ?thesis
    unfolding append_digit_def digit_int[OF assms(1)] Let_def by (simp add: append_guard_exact not_le)
qed

lemma pad_to_storage_scale_eq:
  assumes "target_fraction_digits st \<le> 18" and "\<not> ps_overflow st"
    and "source_fraction_digits st < target_fraction_digits st"
  shows "pad_to_storage_scale st =
    (if ps_units st * 10 ^ (target_fraction_digits st - source_fraction_digits st) \<le> INT64_MAX
     then st\<lparr>ps_units := ps_units st * 10 ^ (target_fraction_digits st - source_fraction_digits st)\<rparr>
     else st\<lparr>ps_overflow := True\<rparr>)"
proof -
  let ?k = "target_fraction_digits st - source_fraction_digits st"
  have table: "kPowersOfTen ! ?k = 10 ^ ?k" using assms(1) by (intro kPowersOfTen_nth) simp
  have "c_div INT64_MAX (10 ^ ?k) = INT64_MAX div 10 ^ ?k" by (rule c_div_nonneg) auto
  with assms(2,3) show ?thesis
    unfolding pad_to_storage_scale_def Let_def table by (simp add: pad_guard_exact not_le)
qed

lemma append_digit_range:
  assumes "is_ascii_digit (sc_value ch)" and "0 \<le> ps_units st" and "ps_units st \<le> INT64_MAX"
  shows "0 \<le> ps_units (append_digit st ch)" and "ps_units (append_digit st ch) \<le> INT64_MAX"
  using append_digit_eq[OF assms(1), of st] assms(2,3)
  by (cases "ps_overflow st"; simp add: append_digit_def split: if_splits)+

lemma consume_character_range:
  assumes "consume_character t st n = (None, st')" and "0 \<le> ps_units st" "ps_units st \<le> INT64_MAX"
  shows "0 \<le> ps_units st' \<and> ps_units st' \<le> INT64_MAX"
proof -
  have "ps_units st1 = ps_units st" if "should_consume_digit st ch = (b, st1)" for ch b st1
    using that by (auto simp: should_consume_digit_def Let_def split: if_splits)
  with assms show ?thesis
    by (auto simp: consume_character_def consume_decimal_point_def Let_def
        intro: append_digit_range split: if_splits prod.splits)
qed

lemma scan_state_range:
  assumes "scan_state t s n st"
  shows "0 \<le> ps_units st" "ps_units st \<le> INT64_MAX" "target_fraction_digits st = s"
proof -
  have "0 \<le> ps_units st \<and> ps_units st \<le> INT64_MAX \<and> target_fraction_digits st = s"
    using assms
  proof (induction rule: scan_state.induct)
    case start
    then show ?case by (simp add: initial_parse_state_def)
  next
    case (step n st st')
    have "target_fraction_digits st' = target_fraction_digits st"
      using step.hyps(3)
      by (auto simp: consume_character_def consume_decimal_point_def should_consume_digit_def
          append_digit_def Let_def split: if_splits)
    with step consume_character_range[OF step.hyps(3)] show ?case by simp
  qed
  then show "0 \<le> ps_units st" "ps_units st \<le> INT64_MAX" "target_fraction_digits st = s" by simp_all
qed

text \<open>
  C23: no signed overflow, and none reported without need.  In every state the loop visits, on any
  bytes at all, the accumulator is within the signed 64-bit range, and so is the accumulator after
  padding to a valid scale.  The guards, which run before each multiplication, are exact: a digit is
  appended exactly when the new value fits and otherwise its offset is recorded as the overflow; the
  missing zeros are appended exactly when the padded value fits and otherwise the overflow is marked.
\<close>

theorem scan_units_in_range:
  assumes "scan_state t s n st" and "s \<le> 18"
  shows "0 \<le> ps_units st \<and> ps_units st \<le> INT64_MAX \<and>
    0 \<le> ps_units (pad_to_storage_scale st) \<and> ps_units (pad_to_storage_scale st) \<le> INT64_MAX \<and>
    (\<forall>ch. is_ascii_digit (sc_value ch) \<and> \<not> ps_overflow st \<longrightarrow>
       append_digit st ch =
         (if ps_units st * 10 + int (digit_value (sc_value ch)) \<le> INT64_MAX
          then st\<lparr>ps_units := ps_units st * 10 + int (digit_value (sc_value ch))\<rparr>
          else st\<lparr>ps_overflow := True, overflow_offset := sc_offset ch\<rparr>)) \<and>
    (\<not> ps_overflow st \<and> source_fraction_digits st < s \<longrightarrow>
       pad_to_storage_scale st =
         (if ps_units st * 10 ^ (s - source_fraction_digits st) \<le> INT64_MAX
          then st\<lparr>ps_units := ps_units st * 10 ^ (s - source_fraction_digits st)\<rparr>
          else st\<lparr>ps_overflow := True\<rparr>))"
proof -
  note range = scan_state_range[OF assms(1)]
  have pad: "pad_to_storage_scale st = st" if "ps_overflow st \<or> s \<le> source_fraction_digits st"
    using that range(3) by (auto simp: pad_to_storage_scale_def)
  show ?thesis
    using range assms(2) append_digit_eq pad_to_storage_scale_eq[of st] pad
    by (cases "ps_overflow st \<or> s \<le> source_fraction_digits st") auto
qed

text \<open>At scale 18 the digit 9 still fits when it is padded, and 10 does not; 10 is scanned without overflow.\<close>

definition scanned_units :: "int \<Rightarrow> parse_state" where
  "scanned_units u = initial_parse_state\<lparr>target_fraction_digits := 18, ps_units := u\<rparr>"

lemma consume_scanned_units:
  assumes "is_ascii_digit (t ! n)" and "n = 0 \<or> hd t \<noteq> CHR ''0''"
    and "u * 10 + int (digit_value (t ! n)) \<le> INT64_MAX"
  shows "consume_character t (scanned_units u) n = (None, scanned_units (u * 10 + int (digit_value (t ! n))))"
  using assms append_digit_eq[of "\<lparr>sc_value = t ! n, sc_offset = n\<rparr>" "scanned_units u"]
  by (auto simp: consume_character_def should_consume_digit_def scanned_units_def initial_parse_state_def
      is_ascii_digit_alt Let_def)

lemma scan_state_examples:
  "scan_state ''9'' 18 1 (scanned_units 9)" "scan_state ''10'' 18 2 (scanned_units 10)"
proof -
  have start: "scan_state t 18 0 (scanned_units 0)" for t
    using scan_state.start[of t 18] by (simp add: scanned_units_def initial_parse_state_def)
  have "consume_character ''9'' (scanned_units 0) 0 = (None, scanned_units 9)"
    "consume_character ''10'' (scanned_units 0) 0 = (None, scanned_units 1)"
    "consume_character ''10'' (scanned_units 1) 1 = (None, scanned_units 10)"
    by (subst consume_scanned_units; simp add: is_ascii_digit_alt digit_value_def)+
  with start scan_state.step[OF start[of "''9''"]] scan_state.step[OF start[of "''10''"]]
    scan_state.step[of "''10''" 18 1 "scanned_units 1"]
  show "scan_state ''9'' 18 1 (scanned_units 9)" "scan_state ''10'' 18 2 (scanned_units 10)"
    by (simp_all add: numeral_2_eq_2)
qed

theorem scan_units_in_range_witness:
  "pad_to_storage_scale (scanned_units 9) = scanned_units 9000000000000000000 \<and>
   pad_to_storage_scale (scanned_units 10) = (scanned_units 10)\<lparr>ps_overflow := True\<rparr> \<and>
   append_digit (scanned_units 10) \<lparr>sc_value = CHR ''5'', sc_offset = 2\<rparr> = scanned_units 105"
  using scan_units_in_range[OF scan_state_examples(1)] scan_units_in_range[OF scan_state_examples(2)]
  by (simp add: scanned_units_def initial_parse_state_def is_ascii_digit_alt digit_value_def)

text \<open>
  C24: the public entry points.  A price is accepted exactly when its scaled value is a positive
  64-bit integer, a quantity when it is a non-negative one, a positive quantity when it is
  positive; the parsed object carries that value.
\<close>

theorem parse_entry_points_exact:
  assumes "length text \<le> SIZE_MAX"
  shows "(parse_price text scale = Inr \<lparr>pd_value = p, pd_fraction_digits = n\<rparr> \<longleftrightarrow>
      (\<exists>ip fp. denotes text ip fp \<and> n = length fp \<and>
         decimal_rat ip fp * 10 ^ scale_digits scale = of_int (price_value p))) \<and>
    (parse_quantity text scale = Inr \<lparr>pd_value = q, pd_fraction_digits = n\<rparr> \<longleftrightarrow>
      (\<exists>ip fp. denotes text ip fp \<and> n = length fp \<and>
         decimal_rat ip fp * 10 ^ scale_digits scale = of_int (quantity_value q))) \<and>
    (parse_positive_quantity text scale = Inr \<lparr>pd_value = q, pd_fraction_digits = n\<rparr> \<longleftrightarrow>
      (\<exists>ip fp. denotes text ip fp \<and> n = length fp \<and> 0 < quantity_value q \<and>
         decimal_rat ip fp * 10 ^ scale_digits scale = of_int (quantity_value q)))"
proof -
  note rules = parse_price_Inr_iff[OF assms] parse_quantity_Inr_iff[OF assms]
    parse_magnitude_Inr_iff[OF assms] parse_positive_quantity_Inr_iff
  show ?thesis
    unfolding rules by (simp add: price_value_range quantity_value_range) blast
qed

theorem parse_entry_points_exact_witness:
  "parse_price ''0.5'' (DecimalScale 1) = Inr \<lparr>pd_value = PriceUnits 5, pd_fraction_digits = 1\<rparr>"
proof -
  have len: "length ''0.5'' \<le> SIZE_MAX" by simp
  have d: "denotes ''0.5'' ''0'' ''5''"
    by (simp add: denotes_def decimal_text_def integer_part_def is_ascii_digit_alt)
  have v: "decimal_rat ''0'' ''5'' * 10 ^ scale_digits (DecimalScale 1) = of_int (price_value (PriceUnits 5))"
    by (simp add: decimal_rat_def digits_value_def digit_value_def scale_digits_def)
  from d v show ?thesis
    unfolding parse_entry_points_exact[OF len, THEN conjunct1]
    by (intro exI[of _ "''0''"] exI[of _ "''5''"]) simp
qed

end
