(* ===== verification/Decimal_Format.thy ===== *)
theory Decimal_Format
  imports Decimal_Parse
begin

text \<open>
  The deterministic formatter of \<open>src/numeric/decimal_format.cpp\<close>.  \<open>std::string::max_size()\<close> is
  a property of the standard library's string, so it is the parameter \<open>max_size\<close> here; the
  theorems ask only that it leaves room for the longest fixed rendering (\<open>64 \<le> max_size\<close>) and is
  a \<open>std::size_t\<close>.  Allocation failure of \<open>reserve\<close> is not modelled.  The theorems are the two
  round trips with the parser and the exactness of the printed value.
\<close>

text \<open>The part of \<open>format_units\<close> after rescaling: digits, point, padding.\<close>

definition render_units :: "nat \<Rightarrow> int \<Rightarrow> nat \<Rightarrow> nat \<Rightarrow> decimal_error + string" where
  "render_units max_size rendered_units rendered_fraction_digits output_fraction_digits =
     (let digits = to_chars rendered_units in
      if length digits > 20 then Inl (DecimalError Overflow kNoErrorOffset)
      else
        let digit_count = length digits;
            base_length =
              (if rendered_fraction_digits > 0
               then (if digit_count > rendered_fraction_digits then digit_count + 1
                     else rendered_fraction_digits + 2)
               else digit_count);
            extra_zeroes = output_fraction_digits - rendered_fraction_digits;
            needs_decimal_point = (rendered_fraction_digits = 0 \<and> extra_zeroes > 0);
            extra_decimal_point = (if needs_decimal_point then 1 else 0)
        in
        if extra_zeroes > size_sub (size_sub max_size base_length) extra_decimal_point
          then Inl (DecimalError Overflow kNoErrorOffset)
        else Inr (
          (if rendered_fraction_digits = 0 then digits
           else if digit_count \<le> rendered_fraction_digits
             then ''0.'' @ replicate (rendered_fraction_digits - digit_count) CHR ''0'' @ digits
           else
             take (digit_count - rendered_fraction_digits) digits @ ''.'' @
             drop (digit_count - rendered_fraction_digits) digits) @
          (if needs_decimal_point then ''.'' else []) @
          replicate extra_zeroes CHR ''0''))"

definition format_units ::
  "nat \<Rightarrow> int \<Rightarrow> decimal_scale \<Rightarrow> nat \<Rightarrow> decimal_error + string" where
  "format_units max_size units storage_scale output_fraction_digits =
     (let storage_fraction_digits = scale_digits storage_scale in
      if output_fraction_digits < storage_fraction_digits then
        let divisor = kPowersOfTen ! (storage_fraction_digits - output_fraction_digits) in
        if c_mod units divisor \<noteq> 0 then Inl (DecimalError InexactScale kNoErrorOffset)
        else render_units max_size (c_div units divisor) output_fraction_digits output_fraction_digits
      else render_units max_size units storage_fraction_digits output_fraction_digits)"

definition format_price ::
  "nat \<Rightarrow> price_units \<Rightarrow> decimal_scale \<Rightarrow> nat \<Rightarrow> decimal_error + string" where
  "format_price max_size v storage_scale output_fraction_digits =
     format_units max_size (price_value v) storage_scale output_fraction_digits"

definition format_quantity ::
  "nat \<Rightarrow> quantity_units \<Rightarrow> decimal_scale \<Rightarrow> nat \<Rightarrow> decimal_error + string" where
  "format_quantity max_size v storage_scale output_fraction_digits =
     format_units max_size (quantity_value v) storage_scale output_fraction_digits"

definition format_price_fixed ::
  "nat \<Rightarrow> price_units \<Rightarrow> decimal_scale \<Rightarrow> decimal_error + string" where
  "format_price_fixed max_size v storage_scale =
     format_price max_size v storage_scale (scale_digits storage_scale)"

definition format_quantity_fixed ::
  "nat \<Rightarrow> quantity_units \<Rightarrow> decimal_scale \<Rightarrow> decimal_error + string" where
  "format_quantity_fixed max_size v storage_scale =
     format_quantity max_size v storage_scale (scale_digits storage_scale)"

subsection \<open>Fixed-point text of a number\<close>

text \<open>
  The specification of the rendering: the number \<open>v\<close> with \<open>n\<close> fraction digits, as its integer
  part and its fraction.
\<close>

definition fixed_integer :: "nat \<Rightarrow> nat \<Rightarrow> string" where
  "fixed_integer v n = to_chars_nat (v div 10 ^ n)"

definition fixed_fraction :: "nat \<Rightarrow> nat \<Rightarrow> string" where
  "fixed_fraction v n =
     (if n = 0 then []
      else replicate (n - length (to_chars_nat (v mod 10 ^ n))) CHR ''0'' @ to_chars_nat (v mod 10 ^ n))"

lemma digits_value_replicate_append:
  "digits_value (replicate k CHR ''0'' @ ds) = digits_value ds"
  by (simp add: digits_value_append)

lemma fixed_fraction_props:
  shows "length (fixed_fraction v n) = n"
    and "list_all is_ascii_digit (fixed_fraction v n)"
    and "digits_value (fixed_fraction v n) = v mod 10 ^ n"
proof -
  have "length (to_chars_nat (v mod 10 ^ n)) \<le> n" if "0 < n"
    using that by (intro length_to_chars_nat_le) auto
  then show "length (fixed_fraction v n) = n"
    by (simp add: fixed_fraction_def)
  show "list_all is_ascii_digit (fixed_fraction v n)"
    using to_chars_nat_digits by (auto simp: fixed_fraction_def list_all_iff)
  show "digits_value (fixed_fraction v n) = v mod 10 ^ n"
    by (simp add: fixed_fraction_def digits_value_replicate_append)
qed

lemma fixed_integer_props: "integer_part (fixed_integer v n)"
  and fixed_integer_value: "digits_value (fixed_integer v n) = v div 10 ^ n"
proof -
  let ?k = "v div 10 ^ n"
  have "hd (to_chars_nat ?k) = CHR ''0'' \<longrightarrow> length (to_chars_nat ?k) = 1"
    using to_chars_nat_no_leading_zero[of ?k] by (auto simp: to_chars_nat.simps[of 0])
  then show "integer_part (fixed_integer v n)"
    using to_chars_nat_digits by (simp add: integer_part_def fixed_integer_def)
  show "digits_value (fixed_integer v n) = v div 10 ^ n"
    by (simp add: fixed_integer_def)
qed

lemma fixed_text_value: "digits_value (fixed_integer v n @ fixed_fraction v n) = v"
proof -
  have "digits_value (fixed_integer v n @ fixed_fraction v n) = v div 10 ^ n * 10 ^ n + v mod 10 ^ n"
    by (simp only: digits_value_append fixed_integer_value fixed_fraction_props)
  then show ?thesis by (simp only: div_mult_mod_eq)
qed

text \<open>Digit strings of the same length with the same value are equal.\<close>

lemma digits_value_inj:
  assumes "length xs = length ys" and "list_all is_ascii_digit xs" "list_all is_ascii_digit ys"
    and "digits_value xs = digits_value ys"
  shows "xs = ys"
  using assms
proof (induction xs arbitrary: ys rule: rev_induct)
  case Nil
  then show ?case by simp
next
  case (snoc x xs)
  then obtain y zs where ys: "ys = zs @ [y]"
    by (cases ys rule: rev_cases) auto
  with snoc.prems have x: "is_ascii_digit x" and y: "is_ascii_digit y"
    and eq: "digits_value xs * 10 + digit_value x = digits_value zs * 10 + digit_value y"
    by simp_all
  have split: "(v * 10 + digit_value c) div 10 = v" "(v * 10 + digit_value c) mod 10 = digit_value c"
    if "is_ascii_digit c" for v c
    using digit_value_less[OF that] by simp_all
  have "digits_value xs = digits_value zs" and "digit_value x = digit_value y"
    using split[OF x, of "digits_value xs", unfolded eq] split[OF y, of "digits_value zs"]
    by (simp_all only:)
  then have "x = y" using digit_char_digit_value[OF x] digit_char_digit_value[OF y] by metis
  moreover have "xs = zs"
    using snoc.prems ys \<open>digits_value xs = digits_value zs\<close> by (intro snoc.IH) simp_all
  ultimately show ?case using ys by simp
qed

text \<open>The text has one fixed rendering: its parts are determined by value and digit count.\<close>

lemma fixed_parts_unique:
  assumes "integer_part a" and "list_all is_ascii_digit b"
  shows "fixed_integer (digits_value (a @ b)) (length b) = a"
    and "fixed_fraction (digits_value (a @ b)) (length b) = b"
proof -
  have lt: "digits_value b < 10 ^ length b" using assms(2) by (rule digits_value_less)
  then have "digits_value (a @ b) div 10 ^ length b = digits_value a"
    by (simp add: digits_value_append)
  with assms(1) show "fixed_integer (digits_value (a @ b)) (length b) = a"
    using to_chars_nat_unique[of a] by (simp add: fixed_integer_def integer_part_def)
  have "digits_value (a @ b) mod 10 ^ length b = digits_value b"
    using lt by (simp add: digits_value_append)
  then show "fixed_fraction (digits_value (a @ b)) (length b) = b"
    using assms(2) by (intro digits_value_inj) (simp_all add: fixed_fraction_props)
qed

text \<open>The three branches of the rendering produce the fixed-point text.\<close>

lemma split_digits:
  assumes "n < length (to_chars_nat v)"
  shows "take (length (to_chars_nat v) - n) (to_chars_nat v) = fixed_integer v n"
    and "drop (length (to_chars_nat v) - n) (to_chars_nat v) = fixed_fraction v n"
proof -
  let ?d = "to_chars_nat v"
  define a b where "a = take (length ?d - n) ?d" and "b = drop (length ?d - n) ?d"
  have ab: "?d = a @ b" "length b = n" "a \<noteq> []"
    using assms by (auto simp: a_def b_def)
  have digs: "list_all is_ascii_digit a" "list_all is_ascii_digit b"
    using to_chars_nat_digits[of v] unfolding ab(1) by simp_all
  have "length a = 1" if "hd a = CHR ''0''"
  proof -
    have "hd ?d = CHR ''0''" using ab that by simp
    then have "v = 0" using to_chars_nat_no_leading_zero by blast
    then have "length ?d = 1" by (simp add: to_chars_nat.simps[of 0])
    moreover have "length ?d = length a + length b" by (subst ab(1)) simp
    ultimately show ?thesis using ab(3) by (cases a) auto
  qed
  then have "integer_part a" using digs ab(3) by (simp add: integer_part_def)
  moreover have "v = digits_value (a @ b)" by (metis ab(1) to_chars_nat_value)
  ultimately show "take (length ?d - n) ?d = fixed_integer v n"
    and "drop (length ?d - n) ?d = fixed_fraction v n"
    using fixed_parts_unique[of a b] digs ab(2) unfolding a_def[symmetric] b_def[symmetric]
    by simp_all
qed

lemma to_chars_nat_0: "to_chars_nat 0 = ''0''"
proof -
  have "digit_char 0 = CHR ''0''" by (simp add: digit_char_eq_0)
  then show ?thesis by (simp add: to_chars_nat.simps[of 0])
qed

lemma short_digits:
  assumes "length (to_chars_nat v) \<le> n"
  shows "fixed_integer v n = ''0''"
    and "fixed_fraction v n = replicate (n - length (to_chars_nat v)) CHR ''0'' @ to_chars_nat v"
proof -
  have "v < 10 ^ length (to_chars_nat v)"
    using digits_value_less[OF to_chars_nat_digits[of v]] by simp
  also have "\<dots> \<le> 10 ^ n" using assms by simp
  finally have "v < 10 ^ n" .
  moreover have "0 < n" using assms to_chars_nat_nonempty[of v] by (cases n) auto
  ultimately show "fixed_integer v n = ''0''"
    and "fixed_fraction v n = replicate (n - length (to_chars_nat v)) CHR ''0'' @ to_chars_nat v"
    by (simp_all add: fixed_integer_def fixed_fraction_def to_chars_nat_0)
qed

definition fixed_text :: "nat \<Rightarrow> nat \<Rightarrow> nat \<Rightarrow> string" where
  "fixed_text v n k = decimal_text (fixed_integer v n) (fixed_fraction v n @ replicate k CHR ''0'')"

lemma fixed_text_length:
  "length (fixed_text v n k) =
     length (fixed_integer v n) + (if n + k = 0 then 0 else 1) + n + k"
proof -
  have "fixed_fraction v n = [] \<longleftrightarrow> n = 0"
    using fixed_fraction_props(1)[of v n] by (cases "fixed_fraction v n") auto
  then show ?thesis
    by (simp add: fixed_text_def decimal_text_def fixed_fraction_props(1))
qed

lemma render_units_eq:
  assumes "v \<le> 9223372036854775807" and "n \<le> 18" and "n \<le> k" and "64 \<le> max_size" "max_size \<le> SIZE_MAX"
  shows "render_units max_size (int v) n k =
    (if length (fixed_text v n (k - n)) > max_size then Inl (DecimalError Overflow kNoErrorOffset)
     else Inr (fixed_text v n (k - n)))"
proof -
  let ?d = "to_chars_nat v"
  have d: "to_chars (int v) = ?d" by (simp add: to_chars_def)
  have len: "length ?d \<le> 19" using assms(1) by (intro length_to_chars_nat_le) simp_all
  consider (short) "length ?d \<le> n" | (whole) "n = 0" | (split) "0 < n" "n < length ?d" by linarith
  then show ?thesis
  proof cases
    case short
    then have "0 < n" using to_chars_nat_nonempty[of v] by (cases n) auto
    with short len assms show ?thesis
      unfolding render_units_def d Let_def fixed_text_length
      by (simp add: short_digits fixed_text_def decimal_text_def) arith
  next
    case whole
    have "fixed_integer v 0 = ?d" "fixed_fraction v 0 = []"
      by (simp_all add: fixed_integer_def fixed_fraction_def)
    with whole len assms show ?thesis
      unfolding render_units_def d Let_def fixed_text_length
      by (auto simp: fixed_text_def decimal_text_def)
  next
    case split
    have "length (fixed_integer v n) = length ?d - n"
      using split_digits(1)[OF split(2)] by (metis length_take min.absorb2 diff_le_self)
    with split split_digits[OF split(2)] len assms fixed_fraction_props(1)[of v n] show ?thesis
      unfolding render_units_def d Let_def fixed_text_length
      by (auto simp: fixed_text_def decimal_text_def)
  qed
qed

subsection \<open>What the formatter prints\<close>

text \<open>
  The specification: \<open>t\<close> is the decimal with exactly \<open>k\<close> fraction digits whose value is
  \<open>v / 10 ^ s\<close>.
\<close>

definition renders :: "nat \<Rightarrow> nat \<Rightarrow> nat \<Rightarrow> string \<Rightarrow> bool" where
  "renders v s k t \<longleftrightarrow> (\<exists>ip fp. denotes t ip fp \<and> length fp = k \<and>
     decimal_rat ip fp * 10 ^ s = of_nat v)"

lemma decimal_rat_eq_iff:
  "decimal_rat ip fp * 10 ^ s = of_nat v \<longleftrightarrow> digits_value (ip @ fp) * 10 ^ s = v * 10 ^ length fp"
proof -
  have "decimal_rat ip fp * 10 ^ s = of_nat v \<longleftrightarrow>
      (of_nat (digits_value (ip @ fp)) :: rat) * 10 ^ s = of_nat v * 10 ^ length fp"
    by (simp add: decimal_rat_def field_simps)
  also have "\<dots> \<longleftrightarrow> (of_nat (digits_value (ip @ fp) * 10 ^ s) :: rat) = of_nat (v * 10 ^ length fp)"
    by simp
  finally show ?thesis by (simp only: of_nat_eq_iff)
qed

lemma renders_unique:
  assumes "renders v s k t" and "renders v s k t'"
  shows "t = t'"
proof -
  from assms obtain ip fp ip' fp' where
    d: "denotes t ip fp" "denotes t' ip' fp'" and len: "length fp = k" "length fp' = k"
    and "digits_value (ip @ fp) * 10 ^ s = v * 10 ^ k"
    and "digits_value (ip' @ fp') * 10 ^ s = v * 10 ^ k"
    unfolding renders_def decimal_rat_eq_iff by auto
  then have "digits_value (ip @ fp) * 10 ^ s = digits_value (ip' @ fp') * 10 ^ s"
    by (simp only:)
  then have val: "digits_value (ip @ fp) = digits_value (ip' @ fp')"
    by (simp only: mult_cancel2) simp
  have "integer_part ip" "integer_part ip'" "list_all is_ascii_digit fp" "list_all is_ascii_digit fp'"
    using d by (simp_all add: denotes_def)
  then have "ip = ip'" "fp = fp'"
    using fixed_parts_unique[of ip fp] fixed_parts_unique[of ip' fp'] val len by metis+
  with d show ?thesis by (simp add: denotes_def)
qed

lemma fixed_text_renders:
  "renders (u * 10 ^ j) (n + j) (n + k) (fixed_text u n k)"
proof -
  let ?fp = "fixed_fraction u n @ replicate k CHR ''0''"
  have "denotes (fixed_text u n k) (fixed_integer u n) ?fp"
    using fixed_fraction_props(2)[of u n]
    by (auto simp: denotes_def fixed_text_def fixed_integer_props list_all_iff)
  moreover have "length ?fp = n + k" by (simp add: fixed_fraction_props)
  moreover have "digits_value (fixed_integer u n @ ?fp) = u * 10 ^ k"
    using digits_value_append[of "fixed_integer u n @ fixed_fraction u n" "replicate k CHR ''0''"]
    by (simp add: fixed_text_value)
  then have "decimal_rat (fixed_integer u n) ?fp * 10 ^ (n + j) = of_nat (u * 10 ^ j)"
    unfolding decimal_rat_eq_iff by (simp add: fixed_fraction_props power_add)
  ultimately show ?thesis unfolding renders_def by blast
qed

lemma renders_divides:
  assumes "renders v s k t" and "k < s"
  shows "10 ^ (s - k) dvd v"
proof -
  from assms(1) obtain ip fp where "digits_value (ip @ fp) * 10 ^ s = v * 10 ^ k"
    unfolding renders_def decimal_rat_eq_iff by auto
  moreover have "(10::nat) ^ s = 10 ^ (s - k) * 10 ^ k"
    using assms(2) by (simp flip: power_add)
  ultimately have "digits_value (ip @ fp) * 10 ^ (s - k) = v"
    by simp
  then show ?thesis by (metis dvd_triv_right)
qed

text \<open>
  The formatter computes the rendering when there is one that fits, and names the obstacle
  otherwise.
\<close>

lemma format_units_cases:
  assumes "v \<le> 9223372036854775807" and "64 \<le> max_size" "max_size \<le> SIZE_MAX"
  shows "(\<exists>t. renders v (scale_digits scale) k t \<and>
       format_units max_size (int v) scale k =
         (if length t > max_size then Inl (DecimalError Overflow kNoErrorOffset) else Inr t))
    \<or> ((\<nexists>t. renders v (scale_digits scale) k t) \<and>
       format_units max_size (int v) scale k = Inl (DecimalError InexactScale kNoErrorOffset))"
proof (cases "k < scale_digits scale")
  case False
  then have "renders v (scale_digits scale) k (fixed_text v (scale_digits scale) (k - scale_digits scale))"
    using fixed_text_renders[of v 0 "scale_digits scale" "k - scale_digits scale"] by simp
  with False assms render_units_eq[of v "scale_digits scale" k max_size] scale_digits_le[of scale]
  show ?thesis by (auto simp: format_units_def Let_def)
next
  case True
  let ?j = "scale_digits scale - k"
  have table: "kPowersOfTen ! ?j = int (10 ^ ?j)"
    using scale_digits_le[of scale] by (simp add: kPowersOfTen_nth)
  have arith: "c_mod (int v) (int (10 ^ ?j)) = int (v mod 10 ^ ?j)"
    "c_div (int v) (int (10 ^ ?j)) = int (v div 10 ^ ?j)"
    by (simp_all only: c_mod_nonneg c_div_nonneg of_nat_0_le_iff of_nat_0_less_iff zero_less_power
        zero_less_numeral zmod_int zdiv_int)
  show ?thesis
  proof (cases "10 ^ ?j dvd v")
    case False
    then have "v mod 10 ^ ?j \<noteq> 0" by (simp add: dvd_eq_mod_eq_0)
    then have "format_units max_size (int v) scale k = Inl (DecimalError InexactScale kNoErrorOffset)"
      using True unfolding format_units_def Let_def table arith by simp
    with False True renders_divides show ?thesis by blast
  next
    case dvd: True
    have "v div 10 ^ ?j \<le> v" by (rule div_le_dividend)
    then have u: "v div 10 ^ ?j \<le> 9223372036854775807" using assms(1) by linarith
    have "renders v (scale_digits scale) k (fixed_text (v div 10 ^ ?j) k 0)"
      using fixed_text_renders[of "v div 10 ^ ?j" ?j k 0] True dvd by simp
    moreover have "format_units max_size (int v) scale k = render_units max_size (int (v div 10 ^ ?j)) k k"
      using True dvd unfolding format_units_def Let_def table arith by simp
    moreover have "k \<le> 18" using True scale_digits_le[of scale] by linarith
    ultimately show ?thesis using render_units_eq[OF u, of k k max_size] assms(2,3) by auto
  qed
qed

lemma format_units_Inr_iff:
  assumes "v \<le> 9223372036854775807" and "64 \<le> max_size" "max_size \<le> SIZE_MAX"
  shows "format_units max_size (int v) scale k = Inr t \<longleftrightarrow>
    renders v (scale_digits scale) k t \<and> length t \<le> max_size"
proof -
  consider (printed) t' where "renders v (scale_digits scale) k t'"
      "format_units max_size (int v) scale k =
         (if length t' > max_size then Inl (DecimalError Overflow kNoErrorOffset) else Inr t')"
    | (none) "\<nexists>t. renders v (scale_digits scale) k t"
      "format_units max_size (int v) scale k = Inl (DecimalError InexactScale kNoErrorOffset)"
    using format_units_cases[OF assms, of scale k] by blast
  then show ?thesis
  proof cases
    case printed
    have "t = t'" if "renders v (scale_digits scale) k t"
      using that printed(1) by (rule renders_unique)
    with printed show ?thesis by auto
  next
    case none
    then show ?thesis by simp
  qed
qed

lemma format_price_Inr_iff:
  assumes "64 \<le> max_size" "max_size \<le> SIZE_MAX"
  shows "format_price max_size p scale k = Inr t \<longleftrightarrow>
    renders (nat (price_value p)) (scale_digits scale) k t \<and> length t \<le> max_size"
  using format_units_Inr_iff[of "nat (price_value p)", OF _ assms] price_value_range[of p]
  by (simp add: format_price_def)

lemma format_quantity_Inr_iff:
  assumes "64 \<le> max_size" "max_size \<le> SIZE_MAX"
  shows "format_quantity max_size q scale k = Inr t \<longleftrightarrow>
    renders (nat (quantity_value q)) (scale_digits scale) k t \<and> length t \<le> max_size"
  using format_units_Inr_iff[of "nat (quantity_value q)", OF _ assms] quantity_value_range[of q]
  by (simp add: format_quantity_def)

text \<open>What the formatter prints is what the parser reads, with the same number of digits.\<close>

lemma parse_price_renders_iff:
  assumes "length t \<le> SIZE_MAX"
  shows "parse_price t scale = Inr \<lparr>pd_value = p, pd_fraction_digits = n\<rparr> \<longleftrightarrow>
    renders (nat (price_value p)) (scale_digits scale) n t"
  unfolding parse_price_Inr_iff[OF assms] parse_magnitude_Inr_iff[OF assms] renders_def
  using price_value_range[of p] by auto

lemma parse_quantity_renders_iff:
  assumes "length t \<le> SIZE_MAX"
  shows "parse_quantity t scale = Inr \<lparr>pd_value = q, pd_fraction_digits = n\<rparr> \<longleftrightarrow>
    renders (nat (quantity_value q)) (scale_digits scale) n t"
  unfolding parse_quantity_Inr_iff[OF assms] parse_magnitude_Inr_iff[OF assms] renders_def
  using quantity_value_range[of q] by auto

text \<open>At the storage scale the formatter always succeeds: 19 digits and a point fit.\<close>

lemma format_units_fixed:
  assumes "v \<le> 9223372036854775807" and "64 \<le> max_size" "max_size \<le> SIZE_MAX"
  shows "format_units max_size (int v) scale (scale_digits scale) =
    Inr (fixed_text v (scale_digits scale) 0)"
proof -
  have "v div 10 ^ scale_digits scale \<le> v" by (rule div_le_dividend)
  also have "v < 10 ^ 19" using assms(1) by simp
  finally have "length (fixed_integer v (scale_digits scale)) \<le> 19"
    unfolding fixed_integer_def by (rule length_to_chars_nat_le) simp
  then have "length (fixed_text v (scale_digits scale) 0) \<le> max_size"
    unfolding fixed_text_length using scale_digits_le[of scale] assms(2)
    by (cases "scale_digits scale = 0") auto
  with assms show ?thesis
    using render_units_eq[of v "scale_digits scale" "scale_digits scale" max_size] scale_digits_le[of scale]
    by (simp add: format_units_def)
qed

lemma format_price_fixed_eq:
  assumes "64 \<le> max_size" "max_size \<le> SIZE_MAX"
  shows "format_price_fixed max_size p scale =
    Inr (fixed_text (nat (price_value p)) (scale_digits scale) 0)"
  using format_units_fixed[of "nat (price_value p)", OF _ assms] price_value_range[of p]
  by (simp add: format_price_fixed_def format_price_def)

lemma format_quantity_fixed_eq:
  assumes "64 \<le> max_size" "max_size \<le> SIZE_MAX"
  shows "format_quantity_fixed max_size q scale =
    Inr (fixed_text (nat (quantity_value q)) (scale_digits scale) 0)"
  using format_units_fixed[of "nat (quantity_value q)", OF _ assms] quantity_value_range[of q]
  by (simp add: format_quantity_fixed_def format_quantity_def)

subsection \<open>Properties\<close>

text \<open>
  C25: formatting is exact.  \<open>format_price\<close> prints \<open>t\<close> exactly when \<open>t\<close> is the well-formed decimal
  with the requested number of fraction digits whose value times \<open>10 ^ scale\<close> is the price, and it
  fits a string; it reports \<open>InexactScale\<close> exactly when no such decimal exists, and \<open>Overflow\<close> only
  when the decimal does not fit.
\<close>

theorem format_price_exact_or_rejected:
  assumes "64 \<le> max_size" "max_size \<le> SIZE_MAX"
  shows "(format_price max_size p scale k = Inr t \<longleftrightarrow>
      renders (nat (price_value p)) (scale_digits scale) k t \<and> length t \<le> max_size) \<and>
    (format_price max_size p scale k = Inl (DecimalError InexactScale kNoErrorOffset) \<longleftrightarrow>
      (\<nexists>t. renders (nat (price_value p)) (scale_digits scale) k t)) \<and>
    (format_price max_size p scale k = Inl (DecimalError Overflow kNoErrorOffset) \<longleftrightarrow>
      (\<exists>t. renders (nat (price_value p)) (scale_digits scale) k t \<and> length t > max_size))"
proof -
  have v: "nat (price_value p) \<le> 9223372036854775807" using price_value_range[of p] by simp
  from format_units_cases[OF v assms, of scale k] show ?thesis
    unfolding format_price_Inr_iff[OF assms]
    by (auto simp: format_price_def split: if_splits dest: renders_unique)
qed

lemma fixed_text_5_4: "fixed_text 5 4 0 = ''0.0005''"
proof -
  have "to_chars_nat 5 = ''5''"
    using to_chars_nat_unique[of "''5''"]
    by (simp add: is_ascii_digit_alt digits_value_def digit_value_def)
  then show ?thesis
    by (simp add: fixed_text_def short_digits decimal_text_def numeral_eq_Suc)
qed

theorem format_price_exact_or_rejected_witness:
  "format_price 1000 (PriceUnits 5) (DecimalScale 4) 4 = Inr ''0.0005''"
proof -
  have "renders 5 4 4 ''0.0005''"
    using fixed_text_renders[of 5 0 4 0] by (simp add: fixed_text_5_4)
  then have "renders (nat (price_value (PriceUnits 5))) (scale_digits (DecimalScale 4)) 4 ''0.0005''"
    by (simp add: scale_digits_def)
  with format_price_exact_or_rejected[of 1000 "PriceUnits 5" "DecimalScale 4" 4 "''0.0005''"]
  show ?thesis by simp
qed

text \<open>
  C13: parsing inverts formatting.  Whatever the formatter prints, the parser reads back as the
  same units with the printed number of fraction digits; at the storage scale it always prints.
\<close>

theorem parse_format_roundtrip:
  assumes "64 \<le> max_size" "max_size \<le> SIZE_MAX"
  shows "(\<forall>t. format_price max_size p scale k = Inr t \<longrightarrow>
      parse_price t scale = Inr \<lparr>pd_value = p, pd_fraction_digits = k\<rparr>) \<and>
    (\<forall>t. format_quantity max_size q scale k = Inr t \<longrightarrow>
      parse_quantity t scale = Inr \<lparr>pd_value = q, pd_fraction_digits = k\<rparr>) \<and>
    is_ok (format_price_fixed max_size p scale) \<and> is_ok (format_quantity_fixed max_size q scale)"
proof -
  have "length t \<le> SIZE_MAX" if "length t \<le> max_size" for t :: string
    using that assms(2) by linarith
  then show ?thesis
    by (simp add: format_price_Inr_iff[OF assms] format_quantity_Inr_iff[OF assms]
        parse_price_renders_iff parse_quantity_renders_iff
        format_price_fixed_eq[OF assms] format_quantity_fixed_eq[OF assms])
qed

theorem parse_format_roundtrip_witness:
  "\<exists>t. format_price_fixed 1000 (PriceUnits 5) (DecimalScale 4) = Inr t \<and>
     parse_price t (DecimalScale 4) = Inr \<lparr>pd_value = PriceUnits 5, pd_fraction_digits = 4\<rparr>"
  using parse_format_roundtrip[of 1000 "PriceUnits 5" "DecimalScale 4" 4 "QuantityUnits 0"]
  by (auto simp: is_ok_iff format_price_fixed_def scale_digits_def)

text \<open>
  C12: formatting inverts parsing.  A text the parser accepts is canonical for its number of
  fraction digits: printing the parsed units with the parsed number of digits gives the text back.
\<close>

theorem format_parse_roundtrip:
  assumes "64 \<le> max_size" "max_size \<le> SIZE_MAX" and "length t \<le> max_size"
  shows "(parse_price t scale = Inr \<lparr>pd_value = p, pd_fraction_digits = n\<rparr> \<longrightarrow>
      format_price max_size p scale n = Inr t) \<and>
    (parse_quantity t scale = Inr \<lparr>pd_value = q, pd_fraction_digits = n\<rparr> \<longrightarrow>
      format_quantity max_size q scale n = Inr t)"
proof -
  have "length t \<le> SIZE_MAX" using assms by linarith
  with assms(3) show ?thesis
    by (simp add: format_price_Inr_iff[OF assms(1,2)] format_quantity_Inr_iff[OF assms(1,2)]
        parse_price_renders_iff parse_quantity_renders_iff)
qed

theorem format_parse_roundtrip_witness:
  "format_price 1000 (PriceUnits 5) (DecimalScale 4) 4 = Inr ''0.0005''"
proof -
  have "renders 5 4 4 ''0.0005''"
    using fixed_text_renders[of 5 0 4 0] by (simp add: fixed_text_5_4)
  then have "parse_price ''0.0005'' (DecimalScale 4) =
      Inr \<lparr>pd_value = PriceUnits 5, pd_fraction_digits = 4\<rparr>"
    by (subst parse_price_renders_iff) (simp_all add: scale_digits_def)
  with format_parse_roundtrip[of 1000 "''0.0005''" "DecimalScale 4" "PriceUnits 5" 4 "QuantityUnits 0"]
  show ?thesis by simp
qed

end
