(* ===== verification/Adapter_Types.thy ===== *)
theory Adapter_Types
  imports Book_Projection Decimal_Format
begin

text \<open>
  The vocabulary of the protobuf adapter: the public types of \<open>proto_adapter.hpp\<close> and the wire
  messages it reads and writes.  The messages and the numbers of their enums are generated from the
  Contracts package, which is not part of the repository.  A message is a record of the fields the
  adapter touches; an enum value is the \<open>int\<close> protobuf carries, and the numbers the Contracts assign
  to the names used by the adapter are the parameter \<open>contracts\<close>.  The adapter switches over those
  names, which is only legal when their numbers differ: \<open>contracts_ok\<close> states that, and that
  \<open>QualityFlag_IsValid\<close> accepts the declared flags.
\<close>

subsection \<open>Errors\<close>

datatype adapter_error_code =
  UnsupportedVenue | UnsupportedMarket | UnexpectedStream | IdentityMismatch |
  UnsupportedSchemaVersion | UnspecifiedEnum | UnknownEnumValue | InvalidUpdateRange |
  MissingRequiredField | InvalidIdentifier | InvalidDecimal | NegativeQuantity | NonPositivePrice |
  ScaleMismatch | NumericOverflow | InvalidDepthLimit | InvalidOrdering |
  UnsupportedProjectionState | MissingLastUpdateId | InvalidGapContext |
  InvalidHostQualityCombination | ContractsVersionMismatch | ProjectionNumericSpecMismatch |
  ProjectionPolicyMismatch

datatype adapter_field =
  NoField | VenueField | MarketField | StreamField | SymbolField | SchemaVersionField |
  ProducerField | ProducerVersionField | RequestIdField | ConnectionIdField | FirstUpdateIdField |
  FinalUpdateIdField | PreviousFinalUpdateIdField | BidPriceField | BidQuantityField |
  AskPriceField | AskQuantityField | QualityFlagField | ProjectionPriceScaleField |
  ProjectionQuantityScaleField | ProjectionPolicyField | DepthLimitField | SnapshotSourceField |
  LastUpdateIdField | CurrentGapField | GapRecoveryStateField | HostQualityFactField

record adapter_error =
  ae_code :: adapter_error_code
  ae_field :: adapter_field
  ae_decimal_error :: "decimal_error option"
  ae_raw_enum_value :: "int option"

type_synonym 'a adapter_result = "adapter_error + 'a"

definition adapter_error :: "adapter_error_code \<Rightarrow> adapter_field \<Rightarrow> adapter_error" where
  "adapter_error code field =
     \<lparr>ae_code = code, ae_field = field, ae_decimal_error = None, ae_raw_enum_value = None\<rparr>"

definition enum_error :: "adapter_error_code \<Rightarrow> adapter_field \<Rightarrow> int \<Rightarrow> adapter_error" where
  "enum_error code field raw =
     \<lparr>ae_code = code, ae_field = field, ae_decimal_error = None, ae_raw_enum_value = Some raw\<rparr>"

definition adapter_decimal_error ::
  "adapter_error_code \<Rightarrow> adapter_field \<Rightarrow> decimal_error \<Rightarrow> adapter_error" where
  "adapter_decimal_error code field detail =
     \<lparr>ae_code = code, ae_field = field, ae_decimal_error = Some detail, ae_raw_enum_value = None\<rparr>"

subsection \<open>Identity, quality facts, adapted values\<close>

record expected_identity =
  ei_symbol :: string
  ei_policy :: sequence_policy_kind

datatype host_quality_fact =
  HqDuplicate | HqOutOfOrder | HqOrderBookResync | HqSnapshotTooOld | HqBootstrapBufferOverflow |
  HqRecoveredTail | HqMalformedPayload | HqExchangeTimeMissing | HqReceiveClockDiscontinuity |
  HqSlowConsumerGap | HqProducerRestart | HqOverlap | HqIdentityConflict

text \<open>The enumerators in declaration order: \<open>static_cast\<close> to and from \<open>std::size_t\<close> is this list.\<close>

definition host_quality_facts :: "host_quality_fact list" where
  "host_quality_facts = [HqDuplicate, HqOutOfOrder, HqOrderBookResync, HqSnapshotTooOld,
     HqBootstrapBufferOverflow, HqRecoveredTail, HqMalformedPayload, HqExchangeTimeMissing,
     HqReceiveClockDiscontinuity, HqSlowConsumerGap, HqProducerRestart, HqOverlap,
     HqIdentityConflict]"

fun host_fact_index :: "host_quality_fact \<Rightarrow> nat" where
  "host_fact_index HqDuplicate = 0"
| "host_fact_index HqOutOfOrder = 1"
| "host_fact_index HqOrderBookResync = 2"
| "host_fact_index HqSnapshotTooOld = 3"
| "host_fact_index HqBootstrapBufferOverflow = 4"
| "host_fact_index HqRecoveredTail = 5"
| "host_fact_index HqMalformedPayload = 6"
| "host_fact_index HqExchangeTimeMissing = 7"
| "host_fact_index HqReceiveClockDiscontinuity = 8"
| "host_fact_index HqSlowConsumerGap = 9"
| "host_fact_index HqProducerRestart = 10"
| "host_fact_index HqOverlap = 11"
| "host_fact_index HqIdentityConflict = 12"

record adapted_metadata =
  observed_quality :: "host_quality_fact list"

record adapted_book_baseline =
  ab_numeric_spec :: numeric_spec
  ab_policy :: sequence_policy_kind
  ab_last_update_id :: update_id
  ab_bids :: "book_level list"
  ab_asks :: "book_level list"
  ab_metadata :: adapted_metadata

record adapted_depth_batch =
  ad_numeric_spec :: numeric_spec
  ad_policy :: sequence_policy_kind
  ad_range :: update_range
  ad_previous_final :: "update_id option"
  ad_levels :: "level_update list"
  ad_metadata :: adapted_metadata

datatype snapshot_origin = GatewayLive | RecorderReplay | HistoryReplay

datatype gap_recovery_state =
  RecoverySynchronized | ResyncRequired | ResyncInProgress | Recovered | ResyncFailed

text \<open>\<open>DepthLimit\<close>: a positive \<open>std::int32_t\<close> behind a checked factory.\<close>

typedef depth_limit = "{v :: int. 0 < v \<and> v \<le> INT32_MAX}"
  morphisms depth_limit_value Abs_depth_limit
  by (rule exI[of _ 1]) simp

definition DepthLimit :: "int \<Rightarrow> depth_limit" where
  "DepthLimit v = Abs_depth_limit (if 0 < v \<and> v \<le> INT32_MAX then v else 1)"

definition DepthLimit_create :: "int \<Rightarrow> depth_limit adapter_result" where
  "DepthLimit_create v =
     (if v \<le> 0 \<or> v > INT32_MAX then Inl (adapter_error InvalidDepthLimit DepthLimitField)
      else Inr (DepthLimit v))"

lemma depth_limit_value_DepthLimit [simp, numeric_eval]:
  "0 < v \<Longrightarrow> v \<le> INT32_MAX \<Longrightarrow> depth_limit_value (DepthLimit v) = v"
  by (simp add: DepthLimit_def Abs_depth_limit_inverse)

lemma depth_limit_value_range: "0 < depth_limit_value d" "depth_limit_value d \<le> INT32_MAX"
  using depth_limit_value[of d] by auto

lemma DepthLimit_create_Inr_iff: "DepthLimit_create v = Inr d \<longleftrightarrow> v = depth_limit_value d"
proof (cases "0 < v \<and> v \<le> INT32_MAX")
  case True
  have "d = DepthLimit v \<longleftrightarrow> v = depth_limit_value d"
    using True by (metis depth_limit_value_DepthLimit depth_limit_value_inject)
  with True show ?thesis by (auto simp: DepthLimit_create_def)
next
  case False
  then show ?thesis using depth_limit_value_range[of d] by (auto simp: DepthLimit_create_def)
qed

record current_gap_context =
  cg_detected_at_utc_ns :: uint64
  cg_recovery_state :: gap_recovery_state

record snapshot_context =
  sc_identity :: expected_identity
  sc_producer :: string
  sc_producer_version :: string
  sc_source :: snapshot_origin
  sc_generated_time_utc_ns :: uint64
  sc_generated_monotonic_ns :: "uint64 option"
  sc_current_gap :: "current_gap_context option"

record snapshot_options =
  so_depth_limit :: "depth_limit option"
  so_host_quality_facts :: "host_quality_fact list"

subsection \<open>Contracts\<close>

datatype market = MARKET_UNSPECIFIED | MARKET_SPOT | MARKET_USD_M_PERPETUAL

datatype venue = VENUE_UNSPECIFIED | VENUE_BINANCE

datatype stream =
  STREAM_UNSPECIFIED | STREAM_AGG_TRADE | STREAM_BOOK_TICKER | STREAM_DIFF_DEPTH |
  STREAM_DEPTH_SNAPSHOT

datatype quality_flag =
  QUALITY_FLAG_UNSPECIFIED | QUALITY_FLAG_DUPLICATE | QUALITY_FLAG_OUT_OF_ORDER |
  QUALITY_FLAG_SEQUENCE_GAP | QUALITY_FLAG_ORDERBOOK_RESYNC | QUALITY_FLAG_SNAPSHOT_BRIDGE_PENDING |
  QUALITY_FLAG_SNAPSHOT_TOO_OLD | QUALITY_FLAG_BOOTSTRAP_BUFFER_OVERFLOW |
  QUALITY_FLAG_RECOVERED_TAIL | QUALITY_FLAG_MALFORMED_PAYLOAD | QUALITY_FLAG_EXCHANGE_TIME_MISSING |
  QUALITY_FLAG_RECEIVE_CLOCK_DISCONTINUITY | QUALITY_FLAG_SLOW_CONSUMER_GAP |
  QUALITY_FLAG_PRODUCER_RESTART | QUALITY_FLAG_OVERLAP | QUALITY_FLAG_IDENTITY_CONFLICT |
  QUALITY_FLAG_CROSSED_BOOK

datatype snapshot_source =
  SNAPSHOT_SOURCE_GATEWAY_LIVE | SNAPSHOT_SOURCE_RECORDER_REPLAY | SNAPSHOT_SOURCE_HISTORY_REPLAY

datatype resync_state =
  RESYNC_STATE_RESYNC_REQUIRED | RESYNC_STATE_RESYNC_IN_PROGRESS | RESYNC_STATE_RESYNC_FAILED

datatype reason_code = REASON_CODE_SEQUENCE_GAP_DETECTED

record contracts =
  market_number :: "market \<Rightarrow> int"
  venue_number :: "venue \<Rightarrow> int"
  stream_number :: "stream \<Rightarrow> int"
  quality_number :: "quality_flag \<Rightarrow> int"
  QualityFlag_IsValid :: "int \<Rightarrow> bool"

definition contracts_ok :: "contracts \<Rightarrow> bool" where
  "contracts_ok C \<longleftrightarrow> inj (market_number C) \<and> inj (venue_number C) \<and> inj (stream_number C) \<and>
     inj (quality_number C) \<and> (\<forall>f. QualityFlag_IsValid C (quality_number C f))"

record wire_price_level =
  pl_price :: string
  pl_quantity :: string

record wire_depth_snapshot =
  ds_venue :: int
  ds_market :: int
  ds_symbol :: string
  ds_schema_version :: string
  ds_producer :: string
  ds_producer_version :: string
  ds_request_id :: string
  ds_last_update_id :: uint64
  ds_bids :: "wire_price_level list"
  ds_asks :: "wire_price_level list"
  ds_quality_flags :: "int list"

record wire_metadata =
  md_venue :: int
  md_market :: int
  md_symbol :: string
  md_stream :: int
  md_schema_version :: string
  md_producer :: string
  md_producer_version :: string
  md_connection_id :: string
  md_quality_flags :: "int list"

record wire_depth_update =
  du_metadata :: "wire_metadata option"
  du_first_update_id :: uint64
  du_final_update_id :: uint64
  du_previous_final_update_id :: "uint64 option"
  du_bids :: "wire_price_level list"
  du_asks :: "wire_price_level list"

record wire_gap_descriptor =
  gd_stream :: stream
  gd_detected_at_utc_ns :: uint64
  gd_previous_sequence :: uint64
  gd_next_sequence :: uint64
  gd_reason_code :: reason_code
  gd_recovery_state :: resync_state

record wire_local_snapshot =
  ls_venue :: venue
  ls_market :: market
  ls_symbol :: string
  ls_schema_version :: string
  ls_producer :: string
  ls_producer_version :: string
  ls_source :: snapshot_source
  ls_last_update_id :: uint64
  ls_bids :: "wire_price_level list"
  ls_asks :: "wire_price_level list"
  ls_depth_limit :: "int option"
  ls_generated_time_utc_ns :: uint64
  ls_generated_monotonic_ns :: "uint64 option"
  ls_synchronized :: bool
  ls_last_gap :: "wire_gap_descriptor option"
  ls_quality_flags :: "quality_flag list"

subsection \<open>Facts about the enumerations\<close>

lemma host_fact_nth [simp]: "host_quality_facts ! host_fact_index f = f"
  by (cases f) (simp_all add: host_quality_facts_def)

lemma host_fact_index_less [simp]: "host_fact_index f < length host_quality_facts"
  by (cases f) (simp_all add: host_quality_facts_def)

lemma host_facts_complete: "set host_quality_facts = UNIV" "distinct host_quality_facts"
  "length host_quality_facts = 13"
  by (auto simp: host_quality_facts_def intro: host_quality_fact.exhaust)

lemma contracts_ok_eq:
  assumes "contracts_ok C"
  shows "market_number C a = market_number C b \<longleftrightarrow> a = b"
    and "venue_number C c = venue_number C d \<longleftrightarrow> c = d"
    and "stream_number C e = stream_number C f \<longleftrightarrow> e = f"
    and "quality_number C g = quality_number C h \<longleftrightarrow> g = h"
    and "QualityFlag_IsValid C (quality_number C g)"
  using assms by (auto simp: contracts_ok_def inj_def)

text \<open>The Contracts number their enumerators from zero in order of declaration.\<close>

fun example_quality_number :: "quality_flag \<Rightarrow> int" where
  "example_quality_number QUALITY_FLAG_UNSPECIFIED = 0"
| "example_quality_number QUALITY_FLAG_DUPLICATE = 1"
| "example_quality_number QUALITY_FLAG_OUT_OF_ORDER = 2"
| "example_quality_number QUALITY_FLAG_SEQUENCE_GAP = 3"
| "example_quality_number QUALITY_FLAG_ORDERBOOK_RESYNC = 4"
| "example_quality_number QUALITY_FLAG_SNAPSHOT_BRIDGE_PENDING = 5"
| "example_quality_number QUALITY_FLAG_SNAPSHOT_TOO_OLD = 6"
| "example_quality_number QUALITY_FLAG_BOOTSTRAP_BUFFER_OVERFLOW = 7"
| "example_quality_number QUALITY_FLAG_RECOVERED_TAIL = 8"
| "example_quality_number QUALITY_FLAG_MALFORMED_PAYLOAD = 9"
| "example_quality_number QUALITY_FLAG_EXCHANGE_TIME_MISSING = 10"
| "example_quality_number QUALITY_FLAG_RECEIVE_CLOCK_DISCONTINUITY = 11"
| "example_quality_number QUALITY_FLAG_SLOW_CONSUMER_GAP = 12"
| "example_quality_number QUALITY_FLAG_PRODUCER_RESTART = 13"
| "example_quality_number QUALITY_FLAG_OVERLAP = 14"
| "example_quality_number QUALITY_FLAG_IDENTITY_CONFLICT = 15"
| "example_quality_number QUALITY_FLAG_CROSSED_BOOK = 16"

definition example_contracts :: contracts where
  "example_contracts = \<lparr>
     market_number = (\<lambda>m. case m of MARKET_UNSPECIFIED \<Rightarrow> 0 | MARKET_SPOT \<Rightarrow> 1 | MARKET_USD_M_PERPETUAL \<Rightarrow> 2),
     venue_number = (\<lambda>v. case v of VENUE_UNSPECIFIED \<Rightarrow> 0 | VENUE_BINANCE \<Rightarrow> 1),
     stream_number = (\<lambda>s. case s of STREAM_UNSPECIFIED \<Rightarrow> 0 | STREAM_AGG_TRADE \<Rightarrow> 1 |
       STREAM_BOOK_TICKER \<Rightarrow> 2 | STREAM_DIFF_DEPTH \<Rightarrow> 3 | STREAM_DEPTH_SNAPSHOT \<Rightarrow> 4),
     quality_number = example_quality_number,
     QualityFlag_IsValid = (\<lambda>n. 0 \<le> n \<and> n \<le> 16)\<rparr>"

lemma example_contracts_ok: "contracts_ok example_contracts"
proof -
  have valid: "0 \<le> example_quality_number f \<and> example_quality_number f \<le> 16" for f
    by (cases f) simp_all
  have "inj example_quality_number"
  proof (rule injI)
    fix f g
    assume "example_quality_number f = example_quality_number g"
    then show "f = g" by (cases f; cases g) simp_all
  qed
  with valid show ?thesis
    by (auto simp: contracts_ok_def example_contracts_def inj_def split: market.splits venue.splits stream.splits)
qed

end
