(* ===== verification/Adapter_Text.thy ===== *)
theory Adapter_Text
  imports Decimal_Text
begin

text \<open>
  Text validation at the adapter boundary (\<open>src/proto_adapter/proto_adapter.cpp\<close>): identifiers,
  required text, and symbols, which are checked for well-formed UTF-8 without control characters or
  ASCII white space.  The decoder's 32-bit code points stay below \<open>2 ^ 21\<close>, so they are natural
  numbers here.  \<open>is_symbol\<close> is proved equivalent to the definition of UTF-8 by its encoder.
\<close>

unbundle bit_operations_syntax

subsection \<open>Identifiers and text\<close>

definition is_ascii_alphanumeric :: "char \<Rightarrow> bool" where
  "is_ascii_alphanumeric c \<longleftrightarrow>
     (char_code c \<ge> char_code CHR ''A'' \<and> char_code c \<le> char_code CHR ''Z'') \<or>
     (char_code c \<ge> char_code CHR ''a'' \<and> char_code c \<le> char_code CHR ''z'') \<or>
     (char_code c \<ge> char_code CHR ''0'' \<and> char_code c \<le> char_code CHR ''9'')"

definition is_identifier_tail :: "char \<Rightarrow> bool" where
  "is_identifier_tail c \<longleftrightarrow> is_ascii_alphanumeric c \<or> c = CHR ''.'' \<or> c = CHR ''_'' \<or>
     c = CHR '':'' \<or> c = CHR ''/'' \<or> c = CHR ''-''"

definition is_identifier :: "string \<Rightarrow> bool" where
  "is_identifier v =
     (if v = [] \<or> length v > 128 \<or> \<not> is_ascii_alphanumeric (hd v) then False
      else list_all is_identifier_tail (tl v))"

definition is_ascii_whitespace :: "char \<Rightarrow> bool" where
  "is_ascii_whitespace c \<longleftrightarrow> c = CHR '' '' \<or> c = CHR 0x09 \<or> c = CHR 0x0A \<or> c = CHR 0x0D \<or>
     c = CHR 0x0C \<or> c = CHR 0x0B"

definition is_non_empty_text :: "string \<Rightarrow> bool" where
  "is_non_empty_text v \<longleftrightarrow> v \<noteq> [] \<and> length v \<le> 256 \<and> \<not> is_ascii_whitespace (hd v) \<and>
     \<not> is_ascii_whitespace (last v)"

definition is_safe_ascii_symbol_byte :: "nat \<Rightarrow> bool" where
  "is_safe_ascii_symbol_byte v \<longleftrightarrow>
     v \<noteq> 0 \<and> v \<ge> 0x20 \<and> v \<noteq> 0x7F \<and> \<not> is_ascii_whitespace (char_of v)"

subsection \<open>Decoding a code point\<close>

record utf8_symbol_code_point =
  cp_width :: nat
  cp_code_point :: nat
  cp_minimum :: nat

text \<open>The continuation loop: \<open>remaining\<close> iterations left, from \<open>offset\<close> on.\<close>

fun decode_continuations ::
  "string \<Rightarrow> nat \<Rightarrow> nat \<Rightarrow> nat \<Rightarrow> utf8_symbol_code_point \<Rightarrow> utf8_symbol_code_point option" where
  "decode_continuations v index 0 offset decoded = Some decoded"
| "decode_continuations v index (Suc remaining) offset decoded =
     (let continuation = char_code (v ! (index + offset)) in
      if continuation AND 0xC0 \<noteq> 0x80 then None
      else decode_continuations v index remaining (offset + 1)
             (decoded\<lparr>cp_code_point := push_bit 6 (cp_code_point decoded) OR (continuation AND 0x3F)\<rparr>))"

definition decode_utf8_symbol_code_point ::
  "string \<Rightarrow> nat \<Rightarrow> utf8_symbol_code_point option" where
  "decode_utf8_symbol_code_point v index =
     (let lead = char_code (v ! index);
          start =
            (if lead \<ge> 0xC2 \<and> lead \<le> 0xDF
               then Some \<lparr>cp_width = 2, cp_code_point = lead AND 0x1F, cp_minimum = 0x80\<rparr>
             else if lead \<ge> 0xE0 \<and> lead \<le> 0xEF
               then Some \<lparr>cp_width = 3, cp_code_point = lead AND 0x0F, cp_minimum = 0x800\<rparr>
             else if lead \<ge> 0xF0 \<and> lead \<le> 0xF4
               then Some \<lparr>cp_width = 4, cp_code_point = lead AND 0x07, cp_minimum = 0x10000\<rparr>
             else None)
      in case start of
           None \<Rightarrow> None
         | Some decoded \<Rightarrow>
             if length v - index < cp_width decoded then None
             else decode_continuations v index (cp_width decoded - 1) 1 decoded)"

definition is_valid_utf8_symbol_code_point :: "nat \<Rightarrow> nat \<Rightarrow> bool" where
  "is_valid_utf8_symbol_code_point code_point minimum \<longleftrightarrow>
     code_point \<ge> minimum \<and> code_point \<le> 0x10FFFF \<and> (code_point < 0xD800 \<or> code_point > 0xDFFF)"

lemma decode_continuations_width:
  "decode_continuations v index n offset d = Some d' \<Longrightarrow> cp_width d' = cp_width d \<and> cp_minimum d' = cp_minimum d"
  by (induction v index n offset d rule: decode_continuations.induct)
    (auto simp: Let_def split: if_splits)

lemma decode_width:
  "decode_utf8_symbol_code_point v index = Some d \<Longrightarrow> 2 \<le> cp_width d \<and> index + cp_width d \<le> length v"
  by (auto simp: decode_utf8_symbol_code_point_def Let_def split: if_splits
      dest!: decode_continuations_width)

text \<open>The loop of \<open>is_symbol\<close>.\<close>

function is_symbol_from :: "string \<Rightarrow> nat \<Rightarrow> bool" where
  "is_symbol_from v index =
     (if index < length v then
        let lead = char_code (v ! index) in
        if lead < 0x80 then
          (if \<not> is_safe_ascii_symbol_byte lead then False else is_symbol_from v (index + 1))
        else
          (case decode_utf8_symbol_code_point v index of
             None \<Rightarrow> False
           | Some decoded \<Rightarrow>
               if \<not> is_valid_utf8_symbol_code_point (cp_code_point decoded) (cp_minimum decoded) then False
               else is_symbol_from v (index + cp_width decoded))
      else True)"
  by pat_completeness auto
termination
proof (relation "measure (\<lambda>(v, index). length v - index)", goal_cases)
  case 1
  show ?case by simp
next
  case (2 v index)
  then show ?case by simp
next
  case (3 v index x d)
  then show ?case using decode_width[of v index d] by simp linarith
qed

declare is_symbol_from.simps [simp del]

definition is_symbol :: "string \<Rightarrow> bool" where
  "is_symbol v = (if v = [] then False else is_symbol_from v 0)"

subsection \<open>UTF-8\<close>

text \<open>The encoding of a Unicode scalar value, from the definition of UTF-8.\<close>

definition utf8_bytes :: "nat \<Rightarrow> nat list" where
  "utf8_bytes cp =
     (if cp < 0x80 then [cp]
      else if cp < 0x800 then [0xC0 + cp div 64, 0x80 + cp mod 64]
      else if cp < 0x10000 then [0xE0 + cp div 4096, 0x80 + cp div 64 mod 64, 0x80 + cp mod 64]
      else [0xF0 + cp div 262144, 0x80 + cp div 4096 mod 64, 0x80 + cp div 64 mod 64, 0x80 + cp mod 64])"

definition scalar_value :: "nat \<Rightarrow> bool" where
  "scalar_value cp \<longleftrightarrow> cp \<le> 0x10FFFF \<and> \<not> (0xD800 \<le> cp \<and> cp \<le> 0xDFFF)"

definition symbol_code_point :: "nat \<Rightarrow> bool" where
  "symbol_code_point cp \<longleftrightarrow> scalar_value cp \<and> (cp < 0x80 \<longrightarrow> 0x20 < cp \<and> cp \<noteq> 0x7F)"

definition utf8_encode :: "nat list \<Rightarrow> string" where
  "utf8_encode cps = map char_of (concat (map utf8_bytes cps))"

lemma utf8_encode_simps [simp]:
  "utf8_encode [] = []"
  "utf8_encode (cp # cps) = map char_of (utf8_bytes cp) @ utf8_encode cps"
  by (simp_all add: utf8_encode_def)

lemma char_of_eq_iff: "v < 256 \<Longrightarrow> char_of v = c \<longleftrightarrow> v = char_code c"
  by (metis char_of_char of_char_mod_256 of_char_of mod_less)

lemma char_code_less [simp]: "char_code c < 256"
  by (metis of_char_mod_256 mod_less_divisor zero_less_numeral)

lemma safe_ascii_iff:
  assumes "v < 0x80"
  shows "is_safe_ascii_symbol_byte v \<longleftrightarrow> symbol_code_point v"
  using assms
  by (auto simp: is_safe_ascii_symbol_byte_def is_ascii_whitespace_def char_of_eq_iff
      symbol_code_point_def scalar_value_def)

subsection \<open>Bytes and bits\<close>

lemma and_low_bits:
  "n AND 0x07 = n mod 8" "n AND 0x0F = n mod 16" "n AND 0x1F = n mod 32" "n AND 0x3F = n mod 64"
  "n AND 3 = n mod 4" for n :: nat
  using take_bit_eq_mask[of 3 n] take_bit_eq_mask[of 4 n] take_bit_eq_mask[of 5 n]
    take_bit_eq_mask[of 6 n] take_bit_eq_mask[of 2 n]
  by (simp_all add: take_bit_eq_mod mask_eq_exp_minus_1)

lemma is_continuation_iff:
  fixes c :: nat
  assumes "c < 256"
  shows "c AND 0xC0 = 0x80 \<longleftrightarrow> 0x80 \<le> c \<and> c < 0xC0"
proof -
  have "c AND push_bit n m = push_bit n (drop_bit n c AND m)" for n m
    by (rule bit_eqI) (auto simp: bit_simps)
  from this[of 6 3] have "c AND 0xC0 = c div 64 mod 4 * 64"
    by (simp add: and_low_bits push_bit_eq_mult drop_bit_eq_div)
  moreover have "c div 64 mod 4 = c div 64"
    using assms by (simp add: div_less_iff_less_mult)
  ultimately have "c AND 0xC0 = 0x80 \<longleftrightarrow> c div 64 = 2" by auto
  then show ?thesis by (auto simp: div_nat_eqI)
qed

lemma shift_in:
  "push_bit 6 a OR (c mod 64) = a * 64 + c mod 64" for a c :: nat
proof -
  have "push_bit 6 a AND take_bit 6 c = 0"
    by (rule bit_eqI) (auto simp: bit_simps)
  then have "push_bit 6 a + take_bit 6 c = push_bit 6 a OR take_bit 6 c"
    by (rule disjunctive_add_eq_or)
  then show ?thesis by (simp add: push_bit_eq_mult take_bit_eq_mod)
qed

lemma decode_continuations_step:
  "decode_continuations v index (Suc n) offset d =
     (if 0x80 \<le> char_code (v ! (index + offset)) \<and> char_code (v ! (index + offset)) < 0xC0
      then decode_continuations v index n (offset + 1)
             (d\<lparr>cp_code_point := cp_code_point d * 64 + char_code (v ! (index + offset)) mod 64\<rparr>)
      else None)"
  by (simp add: Let_def is_continuation_iff and_low_bits shift_in)

text \<open>Decoding the three multi-byte forms.\<close>

definition byte_at :: "string \<Rightarrow> nat \<Rightarrow> nat" where
  "byte_at v i = char_code (v ! i)"

lemma decode_eq:
  "decode_utf8_symbol_code_point v i =
     (let lead = byte_at v i; cont = (\<lambda>k. 0x80 \<le> byte_at v (i + k) \<and> byte_at v (i + k) < 0xC0);
          payload = (\<lambda>k. byte_at v (i + k) mod 64) in
      if 0xC2 \<le> lead \<and> lead \<le> 0xDF then
        (if length v - i < 2 \<or> \<not> cont 1 then None
         else Some \<lparr>cp_width = 2, cp_code_point = lead mod 32 * 64 + payload 1, cp_minimum = 0x80\<rparr>)
      else if 0xE0 \<le> lead \<and> lead \<le> 0xEF then
        (if length v - i < 3 \<or> \<not> cont 1 \<or> \<not> cont 2 then None
         else Some \<lparr>cp_width = 3, cp_code_point = (lead mod 16 * 64 + payload 1) * 64 + payload 2,
                cp_minimum = 0x800\<rparr>)
      else if 0xF0 \<le> lead \<and> lead \<le> 0xF4 then
        (if length v - i < 4 \<or> \<not> cont 1 \<or> \<not> cont 2 \<or> \<not> cont 3 then None
         else Some \<lparr>cp_width = 4,
                cp_code_point = ((lead mod 8 * 64 + payload 1) * 64 + payload 2) * 64 + payload 3,
                cp_minimum = 0x10000\<rparr>)
      else None)"
proof -
  have sizes: "2 - 1 = Suc 0" "3 - 1 = Suc (Suc 0)" "4 - 1 = Suc (Suc (Suc 0))" by simp_all
  show ?thesis
    by (simp add: decode_utf8_symbol_code_point_def sizes decode_continuations_step and_low_bits
        byte_at_def Let_def numeral_2_eq_2 numeral_3_eq_3 del: decode_continuations.simps(2))
qed

text \<open>The bytes of a code point, from its digits in base 64.\<close>

lemma utf8_bytes_digits:
  assumes "a < 64" "b < 64" "c < 64"
  shows "2 \<le> x \<Longrightarrow> x < 32 \<Longrightarrow> utf8_bytes (x * 64 + a) = [0xC0 + x, 0x80 + a]"
    and "x < 16 \<Longrightarrow> 0x800 \<le> (x * 64 + a) * 64 + b \<Longrightarrow>
      utf8_bytes ((x * 64 + a) * 64 + b) = [0xE0 + x, 0x80 + a, 0x80 + b]"
    and "0x10000 \<le> ((x * 64 + a) * 64 + b) * 64 + c \<Longrightarrow>
      utf8_bytes (((x * 64 + a) * 64 + b) * 64 + c) = [0xF0 + x, 0x80 + a, 0x80 + b, 0x80 + c]"
proof -
  have d1: "(y * 64 + e) div 64 = y" "(y * 64 + e) mod 64 = e" if "e < 64" for y e :: nat
    using that by simp_all
  have d2: "n div 4096 = n div 64 div 64" "n div 262144 = n div 64 div 64 div 64" for n :: nat
    by (simp_all add: div_mult2_eq[symmetric])
  show "utf8_bytes (x * 64 + a) = [0xC0 + x, 0x80 + a]" if "2 \<le> x" "x < 32"
    using that assms by (simp add: utf8_bytes_def d1)
  show "utf8_bytes ((x * 64 + a) * 64 + b) = [0xE0 + x, 0x80 + a, 0x80 + b]"
    if "x < 16" "0x800 \<le> (x * 64 + a) * 64 + b"
    using that assms unfolding utf8_bytes_def d2 by (simp only: d1) simp
  show "utf8_bytes (((x * 64 + a) * 64 + b) * 64 + c) = [0xF0 + x, 0x80 + a, 0x80 + b, 0x80 + c]"
    if "0x10000 \<le> ((x * 64 + a) * 64 + b) * 64 + c"
    using that assms unfolding utf8_bytes_def d2 by (simp only: d1) simp
qed

lemma bytes_as_chars:
  assumes "i + n \<le> length v"
  shows "take n (drop i v) = map char_of (map (\<lambda>k. byte_at v (i + k)) [0..<n])"
  using assms by (intro nth_equalityI) (simp_all add: byte_at_def)

lemma mod_of_shifted: "m \<le> n \<Longrightarrow> n - m < d \<Longrightarrow> d dvd m \<Longrightarrow> n mod d = n - m" for m n d :: nat
  by (auto simp: le_iff_add elim!: dvdE)

lemma lead_mod:
  "0xC0 \<le> n \<Longrightarrow> n < 0xE0 \<Longrightarrow> n mod 32 = n - 0xC0"
  "0xE0 \<le> n \<Longrightarrow> n < 0xF0 \<Longrightarrow> n mod 16 = n - 0xE0"
  "0xF0 \<le> n \<Longrightarrow> n < 0xF8 \<Longrightarrow> n mod 8 = n - 0xF0"
  "0x80 \<le> n \<Longrightarrow> n < 0xC0 \<Longrightarrow> n mod 64 = n - 0x80" for n :: nat
  by (rule mod_of_shifted; simp)+

text \<open>The three forms, byte by byte.\<close>

definition continuation_at :: "string \<Rightarrow> nat \<Rightarrow> bool" where
  "continuation_at v i \<longleftrightarrow> 0x80 \<le> byte_at v i \<and> byte_at v i < 0xC0"

definition payload_at :: "string \<Rightarrow> nat \<Rightarrow> nat" where
  "payload_at v i = byte_at v i mod 64"

lemma payload_less [simp]: "payload_at v i < 64"
  by (simp add: payload_at_def)

lemma continuation_byte: "continuation_at v i \<Longrightarrow> byte_at v i = 0x80 + payload_at v i"
  by (simp add: continuation_at_def payload_at_def lead_mod)

lemmas decode_eq' = decode_eq[unfolded Let_def, folded continuation_at_def payload_at_def]

lemma decode_two:
  assumes "decode_utf8_symbol_code_point v i = Some d" and "byte_at v i \<le> 0xDF"
  shows "0xC2 \<le> byte_at v i \<and> continuation_at v (i + 1) \<and>
    d = \<lparr>cp_width = 2, cp_code_point = byte_at v i mod 32 * 64 + payload_at v (i + 1), cp_minimum = 0x80\<rparr>"
  using assms unfolding decode_eq' by (simp split: if_splits)

lemma decode_three:
  assumes "decode_utf8_symbol_code_point v i = Some d" and "0xE0 \<le> byte_at v i" "byte_at v i \<le> 0xEF"
  shows "continuation_at v (i + 1) \<and> continuation_at v (i + 2) \<and>
    d = \<lparr>cp_width = 3,
      cp_code_point = (byte_at v i mod 16 * 64 + payload_at v (i + 1)) * 64 + payload_at v (i + 2),
      cp_minimum = 0x800\<rparr>"
  using assms unfolding decode_eq' by (simp split: if_splits)

lemma decode_four:
  assumes "decode_utf8_symbol_code_point v i = Some d" and "0xF0 \<le> byte_at v i"
  shows "byte_at v i \<le> 0xF4 \<and> continuation_at v (i + 1) \<and> continuation_at v (i + 2) \<and>
    continuation_at v (i + 3) \<and>
    d = \<lparr>cp_width = 4,
      cp_code_point = ((byte_at v i mod 8 * 64 + payload_at v (i + 1)) * 64 + payload_at v (i + 2)) * 64 +
        payload_at v (i + 3), cp_minimum = 0x10000\<rparr>"
  using assms unfolding decode_eq' by (simp split: if_splits)

text \<open>What the decoder accepts is the encoding of a scalar value beyond ASCII.\<close>

lemma decode_bytes:
  assumes "decode_utf8_symbol_code_point v i = Some d" and "cp_minimum d \<le> cp_code_point d"
  shows "0x80 \<le> cp_code_point d \<and>
    utf8_bytes (cp_code_point d) = map (\<lambda>k. byte_at v (i + k)) [0..<cp_width d]"
proof -
  let ?b = "byte_at v"
  consider "?b i \<le> 0xDF" | "0xE0 \<le> ?b i" "?b i \<le> 0xEF" | "0xF0 \<le> ?b i" by linarith
  then show ?thesis
  proof cases
    case 1
    note d = decode_two[OF assms(1) 1]
    have "2 \<le> ?b i - 0xC0" "?b i - 0xC0 < 32" using d 1 by linarith+
    then have "utf8_bytes (?b i mod 32 * 64 + payload_at v (i + 1)) = [?b i, ?b (i + 1)]"
      using utf8_bytes_digits(1)[of "payload_at v (i + 1)" 0 0 "?b i mod 32"] d 1
      by (simp add: lead_mod(1) continuation_byte)
    with d assms(2) show ?thesis by (simp add: upt_rec)
  next
    case 2
    note d = decode_three[OF assms(1) 2]
    have "utf8_bytes (cp_code_point d) = [?b i, ?b (i + 1), ?b (i + 2)]"
      using utf8_bytes_digits(2)[of "payload_at v (i + 1)" "payload_at v (i + 2)" 0 "?b i mod 16"] d assms(2) 2
      by (simp add: lead_mod(2) continuation_byte)
    with d assms(2) show ?thesis by (simp add: upt_rec)
  next
    case 3
    note d = decode_four[OF assms(1) 3]
    have "utf8_bytes (cp_code_point d) = [?b i, ?b (i + 1), ?b (i + 2), ?b (i + 3)]"
      using utf8_bytes_digits(3)[of "payload_at v (i + 1)" "payload_at v (i + 2)" "payload_at v (i + 3)"
          "?b i mod 8"] d assms(2) 3
      by (simp add: lead_mod(3) continuation_byte)
    with d assms(2) show ?thesis by (simp add: upt_rec numeral_3_eq_3)
  qed
qed

text \<open>And every such encoding is accepted, with its code point and its width.\<close>

lemma decode_complete:
  assumes "0x80 \<le> cp" "cp \<le> 0x10FFFF" and "i + length (utf8_bytes cp) \<le> length v"
    and bytes: "map (\<lambda>k. byte_at v (i + k)) [0..<length (utf8_bytes cp)] = utf8_bytes cp"
  shows "\<exists>d. decode_utf8_symbol_code_point v i = Some d \<and> cp_code_point d = cp \<and>
    cp_width d = length (utf8_bytes cp) \<and> cp_minimum d \<le> cp"
proof -
  have lead: "(0xC0 + x) mod 32 = x mod 32" "(0xE0 + x) mod 16 = x mod 16" "(0xF0 + x) mod 8 = x mod 8"
    "(0x80 + x) mod 64 = x mod 64" for x :: nat
    using mod_mult_self4[of 32 6 x] mod_mult_self4[of 16 14 x] mod_mult_self4[of 8 30 x]
      mod_mult_self4[of 64 2 x] by simp_all
  define a b c x where "a = cp mod 64" and "b = cp div 64 mod 64" and "c = cp div 4096 mod 64"
    and "x = cp div 262144"
  have less: "a < 64" "b < 64" "c < 64" by (simp_all add: a_def b_def c_def)
  have chain: "cp div 4096 = cp div 64 div 64" "cp div 262144 = cp div 64 div 64 div 64"
    by (simp_all add: div_mult2_eq[symmetric])
  have digits: "cp div 64 * 64 + a = cp" "cp div 4096 * 64 + b = cp div 64" "x * 64 + c = cp div 4096"
    unfolding a_def b_def c_def x_def chain by (simp_all only: div_mult_mod_eq)
  note cont = continuation_at_def payload_at_def lead less
  consider (two) "cp < 0x800" | (three) "0x800 \<le> cp" "cp < 0x10000" | (four) "0x10000 \<le> cp" by linarith
  then show ?thesis
  proof cases
    case two
    have "utf8_bytes cp = [0xC0 + cp div 64, 0x80 + a]" using two assms(1) by (simp add: utf8_bytes_def a_def)
    with bytes have b: "byte_at v i = 0xC0 + cp div 64" "byte_at v (i + 1) = 0x80 + a" "length (utf8_bytes cp) = 2"
      by (simp_all add: upt_rec)
    have "2 \<le> cp div 64" "cp div 64 < 32" using two assms(1) by (simp_all add: less_eq_div_iff_mult_less_eq div_less_iff_less_mult)
    with b assms(1,3) digits(1) show ?thesis
      unfolding decode_eq' by (simp add: cont)
  next
    case three
    have "utf8_bytes cp = [0xE0 + cp div 4096, 0x80 + b, 0x80 + a]"
      using three by (simp add: utf8_bytes_def a_def b_def)
    with bytes have bs: "byte_at v i = 0xE0 + cp div 4096" "byte_at v (i + 1) = 0x80 + b"
      "byte_at v (i + 2) = 0x80 + a" "length (utf8_bytes cp) = 3"
      by (simp_all add: upt_rec)
    have "cp div 4096 < 16" using three by (simp add: div_less_iff_less_mult)
    with bs assms(3) digits(1,2) three show ?thesis
      unfolding decode_eq' by (simp add: cont)
  next
    case four
    have "utf8_bytes cp = [0xF0 + x, 0x80 + c, 0x80 + b, 0x80 + a]"
      using four by (simp add: utf8_bytes_def a_def b_def c_def x_def)
    with bytes have bs: "byte_at v i = 0xF0 + x" "byte_at v (i + 1) = 0x80 + c"
      "byte_at v (i + 2) = 0x80 + b" "byte_at v (i + 3) = 0x80 + a" "length (utf8_bytes cp) = 4"
      by (simp_all add: upt_rec numeral_3_eq_3)
    have "x \<le> 4" using div_le_mono[OF assms(2), of 262144] by (simp add: x_def)
    with bs assms(3) digits four show ?thesis
      unfolding decode_eq' by (simp add: cont)
  qed
qed

lemma utf8_bytes_head: "utf8_bytes cp \<noteq> []" "hd (utf8_bytes cp) < 0x80 \<longleftrightarrow> cp < 0x80"
  "cp < 0x80 \<Longrightarrow> utf8_bytes cp = [cp]"
  by (simp_all add: utf8_bytes_def)

lemma utf8_bytes_less: "cp \<le> 0x10FFFF \<Longrightarrow> b \<in> set (utf8_bytes cp) \<Longrightarrow> b < 256"
proof -
  assume "cp \<le> 0x10FFFF" and b: "b \<in> set (utf8_bytes cp)"
  then have "cp div 262144 \<le> 4" using div_le_mono[of cp "0x10FFFF" 262144] by simp
  moreover have "cp < 0x10000 \<Longrightarrow> cp div 4096 < 16" "cp < 0x800 \<Longrightarrow> cp div 64 < 32"
    by (simp_all add: div_less_iff_less_mult)
  moreover have "n mod 64 < 64" for n :: nat by simp
  ultimately show "b < 256"
    using b by (auto simp: utf8_bytes_def intro: add_less_le_mono split: if_splits)
qed

lemma encoded_bytes:
  assumes "cp \<le> 0x10FFFF" and "drop i v = map char_of (utf8_bytes cp) @ rest"
  shows "i + length (utf8_bytes cp) \<le> length v"
    and "map (\<lambda>k. byte_at v (i + k)) [0..<length (utf8_bytes cp)] = utf8_bytes cp"
    and "drop (i + length (utf8_bytes cp)) v = rest"
proof -
  have len: "length (drop i v) = length (utf8_bytes cp) + length rest" using assms(2) by simp
  moreover have ne: "0 < length (utf8_bytes cp)" using utf8_bytes_head(1)[of cp] by simp
  ultimately show le: "i + length (utf8_bytes cp) \<le> length v" unfolding length_drop by linarith
  show "map (\<lambda>k. byte_at v (i + k)) [0..<length (utf8_bytes cp)] = utf8_bytes cp"
  proof (rule nth_equalityI)
    fix k
    assume "k < length (map (\<lambda>k. byte_at v (i + k)) [0..<length (utf8_bytes cp)])"
    then have k: "k < length (utf8_bytes cp)" by simp
    then have "v ! (i + k) = char_of (utf8_bytes cp ! k)"
      using arg_cong[OF assms(2), of "\<lambda>xs. xs ! k"] le by (simp add: nth_append)
    moreover have "utf8_bytes cp ! k < 256" using utf8_bytes_less[OF assms(1)] k by simp
    ultimately show "map (\<lambda>k. byte_at v (i + k)) [0..<length (utf8_bytes cp)] ! k = utf8_bytes cp ! k"
      using k by (simp add: byte_at_def)
  qed simp
  show "drop (i + length (utf8_bytes cp)) v = rest"
    using arg_cong[OF assms(2), of "drop (length (utf8_bytes cp))"] by (simp add: add.commute)
qed

text \<open>
  Text that encodes a sequence of code points of some class, one code point at a time.  A class admits
  every scalar value beyond ASCII and chooses among the ASCII ones; a scanner that checks ASCII bytes
  itself and leaves the rest to the decoder accepts exactly the text of its class.
\<close>

definition text_of :: "(nat \<Rightarrow> bool) \<Rightarrow> string \<Rightarrow> bool" where
  "text_of admitted v \<longleftrightarrow> (\<exists>cps. v = utf8_encode cps \<and> list_all admitted cps)"

locale code_point_class =
  fixes admitted :: "nat \<Rightarrow> bool"
  assumes admitted_scalar: "admitted cp \<Longrightarrow> scalar_value cp"
    and admits_wide: "0x80 \<le> cp \<Longrightarrow> scalar_value cp \<Longrightarrow> admitted cp"
begin

lemma text_of_Nil: "text_of admitted []"
  unfolding text_of_def by (rule exI[of _ "[]"]) simp

lemma text_of_split:
  assumes "v \<noteq> []"
  shows "text_of admitted v \<longleftrightarrow>
    (\<exists>cp rest. admitted cp \<and> v = map char_of (utf8_bytes cp) @ rest \<and> text_of admitted rest)"
    (is "?L \<longleftrightarrow> ?R")
proof
  assume ?L
  then obtain cps where "v = utf8_encode cps" "list_all admitted cps"
    unfolding text_of_def by blast
  with assms show ?R unfolding text_of_def by (cases cps) auto
next
  assume ?R
  then obtain cp cps where "admitted cp" "list_all admitted cps"
    "v = map char_of (utf8_bytes cp) @ utf8_encode cps"
    unfolding text_of_def by blast
  then show ?L unfolding text_of_def by (intro exI[of _ "cp # cps"]) simp
qed

lemma admitted_le: "admitted cp \<Longrightarrow> cp \<le> 0x10FFFF"
  using admitted_scalar[of cp] by (simp add: scalar_value_def)

lemma head_byte:
  assumes "admitted cp" and "drop i v = map char_of (utf8_bytes cp) @ rest"
  shows "byte_at v i = hd (utf8_bytes cp)"
proof -
  have "hd (map (\<lambda>k. byte_at v (i + k)) [0..<length (utf8_bytes cp)]) = byte_at v i"
    using utf8_bytes_head(1)[of cp] by (simp add: hd_map)
  then show ?thesis
    by (simp only: encoded_bytes(2)[OF admitted_le[OF assms(1)] assms(2)])
qed

lemma text_of_ascii:
  assumes "i < length v" and "byte_at v i < 0x80"
  shows "text_of admitted (drop i v) \<longleftrightarrow> admitted (byte_at v i) \<and> text_of admitted (drop (i + 1) v)"
proof -
  have cons: "drop i v = map char_of (utf8_bytes (byte_at v i)) @ drop (i + 1) v"
    using assms by (simp add: byte_at_def Cons_nth_drop_Suc utf8_bytes_head(3))
  have uniq: "cp = byte_at v i \<and> rest = drop (i + 1) v"
    if "admitted cp" "drop i v = map char_of (utf8_bytes cp) @ rest" for cp rest
  proof -
    have "cp = byte_at v i" using head_byte[OF that] assms(2) utf8_bytes_head(2,3)[of cp] by simp
    with that(2) cons show ?thesis by (metis same_append_eq)
  qed
  have "drop i v \<noteq> []" using assms(1) by simp
  from text_of_split[OF this] uniq cons show ?thesis by blast
qed

lemma text_of_multi:
  assumes "i < length v" and "\<not> byte_at v i < 0x80"
  shows "text_of admitted (drop i v) \<longleftrightarrow>
    (\<exists>d. decode_utf8_symbol_code_point v i = Some d \<and>
       is_valid_utf8_symbol_code_point (cp_code_point d) (cp_minimum d) \<and>
       text_of admitted (drop (i + cp_width d) v))" (is "?L \<longleftrightarrow> ?R")
proof
  assume ?L
  then obtain cp rest where cp: "admitted cp" "drop i v = map char_of (utf8_bytes cp) @ rest"
    "text_of admitted rest"
    using text_of_split[of "drop i v"] assms(1) by auto
  have range: "0x80 \<le> cp" "cp \<le> 0x10FFFF"
    using head_byte[OF cp(1,2)] assms(2) utf8_bytes_head(2)[of cp] admitted_le[OF cp(1)] by simp_all
  obtain d where "decode_utf8_symbol_code_point v i = Some d" "cp_code_point d = cp"
    "cp_width d = length (utf8_bytes cp)" "cp_minimum d \<le> cp"
    using decode_complete[OF range encoded_bytes(1,2)[OF range(2) cp(2)]] by blast
  with encoded_bytes(3)[OF range(2) cp(2)] admitted_scalar[OF cp(1)] cp(3) range show ?R
    by (auto simp: is_valid_utf8_symbol_code_point_def scalar_value_def)
next
  assume ?R
  then obtain d where d: "decode_utf8_symbol_code_point v i = Some d"
    "is_valid_utf8_symbol_code_point (cp_code_point d) (cp_minimum d)"
    and rest: "text_of admitted (drop (i + cp_width d) v)" by blast
  have min: "cp_minimum d \<le> cp_code_point d" using d(2) by (simp add: is_valid_utf8_symbol_code_point_def)
  have width: "i + cp_width d \<le> length v" using decode_width[OF d(1)] by simp
  have "take (cp_width d) (drop i v) = map char_of (utf8_bytes (cp_code_point d))"
    using bytes_as_chars[OF width] decode_bytes[OF d(1) min] by simp
  then have "drop i v = map char_of (utf8_bytes (cp_code_point d)) @ drop (i + cp_width d) v"
    by (metis append_take_drop_id drop_drop add.commute)
  moreover have "admitted (cp_code_point d)"
    using d(2) decode_bytes[OF d(1) min]
    by (auto simp: is_valid_utf8_symbol_code_point_def scalar_value_def intro!: admits_wide)
  ultimately show ?L using rest assms(1) by (subst text_of_split) auto
qed

end

interpretation symbol_class: code_point_class symbol_code_point
  by unfold_locales (simp_all add: symbol_code_point_def)

lemma is_symbol_from_iff: "i \<le> length v \<Longrightarrow> is_symbol_from v i \<longleftrightarrow> text_of symbol_code_point (drop i v)"
proof (induction v i rule: is_symbol_from.induct)
  case (1 v i)
  consider "i = length v" | "i < length v" "byte_at v i < 0x80" | "i < length v" "\<not> byte_at v i < 0x80"
    using "1.prems" by linarith
  then show ?case
  proof cases
    case 1
    then show ?thesis by (simp add: is_symbol_from.simps[of v] symbol_class.text_of_Nil)
  next
    case 2
    then have safe: "is_safe_ascii_symbol_byte (byte_at v i) \<longleftrightarrow> symbol_code_point (byte_at v i)"
      by (simp add: safe_ascii_iff)
    then show ?thesis
      using 2 "1.IH"(1)[OF 2(1) refl]
      by (auto simp: is_symbol_from.simps[of v i] symbol_class.text_of_ascii byte_at_def)
  next
    case 3
    have "is_symbol_from v (i + cp_width d) \<longleftrightarrow> text_of symbol_code_point (drop (i + cp_width d) v)"
      if "decode_utf8_symbol_code_point v i = Some d"
        "is_valid_utf8_symbol_code_point (cp_code_point d) (cp_minimum d)" for d
      using "1.IH"(2)[OF 3(1) refl _ that(1)] 3(2) that(2) decode_width[OF that(1)] by (simp add: byte_at_def)
    with 3 show ?thesis
      by (auto simp: is_symbol_from.simps[of v i] symbol_class.text_of_multi byte_at_def Let_def split: option.split)
  qed
qed

lemma is_symbol_iff: "is_symbol v \<longleftrightarrow> v \<noteq> [] \<and> text_of symbol_code_point v"
  using is_symbol_from_iff[of 0 v] by (simp add: is_symbol_def)

subsection \<open>Properties\<close>

text \<open>
  C21: symbols are exactly the safe UTF-8 strings.  \<open>is_symbol\<close> accepts a byte string if and only if
  it is non-empty and is the UTF-8 encoding of a sequence of Unicode scalar values (no surrogates,
  no overlong forms, nothing beyond U+10FFFF) of which none is an ASCII control character, space or
  DEL.
\<close>

theorem is_symbol_utf8:
  "is_symbol v \<longleftrightarrow> v \<noteq> [] \<and> (\<exists>cps. v = utf8_encode cps \<and> list_all symbol_code_point cps)"
  unfolding is_symbol_iff text_of_def ..

end
