(* ===== verification/Adapter_Inbound.thy ===== *)
theory Adapter_Inbound
  imports Adapter_Types Adapter_Text
begin

text \<open>
  The inbound half of \<open>src/proto_adapter/proto_adapter.cpp\<close>: identity and schema checks, quality
  flags, decimal levels, and the two entry points that turn a wire snapshot or a wire depth update
  into a baseline or a batch bound to a numeric spec and a sequence policy.  The theorems say what
  an accepted message means: exact decimals, ordered levels, a valid update range, and the facts
  its quality flags state; and that an adapted value reaches only a projection it was adapted for.
\<close>

subsection \<open>Enums\<close>

definition map_market :: "contracts \<Rightarrow> int \<Rightarrow> sequence_policy_kind adapter_result" where
  "map_market C m =
     (if m = market_number C MARKET_SPOT then Inr Spot
      else if m = market_number C MARKET_USD_M_PERPETUAL then Inr UsdMPerpetual
      else if m = market_number C MARKET_UNSPECIFIED then Inl (enum_error UnspecifiedEnum MarketField m)
      else Inl (enum_error UnknownEnumValue MarketField m))"

definition validate_venue :: "contracts \<Rightarrow> int \<Rightarrow> adapter_error option" where
  "validate_venue C v =
     (if v = venue_number C VENUE_BINANCE then None
      else if v = venue_number C VENUE_UNSPECIFIED then Some (enum_error UnspecifiedEnum VenueField v)
      else Some (enum_error UnsupportedVenue VenueField v))"

definition validate_stream :: "contracts \<Rightarrow> int \<Rightarrow> adapter_error option" where
  "validate_stream C s =
     (if s = stream_number C STREAM_DIFF_DEPTH then None
      else if s = stream_number C STREAM_UNSPECIFIED then Some (enum_error UnspecifiedEnum StreamField s)
      else if s = stream_number C STREAM_AGG_TRADE \<or> s = stream_number C STREAM_BOOK_TICKER \<or>
              s = stream_number C STREAM_DEPTH_SNAPSHOT
        then Some (enum_error UnexpectedStream StreamField s)
      else Some (enum_error UnknownEnumValue StreamField s))"

text \<open>The second component is the out-parameter \<open>mapping_error\<close> after the call.\<close>

definition map_inbound_quality ::
  "contracts \<Rightarrow> int \<Rightarrow> adapter_error \<Rightarrow> host_quality_fact option \<times> adapter_error" where
  "map_inbound_quality C flag mapping_error =
     (let is = (\<lambda>f. flag = quality_number C f) in
      if is QUALITY_FLAG_DUPLICATE then (Some HqDuplicate, mapping_error)
      else if is QUALITY_FLAG_OUT_OF_ORDER then (Some HqOutOfOrder, mapping_error)
      else if is QUALITY_FLAG_ORDERBOOK_RESYNC then (Some HqOrderBookResync, mapping_error)
      else if is QUALITY_FLAG_SNAPSHOT_TOO_OLD then (Some HqSnapshotTooOld, mapping_error)
      else if is QUALITY_FLAG_BOOTSTRAP_BUFFER_OVERFLOW then (Some HqBootstrapBufferOverflow, mapping_error)
      else if is QUALITY_FLAG_RECOVERED_TAIL then (Some HqRecoveredTail, mapping_error)
      else if is QUALITY_FLAG_MALFORMED_PAYLOAD then (Some HqMalformedPayload, mapping_error)
      else if is QUALITY_FLAG_EXCHANGE_TIME_MISSING then (Some HqExchangeTimeMissing, mapping_error)
      else if is QUALITY_FLAG_RECEIVE_CLOCK_DISCONTINUITY then (Some HqReceiveClockDiscontinuity, mapping_error)
      else if is QUALITY_FLAG_SLOW_CONSUMER_GAP then (Some HqSlowConsumerGap, mapping_error)
      else if is QUALITY_FLAG_PRODUCER_RESTART then (Some HqProducerRestart, mapping_error)
      else if is QUALITY_FLAG_OVERLAP then (Some HqOverlap, mapping_error)
      else if is QUALITY_FLAG_IDENTITY_CONFLICT then (Some HqIdentityConflict, mapping_error)
      else if is QUALITY_FLAG_SEQUENCE_GAP \<or> is QUALITY_FLAG_SNAPSHOT_BRIDGE_PENDING \<or>
              is QUALITY_FLAG_CROSSED_BOOK then (None, mapping_error)
      else if is QUALITY_FLAG_UNSPECIFIED then (None, enum_error UnspecifiedEnum QualityFlagField flag)
      else (None, enum_error UnknownEnumValue QualityFlagField flag))"

text \<open>The first loop of \<open>adapt_quality\<close>, over the array \<open>present\<close>.\<close>

fun mark_quality :: "contracts \<Rightarrow> bool list \<Rightarrow> int list \<Rightarrow> adapter_error + bool list" where
  "mark_quality C present [] = Inr present"
| "mark_quality C present (raw_flag # flags) =
     (case map_inbound_quality C raw_flag (adapter_error UnknownEnumValue QualityFlagField) of
        (mapped, mapping_error) \<Rightarrow>
          if raw_flag = quality_number C QUALITY_FLAG_UNSPECIFIED \<or> \<not> QualityFlag_IsValid C raw_flag
            then Inl mapping_error
          else
            mark_quality C
              (case mapped of None \<Rightarrow> present | Some host_fact \<Rightarrow> present[host_fact_index host_fact := True]) flags)"

definition adapt_quality :: "contracts \<Rightarrow> int list \<Rightarrow> adapted_metadata adapter_result" where
  "adapt_quality C quality_flags =
     bind_result (mark_quality C (replicate 13 False) quality_flags) (\<lambda>present.
       Inr \<lparr>observed_quality =
         map (\<lambda>index. host_quality_facts ! index) (filter (\<lambda>index. present ! index) [0..<length present])\<rparr>)"

subsection \<open>Levels\<close>

record level_fields =
  lf_price :: adapter_field
  lf_quantity :: adapter_field

definition adapt_book_level ::
  "wire_price_level \<Rightarrow> numeric_spec \<Rightarrow> level_fields \<Rightarrow> book_level adapter_result" where
  "adapt_book_level wire spec lf =
     (case parse_price (pl_price wire) (price_scale spec) of
        Inl detail \<Rightarrow>
          let code =
            (if dec_code detail = ZeroNotAllowed \<or> (pl_price wire \<noteq> [] \<and> hd (pl_price wire) = CHR ''-'')
               then NonPositivePrice
             else if dec_code detail = InexactScale then ScaleMismatch
             else if dec_code detail = Overflow then NumericOverflow
             else InvalidDecimal)
          in Inl (adapter_decimal_error code (lf_price lf) detail)
      | Inr price \<Rightarrow>
          (case parse_quantity (pl_quantity wire) (quantity_scale spec) of
             Inl detail \<Rightarrow>
               let code =
                 (if pl_quantity wire \<noteq> [] \<and> hd (pl_quantity wire) = CHR ''-'' then NegativeQuantity
                  else if dec_code detail = InexactScale then ScaleMismatch
                  else if dec_code detail = Overflow then NumericOverflow
                  else InvalidDecimal)
               in Inl (adapter_decimal_error code (lf_quantity lf) detail)
           | Inr quantity \<Rightarrow> Inr (BookLevel (pd_value price) (pd_value quantity))))"

definition side_fields :: "bool \<Rightarrow> level_fields" where
  "side_fields bids = \<lparr>lf_price = (if bids then BidPriceField else AskPriceField),
     lf_quantity = (if bids then BidQuantityField else AskQuantityField)\<rparr>"

text \<open>The loop of \<open>adapt_baseline_side\<close>; \<open>levels\<close> is the vector under construction.\<close>

fun adapt_baseline_loop ::
  "numeric_spec \<Rightarrow> bool \<Rightarrow> wire_price_level list \<Rightarrow> book_level list \<Rightarrow> book_level list adapter_result" where
  "adapt_baseline_loop spec bids [] levels = Inr levels"
| "adapt_baseline_loop spec bids (wire_level # wire_levels) levels =
     bind_result (adapt_book_level wire_level spec (side_fields bids)) (\<lambda>level.
       if levels \<noteq> [] \<and>
          \<not> (if bids then lvl_price level < lvl_price (last levels)
             else lvl_price level > lvl_price (last levels))
         then Inl (adapter_error InvalidOrdering (if bids then BidPriceField else AskPriceField))
       else adapt_baseline_loop spec bids wire_levels (levels @ [level]))"

definition adapt_baseline_side ::
  "wire_price_level list \<Rightarrow> numeric_spec \<Rightarrow> bool \<Rightarrow> book_level list adapter_result" where
  "adapt_baseline_side wire_levels spec bids = adapt_baseline_loop spec bids wire_levels []"

fun adapt_updates_loop ::
  "numeric_spec \<Rightarrow> book_side \<Rightarrow> wire_price_level list \<Rightarrow> level_update list \<Rightarrow> level_update list adapter_result" where
  "adapt_updates_loop spec side [] updates = Inr updates"
| "adapt_updates_loop spec side (wire_level # wire_levels) updates =
     bind_result (adapt_book_level wire_level spec (side_fields (side = Bid))) (\<lambda>level.
       adapt_updates_loop spec side wire_levels
         (updates @ [LevelUpdate side (lvl_price level) (lvl_quantity level)]))"

definition adapt_updates ::
  "wire_price_level list \<Rightarrow> numeric_spec \<Rightarrow> book_side \<Rightarrow> level_update list adapter_result" where
  "adapt_updates wire_levels spec side = adapt_updates_loop spec side wire_levels []"

subsection \<open>Identity and text\<close>

definition validate_expected_identity ::
  "string \<Rightarrow> sequence_policy_kind \<Rightarrow> expected_identity \<Rightarrow> adapter_error option" where
  "validate_expected_identity wire_symbol wire_policy expected =
     (if \<not> is_symbol wire_symbol then Some (adapter_error InvalidIdentifier SymbolField)
      else if \<not> is_symbol (ei_symbol expected) \<or> wire_symbol \<noteq> ei_symbol expected
        then Some (adapter_error IdentityMismatch SymbolField)
      else if wire_policy \<noteq> ei_policy expected then Some (adapter_error IdentityMismatch MarketField)
      else None)"

definition missing_or_invalid :: "string \<Rightarrow> adapter_error_code" where
  "missing_or_invalid t = (if t = [] then MissingRequiredField else InvalidIdentifier)"

definition validate_required_text ::
  "string \<Rightarrow> string \<Rightarrow> string \<Rightarrow> adapter_field \<Rightarrow> adapter_error option" where
  "validate_required_text producer producer_version identifier identifier_field =
     (if \<not> is_non_empty_text producer
        then Some (adapter_error (missing_or_invalid producer) ProducerField)
      else if \<not> is_non_empty_text producer_version
        then Some (adapter_error (missing_or_invalid producer_version) ProducerVersionField)
      else if \<not> is_identifier identifier
        then Some (adapter_error (missing_or_invalid identifier) identifier_field)
      else None)"

definition validate_wire_identity ::
  "contracts \<Rightarrow> int \<Rightarrow> int \<Rightarrow> string \<Rightarrow> expected_identity \<Rightarrow> sequence_policy_kind adapter_result" where
  "validate_wire_identity C v m symbol expected =
     return_if_error (validate_venue C v)
       (bind_result (map_market C m) (\<lambda>policy.
          return_if_error (validate_expected_identity symbol policy expected) (Inr policy)))"

definition validate_binding ::
  "numeric_spec \<Rightarrow> sequence_policy_kind \<Rightarrow> book_projection \<Rightarrow> adapter_error option" where
  "validate_binding owner_spec owner_policy target =
     (if price_scale owner_spec \<noteq> price_scale (bp_numeric_spec target)
        then Some (adapter_error ProjectionNumericSpecMismatch ProjectionPriceScaleField)
      else if quantity_scale owner_spec \<noteq> quantity_scale (bp_numeric_spec target)
        then Some (adapter_error ProjectionNumericSpecMismatch ProjectionQuantityScaleField)
      else if owner_policy \<noteq> bp_policy target
        then Some (adapter_error ProjectionPolicyMismatch ProjectionPolicyField)
      else None)"

definition market_for_policy :: "sequence_policy_kind \<Rightarrow> market" where
  "market_for_policy policy = (case policy of Spot \<Rightarrow> MARKET_SPOT | UsdMPerpetual \<Rightarrow> MARKET_USD_M_PERPETUAL)"

subsection \<open>Adapted values\<close>

definition baseline_view_unchecked :: "adapted_book_baseline \<Rightarrow> book_baseline" where
  "baseline_view_unchecked b =
     \<lparr>bb_last_update_id = ab_last_update_id b, bb_bids = ab_bids b, bb_asks = ab_asks b\<rparr>"

definition install_into ::
  "adapted_book_baseline \<Rightarrow> book_projection \<Rightarrow> install_result adapter_result \<times> book_projection" where
  "install_into b target =
     (case validate_binding (ab_numeric_spec b) (ab_policy b) target of
        Some binding_error \<Rightarrow> (Inl binding_error, target)
      | None \<Rightarrow>
          (case install_baseline target (baseline_view_unchecked b) of (r, target') \<Rightarrow> (Inr r, target')))"

definition batch_view_unchecked :: "adapted_depth_batch \<Rightarrow> depth_batch" where
  "batch_view_unchecked d =
     \<lparr>db_range = ad_range d, db_previous_final = ad_previous_final d, db_levels = ad_levels d\<rparr>"

text \<open>\<open>None\<close> is an exception thrown by \<open>apply\<close>, as in \<open>Book_Projection\<close>.\<close>

definition apply_to ::
  "adapted_depth_batch \<Rightarrow> book_projection \<Rightarrow> (apply_result adapter_result \<times> book_projection) option" where
  "apply_to d target =
     (case validate_binding (ad_numeric_spec d) (ad_policy d) target of
        Some binding_error \<Rightarrow> Some (Inl binding_error, target)
      | None \<Rightarrow> map_option (\<lambda>(r, target'). (Inr r, target')) (apply_batch target (batch_view_unchecked d)))"

subsection \<open>Entry points\<close>

definition kSnapshotSchema :: string where
  "kSnapshotSchema = ''exchange-depth-snapshot.v1''"

definition kUpdateSchema :: string where
  "kUpdateSchema = ''depth-update.v1''"

definition adapt_exchange_depth_snapshot ::
  "contracts \<Rightarrow> wire_depth_snapshot \<Rightarrow> numeric_spec \<Rightarrow> expected_identity \<Rightarrow>
   adapted_book_baseline adapter_result" where
  "adapt_exchange_depth_snapshot C wire spec expected =
     bind_result (validate_wire_identity C (ds_venue wire) (ds_market wire) (ds_symbol wire) expected) (\<lambda>policy.
       if ds_schema_version wire \<noteq> kSnapshotSchema
         then Inl (adapter_error UnsupportedSchemaVersion SchemaVersionField)
       else
         return_if_error (validate_required_text (ds_producer wire) (ds_producer_version wire)
             (ds_request_id wire) RequestIdField)
           (bind_result (adapt_quality C (ds_quality_flags wire)) (\<lambda>quality.
             bind_result (adapt_baseline_side (ds_bids wire) spec True) (\<lambda>bids.
             bind_result (adapt_baseline_side (ds_asks wire) spec False) (\<lambda>asks.
               Inr \<lparr>ab_numeric_spec = spec, ab_policy = policy, ab_last_update_id = ds_last_update_id wire,
                    ab_bids = bids, ab_asks = asks, ab_metadata = quality\<rparr>)))))"

definition adapt_depth_update ::
  "contracts \<Rightarrow> wire_depth_update \<Rightarrow> numeric_spec \<Rightarrow> expected_identity \<Rightarrow>
   adapted_depth_batch adapter_result" where
  "adapt_depth_update C wire spec expected =
     (case du_metadata wire of
        None \<Rightarrow> Inl (adapter_error MissingRequiredField NoField)
      | Some metadata \<Rightarrow>
          bind_result (validate_wire_identity C (md_venue metadata) (md_market metadata)
              (md_symbol metadata) expected) (\<lambda>policy.
            return_if_error (validate_stream C (md_stream metadata))
              (if md_schema_version metadata \<noteq> kUpdateSchema
                 then Inl (adapter_error UnsupportedSchemaVersion SchemaVersionField)
               else
                 return_if_error (validate_required_text (md_producer metadata)
                     (md_producer_version metadata) (md_connection_id metadata) ConnectionIdField)
                   (case UpdateRange_try_create (du_first_update_id wire) (du_final_update_id wire) of
                      None \<Rightarrow> Inl (adapter_error InvalidUpdateRange FinalUpdateIdField)
                    | Some rng \<Rightarrow>
                        bind_result (adapt_quality C (md_quality_flags metadata)) (\<lambda>quality.
                        bind_result (adapt_updates (du_bids wire) spec Bid) (\<lambda>bids.
                        bind_result (adapt_updates (du_asks wire) spec Ask) (\<lambda>asks.
                          Inr \<lparr>ad_numeric_spec = spec, ad_policy = policy, ad_range = rng,
                               ad_previous_final = du_previous_final_update_id wire,
                               ad_levels = bids @ asks, ad_metadata = quality\<rparr>)))))))"

subsection \<open>Quality flags\<close>

fun flag_of_fact :: "host_quality_fact \<Rightarrow> quality_flag" where
  "flag_of_fact HqDuplicate = QUALITY_FLAG_DUPLICATE"
| "flag_of_fact HqOutOfOrder = QUALITY_FLAG_OUT_OF_ORDER"
| "flag_of_fact HqOrderBookResync = QUALITY_FLAG_ORDERBOOK_RESYNC"
| "flag_of_fact HqSnapshotTooOld = QUALITY_FLAG_SNAPSHOT_TOO_OLD"
| "flag_of_fact HqBootstrapBufferOverflow = QUALITY_FLAG_BOOTSTRAP_BUFFER_OVERFLOW"
| "flag_of_fact HqRecoveredTail = QUALITY_FLAG_RECOVERED_TAIL"
| "flag_of_fact HqMalformedPayload = QUALITY_FLAG_MALFORMED_PAYLOAD"
| "flag_of_fact HqExchangeTimeMissing = QUALITY_FLAG_EXCHANGE_TIME_MISSING"
| "flag_of_fact HqReceiveClockDiscontinuity = QUALITY_FLAG_RECEIVE_CLOCK_DISCONTINUITY"
| "flag_of_fact HqSlowConsumerGap = QUALITY_FLAG_SLOW_CONSUMER_GAP"
| "flag_of_fact HqProducerRestart = QUALITY_FLAG_PRODUCER_RESTART"
| "flag_of_fact HqOverlap = QUALITY_FLAG_OVERLAP"
| "flag_of_fact HqIdentityConflict = QUALITY_FLAG_IDENTITY_CONFLICT"

definition flag_accepted :: "contracts \<Rightarrow> int \<Rightarrow> bool" where
  "flag_accepted C raw \<longleftrightarrow> raw \<noteq> quality_number C QUALITY_FLAG_UNSPECIFIED \<and> QualityFlag_IsValid C raw"

lemma map_inbound_quality_fact:
  assumes "contracts_ok C"
  shows "fst (map_inbound_quality C raw e) = Some f \<longleftrightarrow> raw = quality_number C (flag_of_fact f)"
  unfolding map_inbound_quality_def Let_def
  by (cases f) (auto simp: contracts_ok_eq[OF assms])

lemma map_inbound_quality_error:
  assumes "contracts_ok C" and "\<not> flag_accepted C raw"
  shows "snd (map_inbound_quality C raw e) =
    enum_error (if raw = quality_number C QUALITY_FLAG_UNSPECIFIED then UnspecifiedEnum else UnknownEnumValue)
      QualityFlagField raw"
proof -
  have "raw \<noteq> quality_number C f" if "f \<noteq> QUALITY_FLAG_UNSPECIFIED" for f
    using assms that by (auto simp: flag_accepted_def contracts_ok_eq[OF assms(1)])
  then show ?thesis by (simp add: map_inbound_quality_def contracts_ok_eq[OF assms(1)])
qed

lemma mark_quality_eq:
  assumes "contracts_ok C" and "length present = 13"
  shows "mark_quality C present flags =
    (case find (\<lambda>raw. \<not> flag_accepted C raw) flags of
       Some raw \<Rightarrow> Inl (snd (map_inbound_quality C raw (adapter_error UnknownEnumValue QualityFlagField)))
     | None \<Rightarrow> Inr (map (\<lambda>i. present ! i \<or> quality_number C (flag_of_fact (host_quality_facts ! i)) \<in> set flags) [0..<13]))"
  using assms(2)
proof (induction flags arbitrary: present)
  case Nil
  then have "map (\<lambda>i. present ! i) [0..<13] = present" using map_nth[of present] by simp
  then show ?case by (simp del: upt_Suc)
next
  case (Cons raw flags)
  obtain m e where m: "map_inbound_quality C raw (adapter_error UnknownEnumValue QualityFlagField) = (m, e)"
    by fastforce
  let ?present = "case m of None \<Rightarrow> present | Some f \<Rightarrow> present[host_fact_index f := True]"
  have index: "i < 13 \<Longrightarrow> host_fact_index f = i \<longleftrightarrow> host_quality_facts ! i = f" for i f
    using host_facts_complete(2,3) by (metis host_fact_index_less host_fact_nth nth_eq_iff_index_eq)
  have fact_iff: "quality_number C (flag_of_fact f) = raw \<longleftrightarrow> m = Some f" for f
    using map_inbound_quality_fact[OF assms(1), of raw _ f] m by (metis fst_conv)
  have "?present ! i \<longleftrightarrow> present ! i \<or> quality_number C (flag_of_fact (host_quality_facts ! i)) = raw"
    if "i < 13" for i
    unfolding fact_iff using that Cons.prems by (cases m) 
      (auto simp: nth_list_update index host_fact_index_less[unfolded host_facts_complete(3)])
  then have eq: "map (\<lambda>i. ?present ! i \<or> quality_number C (flag_of_fact (host_quality_facts ! i)) \<in> set flags) [0..<13] =
      map (\<lambda>i. present ! i \<or> quality_number C (flag_of_fact (host_quality_facts ! i)) \<in> set (raw # flags)) [0..<13]"
    by (intro map_cong) (auto simp del: upt_Suc)
  have len: "length ?present = 13" using Cons.prems by (simp split: option.split)
  have step: "mark_quality C present (raw # flags) =
      (if flag_accepted C raw then mark_quality C ?present flags else Inl e)"
    by (simp add: m flag_accepted_def)
  show ?case unfolding step Cons.IH[OF len] eq by (simp add: m del: upt_Suc)
qed

lemma adapt_quality_eq:
  assumes "contracts_ok C"
  shows "adapt_quality C flags =
    (case find (\<lambda>raw. \<not> flag_accepted C raw) flags of
       Some raw \<Rightarrow> Inl (enum_error (if raw = quality_number C QUALITY_FLAG_UNSPECIFIED
           then UnspecifiedEnum else UnknownEnumValue) QualityFlagField raw)
     | None \<Rightarrow> Inr \<lparr>observed_quality =
         filter (\<lambda>f. quality_number C (flag_of_fact f) \<in> set flags) host_quality_facts\<rparr>)"
proof -
  have facts: "host_quality_facts = map (\<lambda>i. host_quality_facts ! i) [0..<13]"
    using map_nth[of host_quality_facts] host_facts_complete(3) by simp
  let ?P = "\<lambda>f. quality_number C (flag_of_fact f) \<in> set flags"
  have "map (\<lambda>i. host_quality_facts ! i)
      (filter (\<lambda>i. map (\<lambda>i. replicate 13 False ! i \<or> ?P (host_quality_facts ! i)) [0..<13] ! i) [0..<13]) =
      map (\<lambda>i. host_quality_facts ! i) (filter (?P \<circ> (\<lambda>i. host_quality_facts ! i)) [0..<13])"
    by (intro arg_cong[of _ _ "map _"] filter_cong) (auto simp del: upt_Suc)
  also have "\<dots> = filter ?P host_quality_facts"
    by (subst (3) facts) (simp only: filter_map)
  finally have present: "map (\<lambda>i. host_quality_facts ! i)
      (filter (\<lambda>i. map (\<lambda>i. replicate 13 False ! i \<or> ?P (host_quality_facts ! i)) [0..<13] ! i) [0..<13]) =
      filter ?P host_quality_facts" .
  show ?thesis
  proof (cases "find (\<lambda>raw. \<not> flag_accepted C raw) flags")
    case None
    then show ?thesis
      using present mark_quality_eq[OF assms, of "replicate 13 False" flags]
      by (simp add: adapt_quality_def del: upt_Suc)
  next
    case (Some raw)
    then have "\<not> flag_accepted C raw" by (auto simp: find_Some_iff)
    with Some show ?thesis
      using mark_quality_eq[OF assms, of "replicate 13 False" flags] map_inbound_quality_error[OF assms]
      by (simp add: adapt_quality_def)
  qed
qed

subsection \<open>Levels\<close>

text \<open>\<open>std::string\<close> sizes are \<open>std::size_t\<close>.\<close>

definition wire_level_fits :: "wire_price_level \<Rightarrow> bool" where
  "wire_level_fits w \<longleftrightarrow> length (pl_price w) \<le> SIZE_MAX \<and> length (pl_quantity w) \<le> SIZE_MAX"

text \<open>A level means its wire text exactly: the decimals denote its units at the scales of the spec.\<close>

definition level_means :: "numeric_spec \<Rightarrow> wire_price_level \<Rightarrow> book_level \<Rightarrow> bool" where
  "level_means spec w l \<longleftrightarrow>
     (\<exists>n. renders (nat (price_value (lvl_price l))) (scale_digits (price_scale spec)) n (pl_price w)) \<and>
     (\<exists>n. renders (nat (quantity_value (lvl_quantity l))) (scale_digits (quantity_scale spec)) n (pl_quantity w))"

lemma adapt_book_level_iff:
  assumes "wire_level_fits w"
  shows "adapt_book_level w spec lf = Inr l \<longleftrightarrow> level_means spec w l"
proof -
  have price: "(\<exists>n. parse_price (pl_price w) (price_scale spec) = Inr \<lparr>pd_value = p, pd_fraction_digits = n\<rparr>) \<longleftrightarrow>
      (\<exists>n. renders (nat (price_value p)) (scale_digits (price_scale spec)) n (pl_price w))" for p
    using assms by (simp add: wire_level_fits_def parse_price_renders_iff)
  have quantity: "(\<exists>n. parse_quantity (pl_quantity w) (quantity_scale spec) = Inr \<lparr>pd_value = q, pd_fraction_digits = n\<rparr>) \<longleftrightarrow>
      (\<exists>n. renders (nat (quantity_value q)) (scale_digits (quantity_scale spec)) n (pl_quantity w))" for q
    using assms by (simp add: wire_level_fits_def parse_quantity_renders_iff)
  have dec: "(\<exists>n. x = Inr \<lparr>pd_value = v, pd_fraction_digits = n\<rparr>) \<longleftrightarrow> (\<exists>r. x = Inr r \<and> pd_value r = v)"
    for x :: "decimal_error + 'v parsed_decimal" and v
    by (metis parsed_decimal.surjective old.unit.exhaust parsed_decimal.select_convs(1))
  have "adapt_book_level w spec lf = Inr l \<longleftrightarrow>
      (\<exists>r. parse_price (pl_price w) (price_scale spec) = Inr r \<and> pd_value r = lvl_price l) \<and>
      (\<exists>r. parse_quantity (pl_quantity w) (quantity_scale spec) = Inr r \<and> pd_value r = lvl_quantity l)"
    by (cases l) (auto simp: adapt_book_level_def Let_def split: sum.split)
  then show ?thesis unfolding level_means_def price[symmetric] quantity[symmetric] dec .
qed

lemma sorted_wrt_snoc_last:
  assumes "sorted_wrt (side_lt side) (map lvl_price ls)" and "ls = [] \<or> side_lt side (lvl_price (last ls)) (lvl_price l)"
  shows "sorted_wrt (side_lt side) (map lvl_price (ls @ [l]))"
proof (cases ls rule: rev_cases)
  case (snoc ls' k)
  with assms have "\<forall>x \<in> set ls'. side_lt side (lvl_price x) (lvl_price l)"
    using side_order.lt_trans by (fastforce simp: sorted_wrt_append)
  with assms snoc show ?thesis by (auto simp: sorted_wrt_append)
qed simp

lemma adapt_baseline_loop_iff:
  assumes "sorted_wrt (side_lt side) (map lvl_price ls)" and "bids = (side = Bid)"
  shows "adapt_baseline_loop spec bids ws ls = Inr rs \<longleftrightarrow>
    (\<exists>new. rs = ls @ new \<and> sorted_wrt (side_lt side) (map lvl_price rs) \<and>
       list_all2 (\<lambda>w l. adapt_book_level w spec (side_fields bids) = Inr l) ws new)"
  using assms
proof (induction ws arbitrary: ls)
  case Nil
  then show ?case by auto
next
  case (Cons w ws)
  show ?case
  proof (cases "adapt_book_level w spec (side_fields bids)")
    case (Inl e)
    then show ?thesis by (auto simp: list_all2_Cons1)
  next
    case (Inr l)
    have cmp: "(if bids then lvl_price l < lvl_price (last ls) else lvl_price l > lvl_price (last ls)) \<longleftrightarrow>
        side_lt side (lvl_price (last ls)) (lvl_price l)"
      using Cons.prems(2) by (cases side) auto
    show ?thesis
    proof (cases "ls = [] \<or> side_lt side (lvl_price (last ls)) (lvl_price l)")
      case True
      note IH = Cons.IH[OF sorted_wrt_snoc_last[OF Cons.prems(1) True] Cons.prems(2)]
      with True Inr cmp show ?thesis by (auto simp: list_all2_Cons1)
    next
      case False
      have "\<not> sorted_wrt (side_lt side) (map lvl_price (ls @ l # new))" for new
        using False by (cases ls rule: rev_cases) (auto simp: sorted_wrt_append)
      with False Inr cmp show ?thesis by (auto simp: list_all2_Cons1)
    qed
  qed
qed

lemma adapt_baseline_side_iff:
  assumes "list_all wire_level_fits ws"
  shows "adapt_baseline_side ws spec (side = Bid) = Inr ls \<longleftrightarrow>
    list_all2 (level_means spec) ws ls \<and> sorted_wrt (side_lt side) (map lvl_price ls)"
proof -
  have "list_all2 (\<lambda>w l. adapt_book_level w spec (side_fields (side = Bid)) = Inr l) ws ls \<longleftrightarrow>
      list_all2 (level_means spec) ws ls"
    using assms by (intro list.rel_cong) (auto simp: list_all_iff adapt_book_level_iff)
  with adapt_baseline_loop_iff[of side "[]" "side = Bid" spec ws ls] show ?thesis
    by (auto simp: adapt_baseline_side_def)
qed

lemma adapt_updates_iff:
  assumes "list_all wire_level_fits ws"
  shows "adapt_updates ws spec side = Inr us \<longleftrightarrow>
    (\<exists>ls. list_all2 (level_means spec) ws ls \<and> us = levels_as_updates side ls)"
proof -
  have "adapt_updates_loop spec side ws acc = Inr us \<longleftrightarrow>
      (\<exists>ls. list_all2 (level_means spec) ws ls \<and> us = acc @ levels_as_updates side ls)" for acc
    using assms
  proof (induction ws arbitrary: acc)
    case Nil
    then show ?case by (auto simp: levels_as_updates_def)
  next
    case (Cons w ws)
    then have w: "adapt_book_level w spec lf = Inr l \<longleftrightarrow> level_means spec w l" for lf l
      by (simp add: adapt_book_level_iff)
    have IH: "adapt_updates_loop spec side ws acc' = Inr us \<longleftrightarrow>
        (\<exists>ls. list_all2 (level_means spec) ws ls \<and> us = acc' @ levels_as_updates side ls)" for acc'
      using Cons by simp
    have snoc: "(acc @ [LevelUpdate side (lvl_price l) (lvl_quantity l)]) @ levels_as_updates side ls =
        acc @ levels_as_updates side (l # ls)" for l ls
      by (simp add: levels_as_updates_def)
    have "adapt_updates_loop spec side (w # ws) acc = Inr us \<longleftrightarrow>
        (\<exists>l ls. level_means spec w l \<and> list_all2 (level_means spec) ws ls \<and>
           us = acc @ levels_as_updates side (l # ls))"
      unfolding adapt_updates_loop.simps bind_result_Inr_iff w IH snoc by blast
    then show ?case unfolding list_all2_Cons1 by blast
  qed
  then show ?thesis by (simp add: adapt_updates_def)
qed

subsection \<open>Identity and text\<close>

lemma validate_venue_None_iff: "validate_venue C v = None \<longleftrightarrow> v = venue_number C VENUE_BINANCE"
  by (simp add: validate_venue_def)

lemma validate_stream_None_iff: "validate_stream C v = None \<longleftrightarrow> v = stream_number C STREAM_DIFF_DEPTH"
  by (simp add: validate_stream_def)

lemma map_market_Inr_iff:
  "contracts_ok C \<Longrightarrow> map_market C m = Inr policy \<longleftrightarrow> m = market_number C (market_for_policy policy)"
  by (cases policy) (auto simp: map_market_def market_for_policy_def contracts_ok_eq)

definition identity_matches :: "contracts \<Rightarrow> int \<Rightarrow> int \<Rightarrow> string \<Rightarrow> expected_identity \<Rightarrow> bool" where
  "identity_matches C v m symbol expected \<longleftrightarrow>
     v = venue_number C VENUE_BINANCE \<and> m = market_number C (market_for_policy (ei_policy expected)) \<and>
     symbol = ei_symbol expected \<and> is_symbol symbol"

lemma validate_wire_identity_Inr_iff:
  "contracts_ok C \<Longrightarrow> validate_wire_identity C v m symbol expected = Inr policy \<longleftrightarrow>
     identity_matches C v m symbol expected \<and> policy = ei_policy expected"
  by (auto simp: validate_wire_identity_def result_iffs validate_venue_None_iff map_market_Inr_iff
      validate_expected_identity_def identity_matches_def)

definition text_acceptable :: "string \<Rightarrow> string \<Rightarrow> string \<Rightarrow> bool" where
  "text_acceptable producer producer_version identifier \<longleftrightarrow>
     is_non_empty_text producer \<and> is_non_empty_text producer_version \<and> is_identifier identifier"

lemma validate_required_text_None_iff:
  "validate_required_text producer version identifier field = None \<longleftrightarrow>
     text_acceptable producer version identifier"
  by (simp add: validate_required_text_def text_acceptable_def)

definition facts_stated :: "contracts \<Rightarrow> int list \<Rightarrow> host_quality_fact list" where
  "facts_stated C flags = filter (\<lambda>f. quality_number C (flag_of_fact f) \<in> set flags) host_quality_facts"

lemma adapt_quality_Inr_iff:
  "contracts_ok C \<Longrightarrow> adapt_quality C flags = Inr m \<longleftrightarrow>
     list_all (flag_accepted C) flags \<and> m = \<lparr>observed_quality = facts_stated C flags\<rparr>"
  by (auto simp: adapt_quality_eq facts_stated_def list_all_iff find_None_iff find_Some_iff
      split: option.split)

lemma try_create_case_iff:
  "(case UpdateRange_try_create f l of None \<Rightarrow> Inl e | Some r \<Rightarrow> k r) = Inr x \<longleftrightarrow>
     (\<exists>r. range_first r = f \<and> range_final r = l \<and> k r = Inr x)"
proof (cases "UpdateRange_try_create f l")
  case None
  then show ?thesis using try_create_Some_iff[of f l] by auto
next
  case (Some r)
  then have "range_first s = f \<and> range_final s = l \<longleftrightarrow> s = r" for s
    using try_create_Some_iff[of f l r] by (auto simp: update_range_eq_iff)
  then show ?thesis unfolding Some by (metis option.simps(5))
qed

lemma validate_binding_None_iff:
  "validate_binding spec policy target = None \<longleftrightarrow> spec = bp_numeric_spec target \<and> policy = bp_policy target"
  by (auto simp: validate_binding_def)

subsection \<open>Properties\<close>

text \<open>
  C32: quality flags.  \<open>adapt_quality\<close> accepts a flag list exactly when no flag is unspecified or
  unknown to the Contracts, and then reports each host fact stated by some flag exactly once, in
  declaration order, and no other; otherwise it reports the first offending flag with its number.
\<close>

theorem adapt_quality_exact:
  assumes "contracts_ok C"
  shows "(adapt_quality C flags = Inr m \<longleftrightarrow>
      list_all (flag_accepted C) flags \<and>
      observed_quality m = filter (\<lambda>f. quality_number C (flag_of_fact f) \<in> set flags) host_quality_facts) \<and>
    (adapt_quality C flags = Inl e \<longleftrightarrow>
      (\<exists>raw. find (\<lambda>raw. \<not> flag_accepted C raw) flags = Some raw \<and>
         e = enum_error (if raw = quality_number C QUALITY_FLAG_UNSPECIFIED then UnspecifiedEnum
           else UnknownEnumValue) QualityFlagField raw))"
proof -
  have "m = \<lparr>observed_quality = fs\<rparr> \<longleftrightarrow> observed_quality m = fs" for fs by (cases m) auto
  then show ?thesis
    unfolding adapt_quality_Inr_iff[OF assms] facts_stated_def
    by (auto simp: adapt_quality_eq[OF assms] split: option.split)
qed

theorem adapt_quality_exact_witness:
  "adapt_quality example_contracts [14, 3, 1, 14] = Inr \<lparr>observed_quality = [HqDuplicate, HqOverlap]\<rparr>"
proof -
  have "list_all (flag_accepted example_contracts) [14, 3, 1, 14]"
    by (simp add: flag_accepted_def example_contracts_def)
  with adapt_quality_exact[OF example_contracts_ok, of "[14, 3, 1, 14]"
      "\<lparr>observed_quality = [HqDuplicate, HqOverlap]\<rparr>"]
  show ?thesis by (simp add: example_contracts_def host_quality_facts_def)
qed

lemma adapt_snapshot_iff:
  assumes "contracts_ok C" and "list_all wire_level_fits (ds_bids wire @ ds_asks wire)"
  shows "adapt_exchange_depth_snapshot C wire spec expected = Inr b \<longleftrightarrow>
    identity_matches C (ds_venue wire) (ds_market wire) (ds_symbol wire) expected \<and>
    ds_schema_version wire = ''exchange-depth-snapshot.v1'' \<and>
    text_acceptable (ds_producer wire) (ds_producer_version wire) (ds_request_id wire) \<and>
    list_all (flag_accepted C) (ds_quality_flags wire) \<and>
    list_all2 (level_means spec) (ds_bids wire) (ab_bids b) \<and> sorted_wrt (>) (map lvl_price (ab_bids b)) \<and>
    list_all2 (level_means spec) (ds_asks wire) (ab_asks b) \<and> sorted_wrt (<) (map lvl_price (ab_asks b)) \<and>
    ab_numeric_spec b = spec \<and> ab_policy b = ei_policy expected \<and>
    ab_last_update_id b = ds_last_update_id wire \<and>
    observed_quality (ab_metadata b) = facts_stated C (ds_quality_flags wire)"
proof -
  have sides: "adapt_baseline_side (ds_bids wire) spec True = Inr bs \<longleftrightarrow>
      list_all2 (level_means spec) (ds_bids wire) bs \<and> sorted_wrt (>) (map lvl_price bs)"
    "adapt_baseline_side (ds_asks wire) spec False = Inr bs \<longleftrightarrow>
      list_all2 (level_means spec) (ds_asks wire) bs \<and> sorted_wrt (<) (map lvl_price bs)" for bs
    using assms(2) adapt_baseline_side_iff[of "ds_bids wire" spec Bid bs]
      adapt_baseline_side_iff[of "ds_asks wire" spec Ask bs] by simp_all
  show ?thesis
    by (cases b, cases "ab_metadata b")
      (auto simp: adapt_exchange_depth_snapshot_def result_iffs validate_wire_identity_Inr_iff[OF assms(1)]
        validate_required_text_None_iff adapt_quality_Inr_iff[OF assms(1)] sides kSnapshotSchema_def)
qed

lemma adapt_snapshot_sound:
  assumes "contracts_ok C" and "list_all wire_level_fits (ds_bids wire @ ds_asks wire)"
    and "adapt_exchange_depth_snapshot C wire spec expected = Inr b"
  shows "sorted_wrt (>) (map lvl_price (ab_bids b)) \<and> sorted_wrt (<) (map lvl_price (ab_asks b)) \<and>
    ab_numeric_spec b = spec \<and> ab_policy b = ei_policy expected \<and> ab_last_update_id b = ds_last_update_id wire"
  using assms(3) unfolding adapt_snapshot_iff[OF assms(1,2)] by blast

text \<open>
  C8: what an accepted exchange snapshot means.  \<open>adapt_exchange_depth_snapshot\<close> accepts a message
  exactly when it names the expected venue, market and symbol, carries the supported schema and
  well-formed producer text and quality flags, every price and quantity is an exact decimal at the
  scales of the spec, and the bids strictly descend and the asks strictly ascend; the baseline it
  returns holds exactly those levels, that update id and the stated quality facts.
\<close>

theorem adapt_snapshot_exact:
  assumes "contracts_ok C" and "list_all wire_level_fits (ds_bids wire @ ds_asks wire)"
  shows "adapt_exchange_depth_snapshot C wire spec expected = Inr b \<longleftrightarrow>
    identity_matches C (ds_venue wire) (ds_market wire) (ds_symbol wire) expected \<and>
    ds_schema_version wire = ''exchange-depth-snapshot.v1'' \<and>
    text_acceptable (ds_producer wire) (ds_producer_version wire) (ds_request_id wire) \<and>
    list_all (flag_accepted C) (ds_quality_flags wire) \<and>
    list_all2 (level_means spec) (ds_bids wire) (ab_bids b) \<and> sorted_wrt (>) (map lvl_price (ab_bids b)) \<and>
    list_all2 (level_means spec) (ds_asks wire) (ab_asks b) \<and> sorted_wrt (<) (map lvl_price (ab_asks b)) \<and>
    ab_numeric_spec b = spec \<and> ab_policy b = ei_policy expected \<and>
    ab_last_update_id b = ds_last_update_id wire \<and>
    observed_quality (ab_metadata b) = facts_stated C (ds_quality_flags wire)"
  using assms by (rule adapt_snapshot_iff)

abbreviation example_wire_level :: wire_price_level where
  "example_wire_level \<equiv> \<lparr>pl_price = ''0.05'', pl_quantity = ''0.007''\<rparr>"

abbreviation example_level :: book_level where
  "example_level \<equiv> BookLevel (PriceUnits 5) (QuantityUnits 7)"

abbreviation example_identity :: expected_identity where
  "example_identity \<equiv> \<lparr>ei_symbol = ''BTC'', ei_policy = Spot\<rparr>"

lemma example_level_means: "level_means example_spec example_wire_level example_level"
proof -
  have "denotes ''0.05'' ''0'' ''05''" "denotes ''0.007'' ''0'' ''007''"
    by (simp_all add: denotes_def decimal_text_def integer_part_def is_ascii_digit_alt)
  moreover have "decimal_rat ''0'' ''05'' * 10 ^ 2 = of_nat 5" "decimal_rat ''0'' ''007'' * 10 ^ 3 = of_nat 7"
    by (simp_all add: decimal_rat_def digits_value_def digit_value_def)
  ultimately have "renders 5 2 2 ''0.05''" "renders 7 3 3 ''0.007''"
    unfolding renders_def by (metis (no_types) length_Cons list.size(3) numeral_2_eq_2 numeral_3_eq_3)+
  then show ?thesis by (auto simp: level_means_def scale_digits_def)
qed

lemma example_text:
  "is_symbol ''BTC''" "text_acceptable ''gateway'' ''1'' ''r-1''"
  by (simp_all add: is_symbol_def is_symbol_from.simps is_safe_ascii_symbol_byte_def
      is_ascii_whitespace_def char_of_eq_iff text_acceptable_def is_non_empty_text_def is_identifier_def
      is_identifier_tail_def is_ascii_alphanumeric_def)

abbreviation example_snapshot :: wire_depth_snapshot where
  "example_snapshot \<equiv> \<lparr>ds_venue = 1, ds_market = 1, ds_symbol = ''BTC'',
     ds_schema_version = ''exchange-depth-snapshot.v1'', ds_producer = ''gateway'',
     ds_producer_version = ''1'', ds_request_id = ''r-1'', ds_last_update_id = 10,
     ds_bids = [example_wire_level], ds_asks = [], ds_quality_flags = [1]\<rparr>"

lemma example_identity_matches: "identity_matches example_contracts 1 1 ''BTC'' example_identity"
  by (simp add: identity_matches_def example_contracts_def market_for_policy_def example_text)

lemma example_flags:
  "list_all (flag_accepted example_contracts) [1]" "facts_stated example_contracts [1] = [HqDuplicate]"
  by (simp_all add: flag_accepted_def facts_stated_def example_contracts_def host_quality_facts_def)

lemma example_snapshot_fits: "list_all wire_level_fits (ds_bids example_snapshot @ ds_asks example_snapshot)"
  by (simp add: wire_level_fits_def)

lemma example_snapshot_accepted:
  "\<exists>b. adapt_exchange_depth_snapshot example_contracts example_snapshot example_spec example_identity = Inr b"
proof -
  show ?thesis
    unfolding adapt_snapshot_iff[OF example_contracts_ok example_snapshot_fits]
    using example_level_means example_text example_identity_matches example_flags
    by (intro exI[of _ "\<lparr>ab_numeric_spec = example_spec, ab_policy = Spot, ab_last_update_id = 10,
       ab_bids = [example_level], ab_asks = [], ab_metadata = \<lparr>observed_quality = [HqDuplicate]\<rparr>\<rparr>"]) simp
qed

theorem adapt_snapshot_exact_witness:
  "adapt_exchange_depth_snapshot example_contracts example_snapshot example_spec example_identity =
     Inr \<lparr>ab_numeric_spec = example_spec, ab_policy = Spot, ab_last_update_id = 10,
       ab_bids = [example_level], ab_asks = [], ab_metadata = \<lparr>observed_quality = [HqDuplicate]\<rparr>\<rparr>"
  (is "_ = Inr ?b")
proof -
  show ?thesis
    using adapt_snapshot_exact[OF example_contracts_ok example_snapshot_fits, of example_spec example_identity ?b]
      example_level_means example_text example_identity_matches example_flags by simp
qed

lemma adapt_update_iff:
  assumes "contracts_ok C" and "list_all wire_level_fits (du_bids wire @ du_asks wire)"
  shows "adapt_depth_update C wire spec expected = Inr b \<longleftrightarrow>
    (\<exists>md bids asks. du_metadata wire = Some md \<and>
      identity_matches C (md_venue md) (md_market md) (md_symbol md) expected \<and>
      md_stream md = stream_number C STREAM_DIFF_DEPTH \<and>
      md_schema_version md = ''depth-update.v1'' \<and>
      text_acceptable (md_producer md) (md_producer_version md) (md_connection_id md) \<and>
      list_all (flag_accepted C) (md_quality_flags md) \<and>
      range_first (ad_range b) = du_first_update_id wire \<and> range_final (ad_range b) = du_final_update_id wire \<and>
      list_all2 (level_means spec) (du_bids wire) bids \<and> list_all2 (level_means spec) (du_asks wire) asks \<and>
      ad_levels b = levels_as_updates Bid bids @ levels_as_updates Ask asks \<and>
      ad_previous_final b = du_previous_final_update_id wire \<and>
      ad_numeric_spec b = spec \<and> ad_policy b = ei_policy expected \<and>
      observed_quality (ad_metadata b) = facts_stated C (md_quality_flags md))"
proof -
  have sides: "adapt_updates (du_bids wire) spec Bid = Inr us \<longleftrightarrow>
      (\<exists>ls. list_all2 (level_means spec) (du_bids wire) ls \<and> us = levels_as_updates Bid ls)"
    "adapt_updates (du_asks wire) spec Ask = Inr us \<longleftrightarrow>
      (\<exists>ls. list_all2 (level_means spec) (du_asks wire) ls \<and> us = levels_as_updates Ask ls)" for us
    using assms(2) by (simp_all add: adapt_updates_iff)
  show ?thesis
  proof (cases "du_metadata wire")
    case None
    then show ?thesis by (simp add: adapt_depth_update_def)
  next
    case (Some md)
    show ?thesis
      by (cases b, cases "ad_metadata b")
        (auto simp: adapt_depth_update_def Some result_iffs validate_wire_identity_Inr_iff[OF assms(1)]
          validate_stream_None_iff validate_required_text_None_iff adapt_quality_Inr_iff[OF assms(1)]
          sides try_create_case_iff kUpdateSchema_def)
  qed
qed

text \<open>
  C20: what an accepted depth update means.  \<open>adapt_depth_update\<close> accepts a message exactly when its
  metadata is present, names the expected identity, the diff-depth stream and the supported schema,
  its producer and producer version are texts of 1 to 256 bytes with no white space at either end,
  its connection id is an identifier, every quality flag is one the Contracts define and not the
  unspecified one, the range is ordered, and every price and quantity is an exact decimal at the
  scales of the spec; the batch it returns holds that range, the optional previous final id, the bids
  and then the asks in wire order (zero quantities included, which delete levels), and the stated
  quality facts, and is bound to that spec and the expected policy.
\<close>

theorem adapt_update_exact:
  assumes "contracts_ok C" and "list_all wire_level_fits (du_bids wire @ du_asks wire)"
  shows "adapt_depth_update C wire spec expected = Inr b \<longleftrightarrow>
    (\<exists>md bids asks. du_metadata wire = Some md \<and>
      identity_matches C (md_venue md) (md_market md) (md_symbol md) expected \<and>
      md_stream md = stream_number C STREAM_DIFF_DEPTH \<and>
      md_schema_version md = ''depth-update.v1'' \<and>
      text_acceptable (md_producer md) (md_producer_version md) (md_connection_id md) \<and>
      list_all (flag_accepted C) (md_quality_flags md) \<and>
      range_first (ad_range b) = du_first_update_id wire \<and> range_final (ad_range b) = du_final_update_id wire \<and>
      list_all2 (level_means spec) (du_bids wire) bids \<and> list_all2 (level_means spec) (du_asks wire) asks \<and>
      ad_levels b = levels_as_updates Bid bids @ levels_as_updates Ask asks \<and>
      ad_previous_final b = du_previous_final_update_id wire \<and>
      ad_numeric_spec b = spec \<and> ad_policy b = ei_policy expected \<and>
      observed_quality (ad_metadata b) = facts_stated C (md_quality_flags md))"
  using assms by (rule adapt_update_iff)

abbreviation example_metadata :: wire_metadata where
  "example_metadata \<equiv> \<lparr>md_venue = 1, md_market = 1, md_symbol = ''BTC'', md_stream = 3,
     md_schema_version = ''depth-update.v1'', md_producer = ''gateway'', md_producer_version = ''1'',
     md_connection_id = ''r-1'', md_quality_flags = []\<rparr>"

abbreviation example_update :: wire_depth_update where
  "example_update \<equiv> \<lparr>du_metadata = Some example_metadata, du_first_update_id = 9, du_final_update_id = 12,
     du_previous_final_update_id = Some 8, du_bids = [example_wire_level], du_asks = []\<rparr>"

abbreviation example_adapted_batch :: adapted_depth_batch where
  "example_adapted_batch \<equiv> \<lparr>ad_numeric_spec = example_spec, ad_policy = Spot, ad_range = UpdateRange 9 12,
     ad_previous_final = Some 8, ad_levels = [LevelUpdate Bid (PriceUnits 5) (QuantityUnits 7)],
     ad_metadata = \<lparr>observed_quality = []\<rparr>\<rparr>"

lemma example_update_fits: "list_all wire_level_fits (du_bids example_update @ du_asks example_update)"
  by (simp add: wire_level_fits_def)

lemma example_update_contracts:
  "stream_number example_contracts STREAM_DIFF_DEPTH = 3" "facts_stated example_contracts [] = []"
  by (simp_all add: facts_stated_def example_contracts_def)

lemma example_update_accepted:
  "adapt_depth_update example_contracts example_update example_spec example_identity = Inr example_adapted_batch"
  unfolding adapt_update_iff[OF example_contracts_ok example_update_fits]
  using example_level_means example_text example_identity_matches example_update_contracts
  by (intro exI[of _ example_metadata] exI[of _ "[example_level]"] exI[of _ "[]"])
    (simp add: levels_as_updates_def)

theorem adapt_update_exact_witness:
  "adapt_depth_update example_contracts example_update example_spec example_identity = Inr example_adapted_batch \<and>
   range_final (ad_range example_adapted_batch) = 12"
  using adapt_update_exact[OF example_contracts_ok example_update_fits, of example_spec example_identity
      example_adapted_batch] example_update_accepted by auto



text \<open>
  A snapshot arrives intact.  When an accepted exchange snapshot is installed, each side of the
  projection's book lists exactly the snapshot's levels of positive quantity in the snapshot's own
  order, and the projection waits for a batch that bridges the snapshot's update id.
\<close>

lemma snapshot_installed_intact:
  assumes "contracts_ok C" and "list_all wire_level_fits (ds_bids wire @ ds_asks wire)"
    and "adapt_exchange_depth_snapshot C wire spec expected = Inr b"
    and "projection_run spec (ei_policy expected) h p" and "bp_status p \<noteq> Synchronized"
  shows "\<exists>r p'. install_into b p = (Inr r, p') \<and> ir_disposition r = Installed \<and>
    OrderBook_all_levels (bp_book p') Bid = filter positive_level (ab_bids b) \<and>
    OrderBook_all_levels (bp_book p') Ask = filter positive_level (ab_asks b) \<and>
    bp_status p' = AwaitingBridge \<and> bp_last_update_id p' = Some (ds_last_update_id wire)"
proof -
  have b: "sorted_wrt (>) (map lvl_price (ab_bids b))" "sorted_wrt (<) (map lvl_price (ab_asks b))"
    "ab_numeric_spec b = spec" "ab_policy b = ei_policy expected" "ab_last_update_id b = ds_last_update_id wire"
    using adapt_snapshot_sound[OF assms(1,2,3)] by simp_all
  obtain r p' where step: "install_baseline p (baseline_view_unchecked b) = (r, p')" by fastforce
  have bind: "validate_binding (ab_numeric_spec b) (ab_policy b) p = None"
    using projection_run_config[OF assms(4)] b by (simp add: validate_binding_None_iff)
  have p': "p' = p\<lparr>bp_book := OrderBook_replace_all (bp_book p) (ab_bids b) (ab_asks b),
      bp_last_update_id := Some (ds_last_update_id wire), bp_status := AwaitingBridge\<rparr>"
    and r: "ir_disposition r = Installed"
    using step assms(5) b
    by (auto simp: install_baseline_def Let_def make_install_result_def baseline_view_unchecked_def)
  note rep = book_replace_all[of "bp_book p" "ab_bids b" "ab_asks b"]
  have "OrderBook_all_levels (bp_book p') side = spec_levels side (spec_replace (ab_bids b) (ab_asks b) side)" for side
    using ob.all_levels_eq[of "bp_book p'" side] rep p' by simp
  then have "OrderBook_all_levels (bp_book p') Bid = filter positive_level (ab_bids b)"
    "OrderBook_all_levels (bp_book p') Ask = filter positive_level (ab_asks b)"
    using spec_levels_side_of_levels[of Bid "ab_bids b"] spec_levels_side_of_levels[of Ask "ab_asks b"] b
    by (simp_all add: spec_replace_def)
  with step bind p' r show ?thesis by (simp add: install_into_def)
qed

end
