(* ===== verification/Adapter_Outbound.thy ===== *)
theory Adapter_Outbound
  imports Adapter_Inbound
begin

text \<open>
  The outbound half of \<open>src/proto_adapter/proto_adapter.cpp\<close>: a projection is rendered as a
  \<open>LocalOrderBookSnapshot\<close>.  The enums written are those named in the source, so they are the
  constructors themselves here.  \<open>max_size\<close> is \<open>std::string::max_size()\<close>, as in \<open>Decimal_Format\<close>.
  Allocation failure, whose handler only clears the candidate and rethrows, is not modelled.  The
  theorems say when a snapshot is produced, what it contains, that its decimals read back as the
  levels of the book, and that its quality flags are exactly the applicable ones in rank order.
\<close>

subsection \<open>Enum mappings\<close>

text \<open>
  The switches below cover every enumerator; the \<open>enum_error\<close> each returns after its switch, for a
  number cast to the enum that is no enumerator, has no counterpart here: a value of the datatype is
  always one of the enumerators.
\<close>

fun map_snapshot_origin :: "snapshot_origin \<Rightarrow> snapshot_source adapter_result" where
  "map_snapshot_origin GatewayLive = Inr SNAPSHOT_SOURCE_GATEWAY_LIVE"
| "map_snapshot_origin RecorderReplay = Inr SNAPSHOT_SOURCE_RECORDER_REPLAY"
| "map_snapshot_origin HistoryReplay = Inr SNAPSHOT_SOURCE_HISTORY_REPLAY"

fun map_gap_recovery :: "gap_recovery_state \<Rightarrow> resync_state adapter_result" where
  "map_gap_recovery ResyncRequired = Inr RESYNC_STATE_RESYNC_REQUIRED"
| "map_gap_recovery ResyncInProgress = Inr RESYNC_STATE_RESYNC_IN_PROGRESS"
| "map_gap_recovery ResyncFailed = Inr RESYNC_STATE_RESYNC_FAILED"
| "map_gap_recovery RecoverySynchronized = Inl (adapter_error InvalidGapContext GapRecoveryStateField)"
| "map_gap_recovery Recovered = Inl (adapter_error InvalidGapContext GapRecoveryStateField)"

fun map_gap_reason :: "gap_reason \<Rightarrow> reason_code adapter_result" where
  "map_gap_reason SpotBootstrapForwardGap = Inr REASON_CODE_SEQUENCE_GAP_DETECTED"
| "map_gap_reason SpotLiveForwardGap = Inr REASON_CODE_SEQUENCE_GAP_DETECTED"
| "map_gap_reason FuturesBootstrapRangeMiss = Inr REASON_CODE_SEQUENCE_GAP_DETECTED"
| "map_gap_reason FuturesMissingPreviousFinal = Inr REASON_CODE_SEQUENCE_GAP_DETECTED"
| "map_gap_reason FuturesPreviousFinalMismatch = Inr REASON_CODE_SEQUENCE_GAP_DETECTED"

fun map_host_quality :: "host_quality_fact \<Rightarrow> projection_status \<Rightarrow> quality_flag adapter_result" where
  "map_host_quality HqDuplicate status = Inr QUALITY_FLAG_DUPLICATE"
| "map_host_quality HqOutOfOrder status = Inr QUALITY_FLAG_OUT_OF_ORDER"
| "map_host_quality HqOrderBookResync status =
     (if status \<noteq> AwaitingBridge \<and> status \<noteq> NeedsResync
        then Inl (adapter_error InvalidHostQualityCombination HostQualityFactField)
      else Inr QUALITY_FLAG_ORDERBOOK_RESYNC)"
| "map_host_quality HqSnapshotTooOld status = Inr QUALITY_FLAG_SNAPSHOT_TOO_OLD"
| "map_host_quality HqBootstrapBufferOverflow status = Inr QUALITY_FLAG_BOOTSTRAP_BUFFER_OVERFLOW"
| "map_host_quality HqRecoveredTail status =
     (if status \<noteq> Synchronized
        then Inl (adapter_error InvalidHostQualityCombination HostQualityFactField)
      else Inr QUALITY_FLAG_RECOVERED_TAIL)"
| "map_host_quality HqMalformedPayload status =
     (if status \<noteq> AwaitingBridge \<and> status \<noteq> NeedsResync
        then Inl (adapter_error InvalidHostQualityCombination HostQualityFactField)
      else Inr QUALITY_FLAG_MALFORMED_PAYLOAD)"
| "map_host_quality HqExchangeTimeMissing status = Inr QUALITY_FLAG_EXCHANGE_TIME_MISSING"
| "map_host_quality HqReceiveClockDiscontinuity status = Inr QUALITY_FLAG_RECEIVE_CLOCK_DISCONTINUITY"
| "map_host_quality HqSlowConsumerGap status = Inr QUALITY_FLAG_SLOW_CONSUMER_GAP"
| "map_host_quality HqProducerRestart status = Inr QUALITY_FLAG_PRODUCER_RESTART"
| "map_host_quality HqOverlap status = Inr QUALITY_FLAG_OVERLAP"
| "map_host_quality HqIdentityConflict status = Inr QUALITY_FLAG_IDENTITY_CONFLICT"

fun quality_rank :: "quality_flag \<Rightarrow> nat" where
  "quality_rank QUALITY_FLAG_DUPLICATE = 0"
| "quality_rank QUALITY_FLAG_OUT_OF_ORDER = 1"
| "quality_rank QUALITY_FLAG_SEQUENCE_GAP = 2"
| "quality_rank QUALITY_FLAG_ORDERBOOK_RESYNC = 3"
| "quality_rank QUALITY_FLAG_SNAPSHOT_BRIDGE_PENDING = 4"
| "quality_rank QUALITY_FLAG_SNAPSHOT_TOO_OLD = 5"
| "quality_rank QUALITY_FLAG_BOOTSTRAP_BUFFER_OVERFLOW = 6"
| "quality_rank QUALITY_FLAG_RECOVERED_TAIL = 7"
| "quality_rank QUALITY_FLAG_MALFORMED_PAYLOAD = 8"
| "quality_rank QUALITY_FLAG_EXCHANGE_TIME_MISSING = 9"
| "quality_rank QUALITY_FLAG_RECEIVE_CLOCK_DISCONTINUITY = 10"
| "quality_rank QUALITY_FLAG_SLOW_CONSUMER_GAP = 11"
| "quality_rank QUALITY_FLAG_PRODUCER_RESTART = 12"
| "quality_rank QUALITY_FLAG_OVERLAP = 13"
| "quality_rank QUALITY_FLAG_IDENTITY_CONFLICT = 14"
| "quality_rank QUALITY_FLAG_CROSSED_BOOK = 15"
| "quality_rank QUALITY_FLAG_UNSPECIFIED = 16"

text \<open>The first loop of \<open>make_quality_flags\<close>.\<close>

fun map_host_facts ::
  "host_quality_fact list \<Rightarrow> projection_status \<Rightarrow> quality_flag list \<Rightarrow> quality_flag list adapter_result" where
  "map_host_facts [] status flags = Inr flags"
| "map_host_facts (f # fs) status flags =
     bind_result (map_host_quality f status) (\<lambda>flag. map_host_facts fs status (flags @ [flag]))"

text \<open>
  \<open>std::sort\<close> by rank leaves the order of equal ranks open; the ranks of different flags differ, so
  the stable \<open>sort_key\<close> is the only possible result.  \<open>std::unique\<close> drops adjacent repetitions.
\<close>

definition make_quality_flags ::
  "order_book \<Rightarrow> projection_status \<Rightarrow> snapshot_options \<Rightarrow> quality_flag list adapter_result" where
  "make_quality_flags book status options =
     bind_result (map_host_facts (so_host_quality_facts options) status []) (\<lambda>flags0.
       let flags1 = (if status = AwaitingBridge then flags0 @ [QUALITY_FLAG_SNAPSHOT_BRIDGE_PENDING] else flags0);
           flags2 = (if status = NeedsResync then flags1 @ [QUALITY_FLAG_SEQUENCE_GAP] else flags1);
           crossed = (case (OrderBook_best_bid book, OrderBook_best_ask book) of
                        (Some bid, Some ask) \<Rightarrow> lvl_price bid \<ge> lvl_price ask | _ \<Rightarrow> False);
           flags3 = (if crossed then flags2 @ [QUALITY_FLAG_CROSSED_BOOK] else flags2)
       in Inr (remdups_adj (sort_key quality_rank flags3)))"

subsection \<open>Levels\<close>

definition adapter_format_price :: "nat \<Rightarrow> book_level \<Rightarrow> numeric_spec \<Rightarrow> string adapter_result" where
  "adapter_format_price max_size level spec =
     (case format_price_fixed max_size (lvl_price level) (price_scale spec) of
        Inl failure \<Rightarrow>
          let code = (if dec_code failure = Overflow then NumericOverflow else ScaleMismatch)
          in Inl (adapter_decimal_error code BidPriceField failure)
      | Inr t \<Rightarrow> Inr t)"

definition adapter_format_quantity :: "nat \<Rightarrow> book_level \<Rightarrow> numeric_spec \<Rightarrow> string adapter_result" where
  "adapter_format_quantity max_size level spec =
     (case format_quantity_fixed max_size (lvl_quantity level) (quantity_scale spec) of
        Inl failure \<Rightarrow>
          let code = (if dec_code failure = Overflow then NumericOverflow else ScaleMismatch)
          in Inl (adapter_decimal_error code BidQuantityField failure)
      | Inr t \<Rightarrow> Inr t)"

fun append_levels ::
  "nat \<Rightarrow> wire_price_level list \<Rightarrow> book_level list \<Rightarrow> numeric_spec \<Rightarrow> wire_price_level list adapter_result" where
  "append_levels max_size out [] spec = Inr out"
| "append_levels max_size out (level # levels) spec =
     bind_result (adapter_format_price max_size level spec) (\<lambda>price.
     bind_result (adapter_format_quantity max_size level spec) (\<lambda>quantity.
       append_levels max_size (out @ [\<lparr>pl_price = price, pl_quantity = quantity\<rparr>]) levels spec))"

subsection \<open>The snapshot\<close>

definition kLocalSnapshotSchema :: string where
  "kLocalSnapshotSchema = ''local-order-book-snapshot.v1''"

definition validate_snapshot_context ::
  "book_projection \<Rightarrow> projection_status \<Rightarrow> snapshot_context \<Rightarrow> snapshot_source adapter_result" where
  "validate_snapshot_context projection status context =
     (if \<not> is_symbol (ei_symbol (sc_identity context))
        then Inl (adapter_error InvalidIdentifier SymbolField)
      else if ei_policy (sc_identity context) \<noteq> bp_policy projection
        then Inl (adapter_error ProjectionPolicyMismatch ProjectionPolicyField)
      else if \<not> is_non_empty_text (sc_producer context)
        then Inl (adapter_error (missing_or_invalid (sc_producer context)) ProducerField)
      else if \<not> is_non_empty_text (sc_producer_version context)
        then Inl (adapter_error (missing_or_invalid (sc_producer_version context)) ProducerVersionField)
      else
        bind_result (map_snapshot_origin (sc_source context)) (\<lambda>source.
          if status = NeedsResync \<and> sc_current_gap context = None
            then Inl (adapter_error MissingRequiredField CurrentGapField)
          else if status \<noteq> NeedsResync \<and> sc_current_gap context \<noteq> None
            then Inl (adapter_error InvalidGapContext CurrentGapField)
          else Inr source))"

definition select_snapshot_book ::
  "book_projection \<Rightarrow> projection_status \<Rightarrow> (order_book \<times> bool) adapter_result" where
  "select_snapshot_book projection status =
     (if status = Synchronized then
        (case synchronized_book projection of
           None \<Rightarrow> Inl (adapter_error UnsupportedProjectionState NoField)
         | Some book \<Rightarrow> Inr (book, True))
      else if status = AwaitingBridge \<or> status = NeedsResync
        then Inr (diagnostic_book projection, False)
      else Inl (adapter_error UnsupportedProjectionState NoField))"

definition select_snapshot_levels ::
  "order_book \<Rightarrow> snapshot_options \<Rightarrow> book_level list \<times> book_level list" where
  "select_snapshot_levels book options =
     (case so_depth_limit options of
        Some limit \<Rightarrow>
          (OrderBook_top_levels book Bid (nat (depth_limit_value limit)),
           OrderBook_top_levels book Ask (nat (depth_limit_value limit)))
      | None \<Rightarrow> (OrderBook_all_levels book Bid, OrderBook_all_levels book Ask))"

definition append_current_gap ::
  "wire_local_snapshot \<Rightarrow> book_projection \<Rightarrow> snapshot_context \<Rightarrow> projection_status \<Rightarrow>
   wire_local_snapshot adapter_result" where
  "append_current_gap candidate projection context status =
     (if status \<noteq> NeedsResync then Inr candidate
      else case (bp_last_gap projection, sc_current_gap context) of
        (Some gap, Some current) \<Rightarrow>
          bind_result (map_gap_recovery (cg_recovery_state current)) (\<lambda>recovery.
          bind_result (map_gap_reason (reason gap)) (\<lambda>reason_code.
            Inr (candidate\<lparr>ls_last_gap := Some
              \<lparr>gd_stream = STREAM_DIFF_DEPTH,
               gd_detected_at_utc_ns = cg_detected_at_utc_ns current,
               gd_previous_sequence = last_accepted_final gap,
               gd_next_sequence = range_first (incoming_range gap),
               gd_reason_code = reason_code, gd_recovery_state = recovery\<rparr>\<rparr>)))
      | _ \<Rightarrow> Inl (adapter_error InvalidGapContext CurrentGapField))"

definition make_local_order_book_snapshot ::
  "nat \<Rightarrow> book_projection \<Rightarrow> snapshot_context \<Rightarrow> snapshot_options \<Rightarrow> wire_local_snapshot adapter_result" where
  "make_local_order_book_snapshot max_size projection context options =
     (let status = bp_status projection in
      if status = AwaitingBaseline then Inl (adapter_error MissingLastUpdateId LastUpdateIdField)
      else case bp_last_update_id projection of
        None \<Rightarrow> Inl (adapter_error MissingLastUpdateId LastUpdateIdField)
      | Some last_update_id \<Rightarrow>
          bind_result (validate_snapshot_context projection status context) (\<lambda>source.
          bind_result (select_snapshot_book projection status) (\<lambda>(book, synchronized).
          bind_result (make_quality_flags book status options) (\<lambda>quality.
          let spec = bp_numeric_spec projection;
              (bids, asks) = select_snapshot_levels book options
          in
          bind_result (append_levels max_size [] bids spec) (\<lambda>wire_bids.
          bind_result (append_levels max_size [] asks spec) (\<lambda>wire_asks.
          bind_result
            (append_current_gap
               \<lparr>ls_venue = VENUE_BINANCE,
                ls_market = market_for_policy (bp_policy projection),
                ls_symbol = ei_symbol (sc_identity context),
                ls_schema_version = kLocalSnapshotSchema,
                ls_producer = sc_producer context,
                ls_producer_version = sc_producer_version context,
                ls_source = source,
                ls_last_update_id = last_update_id,
                ls_bids = wire_bids,
                ls_asks = wire_asks,
                ls_depth_limit = map_option depth_limit_value (so_depth_limit options),
                ls_generated_time_utc_ns = sc_generated_time_utc_ns context,
                ls_generated_monotonic_ns = sc_generated_monotonic_ns context,
                ls_synchronized = synchronized,
                ls_last_gap = None,
                ls_quality_flags = []\<rparr> projection context status) (\<lambda>candidate.
            Inr (candidate\<lparr>ls_quality_flags := quality\<rparr>))))))))"

subsection \<open>Quality flags\<close>

definition fact_admissible :: "projection_status \<Rightarrow> host_quality_fact \<Rightarrow> bool" where
  "fact_admissible status f \<longleftrightarrow>
     (f \<in> {HqOrderBookResync, HqMalformedPayload} \<longrightarrow> status \<in> {AwaitingBridge, NeedsResync}) \<and>
     (f = HqRecoveredTail \<longrightarrow> status = Synchronized)"

lemma map_host_quality_eq:
  "map_host_quality f status =
     (if fact_admissible status f then Inr (flag_of_fact f)
      else Inl (adapter_error InvalidHostQualityCombination HostQualityFactField))"
  by (cases f) (auto simp: fact_admissible_def)

lemma map_host_facts_eq:
  "map_host_facts fs status flags =
     (if list_all (fact_admissible status) fs then Inr (flags @ map flag_of_fact fs)
      else Inl (adapter_error InvalidHostQualityCombination HostQualityFactField))"
  by (induction fs arbitrary: flags) (simp_all add: map_host_quality_eq)

lemma inj_quality_rank: "inj quality_rank"
proof (rule injI)
  fix f g
  assume "quality_rank f = quality_rank g"
  then show "f = g" by (cases f; cases g) simp_all
qed

lemma remdups_adj_strict:
  fixes key :: "'a \<Rightarrow> nat"
  assumes "inj key" and "sorted (map key xs)"
  shows "sorted_wrt (\<lambda>a b. key a < key b) (remdups_adj xs)"
  using assms(2)
proof (induction xs rule: remdups_adj.induct)
  case (3 x y xs)
  show ?case
  proof (cases "x = y")
    case False
    have "key x \<noteq> key y" using False assms(1) by (simp add: inj_eq)
    with "3.prems" have "key x < key y" by simp
    with "3.prems" have "\<forall>z \<in> set (remdups_adj (y # xs)). key x < key z" by auto
    with 3 False show ?thesis by simp
  qed (use 3 in simp)
qed simp_all

definition crossed_book :: "order_book \<Rightarrow> bool" where
  "crossed_book book \<longleftrightarrow> (\<exists>bid ask. OrderBook_best_bid book = Some bid \<and>
     OrderBook_best_ask book = Some ask \<and> lvl_price bid \<ge> lvl_price ask)"

definition applicable_flags :: "order_book \<Rightarrow> projection_status \<Rightarrow> snapshot_options \<Rightarrow> quality_flag set" where
  "applicable_flags book status options =
     flag_of_fact ` set (so_host_quality_facts options) \<union>
     (if status = AwaitingBridge then {QUALITY_FLAG_SNAPSHOT_BRIDGE_PENDING} else {}) \<union>
     (if status = NeedsResync then {QUALITY_FLAG_SEQUENCE_GAP} else {}) \<union>
     (if crossed_book book then {QUALITY_FLAG_CROSSED_BOOK} else {})"

lemma make_quality_flags_cases:
  "if list_all (fact_admissible status) (so_host_quality_facts options)
   then \<exists>flags. make_quality_flags book status options = Inr flags \<and>
     set flags = applicable_flags book status options \<and>
     sorted_wrt (\<lambda>a b. quality_rank a < quality_rank b) flags
   else make_quality_flags book status options =
     Inl (adapter_error InvalidHostQualityCombination HostQualityFactField)"
proof -
  have crossed: "(case (OrderBook_best_bid book, OrderBook_best_ask book) of
      (Some bid, Some ask) \<Rightarrow> lvl_price bid \<ge> lvl_price ask | _ \<Rightarrow> False) = crossed_book book"
    by (auto simp: crossed_book_def split: option.split)
  have "sorted_wrt (\<lambda>a b. quality_rank a < quality_rank b) (remdups_adj (sort_key quality_rank fs))" for fs
    by (rule remdups_adj_strict[OF inj_quality_rank]) simp
  then show ?thesis
    unfolding make_quality_flags_def map_host_facts_eq crossed
    by (auto simp: Let_def applicable_flags_def)
qed

lemma make_quality_flags_ok_iff:
  "is_ok (make_quality_flags book status options) \<longleftrightarrow>
     list_all (fact_admissible status) (so_host_quality_facts options)"
proof (cases "list_all (fact_admissible status) (so_host_quality_facts options)")
  case True
  then obtain flags where "make_quality_flags book status options = Inr flags"
    using make_quality_flags_cases[of status options book] by metis
  with True show ?thesis by simp
next
  case False
  then have "make_quality_flags book status options =
      Inl (adapter_error InvalidHostQualityCombination HostQualityFactField)"
    using make_quality_flags_cases[of status options book] by metis
  with False show ?thesis by simp
qed

lemma make_quality_flags_Inr:
  assumes "make_quality_flags book status options = Inr flags"
  shows "set flags = applicable_flags book status options"
    and "sorted_wrt (\<lambda>a b. quality_rank a < quality_rank b) flags"
proof -
  have "list_all (fact_admissible status) (so_host_quality_facts options)"
    using make_quality_flags_ok_iff[of book status options] assms by simp
  then obtain flags' where "make_quality_flags book status options = Inr flags'"
    "set flags' = applicable_flags book status options"
    "sorted_wrt (\<lambda>a b. quality_rank a < quality_rank b) flags'"
    using make_quality_flags_cases[of status options book] by metis
  with assms show "set flags = applicable_flags book status options"
    "sorted_wrt (\<lambda>a b. quality_rank a < quality_rank b) flags" by simp_all
qed

subsection \<open>Levels\<close>

definition wire_of_level :: "numeric_spec \<Rightarrow> book_level \<Rightarrow> wire_price_level" where
  "wire_of_level spec l =
     \<lparr>pl_price = fixed_text (nat (price_value (lvl_price l))) (scale_digits (price_scale spec)) 0,
      pl_quantity = fixed_text (nat (quantity_value (lvl_quantity l))) (scale_digits (quantity_scale spec)) 0\<rparr>"

lemma append_levels_eq:
  assumes "64 \<le> max_size" "max_size \<le> SIZE_MAX"
  shows "append_levels max_size out levels spec = Inr (out @ map (wire_of_level spec) levels)"
  by (induction levels arbitrary: out)
    (simp_all add: adapter_format_price_def adapter_format_quantity_def wire_of_level_def
      format_price_fixed_eq[OF assms] format_quantity_fixed_eq[OF assms])

lemma wire_of_level_fits: "wire_level_fits (wire_of_level spec l)"
proof -
  have p: "format_price_fixed 64 (lvl_price l) (price_scale spec) = Inr (pl_price (wire_of_level spec l))"
    and q: "format_quantity_fixed 64 (lvl_quantity l) (quantity_scale spec) = Inr (pl_quantity (wire_of_level spec l))"
    by (simp_all add: format_price_fixed_eq format_quantity_fixed_eq wire_of_level_def)
  have "length (pl_price (wire_of_level spec l)) \<le> 64" "length (pl_quantity (wire_of_level spec l)) \<le> 64"
    using p q by (simp_all add: format_price_fixed_def format_quantity_fixed_def format_price_Inr_iff
        format_quantity_Inr_iff)
  then show ?thesis by (simp add: wire_level_fits_def)
qed

lemma wire_of_level_means: "level_means spec (wire_of_level spec l) l"
proof -
  have "renders v n n (fixed_text v n 0)" for v n
    using fixed_text_renders[of v 0 n 0] by simp
  then show ?thesis by (auto simp: level_means_def wire_of_level_def)
qed

text \<open>What is printed for a best-first list of levels is read back as that list.\<close>

lemma adapt_wire_of_levels:
  assumes "sorted_wrt (side_lt side) (map lvl_price ls)"
  shows "adapt_baseline_side (map (wire_of_level spec) ls) spec (side = Bid) = Inr ls"
proof -
  have "list_all wire_level_fits (map (wire_of_level spec) ls)"
    by (simp add: list_all_iff wire_of_level_fits)
  from adapt_baseline_side_iff[OF this, of spec side ls] assms show ?thesis
    by (simp add: list_all2_map1 list_all2_refl wire_of_level_means)
qed

subsection \<open>The whole snapshot\<close>

definition context_acceptable :: "book_projection \<Rightarrow> snapshot_context \<Rightarrow> bool" where
  "context_acceptable p context \<longleftrightarrow>
     is_symbol (ei_symbol (sc_identity context)) \<and> ei_policy (sc_identity context) = bp_policy p \<and>
     is_non_empty_text (sc_producer context) \<and> is_non_empty_text (sc_producer_version context) \<and>
     (bp_status p = NeedsResync \<longleftrightarrow> sc_current_gap context \<noteq> None)"

definition recovery_acceptable :: "snapshot_context \<Rightarrow> bool" where
  "recovery_acceptable context \<longleftrightarrow> (\<forall>g. sc_current_gap context = Some g \<longrightarrow>
     cg_recovery_state g \<in> {ResyncRequired, ResyncInProgress, ResyncFailed})"

lemma validate_snapshot_context_ok_iff:
  "is_ok (validate_snapshot_context p (bp_status p) context) \<longleftrightarrow> context_acceptable p context"
  by (cases "sc_source context")
    (auto simp: validate_snapshot_context_def context_acceptable_def)

lemma map_gap_reason_eq: "map_gap_reason r = Inr REASON_CODE_SEQUENCE_GAP_DETECTED"
  by (cases r) simp_all

lemma map_gap_recovery_ok_iff:
  "is_ok (map_gap_recovery st) \<longleftrightarrow> st \<in> {ResyncRequired, ResyncInProgress, ResyncFailed}"
  by (cases st) simp_all

lemma is_ok_bind: "is_ok (bind_result r f) \<longleftrightarrow> (\<exists>x. r = Inr x \<and> is_ok (f x))"
  by (cases r) auto

definition limited :: "snapshot_options \<Rightarrow> book_level list \<Rightarrow> book_level list" where
  "limited options ls = (case so_depth_limit options of
     None \<Rightarrow> ls | Some limit \<Rightarrow> take (nat (depth_limit_value limit)) ls)"

lemma select_snapshot_levels_eq:
  assumes "book_wf b"
  shows "select_snapshot_levels b options =
    (limited options (OrderBook_all_levels b Bid), limited options (OrderBook_all_levels b Ask))"
  by (simp add: select_snapshot_levels_def limited_def top_levels_side all_levels_side[OF assms]
      split: option.split)

lemma select_snapshot_book_eq:
  "bp_status p \<noteq> AwaitingBaseline \<Longrightarrow>
     select_snapshot_book p (bp_status p) = Inr (bp_book p, bp_status p = Synchronized)"
  by (cases "bp_status p") (simp_all add: select_snapshot_book_def synchronized_book_def diagnostic_book_def)

text \<open>The descriptor of the gap that stopped the projection.\<close>

definition describes_gap :: "gap_info \<Rightarrow> current_gap_context \<Rightarrow> wire_gap_descriptor \<Rightarrow> bool" where
  "describes_gap gap current d \<longleftrightarrow>
     gd_stream d = STREAM_DIFF_DEPTH \<and> gd_detected_at_utc_ns d = cg_detected_at_utc_ns current \<and>
     gd_previous_sequence d = last_accepted_final gap \<and>
     gd_next_sequence d = range_first (incoming_range gap) \<and>
     gd_reason_code d = REASON_CODE_SEQUENCE_GAP_DETECTED \<and>
     map_gap_recovery (cg_recovery_state current) = Inr (gd_recovery_state d)"

lemma append_current_gap_cases:
  assumes "projection_inv p" and "context_acceptable p context"
  shows "(is_ok (append_current_gap c p context (bp_status p)) \<longleftrightarrow> recovery_acceptable context) \<and>
    (append_current_gap c p context (bp_status p) = Inr c' \<longrightarrow>
      (if bp_status p = NeedsResync then
         \<exists>gap current d. bp_last_gap p = Some gap \<and> sc_current_gap context = Some current \<and>
           c' = c\<lparr>ls_last_gap := Some d\<rparr> \<and> describes_gap gap current d
       else c' = c))"
proof (cases "bp_status p = NeedsResync")
  case False
  with assms(2) have "sc_current_gap context = None" by (simp add: context_acceptable_def)
  with False show ?thesis by (auto simp: append_current_gap_def recovery_acceptable_def)
next
  case True
  with assms obtain gap current where "bp_last_gap p = Some gap" "sc_current_gap context = Some current"
    by (auto simp: projection_inv_def context_acceptable_def)
  with True show ?thesis
    by (cases "cg_recovery_state current")
      (auto simp: append_current_gap_def recovery_acceptable_def map_gap_reason_eq describes_gap_def)
qed

definition candidate_snapshot ::
  "book_projection \<Rightarrow> update_id \<Rightarrow> snapshot_source \<Rightarrow> snapshot_context \<Rightarrow> snapshot_options \<Rightarrow> wire_local_snapshot" where
  "candidate_snapshot p last_id source context options =
     \<lparr>ls_venue = VENUE_BINANCE, ls_market = market_for_policy (bp_policy p),
      ls_symbol = ei_symbol (sc_identity context), ls_schema_version = kLocalSnapshotSchema,
      ls_producer = sc_producer context, ls_producer_version = sc_producer_version context,
      ls_source = source, ls_last_update_id = last_id,
      ls_bids = map (wire_of_level (bp_numeric_spec p)) (limited options (OrderBook_all_levels (bp_book p) Bid)),
      ls_asks = map (wire_of_level (bp_numeric_spec p)) (limited options (OrderBook_all_levels (bp_book p) Ask)),
      ls_depth_limit = map_option depth_limit_value (so_depth_limit options),
      ls_generated_time_utc_ns = sc_generated_time_utc_ns context,
      ls_generated_monotonic_ns = sc_generated_monotonic_ns context,
      ls_synchronized = (bp_status p = Synchronized), ls_last_gap = None, ls_quality_flags = []\<rparr>"

lemma make_snapshot_unfold:
  assumes "projection_inv p" and "bp_last_update_id p = Some last_id"
    and "64 \<le> max_size" "max_size \<le> SIZE_MAX"
  shows "make_local_order_book_snapshot max_size p context options =
      bind_result (validate_snapshot_context p (bp_status p) context) (\<lambda>source.
      bind_result (make_quality_flags (bp_book p) (bp_status p) options) (\<lambda>quality.
      bind_result (append_current_gap (candidate_snapshot p last_id source context options)
        p context (bp_status p)) (\<lambda>candidate. Inr (candidate\<lparr>ls_quality_flags := quality\<rparr>))))"
proof -
  have wf: "book_wf (bp_book p)" and st: "bp_status p \<noteq> AwaitingBaseline"
    using assms(1,2) by (simp_all add: projection_inv_def)
  show ?thesis
    by (simp add: make_local_order_book_snapshot_def Let_def st assms(2) select_snapshot_book_eq
        select_snapshot_levels_eq[OF wf] append_levels_eq[OF assms(3,4)] candidate_snapshot_def)
qed

subsection \<open>Properties\<close>

text \<open>
  C27: outbound quality flags.  The flags of a snapshot are exactly those of the host facts supplied,
  the bridge-pending flag while a baseline awaits its bridge, the sequence-gap flag after a gap, and
  the crossed-book flag exactly when the best bid is not below the best ask; each occurs once, in
  rank order.  Facts that contradict the projection's status are refused.
\<close>

theorem quality_flags_exact:
  "(is_ok (make_quality_flags book status options) \<longleftrightarrow>
     list_all (fact_admissible status) (so_host_quality_facts options)) \<and>
   (\<forall>flags. make_quality_flags book status options = Inr flags \<longrightarrow>
     set flags = applicable_flags book status options \<and>
     sorted_wrt (\<lambda>a b. quality_rank a < quality_rank b) flags)"
  by (intro conjI allI impI make_quality_flags_ok_iff make_quality_flags_Inr)

theorem quality_flags_exact_witness:
  "make_quality_flags (OrderBook_create example_spec) AwaitingBridge
     \<lparr>so_depth_limit = None, so_host_quality_facts = [HqOverlap, HqDuplicate, HqOverlap]\<rparr> =
   Inr [QUALITY_FLAG_DUPLICATE, QUALITY_FLAG_SNAPSHOT_BRIDGE_PENDING, QUALITY_FLAG_OVERLAP] \<and>
   sorted_wrt (\<lambda>a b. quality_rank a < quality_rank b)
     [QUALITY_FLAG_DUPLICATE, QUALITY_FLAG_SNAPSHOT_BRIDGE_PENDING, QUALITY_FLAG_OVERLAP]"
proof -
  let ?o = "\<lparr>so_depth_limit = None, so_host_quality_facts = [HqOverlap, HqDuplicate, HqOverlap]\<rparr>"
  have run: "make_quality_flags (OrderBook_create example_spec) AwaitingBridge ?o =
      Inr [QUALITY_FLAG_DUPLICATE, QUALITY_FLAG_SNAPSHOT_BRIDGE_PENDING, QUALITY_FLAG_OVERLAP]"
    by (simp add: make_quality_flags_def OrderBook_best_bid_def OrderBook_create_def)
  with quality_flags_exact[of "OrderBook_create example_spec" AwaitingBridge ?o] show ?thesis by blast
qed

lemma snapshot_ok_iff:
  assumes "projection_run spec policy h p" and "64 \<le> max_size" "max_size \<le> SIZE_MAX"
  shows "is_ok (make_local_order_book_snapshot max_size p context options) \<longleftrightarrow>
    bp_status p \<noteq> AwaitingBaseline \<and> context_acceptable p context \<and> recovery_acceptable context \<and>
    list_all (fact_admissible (bp_status p)) (so_host_quality_facts options)"
proof (cases "bp_status p = AwaitingBaseline")
  case True
  then show ?thesis by (simp add: make_local_order_book_snapshot_def)
next
  case False
  have inv: "projection_inv p" using projection_run_config[OF assms(1)] by simp
  note flags = make_quality_flags_ok_iff[of "bp_book p" "bp_status p" options]
  obtain last_id where id: "bp_last_update_id p = Some last_id"
    using inv False by (auto simp: projection_inv_def)
  show ?thesis
    unfolding make_snapshot_unfold[OF inv id assms(2,3)] is_ok_bind
    using False flags validate_snapshot_context_ok_iff[of p "context"] append_current_gap_cases[OF inv]
    by (auto simp: is_ok_iff)
qed

text \<open>
  C26: when a snapshot is produced.  On every projection a sequence of calls can produce, a snapshot
  is returned exactly when a baseline was installed, the context is well formed and carries a gap
  context exactly after a gap, that context's recovery state is an open one, and the host facts fit
  the status.  In particular formatting the levels never fails.
\<close>

theorem snapshot_produced_iff:
  assumes "projection_run spec policy h p" and "64 \<le> max_size" "max_size \<le> SIZE_MAX"
  shows "is_ok (make_local_order_book_snapshot max_size p context options) \<longleftrightarrow>
    bp_status p \<noteq> AwaitingBaseline \<and> context_acceptable p context \<and> recovery_acceptable context \<and>
    list_all (fact_admissible (bp_status p)) (so_host_quality_facts options)"
  using assms by (rule snapshot_ok_iff)

abbreviation example_context :: snapshot_context where
  "example_context \<equiv> \<lparr>sc_identity = example_identity, sc_producer = ''gateway'', sc_producer_version = ''1'',
     sc_source = GatewayLive, sc_generated_time_utc_ns = 1, sc_generated_monotonic_ns = None,
     sc_current_gap = None\<rparr>"

abbreviation example_options :: snapshot_options where
  "example_options \<equiv> \<lparr>so_depth_limit = Some (DepthLimit 1), so_host_quality_facts = []\<rparr>"

lemma example_context_acceptable:
  assumes "projection_run example_spec Spot h p" and "bp_status p \<noteq> NeedsResync"
  shows "context_acceptable p example_context" "recovery_acceptable example_context"
  using projection_run_config[OF assms(1)] assms(2) example_text
  by (simp_all add: context_acceptable_def recovery_acceptable_def text_acceptable_def)

theorem snapshot_produced_iff_witness:
  "\<exists>p. is_ok (make_local_order_book_snapshot 1000 p example_context example_options)"
proof -
  obtain p where run: "projection_run example_spec Spot (Some (example_baseline, [example_batch])) p"
    and st: "bp_status p = Synchronized"
    using example_synchronized by blast
  have "is_ok (make_local_order_book_snapshot 1000 p example_context example_options)"
    using snapshot_produced_iff[OF run, of 1000 example_context example_options] st
      example_context_acceptable[OF run] by simp
  then show ?thesis by blast
qed

lemma snapshot_contents:
  assumes "projection_run spec policy h p" and "64 \<le> max_size" "max_size \<le> SIZE_MAX"
    and "make_local_order_book_snapshot max_size p context options = Inr snap"
  shows "bp_last_update_id p = Some (ls_last_update_id snap) \<and>
    (ls_synchronized snap \<longleftrightarrow> synchronized_book p \<noteq> None) \<and>
    ls_market snap = market_for_policy policy \<and> ls_symbol snap = ei_symbol (sc_identity context) \<and>
    ls_schema_version snap = ''local-order-book-snapshot.v1'' \<and>
    adapt_baseline_side (ls_bids snap) spec True = Inr (limited options (OrderBook_all_levels (bp_book p) Bid)) \<and>
    adapt_baseline_side (ls_asks snap) spec False = Inr (limited options (OrderBook_all_levels (bp_book p) Ask)) \<and>
    set (ls_quality_flags snap) = applicable_flags (bp_book p) (bp_status p) options \<and>
    (bp_status p \<noteq> NeedsResync \<longrightarrow> ls_last_gap snap = None) \<and>
    (bp_status p = NeedsResync \<longrightarrow> (\<exists>gap current d. bp_last_gap p = Some gap \<and>
       sc_current_gap context = Some current \<and> ls_last_gap snap = Some d \<and> describes_gap gap current d))"
proof -
  have inv: "projection_inv p" and cfg: "bp_numeric_spec p = spec" "bp_policy p = policy"
    using projection_run_config[OF assms(1)] by simp_all
  have "bp_status p \<noteq> AwaitingBaseline"
    using assms(4) by (auto simp: make_local_order_book_snapshot_def)
  then obtain last_id where id: "bp_last_update_id p = Some last_id"
    using inv by (auto simp: projection_inv_def)
  obtain source quality candidate where
    src: "validate_snapshot_context p (bp_status p) context = Inr source"
    and qual: "make_quality_flags (bp_book p) (bp_status p) options = Inr quality"
    and gap: "append_current_gap (candidate_snapshot p last_id source context options) p context
      (bp_status p) = Inr candidate"
    and snap: "snap = candidate\<lparr>ls_quality_flags := quality\<rparr>"
    using assms(4) unfolding make_snapshot_unfold[OF inv id assms(2,3)] result_iffs by auto
  have ctx: "context_acceptable p context"
    using src validate_snapshot_context_ok_iff[of p "context"] by simp
  have sorted: "sorted_wrt (side_lt side) (map lvl_price (limited options (OrderBook_all_levels (bp_book p) side)))" for side
    using ob.all_levels_sorted[of "bp_book p" side] inv
    by (auto simp: limited_def projection_inv_def sorted_wrt_take take_map[symmetric] split: option.split)
  have flags: "set quality = applicable_flags (bp_book p) (bp_status p) options"
    using qual by (rule make_quality_flags_Inr)
  note wire = adapt_wire_of_levels[OF sorted[of Bid], of spec] adapt_wire_of_levels[OF sorted[of Ask], of spec]
  have "if bp_status p = NeedsResync
      then \<exists>gap current d. bp_last_gap p = Some gap \<and> sc_current_gap context = Some current \<and>
        candidate = (candidate_snapshot p last_id source context options)\<lparr>ls_last_gap := Some d\<rparr> \<and>
        describes_gap gap current d
      else candidate = candidate_snapshot p last_id source context options"
    using append_current_gap_cases[OF inv ctx] gap by blast
  then show ?thesis
    using snap id cfg wire flags
    by (auto simp: candidate_snapshot_def synchronized_book_def kLocalSnapshotSchema_def split: if_splits)
qed

text \<open>
  C9: what a snapshot contains.  Its update id is the projection's, it is marked synchronized exactly
  when the projection is, its levels are the best levels of the book up to the depth limit, printed
  so that the adapter reads back exactly those levels, its flags are the applicable ones, and it
  describes a gap exactly after one: with the last accepted id and the first id that did not connect.
\<close>

theorem snapshot_contents_exact:
  assumes "projection_run spec policy h p" and "64 \<le> max_size" "max_size \<le> SIZE_MAX"
    and "make_local_order_book_snapshot max_size p context options = Inr snap"
  shows "bp_last_update_id p = Some (ls_last_update_id snap) \<and>
    (ls_synchronized snap \<longleftrightarrow> synchronized_book p \<noteq> None) \<and>
    ls_market snap = market_for_policy policy \<and> ls_symbol snap = ei_symbol (sc_identity context) \<and>
    ls_schema_version snap = ''local-order-book-snapshot.v1'' \<and>
    adapt_baseline_side (ls_bids snap) spec True = Inr (limited options (OrderBook_all_levels (bp_book p) Bid)) \<and>
    adapt_baseline_side (ls_asks snap) spec False = Inr (limited options (OrderBook_all_levels (bp_book p) Ask)) \<and>
    set (ls_quality_flags snap) = applicable_flags (bp_book p) (bp_status p) options \<and>
    (bp_status p \<noteq> NeedsResync \<longrightarrow> ls_last_gap snap = None) \<and>
    (bp_status p = NeedsResync \<longrightarrow> (\<exists>gap current d. bp_last_gap p = Some gap \<and>
       sc_current_gap context = Some current \<and> ls_last_gap snap = Some d \<and> describes_gap gap current d))"
  using assms by (rule snapshot_contents)

theorem snapshot_contents_exact_witness:
  "\<exists>p snap. make_local_order_book_snapshot 1000 p example_context example_options = Inr snap \<and>
     adapt_baseline_side (ls_bids snap) example_spec True =
       Inr (limited example_options (OrderBook_all_levels (bp_book p) Bid))"
proof -
  obtain p where run: "projection_run example_spec Spot (Some (example_baseline, [example_batch])) p"
    and st: "bp_status p = Synchronized"
    using example_synchronized by blast
  have "\<exists>snap. make_local_order_book_snapshot 1000 p example_context example_options = Inr snap"
    unfolding is_ok_iff[symmetric]
    using snapshot_ok_iff[OF run, of 1000 example_context example_options] st
      example_context_acceptable[OF run] by simp
  then obtain snap where snap: "make_local_order_book_snapshot 1000 p example_context example_options = Inr snap" ..
  from snapshot_contents_exact[OF run _ _ snap] snap show ?thesis by auto
qed

end
