(* ===== verification/Feed_Pipeline.thy ===== *)
theory Feed_Pipeline
  imports Adapter_Inbound Adapter_Outbound
begin

text \<open>
  The components together, as a host of the library composes them: exchange messages are adapted,
  the adapted values are installed into or applied to a projection, and the projection is rendered
  as a local snapshot.  A feed is any such sequence of calls; the property is end to end, from wire
  texts to wire texts.
\<close>

subsection \<open>Feeds\<close>

text \<open>
  The history of a feed: the last exchange snapshot that was installed and the depth updates that
  were applied since.  Messages the adapter refuses reach no projection, so they are no step.
  \<open>wire_level_fits\<close> holds of every text a \<open>std::string\<close> can hold.
\<close>

type_synonym feed_history = "(wire_depth_snapshot \<times> wire_depth_update list) option"

inductive feed ::
  "contracts \<Rightarrow> numeric_spec \<Rightarrow> expected_identity \<Rightarrow> feed_history \<Rightarrow> book_projection \<Rightarrow> bool"
  for C spec expected where
  started: "feed C spec expected None (BookProjection_create spec (ei_policy expected))"
| snapshot: "feed C spec expected h p \<Longrightarrow> list_all wire_level_fits (ds_bids w @ ds_asks w) \<Longrightarrow>
    adapt_exchange_depth_snapshot C w spec expected = Inr b \<Longrightarrow> install_into b p = (Inr r, p') \<Longrightarrow>
    h' = (if ir_disposition r = Installed then Some (w, []) else h) \<Longrightarrow> feed C spec expected h' p'"
| update: "feed C spec expected h p \<Longrightarrow> list_all wire_level_fits (du_bids w @ du_asks w) \<Longrightarrow>
    adapt_depth_update C w spec expected = Inr d \<Longrightarrow> apply_to d p = Some (Inr r, p') \<Longrightarrow>
    h' = (if ar_disposition r = Applied then map_option (\<lambda>(s, ws). (s, ws @ [w])) h else h) \<Longrightarrow>
    feed C spec expected h' p'"
| reset: "feed C spec expected h p \<Longrightarrow> feed C spec expected None (BookProjection_reset p)"

subsection \<open>What messages mean\<close>

definition snapshot_means :: "numeric_spec \<Rightarrow> wire_depth_snapshot \<Rightarrow> book_baseline \<Rightarrow> bool" where
  "snapshot_means spec w b \<longleftrightarrow> bb_last_update_id b = ds_last_update_id w \<and>
     list_all2 (level_means spec) (ds_bids w) (bb_bids b) \<and>
     list_all2 (level_means spec) (ds_asks w) (bb_asks b)"

definition update_means :: "numeric_spec \<Rightarrow> wire_depth_update \<Rightarrow> depth_batch \<Rightarrow> bool" where
  "update_means spec w d \<longleftrightarrow> range_first (db_range d) = du_first_update_id w \<and>
     range_final (db_range d) = du_final_update_id w \<and>
     db_previous_final d = du_previous_final_update_id w \<and>
     (\<exists>bids asks. list_all2 (level_means spec) (du_bids w) bids \<and>
        list_all2 (level_means spec) (du_asks w) asks \<and>
        db_levels d = levels_as_updates Bid bids @ levels_as_updates Ask asks)"

abbreviation history_means :: "numeric_spec \<Rightarrow> feed_history \<Rightarrow> history \<Rightarrow> bool" where
  "history_means spec \<equiv> rel_option (rel_prod (snapshot_means spec) (list_all2 (update_means spec)))"

lemma adapted_snapshot_means:
  assumes "contracts_ok C" "list_all wire_level_fits (ds_bids w @ ds_asks w)"
    and "adapt_exchange_depth_snapshot C w spec expected = Inr b"
  shows "snapshot_means spec w (baseline_view_unchecked b)"
  using adapt_snapshot_iff[OF assms(1,2), of spec expected b] assms(3)
  by (simp add: snapshot_means_def baseline_view_unchecked_def)

lemma adapted_update_means:
  assumes "contracts_ok C" "list_all wire_level_fits (du_bids w @ du_asks w)"
    and "adapt_depth_update C w spec expected = Inr d"
  shows "update_means spec w (batch_view_unchecked d)"
  using adapt_update_iff[OF assms(1,2), of spec expected d] assms(3)
  by (auto simp: update_means_def batch_view_unchecked_def)

lemma install_into_InrD: "install_into b p = (Inr r, p') \<Longrightarrow> install_baseline p (baseline_view_unchecked b) = (r, p')"
  by (auto simp: install_into_def split: option.splits prod.splits)

lemma apply_to_InrD: "apply_to d p = Some (Inr r, p') \<Longrightarrow> apply_batch p (batch_view_unchecked d) = Some (r, p')"
  by (auto simp: apply_to_def split: option.splits)

text \<open>Every feed is a run of the projection whose history means what the messages say.\<close>

lemma feed_run:
  assumes "contracts_ok C" and "feed C spec expected h p"
  shows "\<exists>h'. projection_run spec (ei_policy expected) h' p \<and> history_means spec h h'"
  using assms(2)
proof induction
  case started
  show ?case by (intro exI[of _ None] conjI projection_run.created) simp
next
  case (snapshot h p w b r p' h')
  then obtain g where g: "projection_run spec (ei_policy expected) g p" "history_means spec h g" by blast
  note step = install_into_InrD[OF snapshot.hyps(4)]
  show ?case
  proof (cases "ir_disposition r = Installed")
    case True
    with projection_run.installed[OF g(1) step] adapted_snapshot_means[OF assms(1) snapshot.hyps(2,3)]
    show ?thesis by (intro exI[of _ "Some (baseline_view_unchecked b, [])"]) (simp add: snapshot.hyps(5))
  next
    case False
    with projection_run.install_rejected[OF g(1) step] g(2) show ?thesis
      by (intro exI[of _ g]) (simp add: snapshot.hyps(5))
  qed
next
  case (update h p w d r p' h')
  then obtain g where g: "projection_run spec (ei_policy expected) g p" "history_means spec h g" by blast
  note step = apply_to_InrD[OF update.hyps(4)]
  show ?case
  proof (cases "ar_disposition r = Applied")
    case True
    have "history_means spec (map_option (\<lambda>(s, ws). (s, ws @ [w])) h)
        (map_option (\<lambda>(b, bs). (b, bs @ [batch_view_unchecked d])) g)"
      using g(2) adapted_update_means[OF assms(1) update.hyps(2,3)]
      by (cases h; cases g) (auto simp: list_all2_appendI)
    with projection_run.applied[OF g(1) step True] True update.hyps(5) show ?thesis by auto
  next
    case False
    with projection_run.not_applied[OF g(1) step] g(2) show ?thesis
      by (intro exI[of _ g]) (simp add: update.hyps(5))
  qed
next
  case (reset h p)
  then obtain g where "projection_run spec (ei_policy expected) g p" by blast
  from projection_run.reset[OF this] show ?case by (intro exI[of _ None]) simp
qed

subsection \<open>From wire to wire\<close>

text \<open>
  C3: the library end to end.  Feed exchange messages through the adapter into a projection and ask
  for a local snapshot: if it is marked synchronized, an exchange snapshot was installed and at
  least one update applied since; the snapshot's update id is the final id of the last of them; and
  the texts of its levels denote, exactly and in best-first order up to the depth limit, the levels
  that the decimal texts of those messages describe, the exchange snapshot's replaced in order by
  those of the updates.
\<close>

theorem feed_snapshot_faithful:
  assumes "contracts_ok C" and "feed C spec expected h p" and "64 \<le> max_size" "max_size \<le> SIZE_MAX"
    and "make_local_order_book_snapshot max_size p context options = Inr snap" and "ls_synchronized snap"
  shows "\<exists>w ws baseline batches. h = Some (w, ws) \<and> ws \<noteq> [] \<and>
    snapshot_means spec w baseline \<and> list_all2 (update_means spec) ws batches \<and>
    ls_last_update_id snap = du_final_update_id (last ws) \<and>
    adapt_baseline_side (ls_bids snap) spec True =
      Inr (limited options (spec_levels Bid (replay baseline batches Bid))) \<and>
    adapt_baseline_side (ls_asks snap) spec False =
      Inr (limited options (spec_levels Ask (replay baseline batches Ask)))"
proof -
  obtain g where run: "projection_run spec (ei_policy expected) g p" and g: "history_means spec h g"
    using feed_run[OF assms(1,2)] by blast
  note contents = snapshot_contents[OF run assms(3-5)]
  then have st: "bp_status p = Synchronized"
    using assms(6) by (auto simp: synchronized_book_def split: if_splits)
  obtain baseline batches where hist: "g = Some (baseline, batches)" "batches \<noteq> []"
    and abs: "book_abs (bp_book p) = replay baseline batches"
    and id: "bp_last_update_id p = Some (range_final (db_range (last batches)))"
    using run_synchronized[OF run st] by blast
  obtain w ws where h: "h = Some (w, ws)" "snapshot_means spec w baseline"
    and ws: "list_all2 (update_means spec) ws batches"
    using g hist by (auto simp: option_rel_Some2)
  have "ws \<noteq> []" using ws hist(2) by auto
  moreover have "update_means spec (last ws) (last batches)"
    using ws hist(2) calculation by (auto simp: list_all2_conv_all_nth last_conv_nth)
  moreover have "OrderBook_all_levels (bp_book p) side = spec_levels side (replay baseline batches side)" for side
    using ob.all_levels_eq[of "bp_book p" side] projection_run_config[OF run] abs
    by (simp add: projection_inv_def)
  ultimately show ?thesis
    using h ws contents id by (auto simp: update_means_def)
qed

text \<open>A feed of one exchange snapshot and one update that bridges it.\<close>

lemma example_feed:
  "\<exists>p. feed example_contracts example_spec example_identity (Some (example_snapshot, [example_update])) p \<and>
     bp_status p = Synchronized"
proof -
  obtain b where b: "adapt_exchange_depth_snapshot example_contracts example_snapshot example_spec
      example_identity = Inr b"
    using example_snapshot_accepted by blast
  let ?p0 = "BookProjection_create example_spec Spot"
  have start: "feed example_contracts example_spec example_identity None ?p0"
    using feed.started[of example_contracts example_spec example_identity] by simp
  have bind: "ab_numeric_spec b = example_spec" "ab_policy b = Spot" "ab_last_update_id b = 10"
    using adapt_snapshot_iff[OF example_contracts_ok example_snapshot_fits, of example_spec example_identity b] b
    by simp_all
  obtain r p1 where step: "install_baseline ?p0 (baseline_view_unchecked b) = (r, p1)" by fastforce
  have r: "ir_disposition r = Installed"
    and p1: "bp_status p1 = AwaitingBridge" "bp_last_update_id p1 = Some 10" "bp_policy p1 = Spot"
      "bp_numeric_spec p1 = example_spec"
    using step bind
    by (auto simp: baseline_view_unchecked_def install_baseline_def BookProjection_create_def Let_def
        make_install_result_def)
  have "validate_binding (ab_numeric_spec b) (ab_policy b) ?p0 = None"
    by (simp add: validate_binding_None_iff bind BookProjection_create_def)
  then have inst: "install_into b ?p0 = (Inr r, p1)" using step by (simp add: install_into_def)
  have feed1: "feed example_contracts example_spec example_identity (Some (example_snapshot, [])) p1"
    using feed.snapshot[OF start example_snapshot_fits b inst refl] r by simp
  have inv: "projection_inv p1"
    using feed_run[OF example_contracts_ok feed1] projection_run_config by blast
  obtain r2 p2 where step2: "apply_batch p1 (batch_view_unchecked example_adapted_batch) = Some (r2, p2)"
    using apply_batch_total[OF inv] by blast
  have "connects Spot True 10 (batch_view_unchecked example_adapted_batch)"
    by (simp add: connects_def batch_view_unchecked_def)
  then have app: "ar_disposition r2 = Applied" using applied_iff[OF inv step2] p1 by auto
  have "apply_to example_adapted_batch p1 = Some (Inr r2, p2)"
    using step2 p1 validate_binding_None_iff[of example_spec Spot p1] by (simp add: apply_to_def)
  from feed.update[OF feed1 example_update_fits example_update_accepted this refl] app
    apply_batch_applied[OF inv step2 app]
  show ?thesis by auto
qed

theorem feed_snapshot_faithful_witness:
  "\<exists>p snap. feed example_contracts example_spec example_identity (Some (example_snapshot, [example_update])) p \<and>
     make_local_order_book_snapshot 1000 p example_context example_options = Inr snap \<and>
     ls_synchronized snap \<and> ls_last_update_id snap = 12"
proof -
  obtain p where feed: "feed example_contracts example_spec example_identity
      (Some (example_snapshot, [example_update])) p" and st: "bp_status p = Synchronized"
    using example_feed by blast
  obtain g where run: "projection_run example_spec Spot g p"
    using feed_run[OF example_contracts_ok feed] by auto
  have "is_ok (make_local_order_book_snapshot 1000 p example_context example_options)"
    using snapshot_ok_iff[OF run, of 1000 example_context example_options] st
      example_context_acceptable[OF run] by simp
  then obtain snap where snap: "make_local_order_book_snapshot 1000 p example_context example_options = Inr snap"
    unfolding is_ok_iff by blast
  have sync: "ls_synchronized snap"
    using snapshot_contents[OF run _ _ snap] st by (simp add: synchronized_book_def)
  from feed_snapshot_faithful[OF example_contracts_ok feed _ _ snap sync] have "ls_last_update_id snap = 12"
    by auto
  with feed snap sync show ?thesis by blast
qed

end
