(* ===== verification/Phase8_Std_Map.thy ===== *)
theory Phase8_Std_Map
  imports Order_Book
begin

text \<open>
  \<open>Phase8StdMapControl\<close> of \<open>benchmarks/phase8/phase8_std_map_control.hpp\<close>: the container control of
  the candidate comparison, a direct \<open>std::map\<close> book behind the model protocol.  It is shown to
  simulate the production book operation by operation, and so to keep the same contract.
\<close>

record std_map_control =
  smc_spec :: numeric_spec
  smc_bids :: "(price_units, quantity_units) std_map"
  smc_asks :: "(price_units, quantity_units) std_map"

definition StdMapControl_create :: "numeric_spec \<Rightarrow> std_map_control" where
  "StdMapControl_create spec = \<lparr>smc_spec = spec, smc_bids = [], smc_asks = []\<rparr>"

definition StdMapControl_numeric_spec :: "std_map_control \<Rightarrow> numeric_spec" where
  "StdMapControl_numeric_spec m = smc_spec m"

definition StdMapControl_empty :: "std_map_control \<Rightarrow> bool" where
  "StdMapControl_empty m \<longleftrightarrow> smc_bids m = [] \<and> smc_asks m = []"

definition StdMapControl_side_empty :: "std_map_control \<Rightarrow> book_side \<Rightarrow> bool" where
  "StdMapControl_side_empty m side \<longleftrightarrow> (if side = Bid then smc_bids m = [] else smc_asks m = [])"

definition StdMapControl_level_count :: "std_map_control \<Rightarrow> book_side \<Rightarrow> nat" where
  "StdMapControl_level_count m side = (if side = Bid then length (smc_bids m) else length (smc_asks m))"

definition StdMapControl_best_bid :: "std_map_control \<Rightarrow> book_level option" where
  "StdMapControl_best_bid m = (if smc_bids m = [] then None else Some (level_of (hd (smc_bids m))))"

definition StdMapControl_best_ask :: "std_map_control \<Rightarrow> book_level option" where
  "StdMapControl_best_ask m = (if smc_asks m = [] then None else Some (level_of (hd (smc_asks m))))"

definition StdMapControl_quantity_at ::
  "std_map_control \<Rightarrow> book_side \<Rightarrow> price_units \<Rightarrow> quantity_units option" where
  "StdMapControl_quantity_at m side price =
     (if side = Bid then
        (case map_find (>) price (smc_bids m) of None \<Rightarrow> None | Some q \<Rightarrow> Some q)
      else
        (case map_find (<) price (smc_asks m) of None \<Rightarrow> None | Some q \<Rightarrow> Some q))"

definition StdMapControl_apply_remove ::
  "std_map_control \<Rightarrow> book_side \<Rightarrow> price_units \<Rightarrow> level_change \<times> std_map_control" where
  "StdMapControl_apply_remove m side price =
     (if side = Bid then
        (case map_find (>) price (smc_bids m) of
           None \<Rightarrow> (Unchanged, m)
         | Some _ \<Rightarrow> (Removed, m\<lparr>smc_bids := map_erase (>) price (smc_bids m)\<rparr>))
      else
        (case map_find (<) price (smc_asks m) of
           None \<Rightarrow> (Unchanged, m)
         | Some _ \<Rightarrow> (Removed, m\<lparr>smc_asks := map_erase (<) price (smc_asks m)\<rparr>)))"

definition StdMapControl_apply_insert_or_update ::
  "std_map_control \<Rightarrow> book_side \<Rightarrow> price_units \<Rightarrow> quantity_units \<Rightarrow> level_change \<times> std_map_control" where
  "StdMapControl_apply_insert_or_update m side price quantity =
     (if side = Bid then
        (case map_find (>) price (smc_bids m) of
           None \<Rightarrow> (Inserted, m\<lparr>smc_bids := map_insert_or_assign (>) price quantity (smc_bids m)\<rparr>)
         | Some old \<Rightarrow>
             if old = quantity then (Unchanged, m)
             else (Updated, m\<lparr>smc_bids := map_insert_or_assign (>) price quantity (smc_bids m)\<rparr>))
      else
        (case map_find (<) price (smc_asks m) of
           None \<Rightarrow> (Inserted, m\<lparr>smc_asks := map_insert_or_assign (<) price quantity (smc_asks m)\<rparr>)
         | Some old \<Rightarrow>
             if old = quantity then (Unchanged, m)
             else (Updated, m\<lparr>smc_asks := map_insert_or_assign (<) price quantity (smc_asks m)\<rparr>)))"

definition StdMapControl_apply_level ::
  "std_map_control \<Rightarrow> book_side \<Rightarrow> price_units \<Rightarrow> quantity_units \<Rightarrow> level_change \<times> std_map_control" where
  "StdMapControl_apply_level m side price quantity =
     (if quantity_value quantity = 0 then StdMapControl_apply_remove m side price
      else StdMapControl_apply_insert_or_update m side price quantity)"

fun StdMapControl_apply_updates :: "std_map_control \<Rightarrow> level_update list \<Rightarrow> std_map_control" where
  "StdMapControl_apply_updates m [] = m"
| "StdMapControl_apply_updates m (u # us) =
     StdMapControl_apply_updates
       (snd (StdMapControl_apply_level m (upd_side u) (upd_price u) (upd_quantity u))) us"

text \<open>The loops of \<open>replace_all\<close> fill the sides of a temporary model.\<close>

fun StdMapControl_fill_bids :: "std_map_control \<Rightarrow> book_level list \<Rightarrow> std_map_control" where
  "StdMapControl_fill_bids temp [] = temp"
| "StdMapControl_fill_bids temp (level # levels) =
     StdMapControl_fill_bids
       (if quantity_value (lvl_quantity level) = 0
          then temp\<lparr>smc_bids := map_erase (>) (lvl_price level) (smc_bids temp)\<rparr>
        else temp\<lparr>smc_bids :=
          map_insert_or_assign (>) (lvl_price level) (lvl_quantity level) (smc_bids temp)\<rparr>) levels"

fun StdMapControl_fill_asks :: "std_map_control \<Rightarrow> book_level list \<Rightarrow> std_map_control" where
  "StdMapControl_fill_asks temp [] = temp"
| "StdMapControl_fill_asks temp (level # levels) =
     StdMapControl_fill_asks
       (if quantity_value (lvl_quantity level) = 0
          then temp\<lparr>smc_asks := map_erase (<) (lvl_price level) (smc_asks temp)\<rparr>
        else temp\<lparr>smc_asks :=
          map_insert_or_assign (<) (lvl_price level) (lvl_quantity level) (smc_asks temp)\<rparr>) levels"

definition StdMapControl_replace_all ::
  "std_map_control \<Rightarrow> book_level list \<Rightarrow> book_level list \<Rightarrow> std_map_control" where
  "StdMapControl_replace_all m bids asks =
     (let temp = StdMapControl_create (smc_spec m);
          temp = StdMapControl_fill_bids temp bids;
          temp = StdMapControl_fill_asks temp asks
      in temp)"

definition StdMapControl_clear :: "std_map_control \<Rightarrow> std_map_control" where
  "StdMapControl_clear m = m\<lparr>smc_bids := [], smc_asks := []\<rparr>"

definition StdMapControl_clear_side :: "std_map_control \<Rightarrow> book_side \<Rightarrow> std_map_control" where
  "StdMapControl_clear_side m side = (if side = Bid then m\<lparr>smc_bids := []\<rparr> else m\<lparr>smc_asks := []\<rparr>)"

fun StdMapControl_copy_loop ::
  "nat \<Rightarrow> (price_units, quantity_units) std_map \<Rightarrow> book_level list \<Rightarrow> book_level list" where
  "StdMapControl_copy_loop limit [] result = result"
| "StdMapControl_copy_loop limit ((price, quantity) # m) result =
     (if length result \<ge> limit then result
      else StdMapControl_copy_loop limit m (result @ [BookLevel price quantity]))"

definition StdMapControl_copy_from_map ::
  "(price_units, quantity_units) std_map \<Rightarrow> nat \<Rightarrow> book_level list" where
  "StdMapControl_copy_from_map m limit = StdMapControl_copy_loop limit m []"

definition StdMapControl_copy_levels :: "std_map_control \<Rightarrow> book_side \<Rightarrow> nat \<Rightarrow> book_level list" where
  "StdMapControl_copy_levels m side limit =
     (if side = Bid then StdMapControl_copy_from_map (smc_bids m) limit
      else StdMapControl_copy_from_map (smc_asks m) limit)"

definition StdMapControl_top_levels :: "std_map_control \<Rightarrow> book_side \<Rightarrow> nat \<Rightarrow> book_level list" where
  "StdMapControl_top_levels m side limit =
     (if limit = 0 then [] else StdMapControl_copy_levels m side limit)"

definition StdMapControl_all_levels :: "std_map_control \<Rightarrow> book_side \<Rightarrow> book_level list" where
  "StdMapControl_all_levels m side = StdMapControl_copy_levels m side SIZE_MAX"

definition StdMapControl_ops :: "std_map_control book_ops" where
  "StdMapControl_ops = \<lparr>bo_create = StdMapControl_create, bo_numeric_spec = StdMapControl_numeric_spec,
     bo_empty = StdMapControl_empty, bo_side_empty = StdMapControl_side_empty,
     bo_level_count = StdMapControl_level_count, bo_best_bid = StdMapControl_best_bid,
     bo_best_ask = StdMapControl_best_ask, bo_quantity_at = StdMapControl_quantity_at,
     bo_top_levels = StdMapControl_top_levels, bo_all_levels = StdMapControl_all_levels,
     bo_apply_level = StdMapControl_apply_level, bo_apply_updates = StdMapControl_apply_updates,
     bo_replace_all = StdMapControl_replace_all, bo_clear = StdMapControl_clear,
     bo_clear_side = StdMapControl_clear_side\<rparr>"

subsection \<open>The control simulates the production book\<close>

definition smc_rep :: "std_map_control \<Rightarrow> order_book" where
  "smc_rep m = \<lparr>ob_spec = smc_spec m, ob_bids = smc_bids m, ob_asks = smc_asks m\<rparr>"

lemma smc_rep_sel [simp]:
  "ob_spec (smc_rep m) = smc_spec m" "ob_bids (smc_rep m) = smc_bids m" "ob_asks (smc_rep m) = smc_asks m"
  by (simp_all add: smc_rep_def)

lemma smc_apply_level:
  "OrderBook_apply_level (smc_rep m) side p q = map_prod id smc_rep (StdMapControl_apply_level m side p q)"
  by (simp add: StdMapControl_apply_level_def StdMapControl_apply_remove_def
      StdMapControl_apply_insert_or_update_def OrderBook_apply_level_def OrderBook_apply_remove_def
      OrderBook_apply_insert_or_update_def smc_rep_def split: option.split)

lemma smc_apply_updates: "smc_rep (StdMapControl_apply_updates m us) = OrderBook_apply_updates (smc_rep m) us"
  by (induction us arbitrary: m) (simp_all add: smc_apply_level)

lemma smc_fill:
  "StdMapControl_fill_bids m ls = m\<lparr>smc_bids := replace_loop (>) (smc_bids m) ls\<rparr>"
  "StdMapControl_fill_asks m ls = m\<lparr>smc_asks := replace_loop (<) (smc_asks m) ls\<rparr>"
  by (induction ls arbitrary: m) simp_all

lemma smc_copy: "StdMapControl_copy_from_map m limit = copy_from_map m limit"
proof -
  have "StdMapControl_copy_loop limit m result = copy_from_map_loop limit m result" for result
    by (induction limit m result rule: copy_from_map_loop.induct) simp_all
  then show ?thesis by (simp add: StdMapControl_copy_from_map_def copy_from_map_def del: copy_from_map_eq)
qed

lemma smc_bulk:
  "smc_rep (StdMapControl_create spec) = OrderBook_create spec"
  "smc_rep (StdMapControl_replace_all m bids asks) = OrderBook_replace_all (smc_rep m) bids asks"
  "smc_rep (StdMapControl_clear m) = OrderBook_clear (smc_rep m)"
  "smc_rep (StdMapControl_clear_side m side) = OrderBook_clear_side (smc_rep m) side"
  by (simp_all add: smc_rep_def StdMapControl_create_def OrderBook_create_def Let_def
      StdMapControl_replace_all_def OrderBook_replace_all_def smc_fill StdMapControl_clear_def
      OrderBook_clear_def StdMapControl_clear_side_def OrderBook_clear_side_def)

interpretation smc: book_simulation OrderBook_ops book_wf book_abs StdMapControl_ops smc_rep
proof
  fix m :: std_map_control
  show "view StdMapControl_ops m = view OrderBook_ops (smc_rep m)"
    by (simp add: view_def StdMapControl_ops_def fun_eq_iff StdMapControl_numeric_spec_def
        StdMapControl_empty_def OrderBook_empty_def StdMapControl_side_empty_def OrderBook_side_empty_def
        StdMapControl_level_count_def OrderBook_level_count_def StdMapControl_best_bid_def
        OrderBook_best_bid_def StdMapControl_best_ask_def OrderBook_best_ask_def
        StdMapControl_quantity_at_def OrderBook_quantity_at_def StdMapControl_top_levels_def
        OrderBook_top_levels_def StdMapControl_all_levels_def OrderBook_all_levels_def
        StdMapControl_copy_levels_def OrderBook_copy_levels_def smc_copy split: option.split)
qed (simp_all add: StdMapControl_ops_def smc_apply_level smc_apply_updates smc_bulk)

end
