(* ===== verification/Phase8_Sorted_Vector.thy ===== *)
theory Phase8_Sorted_Vector
  imports Order_Book
begin

text \<open>
  \<open>Phase8SortedVectorNaive\<close> and \<open>Phase8SortedVectorBatchLww\<close> of \<open>benchmarks/phase8/\<close>: each side is a
  contiguous vector kept sorted, searched by \<open>std::lower_bound\<close>.  The two classes have the same
  members but for \<open>apply_updates\<close>, so one model carries both and only that operation is given
  twice.  The search is the halving loop of the standard library on positions; it is shown to
  find the insertion point within a logarithmic number of comparisons, and both classes are shown
  to simulate the production book, so they keep the same contract.
\<close>

subsection \<open>The binary search\<close>

text \<open>
  \<open>std::lower_bound\<close> on the \<open>len\<close> positions from \<open>first\<close> of a vector; \<open>before\<close> is the comparison of
  an element with the target.
\<close>

function std_lower_bound :: "('a \<Rightarrow> bool) \<Rightarrow> 'a list \<Rightarrow> nat \<Rightarrow> nat \<Rightarrow> nat" where
  "std_lower_bound before xs first len =
     (if len = 0 then first
      else
        let half = len div 2;
            middle = first + half
        in if before (xs ! middle) then std_lower_bound before xs (middle + 1) (len - half - 1)
           else std_lower_bound before xs first half)"
  by pat_completeness auto
termination by (relation "measure (\<lambda>(_, _, _, len). len)") auto

declare std_lower_bound.simps [simp del]

text \<open>On a vector partitioned at \<open>i\<close> the search returns \<open>i\<close>.\<close>

lemma std_lower_bound_partition:
  assumes "first \<le> i" "i \<le> first + len" "first + len \<le> length xs"
    and "\<And>j. j < length xs \<Longrightarrow> before (xs ! j) \<longleftrightarrow> j < i"
  shows "std_lower_bound before xs first len = i"
  using assms
proof (induction before xs first len rule: std_lower_bound.induct)
  case (1 before xs first len)
  let ?half = "len div 2" and ?middle = "first + len div 2"
  show ?case
  proof (cases "len = 0")
    case True
    with 1 show ?thesis by (simp add: std_lower_bound.simps)
  next
    case False
    then have half: "?half < len" by simp
    with 1 have in_range: "?middle < length xs" by linarith
    show ?thesis
    proof (cases "before (xs ! ?middle)")
      case True
      have "std_lower_bound before xs (?middle + 1) (len - ?half - 1) = i"
      proof (rule 1(1)[OF False refl refl True])
        show "?middle + 1 \<le> i" using 1(6)[OF in_range] True by simp
        show "i \<le> ?middle + 1 + (len - ?half - 1)" "?middle + 1 + (len - ?half - 1) \<le> length xs"
          using 1(4,5) half by linarith+
      qed (rule 1(6))
      with True False show ?thesis by (simp add: std_lower_bound.simps[of _ _ _ len] Let_def)
    next
      case less: False
      have "std_lower_bound before xs first ?half = i"
      proof (rule 1(2)[OF False refl refl less 1(3)])
        show "i \<le> ?middle" using 1(6)[OF in_range] less by simp
        show "?middle \<le> length xs" using in_range by simp
      qed (rule 1(6))
      with less False show ?thesis by (simp add: std_lower_bound.simps[of _ _ _ len] Let_def)
    qed
  qed
qed

text \<open>The number of comparisons the loop makes.\<close>

function lower_bound_comparisons :: "('a \<Rightarrow> bool) \<Rightarrow> 'a list \<Rightarrow> nat \<Rightarrow> nat \<Rightarrow> nat" where
  "lower_bound_comparisons before xs first len =
     (if len = 0 then 0
      else
        let half = len div 2;
            middle = first + half
        in Suc (if before (xs ! middle)
                  then lower_bound_comparisons before xs (middle + 1) (len - half - 1)
                else lower_bound_comparisons before xs first half))"
  by pat_completeness auto
termination by (relation "measure (\<lambda>(_, _, _, len). len)") auto

declare lower_bound_comparisons.simps [simp del]

lemma lower_bound_comparisons_bound:
  "len < 2 ^ n \<Longrightarrow> lower_bound_comparisons before xs first len \<le> n"
proof (induction n arbitrary: first len)
  case 0
  then show ?case by (simp add: lower_bound_comparisons.simps)
next
  case (Suc n)
  then have "len div 2 < 2 ^ n" "len - len div 2 - 1 < 2 ^ n" by auto
  with Suc.IH show ?case by (subst lower_bound_comparisons.simps) (simp add: Let_def)
qed

subsection \<open>The model\<close>

record sorted_vector =
  sv_spec :: numeric_spec
  sv_bids :: "book_level list"
  sv_asks :: "book_level list"

definition SortedVector_create :: "numeric_spec \<Rightarrow> sorted_vector" where
  "SortedVector_create spec = \<lparr>sv_spec = spec, sv_bids = [], sv_asks = []\<rparr>"

definition SortedVector_numeric_spec :: "sorted_vector \<Rightarrow> numeric_spec" where
  "SortedVector_numeric_spec m = sv_spec m"

definition SortedVector_empty :: "sorted_vector \<Rightarrow> bool" where
  "SortedVector_empty m \<longleftrightarrow> sv_bids m = [] \<and> sv_asks m = []"

definition SortedVector_side_empty :: "sorted_vector \<Rightarrow> book_side \<Rightarrow> bool" where
  "SortedVector_side_empty m side \<longleftrightarrow> (if side = Bid then sv_bids m = [] else sv_asks m = [])"

definition SortedVector_level_count :: "sorted_vector \<Rightarrow> book_side \<Rightarrow> nat" where
  "SortedVector_level_count m side = (if side = Bid then length (sv_bids m) else length (sv_asks m))"

definition SortedVector_best_bid :: "sorted_vector \<Rightarrow> book_level option" where
  "SortedVector_best_bid m = (if sv_bids m = [] then None else Some (hd (sv_bids m)))"

definition SortedVector_best_ask :: "sorted_vector \<Rightarrow> book_level option" where
  "SortedVector_best_ask m = (if sv_asks m = [] then None else Some (hd (sv_asks m)))"

text \<open>Iterators are positions; the end iterator is the length.\<close>

definition lower_bound_level :: "book_level list \<Rightarrow> book_side \<Rightarrow> price_units \<Rightarrow> nat" where
  "lower_bound_level levels side price =
     (if side = Bid then std_lower_bound (\<lambda>level. lvl_price level > price) levels 0 (length levels)
      else std_lower_bound (\<lambda>level. lvl_price level < price) levels 0 (length levels))"

definition find_level :: "book_level list \<Rightarrow> book_side \<Rightarrow> price_units \<Rightarrow> nat" where
  "find_level levels side price =
     (let it = lower_bound_level levels side price
      in if it \<noteq> length levels \<and> lvl_price (levels ! it) = price then it else length levels)"

definition vector_erase :: "nat \<Rightarrow> 'a list \<Rightarrow> 'a list" where
  "vector_erase i xs = take i xs @ drop (Suc i) xs"

definition vector_insert :: "nat \<Rightarrow> 'a \<Rightarrow> 'a list \<Rightarrow> 'a list" where
  "vector_insert i x xs = take i xs @ x # drop i xs"

definition assign_quantity :: "nat \<Rightarrow> quantity_units \<Rightarrow> book_level list \<Rightarrow> book_level list" where
  "assign_quantity i quantity levels = levels[i := (levels ! i)\<lparr>lvl_quantity := quantity\<rparr>]"

definition erase_price :: "book_level list \<Rightarrow> book_side \<Rightarrow> price_units \<Rightarrow> book_level list" where
  "erase_price levels side price =
     (if levels = [] then levels
      else
        let position = lower_bound_level levels side price
        in if position \<noteq> length levels \<and> lvl_price (levels ! position) = price
             then vector_erase position levels
           else levels)"

definition insert_or_assign_level ::
  "book_level list \<Rightarrow> book_side \<Rightarrow> price_units \<Rightarrow> quantity_units \<Rightarrow> book_level list" where
  "insert_or_assign_level levels side price quantity =
     (let position = lower_bound_level levels side price
      in if position \<noteq> length levels \<and> lvl_price (levels ! position) = price
           then assign_quantity position quantity levels
         else vector_insert position (BookLevel price quantity) levels)"

definition SortedVector_quantity_at ::
  "sorted_vector \<Rightarrow> book_side \<Rightarrow> price_units \<Rightarrow> quantity_units option" where
  "SortedVector_quantity_at m side price =
     (if side = Bid then
        let it = find_level (sv_bids m) side price
        in if it = length (sv_bids m) then None else Some (lvl_quantity (sv_bids m ! it))
      else
        let it = find_level (sv_asks m) side price
        in if it = length (sv_asks m) then None else Some (lvl_quantity (sv_asks m ! it)))"

definition SortedVector_apply_remove ::
  "sorted_vector \<Rightarrow> book_side \<Rightarrow> price_units \<Rightarrow> level_change \<times> sorted_vector" where
  "SortedVector_apply_remove m side price =
     (if side = Bid then
        let it = find_level (sv_bids m) side price
        in if it = length (sv_bids m) then (Unchanged, m)
           else (Removed, m\<lparr>sv_bids := vector_erase it (sv_bids m)\<rparr>)
      else
        let it = find_level (sv_asks m) side price
        in if it = length (sv_asks m) then (Unchanged, m)
           else (Removed, m\<lparr>sv_asks := vector_erase it (sv_asks m)\<rparr>))"

definition SortedVector_apply_insert_or_update ::
  "sorted_vector \<Rightarrow> book_side \<Rightarrow> price_units \<Rightarrow> quantity_units \<Rightarrow> level_change \<times> sorted_vector" where
  "SortedVector_apply_insert_or_update m side price quantity =
     (if side = Bid then
        let position = lower_bound_level (sv_bids m) side price
        in if position = length (sv_bids m) \<or> lvl_price (sv_bids m ! position) \<noteq> price
             then (Inserted, m\<lparr>sv_bids := vector_insert position (BookLevel price quantity) (sv_bids m)\<rparr>)
           else if lvl_quantity (sv_bids m ! position) = quantity then (Unchanged, m)
           else (Updated, m\<lparr>sv_bids := assign_quantity position quantity (sv_bids m)\<rparr>)
      else
        let position = lower_bound_level (sv_asks m) side price
        in if position = length (sv_asks m) \<or> lvl_price (sv_asks m ! position) \<noteq> price
             then (Inserted, m\<lparr>sv_asks := vector_insert position (BookLevel price quantity) (sv_asks m)\<rparr>)
           else if lvl_quantity (sv_asks m ! position) = quantity then (Unchanged, m)
           else (Updated, m\<lparr>sv_asks := assign_quantity position quantity (sv_asks m)\<rparr>))"

definition SortedVector_apply_level ::
  "sorted_vector \<Rightarrow> book_side \<Rightarrow> price_units \<Rightarrow> quantity_units \<Rightarrow> level_change \<times> sorted_vector" where
  "SortedVector_apply_level m side price quantity =
     (if quantity_value quantity = 0 then SortedVector_apply_remove m side price
      else SortedVector_apply_insert_or_update m side price quantity)"

text \<open>The two ways to apply a batch: every update in turn, or the last one of each price.\<close>

fun SortedVectorNaive_apply_updates :: "sorted_vector \<Rightarrow> level_update list \<Rightarrow> sorted_vector" where
  "SortedVectorNaive_apply_updates m [] = m"
| "SortedVectorNaive_apply_updates m (u # us) =
     SortedVectorNaive_apply_updates
       (snd (SortedVector_apply_level m (upd_side u) (upd_price u) (upd_quantity u))) us"

type_synonym pending = "(price_units, quantity_units) std_map"

fun pending_loop :: "pending \<Rightarrow> pending \<Rightarrow> level_update list \<Rightarrow> pending \<times> pending" where
  "pending_loop pending_bids pending_asks [] = (pending_bids, pending_asks)"
| "pending_loop pending_bids pending_asks (u # us) =
     (if upd_side u = Bid
        then pending_loop (map_insert_or_assign (<) (upd_price u) (upd_quantity u) pending_bids) pending_asks us
      else pending_loop pending_bids (map_insert_or_assign (<) (upd_price u) (upd_quantity u) pending_asks) us)"

fun apply_pending :: "sorted_vector \<Rightarrow> book_side \<Rightarrow> pending \<Rightarrow> sorted_vector" where
  "apply_pending m side [] = m"
| "apply_pending m side ((price, quantity) # es) =
     apply_pending (snd (SortedVector_apply_level m side price quantity)) side es"

definition BatchLww_apply_updates :: "sorted_vector \<Rightarrow> level_update list \<Rightarrow> sorted_vector" where
  "BatchLww_apply_updates m updates =
     (case pending_loop [] [] updates of
        (pending_bids, pending_asks) \<Rightarrow> apply_pending (apply_pending m Bid pending_bids) Ask pending_asks)"

text \<open>The loops of \<open>replace_all\<close>, over one side of the temporary model.\<close>

fun fill_side :: "book_side \<Rightarrow> book_level list \<Rightarrow> book_level list \<Rightarrow> book_level list" where
  "fill_side side levels [] = levels"
| "fill_side side levels (l # ls) =
     fill_side side
       (if quantity_value (lvl_quantity l) = 0 then erase_price levels side (lvl_price l)
        else insert_or_assign_level levels side (lvl_price l) (lvl_quantity l)) ls"

definition SortedVector_replace_all ::
  "sorted_vector \<Rightarrow> book_level list \<Rightarrow> book_level list \<Rightarrow> sorted_vector" where
  "SortedVector_replace_all m bids asks =
     (let temp = SortedVector_create (sv_spec m);
          temp = temp\<lparr>sv_bids := fill_side Bid (sv_bids temp) bids\<rparr>;
          temp = temp\<lparr>sv_asks := fill_side Ask (sv_asks temp) asks\<rparr>
      in temp)"

definition SortedVector_clear :: "sorted_vector \<Rightarrow> sorted_vector" where
  "SortedVector_clear m = m\<lparr>sv_bids := [], sv_asks := []\<rparr>"

definition SortedVector_clear_side :: "sorted_vector \<Rightarrow> book_side \<Rightarrow> sorted_vector" where
  "SortedVector_clear_side m side = (if side = Bid then m\<lparr>sv_bids := []\<rparr> else m\<lparr>sv_asks := []\<rparr>)"

fun copy_levels_loop :: "nat \<Rightarrow> book_level list \<Rightarrow> book_level list \<Rightarrow> book_level list" where
  "copy_levels_loop limit [] result = result"
| "copy_levels_loop limit (level # levels) result =
     (if length result \<ge> limit then result
      else copy_levels_loop limit levels (result @ [level]))"

definition SortedVector_copy_levels :: "sorted_vector \<Rightarrow> book_side \<Rightarrow> nat \<Rightarrow> book_level list" where
  "SortedVector_copy_levels m side limit =
     (let levels = if side = Bid then sv_bids m else sv_asks m in copy_levels_loop limit levels [])"

definition SortedVector_top_levels :: "sorted_vector \<Rightarrow> book_side \<Rightarrow> nat \<Rightarrow> book_level list" where
  "SortedVector_top_levels m side limit =
     (if limit = 0 then [] else SortedVector_copy_levels m side limit)"

definition SortedVector_all_levels :: "sorted_vector \<Rightarrow> book_side \<Rightarrow> book_level list" where
  "SortedVector_all_levels m side = SortedVector_copy_levels m side SIZE_MAX"

definition SortedVectorNaive_ops :: "sorted_vector book_ops" where
  "SortedVectorNaive_ops = \<lparr>bo_create = SortedVector_create, bo_numeric_spec = SortedVector_numeric_spec,
     bo_empty = SortedVector_empty, bo_side_empty = SortedVector_side_empty,
     bo_level_count = SortedVector_level_count, bo_best_bid = SortedVector_best_bid,
     bo_best_ask = SortedVector_best_ask, bo_quantity_at = SortedVector_quantity_at,
     bo_top_levels = SortedVector_top_levels, bo_all_levels = SortedVector_all_levels,
     bo_apply_level = SortedVector_apply_level, bo_apply_updates = SortedVectorNaive_apply_updates,
     bo_replace_all = SortedVector_replace_all, bo_clear = SortedVector_clear,
     bo_clear_side = SortedVector_clear_side\<rparr>"

definition SortedVectorBatchLww_ops :: "sorted_vector book_ops" where
  "SortedVectorBatchLww_ops = SortedVectorNaive_ops\<lparr>bo_apply_updates := BatchLww_apply_updates\<rparr>"

subsection \<open>A sorted vector as a map\<close>

abbreviation entries_of :: "book_level list \<Rightarrow> (price_units, quantity_units) std_map" where
  "entries_of levels \<equiv> map level_entry levels"

definition split_at :: "book_side \<Rightarrow> price_units \<Rightarrow> book_level list \<Rightarrow> nat" where
  "split_at side p levels = length (takeWhile (\<lambda>l. side_lt side (lvl_price l) p) levels)"

lemma split_at_simps [simp]:
  "split_at side p [] = 0"
  "split_at side p (l # ls) = (if side_lt side (lvl_price l) p then Suc (split_at side p ls) else 0)"
  by (simp_all add: split_at_def)

lemma split_at_le [simp]: "split_at side p levels \<le> length levels"
  by (simp add: split_at_def length_takeWhile_le)

text \<open>On a sorted side the binary search finds the first level not before the price.\<close>

lemma split_at_iff:
  assumes "map_inv (side_lt side) (entries_of levels)" and j: "j < length levels"
  shows "side_lt side (lvl_price (levels ! j)) p \<longleftrightarrow> j < split_at side p levels"
proof -
  let ?before = "\<lambda>l. side_lt side (lvl_price l) p" and ?i = "split_at side p levels"
  have sorted: "side_lt side (lvl_price (levels ! i)) (lvl_price (levels ! j))" if "i < j" for i
    using assms that by (simp add: map_inv_def sorted_wrt_iff_nth_less comp_def)
  show ?thesis
  proof
    assume "j < ?i"
    then show "?before (levels ! j)"
      using nth_mem[of j "takeWhile ?before levels"] set_takeWhileD
      by (fastforce simp: split_at_def takeWhile_nth)
  next
    assume at: "?before (levels ! j)"
    show "j < ?i"
    proof (rule ccontr)
      assume "\<not> j < ?i"
      then have le: "?i \<le> j" by simp
      with j have "\<not> ?before (levels ! ?i)"
        unfolding split_at_def by (intro nth_length_takeWhile) simp
      moreover have "?before (levels ! ?i)"
        using le at sorted[of ?i] side_order.lt_trans by (cases "?i = j") auto
      ultimately show False by simp
    qed
  qed
qed

lemma lower_bound_level_eq:
  assumes "map_inv (side_lt side) (entries_of levels)"
  shows "lower_bound_level levels side p = split_at side p levels"
proof -
  have "std_lower_bound (\<lambda>l. side_lt side (lvl_price l) p) levels 0 (length levels) = split_at side p levels"
    using split_at_iff[OF assms] by (intro std_lower_bound_partition) simp_all
  then show ?thesis by (cases side) (simp_all add: lower_bound_level_def)
qed

text \<open>What the map operations do at the position the search returns.\<close>

abbreviation holds_price :: "book_level list \<Rightarrow> nat \<Rightarrow> price_units \<Rightarrow> bool" where
  "holds_price levels i p \<equiv> i \<noteq> length levels \<and> lvl_price (levels ! i) = p"

lemma map_find_split_at:
  "map_find (side_lt side) p (entries_of levels) =
     (if holds_price levels (split_at side p levels) p
        then Some (lvl_quantity (levels ! split_at side p levels)) else None)"
  by (induction levels) (auto simp: side_order.lt_irrefl dest: side_order.not_lt_both)

lemma map_erase_split_at:
  "holds_price levels (split_at side p levels) p \<Longrightarrow>
   map_erase (side_lt side) p (entries_of levels) =
     entries_of (vector_erase (split_at side p levels) levels)"
  by (induction levels) (auto simp: vector_erase_def side_order.lt_irrefl split: if_splits)

lemma map_erase_absent:
  "\<not> holds_price levels (split_at side p levels) p \<Longrightarrow>
   map_erase (side_lt side) p (entries_of levels) = entries_of levels"
  by (induction levels) (auto dest: side_order.not_lt_both split: if_splits)

lemma map_insert_split_at:
  "map_insert_or_assign (side_lt side) p q (entries_of levels) =
     entries_of
       (if holds_price levels (split_at side p levels) p
          then assign_quantity (split_at side p levels) q levels
        else vector_insert (split_at side p levels) (BookLevel p q) levels)"
  by (induction levels)
    (auto simp: assign_quantity_def vector_insert_def side_order.lt_irrefl dest: side_order.not_lt_both)

subsection \<open>Both classes simulate the production book\<close>

definition sv_rep :: "sorted_vector \<Rightarrow> order_book" where
  "sv_rep m = \<lparr>ob_spec = sv_spec m, ob_bids = entries_of (sv_bids m), ob_asks = entries_of (sv_asks m)\<rparr>"

lemma sv_rep_sel [simp]:
  "ob_spec (sv_rep m) = sv_spec m" "ob_bids (sv_rep m) = entries_of (sv_bids m)"
  "ob_asks (sv_rep m) = entries_of (sv_asks m)"
  by (simp_all add: sv_rep_def)

lemma sv_rep_inv:
  assumes "book_wf (sv_rep m)"
  shows "map_inv (side_lt Bid) (entries_of (sv_bids m))" "map_inv (side_lt Ask) (entries_of (sv_asks m))"
  using book_wf_side[OF assms, of Bid] book_wf_side[OF assms, of Ask] by (simp_all add: side_of_def)

lemmas map_at = map_find_split_at[where side = Bid] map_find_split_at[where side = Ask]
  map_erase_split_at[where side = Bid]
  map_erase_split_at[where side = Ask] map_insert_split_at[where side = Bid]
  map_insert_split_at[where side = Ask]

lemma sv_apply_level:
  assumes "book_wf (sv_rep m)"
  shows "OrderBook_apply_level (sv_rep m) side p q = map_prod id sv_rep (SortedVector_apply_level m side p q)"
  using sv_rep_inv[OF assms, THEN lower_bound_level_eq] map_at[unfolded side_lt_alt]
  by (cases side)
    (simp_all add: SortedVector_apply_level_def SortedVector_apply_remove_def find_level_def
      SortedVector_apply_insert_or_update_def OrderBook_apply_level_def OrderBook_apply_remove_def
      OrderBook_apply_insert_or_update_def sv_rep_def Let_def)

lemma sv_apply_level_wf:
  assumes "book_wf (sv_rep m)"
  shows "sv_rep (snd (SortedVector_apply_level m side p q)) = snd (OrderBook_apply_level (sv_rep m) side p q)"
    and "book_wf (sv_rep (snd (SortedVector_apply_level m side p q)))"
proof -
  obtain c m' where step: "SortedVector_apply_level m side p q = (c, m')" by fastforce
  then have run: "OrderBook_apply_level (sv_rep m) side p q = (c, sv_rep m')"
    by (simp add: sv_apply_level[OF assms])
  show "sv_rep (snd (SortedVector_apply_level m side p q)) = snd (OrderBook_apply_level (sv_rep m) side p q)"
    and "book_wf (sv_rep (snd (SortedVector_apply_level m side p q)))"
    using book_apply_level[OF assms run] by (simp_all add: step run)
qed

lemma sv_naive_updates:
  "book_wf (sv_rep m) \<Longrightarrow>
   sv_rep (SortedVectorNaive_apply_updates m us) = OrderBook_apply_updates (sv_rep m) us"
proof (induction us arbitrary: m)
  case (Cons u us)
  note step = sv_apply_level_wf[OF Cons.prems, of "upd_side u" "upd_price u" "upd_quantity u"]
  show ?case using Cons.IH[OF step(2)] step(1) by simp
qed simp

lemma fill_side_eq:
  "map_inv (side_lt side) (entries_of levels) \<Longrightarrow>
   entries_of (fill_side side levels ls) = replace_loop (side_lt side) (entries_of levels) ls"
proof (induction ls arbitrary: levels)
  case (Cons l ls)
  have erase: "entries_of (erase_price levels side (lvl_price l)) =
      map_erase (side_lt side) (lvl_price l) (entries_of levels)"
    by (simp add: erase_price_def lower_bound_level_eq[OF Cons.prems] Let_def map_erase_split_at
        map_erase_absent)
  have insert: "entries_of (insert_or_assign_level levels side (lvl_price l) (lvl_quantity l)) =
      map_insert_or_assign (side_lt side) (lvl_price l) (lvl_quantity l) (entries_of levels)"
    by (simp add: insert_or_assign_level_def lower_bound_level_eq[OF Cons.prems] Let_def
        map_insert_split_at)
  have "entries_of (fill_side side levels' ls) = replace_loop (side_lt side) (entries_of levels') ls"
    if "map_inv (side_lt side) (entries_of levels')" for levels' using that by (rule Cons.IH)
  from this[of "erase_price levels side (lvl_price l)"]
    this[of "insert_or_assign_level levels side (lvl_price l) (lvl_quantity l)"]
  show ?case
    unfolding erase insert
    by (simp add: side_order.map_inv_insert[OF Cons.prems] side_order.map_inv_erase[OF Cons.prems])
qed simp

lemma copy_levels_loop_eq:
  "copy_levels_loop limit levels result = result @ take (limit - length result) levels"
proof (induction limit levels result rule: copy_levels_loop.induct)
  case (2 limit level levels result)
  show ?case
  proof (cases "length result \<ge> limit")
    case False
    then have "limit - length result = Suc (limit - Suc (length result))" by linarith
    with 2 False show ?thesis by simp
  qed simp
qed simp

lemma sv_bulk:
  "sv_rep (SortedVector_create spec) = OrderBook_create spec"
  "sv_rep (SortedVector_replace_all m bids asks) = OrderBook_replace_all (sv_rep m) bids asks"
  "sv_rep (SortedVector_clear m) = OrderBook_clear (sv_rep m)"
  "sv_rep (SortedVector_clear_side m side) = OrderBook_clear_side (sv_rep m) side"
  using fill_side_eq[of Bid "[]"] fill_side_eq[of Ask "[]"]
  by (simp_all add: sv_rep_def SortedVector_create_def OrderBook_create_def Let_def map_inv_def
      SortedVector_replace_all_def OrderBook_replace_all_def SortedVector_clear_def
      OrderBook_clear_def SortedVector_clear_side_def OrderBook_clear_side_def)

lemma level_of_entry [simp]: "level_of (level_entry l) = l"
  by (cases l) simp

lemma level_of_entries [simp]: "map (level_of \<circ> level_entry) levels = levels"
  by (simp add: comp_def del: fst_conv snd_conv)

interpretation svn: book_simulation OrderBook_ops book_wf book_abs SortedVectorNaive_ops sv_rep
proof
  fix m :: sorted_vector
  assume wf: "book_wf (sv_rep m)"
  note inv = sv_rep_inv[OF wf]
  show "view SortedVectorNaive_ops m = view OrderBook_ops (sv_rep m)"
    by (simp add: view_def SortedVectorNaive_ops_def fun_eq_iff SortedVector_numeric_spec_def
        SortedVector_empty_def OrderBook_empty_def SortedVector_side_empty_def OrderBook_side_empty_def
        SortedVector_level_count_def OrderBook_level_count_def SortedVector_best_bid_def
        OrderBook_best_bid_def SortedVector_best_ask_def OrderBook_best_ask_def list.map_sel
        SortedVector_quantity_at_def OrderBook_quantity_at_def find_level_def Let_def
        inv[THEN lower_bound_level_eq] map_at[unfolded side_lt_alt]
        SortedVector_top_levels_def OrderBook_top_levels_def SortedVector_all_levels_def
        OrderBook_all_levels_def SortedVector_copy_levels_def OrderBook_copy_levels_def
        copy_levels_loop_eq)
qed (simp_all add: SortedVectorNaive_ops_def sv_apply_level sv_naive_updates sv_bulk)

subsection \<open>Batches of last writes\<close>

definition as_updates :: "book_side \<Rightarrow> pending \<Rightarrow> level_update list" where
  "as_updates side es = map (\<lambda>(p, q). LevelUpdate side p q) es"

lemma apply_pending_eq:
  "apply_pending m side es = SortedVectorNaive_apply_updates m (as_updates side es)"
  by (induction m side es rule: apply_pending.induct) (simp_all add: as_updates_def)

lemma spec_updates_pending:
  "distinct (map fst es) \<Longrightarrow>
   spec_updates (as_updates side es) B s p =
     (if s = side then (case map_of es p of None \<Rightarrow> B s p | Some q \<Rightarrow> level_value q) else B s p)"
proof (induction es arbitrary: B)
  case (Cons e es)
  then have "map_of es (fst e) = None" by (simp add: map_of_eq_None_iff)
  with Cons show ?case
    by (cases e) (auto simp: as_updates_def spec_apply_lookup split: option.split)
qed (simp add: as_updates_def)

text \<open>The pending maps hold the last quantity the batch gives each price.\<close>

lemma pending_loop_props:
  assumes "pending_loop pb pa us = (pb', pa')" and "map_inv (<) pb" "map_inv (<) pa"
  shows "map_inv (<) pb' \<and> map_inv (<) pa' \<and>
    map_of pb' p = (if updates_at Bid p us = [] then map_of pb p
      else Some (upd_quantity (last (updates_at Bid p us)))) \<and>
    map_of pa' p = (if updates_at Ask p us = [] then map_of pa p
      else Some (upd_quantity (last (updates_at Ask p us))))"
  using assms
proof (induction us arbitrary: pb pa)
  case (Cons u us)
  show ?case
  proof (cases "upd_side u")
    case Bid
    with Cons.prems Cons.IH[OF _ ascending.map_inv_insert[OF Cons.prems(2)] Cons.prems(3)]
    show ?thesis by (simp add: updates_at_def ascending.map_of_map_insert)
  next
    case Ask
    with Cons.prems Cons.IH[OF _ Cons.prems(2) ascending.map_inv_insert[OF Cons.prems(3)]]
    show ?thesis by (simp add: updates_at_def ascending.map_of_map_insert)
  qed
qed (simp add: updates_at_def)

lemma pending_maps:
  assumes "pending_loop [] [] us = (pb, pa)"
  shows "distinct (map fst pb)" "distinct (map fst pa)"
    and "spec_updates (as_updates Bid pb @ as_updates Ask pa) B = spec_updates us B"
proof -
  have inv: "map_inv (<) ([] :: pending)" by (simp add: map_inv_def)
  note props = pending_loop_props[OF assms inv inv]
  show dist: "distinct (map fst pb)" "distinct (map fst pa)"
    using props std_map_less.entries_distinct by blast+
  have "spec_updates (as_updates Bid pb @ as_updates Ask pa) B side p = spec_updates us B side p" for side p
    using props[of p]
    by (cases side) (simp_all add: spec_updates_pending dist spec_updates_lookup[of us])
  then show "spec_updates (as_updates Bid pb @ as_updates Ask pa) B = spec_updates us B"
    by (simp add: fun_eq_iff)
qed

lemma sv_batch_updates:
  assumes "book_wf (sv_rep m)"
  shows "sv_rep (BatchLww_apply_updates m us) = OrderBook_apply_updates (sv_rep m) us"
proof -
  obtain pb pa where pending: "pending_loop [] [] us = (pb, pa)" by fastforce
  have append: "OrderBook_apply_updates (OrderBook_apply_updates b us) vs = OrderBook_apply_updates b (us @ vs)"
    for b us vs by (induction us arbitrary: b) simp_all
  have wf: "book_wf (sv_rep (SortedVectorNaive_apply_updates m vs))" for vs
    using book_apply_updates[OF assms] by (simp add: sv_naive_updates[OF assms])
  have "sv_rep (BatchLww_apply_updates m us) =
      OrderBook_apply_updates (sv_rep m) (as_updates Bid pb @ as_updates Ask pa)"
    by (simp add: BatchLww_apply_updates_def pending apply_pending_eq sv_naive_updates[OF wf]
        sv_naive_updates[OF assms] append)
  also have "\<dots> = OrderBook_apply_updates (sv_rep m) us"
    using book_apply_updates[OF assms] by (intro order_book_eqI) (simp_all add: pending_maps(3)[OF pending, simplified])
  finally show ?thesis .
qed

interpretation svb: book_simulation OrderBook_ops book_wf book_abs SortedVectorBatchLww_ops sv_rep
proof
  fix m :: sorted_vector
  assume wf: "book_wf (sv_rep m)"
  have "view SortedVectorBatchLww_ops m = view SortedVectorNaive_ops m"
    by (simp add: view_def SortedVectorBatchLww_ops_def)
  with svn.sim_view[OF wf] show "view SortedVectorBatchLww_ops m = view OrderBook_ops (sv_rep m)" by simp
qed (simp_all add: SortedVectorBatchLww_ops_def SortedVectorNaive_ops_def sv_apply_level
      sv_batch_updates sv_bulk)

subsection \<open>Properties\<close>

text \<open>The vector model a fresh \<open>Phase8SortedVectorBatchLww\<close> becomes after a sequence of calls.\<close>

definition vector_after :: "numeric_spec \<Rightarrow> book_cmd list \<Rightarrow> sorted_vector" where
  "vector_after spec cs = snd (exec_all SortedVectorBatchLww_ops cs (SortedVector_create spec))"

lemma vector_after_wf: "book_wf (sv_rep (vector_after spec cs))"
proof -
  have create: "SortedVector_create spec = bo_create SortedVectorBatchLww_ops spec"
    by (simp add: SortedVectorBatchLww_ops_def SortedVectorNaive_ops_def)
  obtain rs m where run: "exec_all SortedVectorBatchLww_ops cs (SortedVector_create spec) = (rs, m)"
    by fastforce
  then show ?thesis
    using svb.sim.exec_all_refines[OF svb.sim.create(1) run[unfolded create]]
    by (simp add: vector_after_def)
qed

lemma sv_rep_inject:
  assumes "sv_rep m = sv_rep m'"
  shows "m = m'"
proof -
  have "ls = ls'" if "entries_of ls = entries_of ls'" for ls ls'
    using arg_cong[OF that, of "map level_of"] unfolding map_map level_of_entries .
  with assms show ?thesis by (simp add: sv_rep_def)
qed

lemma pending_length:
  assumes "pending_loop [] [] us = (pb, pa)"
  shows "length pb = card (upd_price ` {u \<in> set us. upd_side u = Bid})"
    and "length pa = card (upd_price ` {u \<in> set us. upd_side u = Ask})"
proof -
  have inv: "map_inv (<) ([] :: pending)" by (simp add: map_inv_def)
  have at: "updates_at side p us \<noteq> [] \<longleftrightarrow> p \<in> upd_price ` {u \<in> set us. upd_side u = side}" for side p
    by (auto simp: updates_at_def filter_empty_conv)
  have dom: "p \<in> set (map fst pb) \<longleftrightarrow> updates_at Bid p us \<noteq> []"
    "p \<in> set (map fst pa) \<longleftrightarrow> updates_at Ask p us \<noteq> []" for p
    using pending_loop_props[OF assms inv inv, of p] map_of_eq_None_iff[of pb p] map_of_eq_None_iff[of pa p]
    by (auto split: if_splits)
  have "set (map fst pb) = upd_price ` {u \<in> set us. upd_side u = Bid}"
    "set (map fst pa) = upd_price ` {u \<in> set us. upd_side u = Ask}"
    using dom at by blast+
  then show "length pb = card (upd_price ` {u \<in> set us. upd_side u = Bid})"
    "length pa = card (upd_price ` {u \<in> set us. upd_side u = Ask})"
    using distinct_card[OF pending_maps(1)[OF assms]] distinct_card[OF pending_maps(2)[OF assms]]
    by simp_all
qed

text \<open>
  The last-write-wins batch is the sequential one.  On every vector the class can hold,
  collecting the batch in the two pending maps and applying those leaves the vectors that applying
  every update in turn leaves; and each price of a side is then written once, however often the
  batch names it.
\<close>

lemma batch_lww_is_sequential:
  "BatchLww_apply_updates (vector_after spec cs) us =
     SortedVectorNaive_apply_updates (vector_after spec cs) us \<and>
   (case pending_loop [] [] us of
      (pending_bids, pending_asks) \<Rightarrow>
        length pending_bids = card (upd_price ` {u \<in> set us. upd_side u = Bid}) \<and>
        length pending_asks = card (upd_price ` {u \<in> set us. upd_side u = Ask}))"
proof -
  have "sv_rep (BatchLww_apply_updates (vector_after spec cs) us) =
      sv_rep (SortedVectorNaive_apply_updates (vector_after spec cs) us)"
    by (simp add: sv_batch_updates sv_naive_updates vector_after_wf)
  then show ?thesis using sv_rep_inject pending_length by (auto split: prod.split)
qed

text \<open>
  The search of a side.  On every vector the class can hold, \<open>lower_bound_level\<close> ends with the
  insertion point of the price: every level before it is strictly better than the price, every
  level from it on is not; and the loop of \<open>std::lower_bound\<close> makes at most \<open>n\<close> comparisons on a side
  of fewer than \<open>2 ^ n\<close> levels.
\<close>

lemma lower_bound_level_insertion_point:
  fixes spec :: numeric_spec and cs :: "book_cmd list" and side :: book_side
  defines "levels \<equiv> SortedVector_all_levels (vector_after spec cs) side"
  shows "lower_bound_level levels side p \<le> length levels \<and>
    (\<forall>i < length levels. side_lt side (lvl_price (levels ! i)) p \<longleftrightarrow> i < lower_bound_level levels side p) \<and>
    (length levels < 2 ^ n \<longrightarrow>
      lower_bound_comparisons (\<lambda>l. side_lt side (lvl_price l) p) levels 0 (length levels) \<le> n)"
proof -
  note wf = vector_after_wf[of spec cs]
  have levels: "levels = (if side = Bid then sv_bids (vector_after spec cs) else sv_asks (vector_after spec cs))"
    using svb.sim_view[OF wf] all_levels_side[OF wf, of side]
    by (cases side) (simp_all add: levels_def view_def SortedVectorBatchLww_ops_def
        SortedVectorNaive_ops_def fun_eq_iff side_of_def)
  have inv: "map_inv (side_lt side) (entries_of levels)"
    using sv_rep_inv[OF wf] by (cases side) (simp_all add: levels)
  have "side_lt side (lvl_price (levels ! i)) p \<longleftrightarrow> i < split_at side p levels" if "i < length levels" for i
    using that by (rule split_at_iff[OF inv])
  then show ?thesis by (simp add: lower_bound_level_eq[OF inv] lower_bound_comparisons_bound)
qed

end
