(* ===== verification/Phase8_Btree.thy ===== *)
theory Phase8_Btree
  imports Order_Book "HOL-Library.RBT"
begin

text \<open>
  \<open>Phase8AbslBtreeMap\<close> of \<open>benchmarks/phase8/phase8_absl_btree_map.hpp\<close>: the candidate book over
  \<open>absl::btree_map\<close>.  Abseil is not part of the sources, so its map is a parameter: a table of the
  member functions the class calls, one for each side, since the comparator is part of the type.  What
  the class relies on is the documented behaviour of an ordered map, \<open>ordered_container_ok\<close>: the
  contract \<open>ordered_store\<close> for every value of the container type, and what its size and iterators mean.
  Under it the candidate simulates the production book.  Red-black trees of the library show that the
  contract can be kept.
\<close>

subsection \<open>The container\<close>

text \<open>
  \<open>oc_find\<close> is \<open>find\<close> with the iterator dereferenced, \<open>None\<close> being \<open>end()\<close>; \<open>oc_assign_found\<close> writes
  through the iterator that \<open>find\<close> returned; \<open>oc_entries\<close> is iteration from \<open>begin()\<close>.
\<close>

record ('k, 'v, 's) ordered_container =
  oc_empty :: 's
  oc_clear :: "'s \<Rightarrow> 's"
  oc_is_empty :: "'s \<Rightarrow> bool"
  oc_size :: "'s \<Rightarrow> nat"
  oc_entries :: "'s \<Rightarrow> ('k \<times> 'v) list"
  oc_find :: "'k \<Rightarrow> 's \<Rightarrow> 'v option"
  oc_insert_or_assign :: "'k \<Rightarrow> 'v \<Rightarrow> 's \<Rightarrow> 's"
  oc_erase :: "'k \<Rightarrow> 's \<Rightarrow> 's"
  oc_assign_found :: "'k \<Rightarrow> 'v \<Rightarrow> 's \<Rightarrow> 's"

definition ordered_container_ok :: "('k \<Rightarrow> 'k \<Rightarrow> bool) \<Rightarrow> ('k, 'v, 's) ordered_container \<Rightarrow> bool" where
  "ordered_container_ok lt C \<longleftrightarrow>
     ordered_store lt (\<lambda>_. True) (oc_empty C) (oc_find C) (oc_insert_or_assign C) (oc_erase C) (oc_entries C) \<and>
     (\<forall>s. oc_is_empty C s \<longleftrightarrow> oc_entries C s = []) \<and>
     (\<forall>s. oc_size C s = length (oc_entries C s)) \<and>
     (\<forall>s. oc_entries C (oc_clear C s) = []) \<and>
     (\<forall>s k v. oc_find C k s \<noteq> None \<longrightarrow>
        oc_entries C (oc_assign_found C k v s) = map (\<lambda>e. if fst e = k then (k, v) else e) (oc_entries C s))"

type_synonym 's level_container = "(price_units, quantity_units, 's) ordered_container"

subsection \<open>The candidate\<close>

record ('b, 'a) absl_btree_map =
  abm_spec :: numeric_spec
  abm_bids :: 'b
  abm_asks :: 'a

definition AbslBtreeMap_create ::
  "'b level_container \<Rightarrow> 'a level_container \<Rightarrow> numeric_spec \<Rightarrow> ('b, 'a) absl_btree_map" where
  "AbslBtreeMap_create B A spec = \<lparr>abm_spec = spec, abm_bids = oc_empty B, abm_asks = oc_empty A\<rparr>"

definition AbslBtreeMap_numeric_spec :: "('b, 'a) absl_btree_map \<Rightarrow> numeric_spec" where
  "AbslBtreeMap_numeric_spec m = abm_spec m"

definition AbslBtreeMap_empty ::
  "'b level_container \<Rightarrow> 'a level_container \<Rightarrow> ('b, 'a) absl_btree_map \<Rightarrow> bool" where
  "AbslBtreeMap_empty B A m \<longleftrightarrow> oc_is_empty B (abm_bids m) \<and> oc_is_empty A (abm_asks m)"

definition AbslBtreeMap_side_empty ::
  "'b level_container \<Rightarrow> 'a level_container \<Rightarrow> ('b, 'a) absl_btree_map \<Rightarrow> book_side \<Rightarrow> bool" where
  "AbslBtreeMap_side_empty B A m side \<longleftrightarrow>
     (if side = Bid then oc_is_empty B (abm_bids m) else oc_is_empty A (abm_asks m))"

definition AbslBtreeMap_level_count ::
  "'b level_container \<Rightarrow> 'a level_container \<Rightarrow> ('b, 'a) absl_btree_map \<Rightarrow> book_side \<Rightarrow> nat" where
  "AbslBtreeMap_level_count B A m side =
     (if side = Bid then oc_size B (abm_bids m) else oc_size A (abm_asks m))"

definition AbslBtreeMap_best_bid :: "'b level_container \<Rightarrow> ('b, 'a) absl_btree_map \<Rightarrow> book_level option" where
  "AbslBtreeMap_best_bid B m =
     (if oc_is_empty B (abm_bids m) then None else Some (level_of (hd (oc_entries B (abm_bids m)))))"

definition AbslBtreeMap_best_ask :: "'a level_container \<Rightarrow> ('b, 'a) absl_btree_map \<Rightarrow> book_level option" where
  "AbslBtreeMap_best_ask A m =
     (if oc_is_empty A (abm_asks m) then None else Some (level_of (hd (oc_entries A (abm_asks m)))))"

definition AbslBtreeMap_quantity_at ::
  "'b level_container \<Rightarrow> 'a level_container \<Rightarrow> ('b, 'a) absl_btree_map \<Rightarrow> book_side \<Rightarrow> price_units \<Rightarrow>
   quantity_units option" where
  "AbslBtreeMap_quantity_at B A m side price =
     (if side = Bid then (case oc_find B price (abm_bids m) of None \<Rightarrow> None | Some q \<Rightarrow> Some q)
      else (case oc_find A price (abm_asks m) of None \<Rightarrow> None | Some q \<Rightarrow> Some q))"

definition AbslBtreeMap_apply_remove ::
  "'b level_container \<Rightarrow> 'a level_container \<Rightarrow> ('b, 'a) absl_btree_map \<Rightarrow> book_side \<Rightarrow> price_units \<Rightarrow>
   level_change \<times> ('b, 'a) absl_btree_map" where
  "AbslBtreeMap_apply_remove B A m side price =
     (if side = Bid then
        (case oc_find B price (abm_bids m) of
           None \<Rightarrow> (Unchanged, m)
         | Some _ \<Rightarrow> (Removed, m\<lparr>abm_bids := oc_erase B price (abm_bids m)\<rparr>))
      else
        (case oc_find A price (abm_asks m) of
           None \<Rightarrow> (Unchanged, m)
         | Some _ \<Rightarrow> (Removed, m\<lparr>abm_asks := oc_erase A price (abm_asks m)\<rparr>)))"

definition AbslBtreeMap_apply_insert_or_update ::
  "'b level_container \<Rightarrow> 'a level_container \<Rightarrow> ('b, 'a) absl_btree_map \<Rightarrow> book_side \<Rightarrow> price_units \<Rightarrow>
   quantity_units \<Rightarrow> level_change \<times> ('b, 'a) absl_btree_map" where
  "AbslBtreeMap_apply_insert_or_update B A m side price quantity =
     (if side = Bid then
        (case oc_find B price (abm_bids m) of
           None \<Rightarrow> (Inserted, m\<lparr>abm_bids := oc_insert_or_assign B price quantity (abm_bids m)\<rparr>)
         | Some old \<Rightarrow>
             if old = quantity then (Unchanged, m)
             else (Updated, m\<lparr>abm_bids := oc_assign_found B price quantity (abm_bids m)\<rparr>))
      else
        (case oc_find A price (abm_asks m) of
           None \<Rightarrow> (Inserted, m\<lparr>abm_asks := oc_insert_or_assign A price quantity (abm_asks m)\<rparr>)
         | Some old \<Rightarrow>
             if old = quantity then (Unchanged, m)
             else (Updated, m\<lparr>abm_asks := oc_assign_found A price quantity (abm_asks m)\<rparr>)))"

definition AbslBtreeMap_apply_level ::
  "'b level_container \<Rightarrow> 'a level_container \<Rightarrow> ('b, 'a) absl_btree_map \<Rightarrow> book_side \<Rightarrow> price_units \<Rightarrow>
   quantity_units \<Rightarrow> level_change \<times> ('b, 'a) absl_btree_map" where
  "AbslBtreeMap_apply_level B A m side price quantity =
     (if quantity_value quantity = 0 then AbslBtreeMap_apply_remove B A m side price
      else AbslBtreeMap_apply_insert_or_update B A m side price quantity)"

primrec AbslBtreeMap_apply_updates ::
  "'b level_container \<Rightarrow> 'a level_container \<Rightarrow> ('b, 'a) absl_btree_map \<Rightarrow> level_update list \<Rightarrow>
   ('b, 'a) absl_btree_map" where
  "AbslBtreeMap_apply_updates B A m [] = m"
| "AbslBtreeMap_apply_updates B A m (u # us) =
     AbslBtreeMap_apply_updates B A
       (snd (AbslBtreeMap_apply_level B A m (upd_side u) (upd_price u) (upd_quantity u))) us"

text \<open>The loops of \<open>replace_all\<close> fill the sides of a temporary model.\<close>

primrec AbslBtreeMap_fill_bids ::
  "'b level_container \<Rightarrow> ('b, 'a) absl_btree_map \<Rightarrow> book_level list \<Rightarrow> ('b, 'a) absl_btree_map" where
  "AbslBtreeMap_fill_bids B temp [] = temp"
| "AbslBtreeMap_fill_bids B temp (level # levels) =
     AbslBtreeMap_fill_bids B
       (if quantity_value (lvl_quantity level) = 0
          then temp\<lparr>abm_bids := oc_erase B (lvl_price level) (abm_bids temp)\<rparr>
        else temp\<lparr>abm_bids :=
          oc_insert_or_assign B (lvl_price level) (lvl_quantity level) (abm_bids temp)\<rparr>) levels"

primrec AbslBtreeMap_fill_asks ::
  "'a level_container \<Rightarrow> ('b, 'a) absl_btree_map \<Rightarrow> book_level list \<Rightarrow> ('b, 'a) absl_btree_map" where
  "AbslBtreeMap_fill_asks A temp [] = temp"
| "AbslBtreeMap_fill_asks A temp (level # levels) =
     AbslBtreeMap_fill_asks A
       (if quantity_value (lvl_quantity level) = 0
          then temp\<lparr>abm_asks := oc_erase A (lvl_price level) (abm_asks temp)\<rparr>
        else temp\<lparr>abm_asks :=
          oc_insert_or_assign A (lvl_price level) (lvl_quantity level) (abm_asks temp)\<rparr>) levels"

definition AbslBtreeMap_replace_all ::
  "'b level_container \<Rightarrow> 'a level_container \<Rightarrow> ('b, 'a) absl_btree_map \<Rightarrow> book_level list \<Rightarrow> book_level list \<Rightarrow>
   ('b, 'a) absl_btree_map" where
  "AbslBtreeMap_replace_all B A m bids asks =
     (let temp = AbslBtreeMap_create B A (abm_spec m);
          temp = AbslBtreeMap_fill_bids B temp bids;
          temp = AbslBtreeMap_fill_asks A temp asks
      in temp)"

definition AbslBtreeMap_clear ::
  "'b level_container \<Rightarrow> 'a level_container \<Rightarrow> ('b, 'a) absl_btree_map \<Rightarrow> ('b, 'a) absl_btree_map" where
  "AbslBtreeMap_clear B A m = m\<lparr>abm_bids := oc_clear B (abm_bids m), abm_asks := oc_clear A (abm_asks m)\<rparr>"

definition AbslBtreeMap_clear_side ::
  "'b level_container \<Rightarrow> 'a level_container \<Rightarrow> ('b, 'a) absl_btree_map \<Rightarrow> book_side \<Rightarrow> ('b, 'a) absl_btree_map" where
  "AbslBtreeMap_clear_side B A m side =
     (if side = Bid then m\<lparr>abm_bids := oc_clear B (abm_bids m)\<rparr>
      else m\<lparr>abm_asks := oc_clear A (abm_asks m)\<rparr>)"

fun AbslBtreeMap_copy_loop :: "nat \<Rightarrow> (price_units \<times> quantity_units) list \<Rightarrow> book_level list \<Rightarrow> book_level list" where
  "AbslBtreeMap_copy_loop limit [] result = result"
| "AbslBtreeMap_copy_loop limit ((price, quantity) # rest) result =
     (if length result \<ge> limit then result
      else AbslBtreeMap_copy_loop limit rest (result @ [BookLevel price quantity]))"

definition AbslBtreeMap_copy_from_map :: "'s level_container \<Rightarrow> 's \<Rightarrow> nat \<Rightarrow> book_level list" where
  "AbslBtreeMap_copy_from_map C s limit = AbslBtreeMap_copy_loop limit (oc_entries C s) []"

definition AbslBtreeMap_copy_levels ::
  "'b level_container \<Rightarrow> 'a level_container \<Rightarrow> ('b, 'a) absl_btree_map \<Rightarrow> book_side \<Rightarrow> nat \<Rightarrow> book_level list" where
  "AbslBtreeMap_copy_levels B A m side limit =
     (if side = Bid then AbslBtreeMap_copy_from_map B (abm_bids m) limit
      else AbslBtreeMap_copy_from_map A (abm_asks m) limit)"

definition AbslBtreeMap_top_levels ::
  "'b level_container \<Rightarrow> 'a level_container \<Rightarrow> ('b, 'a) absl_btree_map \<Rightarrow> book_side \<Rightarrow> nat \<Rightarrow> book_level list" where
  "AbslBtreeMap_top_levels B A m side limit =
     (if limit = 0 then [] else AbslBtreeMap_copy_levels B A m side limit)"

definition AbslBtreeMap_all_levels ::
  "'b level_container \<Rightarrow> 'a level_container \<Rightarrow> ('b, 'a) absl_btree_map \<Rightarrow> book_side \<Rightarrow> book_level list" where
  "AbslBtreeMap_all_levels B A m side = AbslBtreeMap_copy_levels B A m side SIZE_MAX"

definition AbslBtreeMap_ops ::
  "'b level_container \<Rightarrow> 'a level_container \<Rightarrow> ('b, 'a) absl_btree_map book_ops" where
  "AbslBtreeMap_ops B A = \<lparr>bo_create = AbslBtreeMap_create B A, bo_numeric_spec = AbslBtreeMap_numeric_spec,
     bo_empty = AbslBtreeMap_empty B A, bo_side_empty = AbslBtreeMap_side_empty B A,
     bo_level_count = AbslBtreeMap_level_count B A, bo_best_bid = AbslBtreeMap_best_bid B,
     bo_best_ask = AbslBtreeMap_best_ask A, bo_quantity_at = AbslBtreeMap_quantity_at B A,
     bo_top_levels = AbslBtreeMap_top_levels B A, bo_all_levels = AbslBtreeMap_all_levels B A,
     bo_apply_level = AbslBtreeMap_apply_level B A, bo_apply_updates = AbslBtreeMap_apply_updates B A,
     bo_replace_all = AbslBtreeMap_replace_all B A, bo_clear = AbslBtreeMap_clear B A,
     bo_clear_side = AbslBtreeMap_clear_side B A\<rparr>"

subsection \<open>The container behaves as the map of the production book\<close>

lemma map_of_assign:
  assumes "map_of es k \<noteq> None"
  shows "map_of (map (\<lambda>e. if fst e = k then (k, v) else e) es) = (map_of es)(k \<mapsto> v)"
proof -
  have "map_of (map (\<lambda>e. if fst e = k then (k, v) else e) es) j =
      (if j = k then map_option (\<lambda>_. v) (map_of es k) else map_of es j)" for j
    by (induction es) auto
  with assms show ?thesis by (auto simp: fun_eq_iff)
qed

lemma fst_assign: "map fst (map (\<lambda>e. if fst e = k then (k, v) else e) es) = map fst es"
  by (induction es) auto

context key_order
begin

lemma container_entries:
  assumes "ordered_container_ok lt C"
  shows "oc_entries C (oc_empty C) = []" "oc_entries C (oc_clear C s) = []"
    "oc_is_empty C s \<longleftrightarrow> oc_entries C s = []" "oc_size C s = length (oc_entries C s)"
    "map_inv lt (oc_entries C s)" "oc_find C k s = map_find lt k (oc_entries C s)"
    "oc_entries C (oc_insert_or_assign C k v s) = map_insert_or_assign lt k v (oc_entries C s)"
    "oc_entries C (oc_erase C k s) = map_erase lt k (oc_entries C s)"
    "oc_find C k s \<noteq> None \<Longrightarrow>
       oc_entries C (oc_assign_found C k v s) = map_insert_or_assign lt k v (oc_entries C s)"
proof -
  have store: "ordered_store lt (\<lambda>_. True) (oc_empty C) (oc_find C) (oc_insert_or_assign C) (oc_erase C) (oc_entries C)"
    using assms by (simp add: ordered_container_ok_def)
  note laws = ordered_store.entries_sorted[OF store] ordered_store.find_entries[OF store]
    ordered_store.contents_eq[OF store] ordered_store.contents_insert[OF store] ordered_store.contents_erase[OF store]
  show inv: "map_inv lt (oc_entries C s)" for s using laws(1)[of s] by (simp add: map_inv_def)
  show "oc_entries C (oc_empty C) = []" by (rule ordered_store.entries_empty[OF store])
  show "oc_entries C (oc_clear C s) = []" "oc_is_empty C s \<longleftrightarrow> oc_entries C s = []"
    "oc_size C s = length (oc_entries C s)" using assms by (simp_all add: ordered_container_ok_def)
  show "oc_find C k s = map_find lt k (oc_entries C s)" using inv laws(2) by (simp add: map_find_map_of)
  show insert: "oc_entries C (oc_insert_or_assign C k v s) = map_insert_or_assign lt k v (oc_entries C s)"
    using map_inv_insert[OF inv] laws(3-)
    by (intro ordered_store.entries_determined[OF store]) (simp_all add: map_of_map_insert inv map_inv_def[symmetric])
  show "oc_entries C (oc_erase C k s) = map_erase lt k (oc_entries C s)"
    using map_inv_erase[OF inv] laws(3-)
    by (intro ordered_store.entries_determined[OF store]) (simp_all add: map_of_map_erase inv map_inv_def[symmetric])
  assume found: "oc_find C k s \<noteq> None"
  then have "oc_entries C (oc_assign_found C k v s) = map (\<lambda>e. if fst e = k then (k, v) else e) (oc_entries C s)"
    using assms by (simp add: ordered_container_ok_def)
  moreover have "oc_entries C (oc_insert_or_assign C k v s) = map (\<lambda>e. if fst e = k then (k, v) else e) (oc_entries C s)"
    using found laws map_of_assign[of "oc_entries C s" k v]
    by (intro ordered_store.entries_determined[OF store]) (simp_all add: fst_assign del: map_map)
  ultimately show "oc_entries C (oc_assign_found C k v s) = map_insert_or_assign lt k v (oc_entries C s)"
    using insert by simp
qed

end

subsection \<open>The candidate simulates the production book\<close>

definition abm_rep :: "'b level_container \<Rightarrow> 'a level_container \<Rightarrow> ('b, 'a) absl_btree_map \<Rightarrow> order_book" where
  "abm_rep B A m = \<lparr>ob_spec = abm_spec m, ob_bids = oc_entries B (abm_bids m), ob_asks = oc_entries A (abm_asks m)\<rparr>"

lemma abm_rep_sel [simp]:
  "ob_spec (abm_rep B A m) = abm_spec m" "ob_bids (abm_rep B A m) = oc_entries B (abm_bids m)"
  "ob_asks (abm_rep B A m) = oc_entries A (abm_asks m)"
  by (simp_all add: abm_rep_def)

lemma abm_copy: "AbslBtreeMap_copy_from_map C s limit = copy_from_map (oc_entries C s) limit"
proof -
  have "AbslBtreeMap_copy_loop limit es result = copy_from_map_loop limit es result" for es result
    by (induction limit es result rule: copy_from_map_loop.induct) simp_all
  then show ?thesis by (simp add: AbslBtreeMap_copy_from_map_def copy_from_map_def del: copy_from_map_eq)
qed

lemma abm_simulates:
  fixes B :: "'b level_container" and A :: "'a level_container"
  assumes "ordered_container_ok (>) B" "ordered_container_ok (<) A"
  shows "book_simulation OrderBook_ops book_wf book_abs (AbslBtreeMap_ops B A) (abm_rep B A)"
proof -
  note entries = descending.container_entries[OF assms(1)] ascending.container_entries[OF assms(2)]
  have level: "OrderBook_apply_level (abm_rep B A m) side p q =
      map_prod id (abm_rep B A) (AbslBtreeMap_apply_level B A m side p q)" for m side p q
    by (auto simp: AbslBtreeMap_apply_level_def AbslBtreeMap_apply_remove_def AbslBtreeMap_apply_insert_or_update_def
        OrderBook_apply_level_def OrderBook_apply_remove_def OrderBook_apply_insert_or_update_def abm_rep_def entries
        split: option.split)
  have updates: "abm_rep B A (AbslBtreeMap_apply_updates B A m us) = OrderBook_apply_updates (abm_rep B A m) us" for m us
    by (induction us arbitrary: m) (simp_all add: level)
  have bids: "abm_rep B A (AbslBtreeMap_fill_bids B m ls) =
      (abm_rep B A m)\<lparr>ob_bids := replace_loop (>) (oc_entries B (abm_bids m)) ls\<rparr>" for m ls
    by (induction ls arbitrary: m) (simp_all add: abm_rep_def entries)
  have asks: "abm_rep B A (AbslBtreeMap_fill_asks A m ls) =
      (abm_rep B A m)\<lparr>ob_asks := replace_loop (<) (oc_entries A (abm_asks m)) ls\<rparr>" for m ls
    by (induction ls arbitrary: m) (simp_all add: abm_rep_def entries)
  have frame: "abm_asks (AbslBtreeMap_fill_bids B m ls) = abm_asks m" for m :: "('b, 'a) absl_btree_map" and ls
    by (induction ls arbitrary: m) simp_all
  have bulk: "abm_rep B A (AbslBtreeMap_create B A spec) = OrderBook_create spec"
    "abm_rep B A (AbslBtreeMap_replace_all B A m bs as) = OrderBook_replace_all (abm_rep B A m) bs as"
    "abm_rep B A (AbslBtreeMap_clear B A m) = OrderBook_clear (abm_rep B A m)"
    "abm_rep B A (AbslBtreeMap_clear_side B A m side) = OrderBook_clear_side (abm_rep B A m) side" for spec m bs as side
  proof -
    show create: "abm_rep B A (AbslBtreeMap_create B A spec) = OrderBook_create spec" for spec
      by (simp add: abm_rep_def AbslBtreeMap_create_def OrderBook_create_def entries)
    show "abm_rep B A (AbslBtreeMap_replace_all B A m bs as) = OrderBook_replace_all (abm_rep B A m) bs as"
      using create[of "abm_spec m"]
      by (simp add: AbslBtreeMap_replace_all_def OrderBook_replace_all_def Let_def bids asks frame)
        (simp add: AbslBtreeMap_create_def OrderBook_create_def entries)
  qed (simp_all add: abm_rep_def AbslBtreeMap_clear_def OrderBook_clear_def AbslBtreeMap_clear_side_def
      OrderBook_clear_side_def entries)
  show ?thesis
  proof
    fix m :: "('b, 'a) absl_btree_map"
    show "view (AbslBtreeMap_ops B A) m = view OrderBook_ops (abm_rep B A m)"
      by (simp add: view_def AbslBtreeMap_ops_def fun_eq_iff AbslBtreeMap_numeric_spec_def
          AbslBtreeMap_empty_def OrderBook_empty_def AbslBtreeMap_side_empty_def OrderBook_side_empty_def
          AbslBtreeMap_level_count_def OrderBook_level_count_def AbslBtreeMap_best_bid_def
          OrderBook_best_bid_def AbslBtreeMap_best_ask_def OrderBook_best_ask_def
          AbslBtreeMap_quantity_at_def OrderBook_quantity_at_def AbslBtreeMap_top_levels_def
          OrderBook_top_levels_def AbslBtreeMap_all_levels_def OrderBook_all_levels_def
          AbslBtreeMap_copy_levels_def OrderBook_copy_levels_def abm_copy entries split: option.split)
  qed (simp_all add: AbslBtreeMap_ops_def level updates bulk)
qed

subsection \<open>A container that keeps the contract\<close>

text \<open>Red-black trees, read from the least key for the asks and from the greatest for the bids.\<close>

definition rbt_container ::
  "(('k \<times> 'v) list \<Rightarrow> ('k \<times> 'v) list) \<Rightarrow> ('k::linorder, 'v, ('k, 'v) RBT.rbt) ordered_container" where
  "rbt_container direction =
     \<lparr>oc_empty = RBT.empty, oc_clear = (\<lambda>_. RBT.empty), oc_is_empty = RBT.is_empty,
      oc_size = (\<lambda>t. length (RBT.entries t)), oc_entries = (\<lambda>t. direction (RBT.entries t)),
      oc_find = (\<lambda>k t. RBT.lookup t k), oc_insert_or_assign = RBT.insert, oc_erase = RBT.delete,
      oc_assign_found = RBT.insert\<rparr>"

lemma rbt_assign:
  fixes t :: "('k::linorder, 'v) RBT.rbt"
  assumes "RBT.lookup t k \<noteq> None"
  shows "RBT.entries (RBT.insert k v t) = map (\<lambda>e. if fst e = k then (k, v) else e) (RBT.entries t)"
proof (rule assoc_list_determined)
  have set: "fst ` set (RBT.entries u) = dom (RBT.lookup u)" for u :: "('k, 'v) RBT.rbt"
    by (metis RBT.map_of_entries dom_map_of_conv_image_fst)
  have "map fst (RBT.entries (RBT.insert k v t)) = map fst (RBT.entries t)"
    using assms by (intro sorted_distinct_set_unique) (auto simp: RBT.sorted_entries RBT.distinct_entries set)
  then show "map fst (RBT.entries (RBT.insert k v t)) = map fst (map (\<lambda>e. if fst e = k then (k, v) else e) (RBT.entries t))"
    by (simp only: fst_assign)
  show "distinct (map fst (RBT.entries (RBT.insert k v t)))" by (rule RBT.distinct_entries)
  show "map_of (RBT.entries (RBT.insert k v t)) = map_of (map (\<lambda>e. if fst e = k then (k, v) else e) (RBT.entries t))"
    using assms map_of_assign[of "RBT.entries t" k v] by simp
qed

lemma rbt_container_ok:
  "ordered_container_ok (<) (rbt_container (\<lambda>es. es) :: ('k::linorder, 'v, _) ordered_container)"
  "ordered_container_ok (>) (rbt_container rev :: ('k, 'v, _) ordered_container)"
proof -
  have sorted: "sorted_wrt (<) (map fst (RBT.entries t))" for t :: "('k, 'v) RBT.rbt"
    using RBT.sorted_entries[of t] RBT.distinct_entries[of t] by (simp add: strict_sorted_iff)
  then have sorted_rev: "sorted_wrt (>) (map fst (rev (RBT.entries t)))" for t :: "('k, 'v) RBT.rbt"
    by (simp add: rev_map[symmetric] sorted_wrt_rev)
  have map_rev: "map_of (rev (RBT.entries t)) = RBT.lookup t" for t :: "('k, 'v) RBT.rbt"
    by (metis RBT.distinct_entries RBT.map_of_entries distinct_rev map_of_inject_set rev_map set_rev)
  have empty: "RBT.entries t = [] \<longleftrightarrow> t = RBT.empty" for t :: "('k, 'v) RBT.rbt"
    by (metis RBT.entries_lookup RBT.lookup_empty RBT.map_of_entries map_of_eq_empty_iff RBT.is_empty_empty
        RBT.lookup_empty_empty)
  have none: "RBT.entries (RBT.empty :: ('k, 'v) RBT.rbt) = []" by (simp add: empty)
  show "ordered_container_ok (<) (rbt_container (\<lambda>es. es) :: ('k, 'v, _) ordered_container)"
    unfolding ordered_container_ok_def rbt_container_def
    by (auto simp: sorted none empty rbt_assign intro!: ordered_store.intro ordered_store_axioms.intro
        ascending.key_order_axioms)
  show "ordered_container_ok (>) (rbt_container rev :: ('k, 'v, _) ordered_container)"
    unfolding ordered_container_ok_def rbt_container_def
    by (auto simp: sorted_rev map_rev none empty rbt_assign rev_map intro!: ordered_store.intro ordered_store_axioms.intro
        descending.key_order_axioms)
qed

subsection \<open>Runs\<close>

context book_simulation
begin

lemma simulated_run_refines:
  "(let (rs, m) = exec_all ops' cs (bo_create ops' spec) in (rs, view ops' m)) =
   (let (rs, B) = spec_exec_all cs (\<lambda>_. Map.empty) in (rs, spec_view spec B))"
  by (rule sim.run_refines)

end

lemmas abm_run_refines = book_simulation.simulated_run_refines[OF abm_simulates]

end
