(* ===== verification/Reference_Decimal.thy ===== *)
theory Reference_Decimal
  imports Decimal_Format
begin

text \<open>
  The independent decimal reference of the differential tests,
  \<open>tests/m5/reference/reference_decimal.cpp\<close>: it splits the text at the point, checks the two digit
  strings, and only then computes, where the production parser does everything in one pass.  The
  two are shown to agree on every text: on acceptance, value, error code and error offset.
\<close>

subsection \<open>Results\<close>

datatype reference_decimal_error_code =
  RefEmpty | RefInvalidSyntax | RefSignNotAllowed | RefLeadingZero | RefMissingFractionDigits |
  RefZeroNotAllowed | RefInexactScale | RefOverflow

record reference_decimal_error =
  rde_code :: reference_decimal_error_code
  rde_offset :: nat

abbreviation ReferenceDecimalError :: "reference_decimal_error_code \<Rightarrow> nat \<Rightarrow> reference_decimal_error" where
  "ReferenceDecimalError c n \<equiv> \<lparr>rde_code = c, rde_offset = n\<rparr>"

record reference_decimal_value =
  rdv_units :: int
  rdv_source_fraction_digits :: nat

type_synonym reference_decimal_result = "reference_decimal_error + reference_decimal_value"

definition kReferenceNoErrorOffset :: nat where
  "kReferenceNoErrorOffset = SIZE_MAX"

subsection \<open>Decomposition\<close>

record decimal_lexeme =
  lx_integer_digits :: string
  lx_fractional_digits :: string
  lx_fractional_offset :: nat

text \<open>\<open>std::string_view::find\<close>; \<open>npos\<close> is \<open>None\<close>.\<close>

fun string_find :: "char \<Rightarrow> string \<Rightarrow> nat option" where
  "string_find c [] = None"
| "string_find c (x # xs) = (if x = c then Some 0 else map_option Suc (string_find c xs))"

function integer_loop :: "string \<Rightarrow> nat \<Rightarrow> nat \<Rightarrow> reference_decimal_error option" where
  "integer_loop text integer_end offset =
     (if offset < integer_end then
        if \<not> is_ascii_digit (text ! offset) then Some (ReferenceDecimalError RefInvalidSyntax offset)
        else if offset > 0 \<and> hd text = CHR ''0'' then Some (ReferenceDecimalError RefLeadingZero offset)
        else integer_loop text integer_end (offset + 1)
      else None)"
  by pat_completeness auto
termination by (relation "measure (\<lambda>(_, integer_end, offset). integer_end - offset)") auto

fun fraction_loop :: "nat \<Rightarrow> nat \<Rightarrow> string \<Rightarrow> reference_decimal_error option" where
  "fraction_loop fractional_offset index [] = None"
| "fraction_loop fractional_offset index (c # cs) =
     (if \<not> is_ascii_digit c
        then Some (ReferenceDecimalError RefInvalidSyntax (fractional_offset + index))
      else fraction_loop fractional_offset (index + 1) cs)"

declare integer_loop.simps [simp del]

definition decompose :: "string \<Rightarrow> reference_decimal_error + decimal_lexeme" where
  "decompose text =
     (if text = [] then Inl (ReferenceDecimalError RefEmpty kReferenceNoErrorOffset)
      else if hd text = CHR ''+'' \<or> hd text = CHR ''-'' then Inl (ReferenceDecimalError RefSignNotAllowed 0)
      else
        let decimal_point = string_find CHR ''.'' text;
            integer_end = (case decimal_point of None \<Rightarrow> length text | Some p \<Rightarrow> p)
        in
        if integer_end = 0 then Inl (ReferenceDecimalError RefInvalidSyntax 0)
        else case integer_loop text integer_end 0 of
          Some e \<Rightarrow> Inl e
        | None \<Rightarrow>
            (case decimal_point of
               None \<Rightarrow> Inr \<lparr>lx_integer_digits = text, lx_fractional_digits = [],
                 lx_fractional_offset = kReferenceNoErrorOffset\<rparr>
             | Some p \<Rightarrow>
                 if p + 1 = length text then Inl (ReferenceDecimalError RefMissingFractionDigits p)
                 else
                   let fractional_offset = p + 1;
                       fractional_digits = drop fractional_offset text
                   in case fraction_loop fractional_offset 0 fractional_digits of
                     Some e \<Rightarrow> Inl e
                   | None \<Rightarrow> Inr \<lparr>lx_integer_digits = take integer_end text,
                       lx_fractional_digits = fractional_digits,
                       lx_fractional_offset = fractional_offset\<rparr>))"

subsection \<open>The magnitude\<close>

text \<open>
  The accumulator is a \<open>std::uint64_t\<close> that the guard keeps within the signed range, so it is a
  natural number here; a returned offset is that of the digit that would leave the range.
\<close>

fun accumulate_loop :: "nat \<Rightarrow> nat \<Rightarrow> nat \<Rightarrow> string \<Rightarrow> nat + nat" where
  "accumulate_loop source_offset index magnitude [] = Inr magnitude"
| "accumulate_loop source_offset index magnitude (c # cs) =
     (let digit = digit_value c; maximum = nat INT64_MAX in
      if magnitude > maximum div 10 \<or> magnitude = maximum div 10 \<and> digit > maximum mod 10
        then Inl (source_offset + index)
      else accumulate_loop source_offset (index + 1) (magnitude * 10 + digit) cs)"

record checked_magnitude =
  cm_value :: nat
  cm_overflow_offset :: "nat option"

definition accumulate_segment :: "string \<Rightarrow> nat \<Rightarrow> nat \<Rightarrow> checked_magnitude" where
  "accumulate_segment digits source_offset initial =
     (case accumulate_loop source_offset 0 initial digits of
        Inl offset \<Rightarrow> \<lparr>cm_value = initial, cm_overflow_offset = Some offset\<rparr>
      | Inr magnitude \<Rightarrow> \<lparr>cm_value = magnitude, cm_overflow_offset = None\<rparr>)"

definition source_magnitude :: "decimal_lexeme \<Rightarrow> nat \<Rightarrow> checked_magnitude" where
  "source_magnitude lexeme retained_fraction_digits =
     (let integer = accumulate_segment (lx_integer_digits lexeme) 0 0 in
      if cm_overflow_offset integer \<noteq> None then integer
      else
        let retained = take retained_fraction_digits (lx_fractional_digits lexeme)
        in accumulate_segment retained (lx_fractional_offset lexeme) (cm_value integer))"

fun discarded_loop :: "nat \<Rightarrow> nat \<Rightarrow> string \<Rightarrow> nat option" where
  "discarded_loop base index [] = None"
| "discarded_loop base index (c # cs) =
     (if c \<noteq> CHR ''0'' then Some (base + index) else discarded_loop base (index + 1) cs)"

definition first_nonzero_discarded :: "decimal_lexeme \<Rightarrow> nat \<Rightarrow> nat option" where
  "first_nonzero_discarded lexeme retained_fraction_digits =
     discarded_loop (lx_fractional_offset lexeme + retained_fraction_digits) 0
       (drop retained_fraction_digits (lx_fractional_digits lexeme))"

function upscale_loop :: "nat \<Rightarrow> nat \<Rightarrow> nat \<Rightarrow> nat option" where
  "upscale_loop scale target magnitude =
     (if scale < target then
        if magnitude > nat INT64_MAX div 10 then None
        else upscale_loop (scale + 1) target (magnitude * 10)
      else Some magnitude)"
  by pat_completeness auto
termination by (relation "measure (\<lambda>(scale, target, _). target - scale)") auto

declare upscale_loop.simps [simp del]

definition rescale :: "decimal_lexeme \<Rightarrow> nat \<Rightarrow> bool \<Rightarrow> reference_decimal_result" where
  "rescale lexeme target allow_zero =
     (let source_scale = length (lx_fractional_digits lexeme);
          retained_fraction_digits = min source_scale target
      in case first_nonzero_discarded lexeme retained_fraction_digits of
        Some inexact \<Rightarrow> Inl (ReferenceDecimalError RefInexactScale inexact)
      | None \<Rightarrow>
          let magnitude = source_magnitude lexeme retained_fraction_digits
          in case cm_overflow_offset magnitude of
            Some offset \<Rightarrow> Inl (ReferenceDecimalError RefOverflow offset)
          | None \<Rightarrow>
              (case upscale_loop source_scale target (cm_value magnitude) of
                 None \<Rightarrow> Inl (ReferenceDecimalError RefOverflow kReferenceNoErrorOffset)
               | Some v \<Rightarrow>
                   if \<not> allow_zero \<and> v = 0
                     then Inl (ReferenceDecimalError RefZeroNotAllowed kReferenceNoErrorOffset)
                   else Inr \<lparr>rdv_units = int v, rdv_source_fraction_digits = source_scale\<rparr>))"

definition parse_reference_decimal :: "string \<Rightarrow> nat \<Rightarrow> bool \<Rightarrow> reference_decimal_result" where
  "parse_reference_decimal text target_scale allow_zero =
     (case decompose text of
        Inr lexeme \<Rightarrow> rescale lexeme target_scale allow_zero
      | Inl e \<Rightarrow> Inl e)"

text \<open>\<open>std::string::insert\<close> of repeated characters at a position.\<close>

definition reference_fixed :: "int \<Rightarrow> nat \<Rightarrow> string" where
  "reference_fixed units scale =
     (let digits = to_chars units in
      if scale = 0 then digits
      else
        let digits = (if length digits \<le> scale
                        then replicate (scale + 1 - length digits) CHR ''0'' @ digits else digits);
            point = length digits - scale
        in take point digits @ ''.'' @ drop point digits)"

subsection \<open>Syntax errors agree\<close>

fun production_code :: "reference_decimal_error_code \<Rightarrow> decimal_error_code" where
  "production_code RefEmpty = Empty"
| "production_code RefInvalidSyntax = InvalidSyntax"
| "production_code RefSignNotAllowed = SignNotAllowed"
| "production_code RefLeadingZero = LeadingZero"
| "production_code RefMissingFractionDigits = MissingFractionDigits"
| "production_code RefZeroNotAllowed = ZeroNotAllowed"
| "production_code RefInexactScale = InexactScale"
| "production_code RefOverflow = Overflow"

definition production_error :: "reference_decimal_error \<Rightarrow> decimal_error" where
  "production_error e = DecimalError (production_code (rde_code e)) (rde_offset e)"

lemma production_error_simps [simp]:
  "production_error (ReferenceDecimalError c n) = DecimalError (production_code c) n"
  by (simp add: production_error_def)

lemma string_find_None: "string_find c xs = None \<longleftrightarrow> c \<notin> set xs"
  by (induction xs) auto

lemma string_find_Some:
  "string_find c xs = Some k \<Longrightarrow> k < length xs \<and> xs ! k = c \<and> c \<notin> set (take k xs)"
  by (induction xs arbitrary: k) (auto split: if_splits)

lemma string_find_append: "c \<notin> set xs \<Longrightarrow> string_find c (xs @ c # ys) = Some (length xs)"
  by (induction xs) auto

text \<open>The scan of the integer digits.\<close>

lemma integer_phase:
  assumes "integer_end \<le> length text" and "CHR ''.'' \<notin> set (take integer_end text)"
    and "n \<le> integer_end" and "\<not> in_fraction st"
  shows "case integer_loop text integer_end n of
      Some e \<Rightarrow> parse_chars text st n = Inl (production_error e)
    | None \<Rightarrow> \<exists>st'. parse_chars text st n = parse_chars text st' integer_end \<and> \<not> in_fraction st' \<and>
        source_fraction_digits st' = source_fraction_digits st"
  using assms
proof (induction "text" integer_end n arbitrary: st rule: integer_loop.induct)
  case (1 "text" integer_end n)
  show ?case
  proof (cases "n < integer_end")
    case False
    with "1.prems" show ?thesis by (subst integer_loop.simps) auto
  next
    case True
    then have at: "n < length text" using "1.prems"(1) by linarith
    have "text ! n = take integer_end text ! n" using True by simp
    then have not_point: "text ! n \<noteq> CHR ''.''"
      using "1.prems"(1,2) True nth_mem[of n "take integer_end text"] by auto
    let ?ch = "\<lparr>sc_value = text ! n, sc_offset = n\<rparr>"
    show ?thesis
    proof (cases "\<not> is_ascii_digit (text ! n) \<or> n > 0 \<and> hd text = CHR ''0''")
      case err: True
      then show ?thesis
        using True at not_point "1.prems"(4)
        by (subst integer_loop.simps, subst parse_chars.simps) (auto simp: consume_character_def Let_def)
    next
      case ok: False
      let ?st1 = "append_digit st ?ch"
      have step: "consume_character text st n = (None, ?st1)"
        using ok not_point "1.prems"(4) by (auto simp: consume_character_def should_consume_digit_def Let_def)
      have st1: "\<not> in_fraction ?st1" "source_fraction_digits ?st1 = source_fraction_digits st"
        using "1.prems"(4) by (simp_all add: append_digit_def Let_def)
      have "integer_loop text integer_end n = integer_loop text integer_end (n + 1)"
        using True ok by (subst integer_loop.simps) auto
      moreover have "parse_chars text st n = parse_chars text ?st1 (n + 1)"
        using at step by (subst parse_chars.simps) simp
      ultimately show ?thesis
        using "1.IH"[OF True _ _ "1.prems"(1,2) _ st1(1)] True ok st1(2)
        by (auto split: option.splits)
    qed
  qed
qed

text \<open>The scan of the fraction digits.\<close>

lemma fraction_phase:
  assumes "drop n text = cs" and "n = fractional_offset + index" and "in_fraction st"
    and "n \<le> length text" and "fraction_loop fractional_offset index cs = Some e"
  shows "parse_chars text st n = Inl (production_error e)"
  using assms
proof (induction cs arbitrary: n index st)
  case (Cons c cs)
  have at: "n < length text" "text ! n = c"
    using Cons.prems(1) nth_via_drop[of n "text" c cs] by (auto intro: ccontr)
  show ?case
  proof (cases "is_ascii_digit c")
    case False
    then have "consume_character text st n = (Some (DecimalError InvalidSyntax n), st)"
      using at Cons.prems(3) by (simp add: consume_character_def consume_decimal_point_def Let_def)
    with False Cons.prems(2,5) at show ?thesis by (subst parse_chars.simps) auto
  next
    case True
    let ?ch = "\<lparr>sc_value = c, sc_offset = n\<rparr>"
    obtain consume st0 where digit: "should_consume_digit st ?ch = (consume, st0)" by fastforce
    define st1 where "st1 = (if consume then append_digit st0 ?ch else st0)"
    have "in_fraction st0"
      using digit Cons.prems(3) by (auto simp: should_consume_digit_def Let_def split: if_splits)
    then have frac: "in_fraction st1" by (simp add: st1_def append_digit_def Let_def)
    have "c \<noteq> CHR ''.''" using True by auto
    then have step: "consume_character text st n = (None, st1)"
      using True at Cons.prems(3) digit by (simp add: consume_character_def st1_def Let_def)
    have "drop (n + 1) text = cs" using Cons.prems(1) by (metis Suc_eq_plus1 drop_Suc list.sel(3) tl_drop)
    then have "parse_chars text st1 (n + 1) = Inl (production_error e)"
      using Cons.IH[of "n + 1" "index + 1" st1] Cons.prems(2,5) True frac at(1) by simp
    with at(1) step show ?thesis by (subst parse_chars.simps) simp
  qed
qed simp

text \<open>After good integer digits the point is read and the fraction begins.\<close>

lemma point_phase:
  assumes find: "string_find CHR ''.'' text = Some p" and "p \<noteq> 0" and "integer_loop text p 0 = None"
    and "\<not> in_fraction st" "source_fraction_digits st = 0"
  obtains st' where "parse_chars text st 0 = parse_chars text st' (p + 1)" "in_fraction st'"
    "decimal_point_offset st' = p" "source_fraction_digits st' = 0"
proof -
  note p = string_find_Some[OF find]
  obtain st1 where st1: "parse_chars text st 0 = parse_chars text st1 p" "\<not> in_fraction st1"
    "source_fraction_digits st1 = 0"
    using integer_phase[of p "text" 0 st] assms p by auto
  let ?st2 = "st1\<lparr>in_fraction := True, decimal_point_offset := p\<rparr>"
  have "consume_character text st1 p = (None, ?st2)"
    using p assms(2) st1(2) by (simp add: consume_character_def consume_decimal_point_def Let_def)
  then have "parse_chars text st 0 = parse_chars text ?st2 (p + 1)"
    using st1(1) p by (subst (asm) parse_chars.simps[of _ _ p]) simp
  with st1(3) show ?thesis by (intro that[of ?st2]) simp_all
qed

text \<open>From a text with a point, past the integer digits.\<close>

lemma decompose_fraction_error:
  assumes "decompose text = Inl e" and sign: "\<not> (text = [] \<or> hd text = CHR ''+'' \<or> hd text = CHR ''-'')"
    and find: "string_find CHR ''.'' text = Some p" "p \<noteq> 0" "integer_loop text p 0 = None"
  shows "parse_magnitude text scale = Inl (production_error e)"
proof -
  let ?st = "initial_parse_state\<lparr>target_fraction_digits := scale_digits scale\<rparr>"
  have "\<not> in_fraction ?st" "source_fraction_digits ?st = 0" by (simp_all add: initial_parse_state_def)
  from point_phase[OF find this] obtain st2 where run: "parse_chars text ?st 0 = parse_chars text st2 (p + 1)"
    and st2: "in_fraction st2" "decimal_point_offset st2 = p" "source_fraction_digits st2 = 0" .
  show ?thesis
  proof (cases "p + 1 = length text")
    case True
    then have "parse_chars text ?st 0 = Inr st2" using run by simp
    with True assms st2 show ?thesis by (auto simp: decompose_def parse_magnitude_def)
  next
    case False
    with assms have "fraction_loop (p + 1) 0 (drop (p + 1) text) = Some e"
      by (auto simp: decompose_def Let_def split: option.splits)
    with fraction_phase[OF refl _ st2(1) _ this] string_find_Some[OF find(1)] run sign
    show ?thesis by (simp add: parse_magnitude_def)
  qed
qed

lemma decompose_error:
  assumes "decompose text = Inl e"
  shows "parse_magnitude text scale = Inl (production_error e)"
proof (cases "text = [] \<or> hd text = CHR ''+'' \<or> hd text = CHR ''-''")
  case True
  with assms show ?thesis
    by (auto simp: decompose_def parse_magnitude_def kReferenceNoErrorOffset_def)
next
  case False
  let ?st = "initial_parse_state\<lparr>target_fraction_digits := scale_digits scale\<rparr>"
  have st: "\<not> in_fraction ?st" by (simp add: initial_parse_state_def)
  have early: "parse_magnitude text scale = Inl e'" if "parse_chars text ?st 0 = Inl e'" for e'
    using False that by (simp add: parse_magnitude_def)
  show ?thesis
  proof (cases "string_find CHR ''.'' text")
    case None
    then have "CHR ''.'' \<notin> set (take (length text) text)" by (simp add: string_find_None)
    from integer_phase[OF order_refl this le0 st] assms False None show ?thesis
      by (auto simp: decompose_def intro: early split: option.splits)
  next
    case (Some p)
    note p = string_find_Some[OF Some]
    consider "p = 0" | e' where "p \<noteq> 0" "integer_loop text p 0 = Some e'"
      | "p \<noteq> 0" "integer_loop text p 0 = None" by (cases "integer_loop text p 0") auto
    then show ?thesis
    proof cases
      case 1
      with assms False Some p have "e = ReferenceDecimalError RefInvalidSyntax 0"
        and "parse_chars text ?st 0 = Inl (DecimalError InvalidSyntax 0)"
        by (auto simp: decompose_def parse_chars.simps[of "text" _ 0] consume_character_def
            consume_decimal_point_def)
      then show ?thesis by (simp add: early)
    next
      case (2 e')
      with assms False Some have "e = e'" by (simp add: decompose_def)
      with 2 integer_phase[of p "text" 0 ?st] p st show ?thesis by (simp add: early)
    next
      case 3
      then show ?thesis by (rule decompose_fraction_error[OF assms False Some])
    qed
  qed
qed

subsection \<open>Values agree\<close>

lemma integer_loop_None:
  "integer_loop text n k = None \<longleftrightarrow>
     (\<forall>i. k \<le> i \<longrightarrow> i < n \<longrightarrow> is_ascii_digit (text ! i) \<and> \<not> (i > 0 \<and> hd text = CHR ''0''))"
proof (induction "text" n k rule: integer_loop.induct)
  case (1 "text" n k)
  show ?case
  proof (cases "k < n \<and> is_ascii_digit (text ! k) \<and> \<not> (k > 0 \<and> hd text = CHR ''0'')")
    case True
    then have "integer_loop text n k = integer_loop text n (k + 1)"
      by (subst integer_loop.simps) auto
    also have "\<dots> = None \<longleftrightarrow>
        (\<forall>i. k + 1 \<le> i \<longrightarrow> i < n \<longrightarrow> is_ascii_digit (text ! i) \<and> \<not> (i > 0 \<and> hd text = CHR ''0''))"
      using True by (intro 1) auto
    also have "\<dots> \<longleftrightarrow>
        (\<forall>i. k \<le> i \<longrightarrow> i < n \<longrightarrow> is_ascii_digit (text ! i) \<and> \<not> (i > 0 \<and> hd text = CHR ''0''))"
    proof -
      have "k \<le> i \<longleftrightarrow> i = k \<or> k + 1 \<le> i" for i by linarith
      with True show ?thesis by metis
    qed
    finally show ?thesis .
  next
    case False
    then show ?thesis by (subst integer_loop.simps) auto
  qed
qed

lemma fraction_loop_None: "fraction_loop off i cs = None \<longleftrightarrow> list_all is_ascii_digit cs"
  by (induction cs arbitrary: i) auto

lemma integer_digits_part:
  assumes "n \<noteq> 0" "n \<le> length text" and "integer_loop text n 0 = None"
  shows "integer_part (take n text)"
proof -
  have digits: "is_ascii_digit (text ! i)" "i > 0 \<Longrightarrow> hd text \<noteq> CHR ''0''" if "i < n" for i
    using assms(3) that unfolding integer_loop_None by auto
  have "length (take n text) = 1" if "hd (take n text) = CHR ''0''"
    using digits(2)[of 1] that assms(1,2) by (cases "n = 1") (auto simp: hd_take)
  then show ?thesis
    using assms(1,2) digits(1) by (auto simp: integer_part_def list_all_length)
qed

lemma decompose_lexeme:
  assumes "decompose text = Inr lexeme"
  shows "denotes text (lx_integer_digits lexeme) (lx_fractional_digits lexeme)"
    and "lx_fractional_digits lexeme \<noteq> [] \<Longrightarrow> lx_fractional_offset lexeme = length (lx_integer_digits lexeme) + 1"
proof -
  have "denotes text (lx_integer_digits lexeme) (lx_fractional_digits lexeme) \<and>
    (lx_fractional_digits lexeme \<noteq> [] \<longrightarrow> lx_fractional_offset lexeme = length (lx_integer_digits lexeme) + 1)"
  proof (cases "string_find CHR ''.'' text")
    case None
    with assms have "integer_loop text (length text) 0 = None" "text \<noteq> []"
      "lexeme = \<lparr>lx_integer_digits = text, lx_fractional_digits = [], lx_fractional_offset = kReferenceNoErrorOffset\<rparr>"
      by (auto simp: decompose_def Let_def split: if_splits option.splits)
    with integer_digits_part[of "length text" "text"] show ?thesis
      by (simp add: denotes_def decimal_text_def)
  next
    case (Some p)
    note p = string_find_Some[OF Some]
    from assms Some have int: "integer_loop text p 0 = None" "p \<noteq> 0" and more: "p + 1 \<noteq> length text"
      and frac: "fraction_loop (p + 1) 0 (drop (p + 1) text) = None"
      and lexeme: "lexeme = \<lparr>lx_integer_digits = take p text, lx_fractional_digits = drop (p + 1) text,
        lx_fractional_offset = p + 1\<rparr>"
      by (auto simp: decompose_def Let_def split: if_splits option.splits)
    have "text = take p text @ CHR ''.'' # drop (p + 1) text"
      using p by (metis Suc_eq_plus1 id_take_nth_drop)
    moreover have "drop (p + 1) text \<noteq> []" using p more by simp
    moreover have "integer_part (take p text)" using int p by (intro integer_digits_part) simp_all
    ultimately show ?thesis
      using p frac unfolding lexeme fraction_loop_None by (simp add: denotes_def decimal_text_def)
  qed
  then show "denotes text (lx_integer_digits lexeme) (lx_fractional_digits lexeme)"
    and "lx_fractional_digits lexeme \<noteq> [] \<Longrightarrow> lx_fractional_offset lexeme = length (lx_integer_digits lexeme) + 1"
    by auto
qed

lemma discarded_loop_eq:
  "discarded_loop base i cs =
     (if list_all (\<lambda>c. c = CHR ''0'') cs then None
      else Some (base + i + length (takeWhile (\<lambda>c. c = CHR ''0'') cs)))"
  by (induction cs arbitrary: i) auto

lemma accumulate_guard:
  fixes m d :: nat
  assumes "d < 10"
  shows "m > nat INT64_MAX div 10 \<or> m = nat INT64_MAX div 10 \<and> d > nat INT64_MAX mod 10 \<longleftrightarrow>
    int (m * 10 + d) > INT64_MAX"
  using assms by auto

lemma overflow_index_ge:
  assumes "int (digits_value ds) \<le> INT64_MAX" and "int (digits_value (ds @ xs)) > INT64_MAX"
  shows "length ds \<le> overflow_index (ds @ xs)"
proof -
  let ?P = "\<lambda>i. int (digits_value (take (Suc i) (ds @ xs))) \<le> INT64_MAX"
  have "?P i" if "i < length ds" for i
    using assms(1) that digits_value_take_mono[of "Suc i" "length ds" ds] by simp
  then have "takeWhile ?P ([0..<length ds] @ [length ds..<length ds + length xs]) =
      [0..<length ds] @ takeWhile ?P [length ds..<length ds + length xs]"
    by (intro takeWhile_append2) simp
  then show ?thesis by (simp add: overflow_index_def upt_add_eq_append[OF le0])
qed

text \<open>The accumulation stops at the digit that leaves the signed range.\<close>

lemma accumulate_loop_eq:
  assumes "list_all is_ascii_digit ds" and "int (digits_value pre) \<le> INT64_MAX"
  shows "accumulate_loop off i (digits_value pre) ds =
    (if int (digits_value (pre @ ds)) \<le> INT64_MAX then Inr (digits_value (pre @ ds))
     else Inl (off + i + (overflow_index (pre @ ds) - length pre)))"
  using assms
proof (induction ds arbitrary: pre i)
  case (Cons c ds)
  have c: "digit_value c < 10" using Cons.prems(1) by (simp add: digit_value_less)
  have snoc: "digits_value (pre @ [c]) = digits_value pre * 10 + digit_value c" by simp
  have assoc: "(pre @ [c]) @ ds = pre @ c # ds" by simp
  show ?case
  proof (cases "int (digits_value (pre @ [c])) \<le> INT64_MAX")
    case True
    have "length pre < overflow_index (pre @ c # ds)" if "int (digits_value (pre @ c # ds)) > INT64_MAX"
      using that True overflow_index_ge[of "pre @ [c]" ds] unfolding assoc by simp
    with True Cons.IH[of "pre @ [c]" "i + 1"] Cons.prems(1) accumulate_guard[OF c, of "digits_value pre"]
    show ?thesis unfolding assoc snoc by (auto simp: Let_def)
  next
    case False
    then have "int (digits_value (pre @ c # ds)) > INT64_MAX"
      using digits_value_take_mono[of "length pre + 1" "length (pre @ c # ds)" "pre @ c # ds"] by simp
    moreover have "overflow_index (pre @ c # ds) = length pre"
      using overflow_index_stable[of "pre @ [c]" ds] overflow_index_new[OF Cons.prems(2)] False by simp
    ultimately show ?thesis
      using False accumulate_guard[OF c, of "digits_value pre"] unfolding snoc by (auto simp: Let_def)
  qed
qed simp

lemma upscale_loop_eq:
  "upscale_loop scale target m =
     (if scale < target \<and> int (m * 10 ^ (target - scale)) > INT64_MAX then None
      else Some (m * 10 ^ (target - scale)))"
proof (induction scale target m rule: upscale_loop.induct)
  case (1 scale target m)
  show ?case
  proof (cases "scale < target")
    case True
    then have power: "m * 10 ^ (target - scale) = m * 10 * 10 ^ (target - (scale + 1))"
      by (simp add: Suc_diff_Suc[symmetric])
    have big: "m > nat INT64_MAX div 10 \<longleftrightarrow> int (m * 10) > INT64_MAX" by auto
    have grow: "m * 10 \<le> m * 10 * 10 ^ (target - (scale + 1))" by simp
    show ?thesis
    proof (cases "m > nat INT64_MAX div 10")
      case over: True
      with big grow have "int (m * 10 ^ (target - scale)) > INT64_MAX" unfolding power by linarith
      with True over show ?thesis by (simp add: upscale_loop.simps[of scale])
    next
      case False
      from 1[OF True False] show ?thesis
        using True False big unfolding power by (simp add: upscale_loop.simps[of scale])
    qed
  qed (simp add: upscale_loop.simps)
qed

text \<open>What the reference computes on a lexeme, in the terms of the specification of the parser.\<close>

lemma source_magnitude_eq:
  fixes s :: nat
  assumes "list_all is_ascii_digit ip" "list_all is_ascii_digit fp"
    and off: "fp \<noteq> [] \<Longrightarrow> off = length ip + 1"
  defines "v \<equiv> digits_value (ip @ take s fp)"
  shows "cm_overflow_offset (source_magnitude
      \<lparr>lx_integer_digits = ip, lx_fractional_digits = fp, lx_fractional_offset = off\<rparr> (min (length fp) s)) =
      (if int v \<le> INT64_MAX then None else Some (overflow_position s ip fp))"
    and "int v \<le> INT64_MAX \<Longrightarrow> cm_value (source_magnitude
      \<lparr>lx_integer_digits = ip, lx_fractional_digits = fp, lx_fractional_offset = off\<rparr> (min (length fp) s)) = v"
proof -
  let ?fp = "take s fp"
  have fp: "take (min (length fp) s) fp = ?fp" by (simp add: min_def)
  have fp_digits: "list_all is_ascii_digit ?fp"
    using assms(2) by (auto simp: list_all_iff dest: in_set_takeD)
  have int: "accumulate_loop 0 0 0 ip =
      (if int (digits_value ip) \<le> INT64_MAX then Inr (digits_value ip) else Inl (overflow_index ip))"
    using accumulate_loop_eq[OF assms(1), of "[]" 0 0] by simp
  have frac: "accumulate_loop off 0 (digits_value ip) ?fp =
      (if int v \<le> INT64_MAX then Inr v else Inl (off + (overflow_index (ip @ ?fp) - length ip)))"
    if "int (digits_value ip) \<le> INT64_MAX"
    using accumulate_loop_eq[OF fp_digits that, of off 0] by (simp add: v_def)
  have mono: "digits_value ip \<le> v"
    using digits_value_take_mono[of "length ip" "length (ip @ ?fp)" "ip @ ?fp"] by (simp add: v_def fp)
  have pos: "overflow_position s ip fp = overflow_index ip" if "int (digits_value ip) > INT64_MAX"
    using that mono overflow_index_stable[OF that, of ?fp] overflow_index_bound[OF that]
    by (simp add: overflow_position_def digit_offset_def v_def)
  have pos': "overflow_position s ip fp = off + (overflow_index (ip @ ?fp) - length ip)"
    if "int (digits_value ip) \<le> INT64_MAX" "int v > INT64_MAX"
  proof -
    have "fp \<noteq> []" using that by (auto simp: v_def)
    moreover have "length ip \<le> overflow_index (ip @ ?fp)"
      using that unfolding v_def by (intro overflow_index_ge)
    ultimately show ?thesis using off that by (simp add: overflow_position_def digit_offset_def v_def)
  qed
  show "cm_overflow_offset (source_magnitude
      \<lparr>lx_integer_digits = ip, lx_fractional_digits = fp, lx_fractional_offset = off\<rparr> (min (length fp) s)) =
      (if int v \<le> INT64_MAX then None else Some (overflow_position s ip fp))"
    and "int v \<le> INT64_MAX \<Longrightarrow> cm_value (source_magnitude
      \<lparr>lx_integer_digits = ip, lx_fractional_digits = fp, lx_fractional_offset = off\<rparr> (min (length fp) s)) = v"
    using int frac mono pos pos'
    by (auto simp: source_magnitude_def accumulate_segment_def fp Let_def)
qed

lemma rescale_eq:
  assumes "denotes text ip fp" and "fp \<noteq> [] \<Longrightarrow> off = length ip + 1"
  shows "rescale \<lparr>lx_integer_digits = ip, lx_fractional_digits = fp, lx_fractional_offset = off\<rparr> s allow_zero =
    (if \<not> exact_at s fp then Inl (ReferenceDecimalError RefInexactScale (inexact_position s ip fp))
     else if int (scaled_units s ip fp) > INT64_MAX
       then Inl (ReferenceDecimalError RefOverflow (overflow_position s ip fp))
     else if \<not> allow_zero \<and> scaled_units s ip fp = 0
       then Inl (ReferenceDecimalError RefZeroNotAllowed kReferenceNoErrorOffset)
     else Inr \<lparr>rdv_units = int (scaled_units s ip fp), rdv_source_fraction_digits = length fp\<rparr>)"
proof -
  let ?lexeme = "\<lparr>lx_integer_digits = ip, lx_fractional_digits = fp, lx_fractional_offset = off\<rparr>"
  let ?v = "digits_value (ip @ take s fp)"
  have digits: "list_all is_ascii_digit ip" "list_all is_ascii_digit fp"
    using assms(1) by (simp_all add: denotes_def integer_part_def)
  note mag = source_magnitude_eq[OF digits assms(2), of s]
  have discarded: "first_nonzero_discarded ?lexeme (min (length fp) s) =
      (if exact_at s fp then None else Some (inexact_position s ip fp))"
    using assms(2) by (cases "fp = []")
      (auto simp: first_nonzero_discarded_def discarded_loop_eq exact_at_def inexact_position_def min_def)
  have scaled: "scaled_units s ip fp = ?v * 10 ^ (s - length fp)" by (simp add: scaled_units_def)
  have grow: "?v \<le> ?v * 10 ^ (s - length fp)" by simp
  show ?thesis
  proof (cases "int ?v \<le> INT64_MAX")
    case True
    then have "overflow_position s ip fp = kReferenceNoErrorOffset"
      by (simp add: overflow_position_def kReferenceNoErrorOffset_def)
    then show ?thesis
      using True mag discarded scaled
      by (auto simp: rescale_def upscale_loop_eq Let_def)
  next
    case False
    then have "int (scaled_units s ip fp) > INT64_MAX" using grow scaled by linarith
    with False mag(1) discarded show ?thesis by (simp add: rescale_def Let_def)
  qed
qed

text \<open>The reference and the production parser, on every text.\<close>

lemma reference_magnitude:
  assumes "length text \<le> SIZE_MAX"
  shows "map_sum production_error (\<lambda>v. v) (parse_reference_decimal text (scale_digits scale) allow_zero) =
    (case parse_magnitude text scale of
       Inl e \<Rightarrow> Inl e
     | Inr m \<Rightarrow>
         if \<not> allow_zero \<and> mag_units m = 0 then Inl (DecimalError ZeroNotAllowed kNoErrorOffset)
         else Inr \<lparr>rdv_units = mag_units m, rdv_source_fraction_digits = mag_fraction_digits m\<rparr>)"
proof (cases "decompose text")
  case (Inl e)
  then show ?thesis by (simp add: parse_reference_decimal_def decompose_error)
next
  case (Inr lexeme)
  obtain ip fp off where lexeme: "lexeme = \<lparr>lx_integer_digits = ip, lx_fractional_digits = fp,
      lx_fractional_offset = off\<rparr>"
    by (cases lexeme) auto
  have d: "denotes text ip fp" and off: "fp \<noteq> [] \<Longrightarrow> off = length ip + 1"
    using decompose_lexeme[OF Inr] by (simp_all add: lexeme)
  show ?thesis
    using parse_magnitude_denotes[OF d assms, of scale] rescale_eq[OF d off, of "scale_digits scale" allow_zero]
    by (simp add: parse_reference_decimal_def Inr lexeme kReferenceNoErrorOffset_def)
qed

lemma reference_fixed_eq: "reference_fixed (int n) scale = fixed_text n scale 0"
proof -
  let ?d = "to_chars_nat n"
  have d: "to_chars (int n) = ?d" by (simp add: to_chars_def)
  consider (short) "length ?d \<le> scale" | (whole) "scale = 0" | (split) "0 < scale" "scale < length ?d"
    by linarith
  then show ?thesis
  proof cases
    case short
    then have "0 < scale" using to_chars_nat_nonempty[of n] by (cases scale) auto
    moreover have "scale + 1 - length ?d = Suc (scale - length ?d)" using short by simp
    ultimately show ?thesis
      using short by (simp add: reference_fixed_def d fixed_text_def decimal_text_def short_digits Let_def)
  next
    case whole
    have "fixed_integer n 0 = ?d" "fixed_fraction n 0 = []"
      by (simp_all add: fixed_integer_def fixed_fraction_def)
    with whole show ?thesis by (simp add: reference_fixed_def d fixed_text_def decimal_text_def)
  next
    case split
    with split_digits[OF split(2)] fixed_fraction_props(1)[of n scale] show ?thesis
      by (auto simp: reference_fixed_def d fixed_text_def decimal_text_def Let_def)
  qed
qed

subsection \<open>Properties\<close>

definition quantity_outcome :: "decimal_error + quantity_units parsed_decimal \<Rightarrow> decimal_error + int \<times> nat" where
  "quantity_outcome r = map_sum id (\<lambda>p. (quantity_value (pd_value p), pd_fraction_digits p)) r"

definition price_outcome :: "decimal_error + price_units parsed_decimal \<Rightarrow> decimal_error + int \<times> nat" where
  "price_outcome r = map_sum id (\<lambda>p. (price_value (pd_value p), pd_fraction_digits p)) r"

definition reference_outcome :: "reference_decimal_result \<Rightarrow> decimal_error + int \<times> nat" where
  "reference_outcome r = map_sum production_error (\<lambda>v. (rdv_units v, rdv_source_fraction_digits v)) r"

lemma parse_outcomes:
  assumes "length text \<le> SIZE_MAX"
  shows "quantity_outcome (parse_quantity text scale) =
      map_sum id (\<lambda>m. (mag_units m, mag_fraction_digits m)) (parse_magnitude text scale) \<and>
    quantity_outcome (parse_positive_quantity text scale) = price_outcome (parse_price text scale) \<and>
    price_outcome (parse_price text scale) =
      (case parse_magnitude text scale of
         Inl e \<Rightarrow> Inl e
       | Inr m \<Rightarrow> if mag_units m = 0 then Inl (DecimalError ZeroNotAllowed kNoErrorOffset)
           else Inr (mag_units m, mag_fraction_digits m))"
proof (cases "parse_magnitude text scale")
  case (Inl e)
  then show ?thesis
    by (simp add: quantity_outcome_def price_outcome_def parse_quantity_def parse_price_def
        parse_positive_quantity_def)
next
  case (Inr m)
  have range: "0 \<le> mag_units m" "mag_units m \<le> INT64_MAX"
    using parse_magnitude_nonneg[OF assms Inr] by simp_all
  obtain q where q: "QuantityUnits_create (mag_units m) = Some q"
    using range(1) by (cases "QuantityUnits_create (mag_units m)") (simp_all add: QuantityUnits_create_def)
  have qv: "mag_units m = quantity_value q" using q QuantityUnits_create_Some_iff[OF range(2)] by simp
  show ?thesis
  proof (cases "PriceUnits_create (mag_units m)")
    case None
    then have zero: "mag_units m = 0" using range(1) by (simp add: PriceUnits_create_None_iff)
    with q qv None have "QuantityUnits_create 0 = Some q" "quantity_value q = 0" "PriceUnits_create 0 = None"
      by (simp_all only:)
    with zero show ?thesis
      by (simp add: Inr quantity_outcome_def price_outcome_def parse_quantity_def parse_price_def
          parse_positive_quantity_def)
  next
    case (Some p)
    then have "mag_units m = price_value p" using PriceUnits_create_Some_iff[OF range(2)] by simp
    moreover have "mag_units m \<noteq> 0" using Some PriceUnits_create_None_iff[of "mag_units m"] by auto
    ultimately show ?thesis
      using Some q qv
      by (simp add: Inr quantity_outcome_def price_outcome_def parse_quantity_def parse_price_def
          parse_positive_quantity_def)
  qed
qed

lemma reference_parse_outcomes:
  assumes "length text \<le> SIZE_MAX"
  shows "reference_outcome (parse_reference_decimal text (scale_digits scale) True) =
      quantity_outcome (parse_quantity text scale)"
    and "reference_outcome (parse_reference_decimal text (scale_digits scale) False) =
      price_outcome (parse_price text scale)"
proof -
  have outcome: "reference_outcome r =
      map_sum id (\<lambda>v. (rdv_units v, rdv_source_fraction_digits v)) (map_sum production_error (\<lambda>v. v) r)" for r
    by (cases r) (simp_all add: reference_outcome_def)
  show "reference_outcome (parse_reference_decimal text (scale_digits scale) True) =
      quantity_outcome (parse_quantity text scale)"
    and "reference_outcome (parse_reference_decimal text (scale_digits scale) False) =
      price_outcome (parse_price text scale)"
    using parse_outcomes[OF assms, of scale]
    by (simp_all add: outcome reference_magnitude[OF assms] split: sum.split)
qed

text \<open>
  C14: the parser and formatter agree with the independent reference on every text.  For each of the
  three entry points, \<open>parse_reference_decimal\<close> accepts the same texts with the same units and number of
  fraction digits, and rejects the others with the same error code at the same offset; and
  \<open>reference_fixed\<close> prints what the fixed formatters print.
\<close>

theorem reference_decimal_agrees:
  assumes "length text \<le> SIZE_MAX" and "64 \<le> max_size" "max_size \<le> SIZE_MAX"
  shows "reference_outcome (parse_reference_decimal text (scale_digits scale) True) =
      quantity_outcome (parse_quantity text scale) \<and>
    reference_outcome (parse_reference_decimal text (scale_digits scale) False) =
      quantity_outcome (parse_positive_quantity text scale) \<and>
    reference_outcome (parse_reference_decimal text (scale_digits scale) False) =
      price_outcome (parse_price text scale) \<and>
    format_price_fixed max_size p scale = Inr (reference_fixed (price_value p) (scale_digits scale)) \<and>
    format_quantity_fixed max_size q scale = Inr (reference_fixed (quantity_value q) (scale_digits scale))"
proof -
  have "reference_fixed (price_value p) (scale_digits scale) =
      fixed_text (nat (price_value p)) (scale_digits scale) 0"
    "reference_fixed (quantity_value q) (scale_digits scale) =
      fixed_text (nat (quantity_value q)) (scale_digits scale) 0"
    using reference_fixed_eq[of "nat (price_value p)"] reference_fixed_eq[of "nat (quantity_value q)"]
      price_value_range[of p] quantity_value_range[of q] by simp_all
  then show ?thesis
    using parse_outcomes[OF assms(1), of scale] reference_parse_outcomes[OF assms(1), of scale]
    by (simp add: format_price_fixed_eq[OF assms(2,3)] format_quantity_fixed_eq[OF assms(2,3)])
qed

theorem reference_decimal_agrees_witness:
  "parse_reference_decimal ''0.05'' 1 True = Inl (ReferenceDecimalError RefInexactScale 3) \<and>
   quantity_outcome (parse_quantity ''0.05'' (DecimalScale 1)) = Inl (DecimalError InexactScale 3) \<and>
   format_price_fixed 1000 (PriceUnits 5) (DecimalScale 1) = Inr (reference_fixed 5 1)"
proof -
  have "parse_reference_decimal ''0.05'' 1 True = Inl (ReferenceDecimalError RefInexactScale 3)"
    by (simp add: parse_reference_decimal_def decompose_def integer_loop.simps is_ascii_digit_alt
        rescale_def first_nonzero_discarded_def Let_def)
  with reference_decimal_agrees[of "''0.05''" 1000 "DecimalScale 1" "PriceUnits 5" "QuantityUnits 0"]
  show ?thesis by (simp add: scale_digits_def reference_outcome_def numeric_eval)
qed

end
