(* ===== verification/Fuzz_Decimal.thy ===== *)
theory Fuzz_Decimal
  imports Decimal_Format
begin

text \<open>
  The fuzz target of \<open>fuzz/decimal_parser_fuzz.cpp\<close>: it decodes a mode, a scale and a text from
  arbitrary bytes, parses the text, and calls \<open>std::abort\<close> unless the accepted value formats back
  to the text and parses again to the same value.  \<open>abort\<close> is \<open>None\<close> here.  The theorem is that no
  input aborts, so the oracle of the target is sound on all inputs and not only on sampled ones.
\<close>

definition require_invariant :: "bool \<Rightarrow> 'a option \<Rightarrow> 'a option" where
  "require_invariant condition k = (if condition then k else None)"

text \<open>The codes compared with are those of the letters \<open>P\<close>, \<open>Q\<close>, \<open>R\<close>, \<open>0\<close>, \<open>9\<close>, \<open>A\<close>, \<open>I\<close>.\<close>

definition decode_mode :: "uint8 \<Rightarrow> nat" where
  "decode_mode b =
     (if b = 0x50 then 0
      else if b = 0x51 then 1
      else if b = 0x52 then 2
      else unat b mod 3)"

definition decode_scale :: "uint8 \<Rightarrow> uint32" where
  "decode_scale b =
     (if b \<ge> 0x30 \<and> b \<le> 0x39 then of_nat (unat b - 0x30)
      else if b \<ge> 0x41 \<and> b \<le> 0x49 then of_nat (unat b - 0x41) + 10
      else of_nat (unat b) mod 19)"

definition fuzz_price :: "nat \<Rightarrow> string \<Rightarrow> decimal_scale \<Rightarrow> unit option" where
  "fuzz_price max_size txt scale =
     (case parse_price txt scale of
        Inl _ \<Rightarrow> Some ()
      | Inr parsed \<Rightarrow>
          require_invariant (price_value (pd_value parsed) > 0) (
          case format_price max_size (pd_value parsed) scale (pd_fraction_digits parsed) of
            Inl _ \<Rightarrow> None
          | Inr reconstructed \<Rightarrow>
              require_invariant (reconstructed = txt) (
              case parse_price reconstructed scale of
                Inl _ \<Rightarrow> None
              | Inr reparsed \<Rightarrow> require_invariant (reparsed = parsed) (Some ()))))"

definition fuzz_quantity :: "nat \<Rightarrow> string \<Rightarrow> decimal_scale \<Rightarrow> bool \<Rightarrow> unit option" where
  "fuzz_quantity max_size txt scale require_positive =
     (case (if require_positive then parse_positive_quantity txt scale else parse_quantity txt scale) of
        Inl _ \<Rightarrow> Some ()
      | Inr parsed \<Rightarrow>
          require_invariant (quantity_value (pd_value parsed) \<ge> 0) (
          require_invariant (\<not> require_positive \<or> quantity_value (pd_value parsed) > 0) (
          case format_quantity max_size (pd_value parsed) scale (pd_fraction_digits parsed) of
            Inl _ \<Rightarrow> None
          | Inr reconstructed \<Rightarrow>
              require_invariant (reconstructed = txt) (
              case (if require_positive then parse_positive_quantity reconstructed scale
                    else parse_quantity reconstructed scale) of
                Inl _ \<Rightarrow> None
              | Inr reparsed \<Rightarrow> require_invariant (reparsed = parsed) (Some ())))))"

definition decimal_fuzz_one_input :: "nat \<Rightarrow> uint8 list \<Rightarrow> unit option" where
  "decimal_fuzz_one_input max_size data =
     (if length data < 2 then Some ()
      else
        let mode = decode_mode (data ! 0) in
        case DecimalScale_create (decode_scale (data ! 1)) of
          None \<Rightarrow> None
        | Some scale \<Rightarrow>
            let txt = map (\<lambda>b. char_of (unat b)) (drop 2 data) in
            if mode = 0 then fuzz_price max_size txt scale
            else if mode = 1 then fuzz_quantity max_size txt scale False
            else if mode = 2 then fuzz_quantity max_size txt scale True
            else Some ())"

subsection \<open>The oracle never fires\<close>

lemma unat_of_nat_le: "n \<le> 18 \<Longrightarrow> unat (of_nat n :: uint32) \<le> 18"
  by (metis le_trans take_bit_nat_less_eq_self unat_of_nat take_bit_eq_mod)

lemma decode_scale_le: "decode_scale b \<le> 18"
proof -
  have "unat (decode_scale b) \<le> 18"
  proof (cases "b \<ge> 0x30 \<and> b \<le> 0x39")
    case True
    then have "unat b \<le> 0x39" by (simp add: word_le_nat_alt)
    with True show ?thesis by (simp add: decode_scale_def unat_of_nat)
  next
    case False
    show ?thesis
    proof (cases "b \<ge> 0x41 \<and> b \<le> 0x49")
      case True
      then have "unat b \<le> 0x49" by (simp add: word_le_nat_alt)
      with True have "decode_scale b = of_nat (unat b - 0x41 + 10)" "unat b - 0x41 + 10 \<le> 18"
        by (auto simp: decode_scale_def word_le_nat_alt)
      then show ?thesis by (metis unat_of_nat_le)
    next
      case no_letter: False
      have "unat (of_nat (unat b) mod (19 :: uint32)) < 19"
        by (simp add: unat_mod)
      with False no_letter show ?thesis by (auto simp: decode_scale_def simp del: of_nat_unat)
    qed
  qed
  then show ?thesis by (simp add: word_le_nat_alt)
qed

lemma positive_quantity_sub:
  "parse_positive_quantity t scale = Inr parsed \<longleftrightarrow>
     parse_quantity t scale = Inr parsed \<and> quantity_value (pd_value parsed) > 0"
  using quantity_value_range[of "pd_value parsed"]
  by (cases "parse_quantity t scale") (auto simp: parse_positive_quantity_def bind_result_def less_le)

lemma fuzz_price_ok:
  assumes "64 \<le> max_size" "max_size \<le> SIZE_MAX" "length txt \<le> max_size"
  shows "fuzz_price max_size txt scale = Some ()"
proof (cases "parse_price txt scale")
  case (Inr parsed)
  obtain p n where parsed: "parsed = \<lparr>pd_value = p, pd_fraction_digits = n\<rparr>"
    by (metis parsed_decimal.surjective unit.exhaust)
  have "length txt \<le> SIZE_MAX" using assms by linarith
  with Inr parsed assms have "format_price max_size p scale n = Inr txt"
    by (simp add: parse_price_renders_iff format_price_Inr_iff)
  with Inr parsed show ?thesis
    using price_value_range[of p] by (simp add: fuzz_price_def require_invariant_def)
qed (simp add: fuzz_price_def)

lemma fuzz_quantity_ok:
  assumes "64 \<le> max_size" "max_size \<le> SIZE_MAX" "length txt \<le> max_size"
  shows "fuzz_quantity max_size txt scale pos = Some ()"
proof (cases "if pos then parse_positive_quantity txt scale else parse_quantity txt scale")
  case (Inr parsed)
  obtain q n where parsed: "parsed = \<lparr>pd_value = q, pd_fraction_digits = n\<rparr>"
    by (metis parsed_decimal.surjective unit.exhaust)
  have "parse_quantity txt scale = Inr parsed" "pos \<longrightarrow> quantity_value q > 0"
    using Inr parsed by (auto simp: positive_quantity_sub split: if_splits)
  moreover have "length txt \<le> SIZE_MAX" using assms by linarith
  ultimately have "format_quantity max_size q scale n = Inr txt"
    using parsed assms by (simp add: parse_quantity_renders_iff format_quantity_Inr_iff)
  with Inr parsed \<open>pos \<longrightarrow> quantity_value q > 0\<close> show ?thesis
    using quantity_value_range[of q] unfolding fuzz_quantity_def
    by (simp only: sum.case) (simp add: require_invariant_def Inr del: if_split)
qed (simp add: fuzz_quantity_def)

text \<open>
  C37: the decimal fuzz target never aborts.  For any input bytes that fit a string, every text the
  parsers accept formats back to itself and parses to the same value again, and the decoded scale
  is always valid.
\<close>

theorem decimal_fuzz_never_aborts:
  assumes "64 \<le> max_size" "max_size \<le> SIZE_MAX" and "length data \<le> max_size"
  shows "decimal_fuzz_one_input max_size data = Some ()"
proof -
  have size: "length (map (\<lambda>b. char_of (unat b)) (drop 2 data) :: string) \<le> max_size"
    using assms(3) by simp
  have "\<exists>s. DecimalScale_create (decode_scale b) = Some s" for b
    using decode_scale_le[of b] by (simp add: DecimalScale_create_def not_less)
  then obtain s where "DecimalScale_create (decode_scale (data ! 1)) = Some s" by blast
  then show ?thesis
    by (simp add: decimal_fuzz_one_input_def Let_def fuzz_price_ok[OF assms(1,2) size]
        fuzz_quantity_ok[OF assms(1,2) size])
qed

theorem decimal_fuzz_never_aborts_witness:
  "decimal_fuzz_one_input 1000 [0x50, 0x34, 0x30, 0x2E, 0x35] = Some ()"
  by (rule decimal_fuzz_never_aborts) simp_all

end
