(* ===== verification/Fuzz_Order_Book.thy ===== *)
theory Fuzz_Order_Book
  imports Order_Book
begin

unbundle bit_operations_syntax

text \<open>
  The fuzz target of \<open>fuzz/order_book_fuzz.cpp\<close>: arbitrary bytes drive the production book and a
  reference book of unordered vectors side by side, and after every operation the target compares
  all they report and calls \<open>std::abort\<close> on any difference.  \<open>abort\<close> is \<open>None\<close> (a check that would
  abort is false).  The theorem is that the target never aborts: the two books agree after every
  operation of every input.
\<close>

subsection \<open>The reference book\<close>

record reference_book =
  ref_bids :: "book_level list"
  ref_asks :: "book_level list"

definition ref_empty :: reference_book where
  "ref_empty = \<lparr>ref_bids = [], ref_asks = []\<rparr>"

text \<open>\<open>find_level\<close> returns an iterator: a position, or the length for \<open>end()\<close>.\<close>

fun ref_find_level :: "book_level list \<Rightarrow> price_units \<Rightarrow> nat" where
  "ref_find_level [] p = 0"
| "ref_find_level (l # ls) p = (if lvl_price l = p then 0 else Suc (ref_find_level ls p))"

text \<open>
  \<open>std::sort\<close> with a comparison of prices.  It is not stable, but no two levels of a side have the
  same price, so its result is determined.
\<close>

definition sort_levels :: "book_side \<Rightarrow> book_level list \<Rightarrow> book_level list" where
  "sort_levels side ls =
     (if side = Bid then sort_key (\<lambda>l. - price_value (lvl_price l)) ls
      else sort_key (\<lambda>l. price_value (lvl_price l)) ls)"

definition ref_levels :: "reference_book \<Rightarrow> book_side \<Rightarrow> book_level list" where
  "ref_levels ref side = (if side = Bid then ref_bids ref else ref_asks ref)"

definition ref_set_levels :: "reference_book \<Rightarrow> book_side \<Rightarrow> book_level list \<Rightarrow> reference_book" where
  "ref_set_levels ref side ls =
     (if side = Bid then ref\<lparr>ref_bids := ls\<rparr> else ref\<lparr>ref_asks := ls\<rparr>)"

definition ref_sort_side :: "reference_book \<Rightarrow> book_side \<Rightarrow> reference_book" where
  "ref_sort_side ref side = ref_set_levels ref side (sort_levels side (ref_levels ref side))"

definition ref_apply_level ::
  "reference_book \<Rightarrow> book_side \<Rightarrow> price_units \<Rightarrow> quantity_units \<Rightarrow> reference_book" where
  "ref_apply_level ref side price quantity =
     (let levels = ref_levels ref side;
          it = ref_find_level levels price
      in
      if quantity_value quantity = 0 then
        (if it \<noteq> length levels
           then ref_set_levels ref side (take it levels @ drop (Suc it) levels)
         else ref)
      else
        ref_sort_side
          (ref_set_levels ref side
             (if it \<noteq> length levels then levels[it := (levels ! it)\<lparr>lvl_quantity := quantity\<rparr>]
              else levels @ [BookLevel price quantity])) side)"

definition ref_clear :: "reference_book \<Rightarrow> reference_book" where
  "ref_clear ref = ref\<lparr>ref_bids := [], ref_asks := []\<rparr>"

definition ref_clear_side :: "reference_book \<Rightarrow> book_side \<Rightarrow> reference_book" where
  "ref_clear_side ref side = ref_set_levels ref side []"

definition ref_level_count :: "reference_book \<Rightarrow> book_side \<Rightarrow> nat" where
  "ref_level_count ref side = (if side = Bid then length (ref_bids ref) else length (ref_asks ref))"

definition ref_best_bid :: "reference_book \<Rightarrow> book_level option" where
  "ref_best_bid ref = (if ref_bids ref = [] then None else Some (hd (ref_bids ref)))"

definition ref_best_ask :: "reference_book \<Rightarrow> book_level option" where
  "ref_best_ask ref = (if ref_asks ref = [] then None else Some (hd (ref_asks ref)))"

fun ref_quantity_loop :: "book_level list \<Rightarrow> price_units \<Rightarrow> quantity_units option" where
  "ref_quantity_loop [] price = None"
| "ref_quantity_loop (l # ls) price =
     (if lvl_price l = price then Some (lvl_quantity l) else ref_quantity_loop ls price)"

definition ref_quantity_at ::
  "reference_book \<Rightarrow> book_side \<Rightarrow> price_units \<Rightarrow> quantity_units option" where
  "ref_quantity_at ref side price = ref_quantity_loop (ref_levels ref side) price"

definition ref_top_levels :: "reference_book \<Rightarrow> book_side \<Rightarrow> nat \<Rightarrow> book_level list" where
  "ref_top_levels ref side limit =
     (if limit = 0 then []
      else take (min limit (length (ref_levels ref side))) (ref_levels ref side))"

subsection \<open>The checks\<close>

definition verify_no_zero_quantities :: "book_level list \<Rightarrow> bool" where
  "verify_no_zero_quantities levels \<longleftrightarrow> list_all (\<lambda>l. \<not> quantity_value (lvl_quantity l) \<le> 0) levels"

definition verify_strict_ordering :: "book_level list \<Rightarrow> bool \<Rightarrow> bool" where
  "verify_strict_ordering levels ascending \<longleftrightarrow>
     list_all (\<lambda>i.
       if ascending
         then \<not> price_value (lvl_price (levels ! (i - 1))) \<ge> price_value (lvl_price (levels ! i))
       else \<not> price_value (lvl_price (levels ! (i - 1))) \<le> price_value (lvl_price (levels ! i)))
       [1..<length levels]"

definition verify_no_duplicates :: "book_level list \<Rightarrow> bool" where
  "verify_no_duplicates levels \<longleftrightarrow>
     list_all (\<lambda>i. lvl_price (levels ! (i - 1)) \<noteq> lvl_price (levels ! i)) [1..<length levels]"

definition same_option :: "'a option \<Rightarrow> 'a option \<Rightarrow> bool" where
  "same_option a b \<longleftrightarrow>
     (case (a, b) of (None, None) \<Rightarrow> True | (Some x, Some y) \<Rightarrow> x = y | _ \<Rightarrow> False)"

definition check_side :: "order_book \<Rightarrow> reference_book \<Rightarrow> book_side \<Rightarrow> bool" where
  "check_side book ref side \<longleftrightarrow>
     (let prod = OrderBook_all_levels book side;
          refv = ref_levels ref side;
          count = ref_level_count ref side
      in OrderBook_level_count book side = ref_level_count ref side \<and>
         length prod = length refv \<and>
         list_all (\<lambda>i. lvl_price (prod ! i) = lvl_price (refv ! i) \<and>
           lvl_quantity (prod ! i) = lvl_quantity (refv ! i)) [0..<length prod] \<and>
         verify_no_zero_quantities prod \<and>
         verify_strict_ordering prod (side = Ask) \<and>
         verify_no_duplicates prod \<and>
         OrderBook_top_levels book side 0 = ref_top_levels ref side 0 \<and>
         (count > 0 \<longrightarrow> OrderBook_top_levels book side 1 = ref_top_levels ref side 1) \<and>
         OrderBook_top_levels book side (if count > 0 then count div 2 else 0) =
           ref_top_levels ref side (if count > 0 then count div 2 else 0) \<and>
         OrderBook_top_levels book side count = ref_top_levels ref side count \<and>
         (count < SIZE_MAX \<longrightarrow>
            OrderBook_top_levels book side (count + 1) = ref_top_levels ref side (count + 1)))"

definition check_consistency ::
  "order_book \<Rightarrow> reference_book \<Rightarrow> book_side \<Rightarrow> price_units \<Rightarrow> bool" where
  "check_consistency book ref current_side current_price \<longleftrightarrow>
     same_option (OrderBook_best_bid book) (ref_best_bid ref) \<and>
     same_option (OrderBook_best_ask book) (ref_best_ask ref) \<and>
     same_option (OrderBook_quantity_at book current_side current_price)
       (ref_quantity_at ref current_side current_price) \<and>
     list_all (check_side book ref) [Bid, Ask]"

subsection \<open>One operation\<close>

text \<open>The loops that read price and quantity pairs stop after a fixed count or at the end of the input.\<close>

fun batch_loop ::
  "uint8 list \<Rightarrow> book_side \<Rightarrow> nat \<Rightarrow> nat \<Rightarrow> level_update list \<Rightarrow> nat \<times> level_update list" where
  "batch_loop data side 0 offset batch = (offset, batch)"
| "batch_loop data side (Suc n) offset batch =
     (if offset + 2 \<le> length data then
        batch_loop data side n (offset + 2)
          (case (PriceUnits_create (int (unat (data ! offset) mod 128 + 1)),
                 QuantityUnits_create (int (unat (data ! (offset + 1))))) of
             (Some bp, Some bq) \<Rightarrow> batch @ [LevelUpdate side bp bq]
           | _ \<Rightarrow> batch)
      else (offset, batch))"

text \<open>The counter \<open>j\<close> alternates the sides; four pairs are read at most.\<close>

fun replacement_loop ::
  "uint8 list \<Rightarrow> nat \<Rightarrow> nat \<Rightarrow> nat \<Rightarrow> book_level list \<Rightarrow> book_level list \<Rightarrow>
   nat \<times> book_level list \<times> book_level list" where
  "replacement_loop data 0 j offset bids asks = (offset, bids, asks)"
| "replacement_loop data (Suc n) j offset bids asks =
     (if offset + 2 \<le> length data then
        (case (PriceUnits_create (int (unat (data ! offset) mod 128 + 1)),
               QuantityUnits_create (int (unat (data ! (offset + 1))))) of
           (Some rp, Some rq) \<Rightarrow>
             if j mod 2 = 0
               then replacement_loop data n (j + 1) (offset + 2) (bids @ [BookLevel rp rq]) asks
             else replacement_loop data n (j + 1) (offset + 2) bids (asks @ [BookLevel rp rq])
         | _ \<Rightarrow> replacement_loop data n (j + 1) (offset + 2) bids asks)
      else (offset, bids, asks))"

fun ref_apply_updates :: "reference_book \<Rightarrow> level_update list \<Rightarrow> reference_book" where
  "ref_apply_updates ref [] = ref"
| "ref_apply_updates ref (u # us) =
     ref_apply_updates (ref_apply_level ref (upd_side u) (upd_price u) (upd_quantity u)) us"

fun ref_apply_levels :: "reference_book \<Rightarrow> book_side \<Rightarrow> book_level list \<Rightarrow> reference_book" where
  "ref_apply_levels ref side [] = ref"
| "ref_apply_levels ref side (l # ls) =
     ref_apply_levels (ref_apply_level ref side (lvl_price l) (lvl_quantity l)) side ls"

fun reapply_levels :: "order_book \<Rightarrow> book_side \<Rightarrow> book_level list \<Rightarrow> order_book" where
  "reapply_levels book side [] = book"
| "reapply_levels book side (l # ls) =
     reapply_levels
       (case QuantityUnits_create (quantity_value (lvl_quantity l)) of
          None \<Rightarrow> book
        | Some q \<Rightarrow> snd (OrderBook_apply_level book side (lvl_price l) q)) side ls"

record fuzz_state =
  fz_book :: order_book
  fz_ref :: reference_book
  fz_offset :: nat

text \<open>The \<open>switch\<close> over the operation type; the offset is already past the four operation bytes.\<close>

definition dispatch_operation ::
  "uint8 list \<Rightarrow> nat \<Rightarrow> book_side \<Rightarrow> price_units \<Rightarrow> quantity_units \<Rightarrow> fuzz_state \<Rightarrow> fuzz_state option" where
  "dispatch_operation data op_type side p q st =
     (let book = fz_book st; ref = fz_ref st; offset = fz_offset st in
      if op_type \<in> {0, 1, 2} then
        Some (st\<lparr>fz_book := snd (OrderBook_apply_level book side p q), fz_ref := ref_apply_level ref side p q\<rparr>)
      else if op_type = 3 then
        Some (st\<lparr>fz_book := reapply_levels book side (ref_levels ref side)\<rparr>)
      else if op_type \<in> {4, 5} then
        (let (offset', batch) = batch_loop data side 5 offset [] in
         if batch \<noteq> [] then
           Some \<lparr>fz_book = OrderBook_apply_updates book batch, fz_ref = ref_apply_updates ref batch,
             fz_offset = offset'\<rparr>
         else Some (st\<lparr>fz_offset := offset'\<rparr>))
      else if op_type = 6 then
        Some (st\<lparr>fz_book := OrderBook_clear_side book side, fz_ref := ref_clear_side ref side\<rparr>)
      else if op_type = 7 then
        Some (st\<lparr>fz_book := OrderBook_clear book, fz_ref := ref_clear ref\<rparr>)
      else if op_type = 8 then
        (let (offset', new_bids, new_asks) = replacement_loop data 4 0 offset [] [] in
         Some \<lparr>fz_book = OrderBook_replace_all book new_bids new_asks,
           fz_ref = ref_apply_levels (ref_apply_levels (ref_clear ref) Bid new_bids) Ask new_asks,
           fz_offset = offset'\<rparr>)
      else if op_type = 9 then
        (let limit = unat (data ! (offset - 1)) mod 10 in
         if OrderBook_top_levels book side limit \<noteq> ref_top_levels ref side limit then None else Some st)
      else if op_type = 10 then
        (if same_option (OrderBook_quantity_at book side p) (ref_quantity_at ref side p) then Some st
         else None)
      else if op_type = 11 then
        (if OrderBook_best_bid book \<noteq> ref_best_bid ref then None
         else if OrderBook_best_ask book \<noteq> ref_best_ask ref then None
         else Some st)
      else Some st)"

text \<open>The loop body: decode four bytes, dispatch, compare everything.\<close>

definition fuzz_operation :: "uint8 list \<Rightarrow> fuzz_state \<Rightarrow> fuzz_state option" where
  "fuzz_operation data st =
     (let offset = fz_offset st;
          op_type = unat (data ! offset) mod 12;
          price_raw = int (unat (data ! (offset + 1)) mod 128) + 1;
          qty_raw = int (unat (data ! (offset + 2)));
          side_bit = data ! (offset + 3) AND 1;
          st1 = st\<lparr>fz_offset := offset + 4\<rparr>
      in
      case PriceUnits_create price_raw of
        None \<Rightarrow> Some st1
      | Some p \<Rightarrow>
          let qty_raw = (if data ! offset = 0xFF then 0 else qty_raw);
              qty_raw = (if data ! (offset + 1) = 0xFE then 1 else qty_raw);
              qty_raw = (if data ! (offset + 1) = 0xFD then INT64_MAX else qty_raw)
          in
          case QuantityUnits_create qty_raw of
            None \<Rightarrow> Some st1
          | Some q \<Rightarrow>
              let side = (if side_bit = 0 then Bid else Ask) in
              case dispatch_operation data op_type side p q st1 of
                None \<Rightarrow> None
              | Some st2 \<Rightarrow>
                  if check_consistency (fz_book st2) (fz_ref st2) side p then Some st2 else None)"

fun fuzz_operations :: "uint8 list \<Rightarrow> nat \<Rightarrow> fuzz_state \<Rightarrow> fuzz_state option" where
  "fuzz_operations data 0 st = Some st"
| "fuzz_operations data (Suc n) st =
     (if fz_offset st + 4 > length data then Some st
      else case fuzz_operation data st of
        None \<Rightarrow> None
      | Some st' \<Rightarrow> fuzz_operations data n st')"

definition order_book_fuzz_one_input :: "uint8 list \<Rightarrow> unit option" where
  "order_book_fuzz_one_input data =
     (if length data < 4 then Some ()
      else
        let price_scale_raw = unat (data ! 0) mod 19;
            quantity_scale_raw = unat (data ! 1) mod 19;
            max_ops = unat (data ! 2) OR push_bit 8 (unat (data ! 3));
            op_count = (if max_ops = 0 then 1 else max_ops mod 512 + 1)
        in
        case (DecimalScale_create (of_nat price_scale_raw), DecimalScale_create (of_nat quantity_scale_raw)) of
          (Some ps, Some qs) \<Rightarrow>
            (case fuzz_operations data op_count
                    \<lparr>fz_book = OrderBook_create \<lparr>price_scale = ps, quantity_scale = qs\<rparr>,
                      fz_ref = ref_empty, fz_offset = 4\<rparr> of
               None \<Rightarrow> None
             | Some _ \<Rightarrow> Some ())
        | _ \<Rightarrow> Some ())"

subsection \<open>The reference book keeps a side sorted and up to date\<close>

lemma ref_find_level_props:
  "ref_find_level ls p \<le> length ls"
  "ref_find_level ls p \<noteq> length ls \<longleftrightarrow> p \<in> lvl_price ` set ls"
  by (induction ls) auto

lemma ref_erase_eq:
  "distinct (map lvl_price ls) \<Longrightarrow>
     take (ref_find_level ls p) ls @ drop (Suc (ref_find_level ls p)) ls = filter (\<lambda>l. lvl_price l \<noteq> p) ls"
proof (induction ls)
  case (Cons l ls)
  then have "lvl_price l \<notin> lvl_price ` set ls" by simp
  then have "filter (\<lambda>l'. lvl_price l' \<noteq> lvl_price l) ls = ls"
    by (intro filter_True) (metis image_eqI)
  with Cons show ?case by auto
qed simp

lemma ref_quantity_loop_eq: "ref_quantity_loop ls p = map_of (map level_entry ls) p"
  by (induction ls) auto

lemma map_of_entries_filter:
  "map_of (map level_entry (filter (\<lambda>l. lvl_price l \<noteq> p) ls)) = (map_of (map level_entry ls))(p := None)"
  by (induction ls) (auto simp: fun_eq_iff)

lemma map_of_entries_update:
  "map_of (map level_entry
     (if ref_find_level ls p \<noteq> length ls
        then ls[ref_find_level ls p := (ls ! ref_find_level ls p)\<lparr>lvl_quantity := q\<rparr>]
      else ls @ [BookLevel p q])) = (map_of (map level_entry ls))(p \<mapsto> q)"
  by (induction ls) (auto simp: fun_eq_iff)

lemma prices_update:
  "map lvl_price
     (if ref_find_level ls p \<noteq> length ls
        then ls[ref_find_level ls p := (ls ! ref_find_level ls p)\<lparr>lvl_quantity := q\<rparr>]
      else ls @ [BookLevel p q]) =
   (if p \<in> lvl_price ` set ls then map lvl_price ls else map lvl_price ls @ [p])"
proof (cases "ref_find_level ls p = length ls")
  case False
  then have "ref_find_level ls p < length ls" using ref_find_level_props(1)[of ls p] by linarith
  with False show ?thesis
    using ref_find_level_props(2)[of ls p] by (simp add: map_update list_update_same_conv)
next
  case True
  with ref_find_level_props(2)[of ls p] show ?thesis by simp
qed

text \<open>Sorting a side of distinct prices enumerates its contents, best first.\<close>

lemma sort_levels_eq:
  assumes "distinct (map lvl_price ls)"
  shows "sort_levels side ls = spec_levels side (map_of (map level_entry ls))"
proof -
  have dist: "distinct (map lvl_price (sort_levels side ls))"
    using assms by (metis distinct_map distinct_sort set_sort sort_levels_def)
  have "sorted_wrt (side_lt side) (map lvl_price (sort_levels side ls))"
  proof (cases side)
    case Bid
    then have "sorted_wrt (\<lambda>a b. - price_value (lvl_price a) \<le> - price_value (lvl_price b)) (sort_levels side ls)"
      using sorted_sort_key[of "\<lambda>l. - price_value (lvl_price l)" ls] by (simp add: sort_levels_def sorted_wrt_map)
    with dist Bid show ?thesis
      by (auto simp: sorted_wrt_iff_nth_less less_price_units.rep_eq distinct_conv_nth
          price_value_inject[symmetric] less_le)
  next
    case Ask
    then have "sorted_wrt (\<lambda>a b. price_value (lvl_price a) \<le> price_value (lvl_price b)) (sort_levels side ls)"
      using sorted_sort_key[of "\<lambda>l. price_value (lvl_price l)" ls] by (simp add: sort_levels_def sorted_wrt_map)
    with dist Ask show ?thesis
      by (auto simp: sorted_wrt_iff_nth_less less_price_units.rep_eq distinct_conv_nth
          price_value_inject[symmetric] less_le)
  qed
  moreover have "map_of (map level_entry (sort_levels side ls)) = map_of (map level_entry ls)"
    using assms dist by (subst map_of_inject_set) (simp_all add: comp_def sort_levels_def)
  ultimately show ?thesis by (rule spec_levels_unique[symmetric])
qed

lemma ref_levels_set [simp]:
  "ref_levels (ref_set_levels ref side ls) side' = (if side' = side then ls else ref_levels ref side')"
  by (cases side; cases side') (simp_all add: ref_levels_def ref_set_levels_def)

lemma ref_apply_level_levels:
  assumes "\<And>side. ref_levels ref side = spec_levels side (B side)" and "\<And>side. finite (dom (B side))"
  shows "ref_levels (ref_apply_level ref side p q) side' = spec_levels side' (spec_apply side p q B side')"
proof (cases "side' = side")
  case True
  let ?ls = "ref_levels ref side"
  note props = spec_levels_props[OF assms(2)[of side], of side, folded assms(1)]
  have dist: "distinct (map lvl_price ?ls)" using props(1) by (rule side_order.sorted_wrt_distinct)
  show ?thesis
  proof (cases "quantity_value q = 0")
    case zero: True
    have "ref_levels (ref_apply_level ref side p q) side = filter (\<lambda>l. lvl_price l \<noteq> p) ?ls"
      using ref_erase_eq[OF dist, of p] zero by (auto simp: ref_apply_level_def Let_def)
    moreover have "sorted_wrt (side_lt side) (map lvl_price (filter (\<lambda>l. lvl_price l \<noteq> p) ?ls))"
      using props(1) by (simp add: sorted_wrt_map sorted_wrt_filter)
    ultimately show ?thesis
      using spec_levels_unique map_of_entries_filter[of p ?ls] True zero
      by (simp add: spec_apply_def level_value_def props(2))
  next
    case False
    have "distinct (map lvl_price
      (if ref_find_level ?ls p \<noteq> length ?ls
        then ?ls[ref_find_level ?ls p := (?ls ! ref_find_level ?ls p)\<lparr>lvl_quantity := q\<rparr>]
      else ?ls @ [BookLevel p q]))"
      using dist by (simp only: prices_update) auto
    from sort_levels_eq[OF this, of side] False True show ?thesis
      by (simp add: ref_apply_level_def Let_def ref_sort_side_def map_of_entries_update props(2)
          spec_apply_def level_value_def del: map_update)
  qed
next
  case False
  then show ?thesis
    using assms(1) by (simp add: ref_apply_level_def Let_def ref_sort_side_def spec_apply_def)
qed

subsection \<open>The two books agree\<close>

definition books_agree :: "order_book \<Rightarrow> reference_book \<Rightarrow> bool" where
  "books_agree book ref \<longleftrightarrow> book_wf book \<and> no_zero (book_abs book) \<and>
     (\<forall>side. ref_levels ref side = OrderBook_all_levels book side)"

lemma agree_abs:
  assumes "books_agree book ref"
  shows "ref_levels ref side = spec_levels side (book_abs book side)" "finite (dom (book_abs book side))"
  using assms ob.all_levels_eq[of book side] ob.abs_finite[of book side] by (simp_all add: books_agree_def)

lemma agreeI:
  assumes "book_wf book" "no_zero (book_abs book)"
    and "\<And>side. ref_levels ref side = spec_levels side (book_abs book side)"
  shows "books_agree book ref"
  using assms ob.all_levels_eq[of book] by (simp add: books_agree_def)

lemma agree_apply_level:
  assumes "books_agree book ref"
  shows "books_agree (snd (OrderBook_apply_level book side p q)) (ref_apply_level ref side p q)"
proof -
  obtain c book' where step: "OrderBook_apply_level book side p q = (c, book')" by fastforce
  have wf: "book_wf book" and nz: "no_zero (book_abs book)" using assms by (simp_all add: books_agree_def)
  from ob.apply_level[OF wf, of side p q c book'] step
  have "book_wf book'" "book_abs book' = spec_apply side p q (book_abs book)" by simp_all
  moreover have "ref_levels (ref_apply_level ref side p q) side' =
      spec_levels side' (spec_apply side p q (book_abs book) side')" for side'
    by (rule ref_apply_level_levels) (rule agree_abs[OF assms])+
  ultimately show ?thesis using step nz by (intro agreeI) (simp_all add: no_zero_apply)
qed

lemma agree_apply_updates:
  "books_agree book ref \<Longrightarrow> books_agree (OrderBook_apply_updates book us) (ref_apply_updates ref us)"
  by (induction us arbitrary: book ref) (simp_all add: agree_apply_level)

lemma ref_apply_levels_updates:
  "ref_apply_levels ref side ls = ref_apply_updates ref (levels_as_updates side ls)"
  by (induction ls arbitrary: ref) (simp_all add: levels_as_updates_def)

lemma ref_apply_updates_append:
  "ref_apply_updates ref (us @ vs) = ref_apply_updates (ref_apply_updates ref us) vs"
  by (induction us arbitrary: ref) simp_all

lemma agree_clear:
  assumes "books_agree book ref"
  shows "books_agree (OrderBook_clear book) (ref_clear ref)"
    and "books_agree (OrderBook_clear_side book side) (ref_clear_side ref side)"
proof -
  have wf: "book_wf book" and nz: "no_zero (book_abs book)" using assms by (simp_all add: books_agree_def)
  have "spec_levels s Map.empty = []" for s
    using spec_levels_props(4)[of Map.empty s] by simp
  moreover have "ref_levels (ref_clear ref) s = []" for s
    by (simp add: ref_levels_def ref_clear_def)
  ultimately show "books_agree (OrderBook_clear book) (ref_clear ref)"
    using wf ob.clear[OF wf] by (intro agreeI) (simp_all add: no_zero_empty)
  from \<open>\<And>s. spec_levels s Map.empty = []\<close>
  show "books_agree (OrderBook_clear_side book side) (ref_clear_side ref side)"
    using wf nz ob.clear_side[OF wf, of side] agree_abs[OF assms]
    by (intro agreeI) (auto simp: no_zero_def ref_clear_side_def)
qed

lemma agree_replace_all:
  assumes "books_agree book ref"
  shows "books_agree (OrderBook_replace_all book bids asks)
    (ref_apply_levels (ref_apply_levels (ref_clear ref) Bid bids) Ask asks)"
proof -
  let ?us = "levels_as_updates Bid bids @ levels_as_updates Ask asks"
  let ?fresh = "OrderBook_apply_updates (OrderBook_clear book) ?us"
  have wf: "book_wf book" using assms by (simp add: books_agree_def)
  then have "book_wf (OrderBook_clear book)" using ob.clear[OF wf] by simp
  then have "book_abs ?fresh = book_abs (OrderBook_replace_all book bids asks)"
    and "book_wf ?fresh" "book_wf (OrderBook_replace_all book bids asks)"
    and "ob_spec ?fresh = ob_spec (OrderBook_replace_all book bids asks)"
    using ob.apply_updates[of "OrderBook_clear book" ?us] ob.replace_all[OF wf, of bids asks] ob.clear[OF wf]
    by (simp_all add: spec_replace_updates del: spec_updates_simps(3))
  then have "?fresh = OrderBook_replace_all book bids asks" by (intro order_book_eqI)
  with agree_apply_updates[OF agree_clear(1)[OF assms], of ?us] show ?thesis
    by (simp add: ref_apply_levels_updates ref_apply_updates_append)
qed

text \<open>Writing back the levels a side has leaves the book as it is.\<close>

lemma reapply_levels_same:
  assumes "books_agree book ref" and "set ls \<subseteq> set (ref_levels ref side)"
  shows "reapply_levels book side ls = book"
  using assms(2)
proof (induction ls)
  case (Cons l ls)
  note props = spec_levels_props[OF agree_abs(2)[OF assms(1), of side], of side, folded agree_abs(1)[OF assms(1)]]
  have wf: "book_wf book" and nz: "no_zero (book_abs book)" using assms by (simp_all add: books_agree_def)
  have "distinct (map fst (map level_entry (ref_levels ref side)))"
    using side_order.sorted_wrt_distinct[OF props(1)] by (simp add: comp_def)
  then have at: "book_abs book side (lvl_price l) = Some (lvl_quantity l)"
    using Cons.prems unfolding props(2)[symmetric] by (intro map_of_is_SomeI) auto
  then have "level_value (lvl_quantity l) = Some (lvl_quantity l)"
    using nz unfolding no_zero_def level_value_def by (metis less_irrefl)
  with at have same: "spec_apply side (lvl_price l) (lvl_quantity l) (book_abs book) = book_abs book"
    by (auto simp: fun_eq_iff spec_apply_lookup)
  obtain c book' where step: "OrderBook_apply_level book side (lvl_price l) (lvl_quantity l) = (c, book')"
    by fastforce
  from ob.apply_level[OF wf, of side "lvl_price l" "lvl_quantity l" c book'] step same
  have "book' = book" using wf by (intro order_book_eqI) simp_all
  with Cons step show ?case by (simp add: QuantityUnits_create_def quantity_value_range)
qed simp

subsection \<open>Agreeing books pass every check\<close>

lemma agree_observers:
  assumes "books_agree book ref"
  shows "OrderBook_best_bid book = ref_best_bid ref" "OrderBook_best_ask book = ref_best_ask ref"
    "OrderBook_quantity_at book side p = ref_quantity_at ref side p"
    "OrderBook_level_count book side = ref_level_count ref side"
    "OrderBook_top_levels book side n = ref_top_levels ref side n"
proof -
  have wf: "book_wf book" and levels: "ref_levels ref side = OrderBook_all_levels book side" for side
    using assms by (simp_all add: books_agree_def)
  show "OrderBook_best_bid book = ref_best_bid ref" "OrderBook_best_ask book = ref_best_ask ref"
    using ob.best_bid[OF wf] ob.best_ask[OF wf] levels[of Bid] levels[of Ask]
    by (simp_all add: ref_best_bid_def ref_best_ask_def ref_levels_def first_level_def split: list.split)
  show "OrderBook_quantity_at book side p = ref_quantity_at ref side p"
    using ob.quantity_at[OF wf, of side p] ob.all_levels_contents[OF wf, of side]
    by (simp add: ref_quantity_at_def ref_quantity_loop_eq levels)
  show "OrderBook_level_count book side = ref_level_count ref side"
    using ob.level_count[OF wf, of side] levels[of side]
    by (cases side) (simp_all add: ref_level_count_def ref_levels_def)
  show "OrderBook_top_levels book side n = ref_top_levels ref side n"
    using ob.top_levels[OF wf, of side n] by (simp add: ref_top_levels_def levels min_def)
qed

lemma strictly_ordered_checks:
  assumes "sorted_wrt (side_lt side) (map lvl_price ls)"
  shows "verify_strict_ordering ls (side = Ask)" "verify_no_duplicates ls"
proof -
  have step: "side_lt side (lvl_price (ls ! (i - 1))) (lvl_price (ls ! i))" if "i \<in> {1..<length ls}" for i
    using assms that sorted_wrt_nth_less[of "side_lt side" "map lvl_price ls" "i - 1" i] by auto
  then show "verify_strict_ordering ls (side = Ask)"
    by (cases side) (auto simp: verify_strict_ordering_def list_all_iff less_price_units.rep_eq not_le)
  from step show "verify_no_duplicates ls"
    using side_order.lt_irrefl[of side] by (auto simp: verify_no_duplicates_def list_all_iff) metis
qed

lemma agree_check_side:
  assumes "books_agree book ref"
  shows "check_side book ref side"
proof -
  have wf: "book_wf book" and nz: "no_zero (book_abs book)"
    and levels: "ref_levels ref side = OrderBook_all_levels book side"
    using assms by (simp_all add: books_agree_def)
  have sorted: "sorted_wrt (side_lt side) (map lvl_price (OrderBook_all_levels book side))"
    using ob.all_levels_sorted[OF wf, of side] by simp
  have "verify_no_zero_quantities (OrderBook_all_levels book side)"
  proof -
    have "distinct (map fst (map level_entry (OrderBook_all_levels book side)))"
      using side_order.sorted_wrt_distinct[OF sorted] by (simp add: comp_def)
    then have "book_abs book side (lvl_price l) = Some (lvl_quantity l)"
      if "l \<in> set (OrderBook_all_levels book side)" for l
      using that ob.all_levels_contents[OF wf, of side, symmetric]
      by (simp del: map_map)
    then have "0 < quantity_value (lvl_quantity l)" if "l \<in> set (OrderBook_all_levels book side)" for l
      using nz that by (auto simp: no_zero_def)
    then show ?thesis by (simp add: verify_no_zero_quantities_def list_all_iff not_le)
  qed
  with strictly_ordered_checks[OF sorted] levels show ?thesis
    by (simp add: check_side_def Let_def agree_observers[OF assms] list_all_iff)
qed

lemma agree_check:
  assumes "books_agree book ref"
  shows "check_consistency book ref side p"
  by (simp add: check_consistency_def agree_observers[OF assms] agree_check_side[OF assms]
      same_option_def split: option.split)

subsection \<open>Every operation keeps the books in agreement\<close>

lemma dispatch_agree:
  assumes "books_agree (fz_book st) (fz_ref st)"
  obtains st' where "dispatch_operation data op_type side p q st = Some st'"
    "books_agree (fz_book st') (fz_ref st')"
proof -
  note agree = agree_apply_level[OF assms] agree_apply_updates[OF assms] agree_clear[OF assms]
    agree_replace_all[OF assms] reapply_levels_same[OF assms subset_refl] agree_observers[OF assms]
  have "\<exists>st'. dispatch_operation data op_type side p q st = Some st' \<and> books_agree (fz_book st') (fz_ref st')"
    using assms
    by (auto simp: dispatch_operation_def Let_def agree same_option_def split: prod.split option.split)
  with that show ?thesis by blast
qed

lemma fuzz_operation_agree:
  assumes "books_agree (fz_book st) (fz_ref st)"
  obtains st' where "fuzz_operation data st = Some st'" "books_agree (fz_book st') (fz_ref st')"
proof -
  let ?st = "st\<lparr>fz_offset := fz_offset st + 4\<rparr>"
  have agree: "books_agree (fz_book ?st) (fz_ref ?st)" using assms by simp
  define ok where "ok r \<longleftrightarrow> (\<exists>st'. r = Some st' \<and> books_agree (fz_book st') (fz_ref st'))" for r :: "fuzz_state option"
  have skip: "ok (Some ?st)" using agree by (simp add: ok_def)
  have cases: "ok f \<Longrightarrow> (\<And>x. ok (g x)) \<Longrightarrow> ok (case_option f g a)" for f g and a :: "'z option"
    by (cases a) simp_all
  have body: "ok (case dispatch_operation data op s p q ?st of None \<Rightarrow> None
    | Some st2 \<Rightarrow> if check_consistency (fz_book st2) (fz_ref st2) s p then Some st2 else None)" for op s p q
  proof -
    obtain st' where "dispatch_operation data op s p q ?st = Some st'" "books_agree (fz_book st') (fz_ref st')"
      using dispatch_agree[OF agree] by blast
    then show ?thesis by (simp add: ok_def agree_check)
  qed
  have "ok (fuzz_operation data st)"
    unfolding fuzz_operation_def Let_def by (rule cases[OF skip], rule cases[OF skip], rule body)
  with that show ?thesis by (auto simp: ok_def)
qed

lemma fuzz_operations_agree:
  "books_agree (fz_book st) (fz_ref st) \<Longrightarrow> \<exists>st'. fuzz_operations data n st = Some st'"
proof (induction n arbitrary: st)
  case (Suc n)
  from fuzz_operation_agree[OF Suc.prems, of data] Suc.IH show ?case
    by (metis fuzz_operations.simps(2) option.simps(5))
qed simp

text \<open>
  C36: the order book fuzz target never aborts.  Whatever the input bytes, the production book and the
  reference book of unordered vectors report the same levels, counts, best prices, quantities and
  top levels after every decoded operation, with strictly ordered prices and positive quantities.
\<close>

theorem order_book_fuzz_never_aborts: "order_book_fuzz_one_input data = Some ()"
proof -
  have "books_agree (OrderBook_create spec) ref_empty" for spec
    using ob.create(1,2)[of spec] spec_levels_props(4)[of Map.empty]
    by (intro agreeI) (simp_all add: no_zero_empty ref_levels_def ref_empty_def)
  then have "(case fuzz_operations data n \<lparr>fz_book = OrderBook_create spec, fz_ref = ref_empty, fz_offset = k\<rparr> of
      None \<Rightarrow> None | Some _ \<Rightarrow> Some ()) = Some ()" for n spec k
    using fuzz_operations_agree[of "\<lparr>fz_book = OrderBook_create spec, fz_ref = ref_empty, fz_offset = k\<rparr>" data n]
    by auto
  then show ?thesis
    by (cases "DecimalScale_create (word_of_nat (unat (data ! 0) mod 19))";
        cases "DecimalScale_create (word_of_nat (unat (data ! 1) mod 19))")
      (simp_all add: order_book_fuzz_one_input_def Let_def del: fuzz_operations.simps One_nat_def)
qed

end
