(* ===== verification/Reference_Projection.thy ===== *)
theory Reference_Projection
  imports Book_Projection Fuzz_Order_Book
begin

text \<open>
  The independent reference of the projection, \<open>tests/projection_state/reference_projection.hpp\<close>: the
  same lifecycle written as explicit branches over raw 64-bit numbers and unsorted vectors that are
  sorted after every update.  Reading an empty optional with \<open>value()\<close> is \<open>None\<close>.  The library lemma
  of this theory is a simulation: the production projection and the reference take corresponding
  steps with corresponding results.
\<close>

subsection \<open>Data\<close>

datatype ref_policy = RefSpot | RefUsdM

datatype ref_status = RefAwaitingBaseline | RefAwaitingBridge | RefSynchronized | RefNeedsResync

datatype ref_disposition =
  RefApplied | RefIgnoredStale | RefIgnoredDuplicate | RefGapDetected | RefRejectedWrongState

datatype ref_install_disposition = RefInstalled | RefInstallRejectedWrongState

datatype ref_gap_reason =
  RefSpotBootstrapForwardGap | RefSpotLiveForwardGap | RefFuturesBootstrapRangeMiss |
  RefFuturesMissingPreviousFinal | RefFuturesPreviousFinalMismatch

record raw_level =
  raw_bid :: bool
  raw_price :: int
  raw_quantity :: int

record ref_gap =
  rg_last :: uint64
  rg_first :: uint64
  rg_final :: uint64
  rg_previous :: "uint64 option"
  rg_reason :: ref_gap_reason
  rg_policy :: ref_policy

record ref_result =
  rr_disposition :: ref_disposition
  rr_status :: ref_status
  rr_last :: "uint64 option"
  rr_gap :: "ref_gap option"

record ref_install_result =
  ri_disposition :: ref_install_disposition
  ri_status :: ref_status
  ri_last :: "uint64 option"

record reference_projection =
  rp_policy :: ref_policy
  rp_status :: ref_status
  rp_last :: "uint64 option"
  rp_last_gap :: "ref_gap option"
  rp_bids :: "raw_level list"
  rp_asks :: "raw_level list"

definition ReferenceProjection_create :: "ref_policy \<Rightarrow> reference_projection" where
  "ReferenceProjection_create policy = \<lparr>rp_policy = policy, rp_status = RefAwaitingBaseline,
     rp_last = None, rp_last_gap = None, rp_bids = [], rp_asks = []\<rparr>"

subsection \<open>Levels\<close>

fun find_if_price :: "raw_level list \<Rightarrow> int \<Rightarrow> nat" where
  "find_if_price [] p = 0"
| "find_if_price (l # ls) p = (if raw_price l = p then 0 else Suc (find_if_price ls p))"

definition rp_update_levels :: "raw_level list \<Rightarrow> raw_level \<Rightarrow> raw_level list" where
  "rp_update_levels levels level =
     (let found = find_if_price levels (raw_price level);
          levels1 =
            (if raw_quantity level = 0 then
               (if found \<noteq> length levels then take found levels @ drop (Suc found) levels else levels)
             else if found \<noteq> length levels then
               levels[found := (levels ! found)\<lparr>raw_quantity := raw_quantity level\<rparr>]
             else levels @ [level])
      in if raw_bid level then sort_key (\<lambda>l. - raw_price l) levels1 else sort_key raw_price levels1)"

definition rp_apply_level :: "reference_projection \<Rightarrow> raw_level \<Rightarrow> reference_projection" where
  "rp_apply_level m level =
     (if raw_bid level then m\<lparr>rp_bids := rp_update_levels (rp_bids m) level\<rparr>
      else m\<lparr>rp_asks := rp_update_levels (rp_asks m) level\<rparr>)"

fun rp_apply_levels :: "reference_projection \<Rightarrow> raw_level list \<Rightarrow> reference_projection" where
  "rp_apply_levels m [] = m"
| "rp_apply_levels m (l # ls) = rp_apply_levels (rp_apply_level m l) ls"

subsection \<open>Operations\<close>

definition rp_simple :: "reference_projection \<Rightarrow> ref_disposition \<Rightarrow> ref_result" where
  "rp_simple m d = \<lparr>rr_disposition = d, rr_status = rp_status m, rr_last = rp_last m, rr_gap = None\<rparr>"

definition rp_gap ::
  "reference_projection \<Rightarrow> uint64 \<Rightarrow> uint64 \<Rightarrow> uint64 option \<Rightarrow> ref_gap_reason \<Rightarrow>
   (ref_result \<times> reference_projection) option" where
  "rp_gap m first final previous r =
     (case rp_last m of
        None \<Rightarrow> None
      | Some last_id \<Rightarrow>
          let evidence = \<lparr>rg_last = last_id, rg_first = first, rg_final = final, rg_previous = previous,
                          rg_reason = r, rg_policy = rp_policy m\<rparr>;
              m1 = m\<lparr>rp_last_gap := Some evidence, rp_status := RefNeedsResync\<rparr>
          in Some (\<lparr>rr_disposition = RefGapDetected, rr_status = rp_status m1, rr_last = rp_last m1,
                    rr_gap = Some evidence\<rparr>, m1))"

definition rp_install ::
  "reference_projection \<Rightarrow> uint64 \<Rightarrow> raw_level list \<Rightarrow> ref_install_result \<times> reference_projection" where
  "rp_install m last_id levels =
     (if rp_status m = RefSynchronized then
        (\<lparr>ri_disposition = RefInstallRejectedWrongState, ri_status = rp_status m, ri_last = rp_last m\<rparr>, m)
      else
        let m1 = rp_apply_levels (m\<lparr>rp_bids := [], rp_asks := []\<rparr>) levels;
            m2 = m1\<lparr>rp_last := Some last_id, rp_status := RefAwaitingBridge\<rparr>
        in (\<lparr>ri_disposition = RefInstalled, ri_status = rp_status m2, ri_last = rp_last m2\<rparr>, m2))"

definition rp_apply ::
  "reference_projection \<Rightarrow> uint64 \<Rightarrow> uint64 \<Rightarrow> uint64 option \<Rightarrow> raw_level list \<Rightarrow>
   (ref_result \<times> reference_projection) option" where
  "rp_apply m first final previous levels =
     (if rp_status m = RefAwaitingBaseline \<or> rp_status m = RefNeedsResync
      then Some (rp_simple m RefRejectedWrongState, m)
      else case rp_last m of
        None \<Rightarrow> None
      | Some current \<Rightarrow>
          let starts_at_successor = (current \<noteq> UINT64_MAX \<and> first = current + 1);
              applied =
                (let m1 = rp_apply_levels m levels;
                     m2 = (if final > current then m1\<lparr>rp_last := Some final\<rparr> else m1);
                     m3 = m2\<lparr>rp_status := RefSynchronized\<rparr>
                 in Some (rp_simple m3 RefApplied, m3))
          in
          if final < current then Some (rp_simple m RefIgnoredStale, m)
          else if rp_policy m = RefSpot then
            (if final = current then Some (rp_simple m RefIgnoredDuplicate, m)
             else if rp_status m = RefAwaitingBridge then
               (if first > current \<and> \<not> starts_at_successor
                  then rp_gap m first final previous RefSpotBootstrapForwardGap
                else applied)
             else if first > current \<and> \<not> starts_at_successor
               then rp_gap m first final previous RefSpotLiveForwardGap
             else applied)
          else if rp_status m = RefAwaitingBridge then
            (if first > current then rp_gap m first final previous RefFuturesBootstrapRangeMiss
             else if previous = None then rp_gap m first final previous RefFuturesMissingPreviousFinal
             else applied)
          else
            (if final = current then Some (rp_simple m RefIgnoredDuplicate, m)
             else if previous = None then rp_gap m first final previous RefFuturesMissingPreviousFinal
             else if previous \<noteq> Some current
               then rp_gap m first final previous RefFuturesPreviousFinalMismatch
             else applied))"

definition rp_reset :: "reference_projection \<Rightarrow> reference_projection" where
  "rp_reset m = m\<lparr>rp_status := RefAwaitingBaseline, rp_last := None, rp_last_gap := None,
     rp_bids := [], rp_asks := []\<rparr>"

definition rp_synchronized_visible :: "reference_projection \<Rightarrow> bool" where
  "rp_synchronized_visible m \<longleftrightarrow> rp_status m = RefSynchronized"

subsection \<open>Correspondence of the two vocabularies\<close>

fun reference_status :: "projection_status \<Rightarrow> ref_status" where
  "reference_status AwaitingBaseline = RefAwaitingBaseline"
| "reference_status AwaitingBridge = RefAwaitingBridge"
| "reference_status Synchronized = RefSynchronized"
| "reference_status NeedsResync = RefNeedsResync"

fun reference_policy :: "sequence_policy_kind \<Rightarrow> ref_policy" where
  "reference_policy Spot = RefSpot"
| "reference_policy UsdMPerpetual = RefUsdM"

fun reference_disposition :: "apply_disposition \<Rightarrow> ref_disposition" where
  "reference_disposition Applied = RefApplied"
| "reference_disposition IgnoredStale = RefIgnoredStale"
| "reference_disposition IgnoredDuplicate = RefIgnoredDuplicate"
| "reference_disposition GapDetected = RefGapDetected"
| "reference_disposition RejectedWrongState = RefRejectedWrongState"

fun reference_gap_reason :: "gap_reason \<Rightarrow> ref_gap_reason" where
  "reference_gap_reason SpotBootstrapForwardGap = RefSpotBootstrapForwardGap"
| "reference_gap_reason SpotLiveForwardGap = RefSpotLiveForwardGap"
| "reference_gap_reason FuturesBootstrapRangeMiss = RefFuturesBootstrapRangeMiss"
| "reference_gap_reason FuturesMissingPreviousFinal = RefFuturesMissingPreviousFinal"
| "reference_gap_reason FuturesPreviousFinalMismatch = RefFuturesPreviousFinalMismatch"

definition reference_gap :: "gap_info \<Rightarrow> ref_gap" where
  "reference_gap g = \<lparr>rg_last = last_accepted_final g, rg_first = range_first (incoming_range g),
     rg_final = range_final (incoming_range g), rg_previous = incoming_previous_final g,
     rg_reason = reference_gap_reason (reason g), rg_policy = reference_policy (gap_policy g)\<rparr>"

definition raw_of :: "book_side \<Rightarrow> book_level \<Rightarrow> raw_level" where
  "raw_of side l = \<lparr>raw_bid = (side = Bid), raw_price = price_value (lvl_price l),
     raw_quantity = quantity_value (lvl_quantity l)\<rparr>"

definition raw_of_update :: "level_update \<Rightarrow> raw_level" where
  "raw_of_update u = raw_of (upd_side u) (BookLevel (upd_price u) (upd_quantity u))"

lemma raw_of_sel [simp]:
  "raw_bid (raw_of side l) \<longleftrightarrow> side = Bid" "raw_price (raw_of side l) = price_value (lvl_price l)"
  "raw_quantity (raw_of side l) = quantity_value (lvl_quantity l)"
  by (simp_all add: raw_of_def)

lemma reference_status_eq [simp]: "reference_status a = reference_status b \<longleftrightarrow> a = b"
  by (cases a; cases b) simp_all

lemma reference_status_iff [simp]:
  "reference_status a = RefAwaitingBaseline \<longleftrightarrow> a = AwaitingBaseline"
  "reference_status a = RefAwaitingBridge \<longleftrightarrow> a = AwaitingBridge"
  "reference_status a = RefSynchronized \<longleftrightarrow> a = Synchronized"
  "reference_status a = RefNeedsResync \<longleftrightarrow> a = NeedsResync"
  by (cases a; simp)+

lemma reference_policy_iff [simp]: "reference_policy a = RefSpot \<longleftrightarrow> a = Spot"
  by (cases a) simp_all

subsection \<open>The level updates correspond\<close>

lemma insort_key_map: "insort_key f (g x) (map g xs) = map g (insort_key (\<lambda>a. f (g a)) x xs)"
  by (induction xs) simp_all

lemma sort_key_map: "sort_key f (map g xs) = map g (sort_key (\<lambda>a. f (g a)) xs)"
  by (induction xs) (simp_all add: insort_key_map)

lemma find_if_price_map [simp]: "find_if_price (map (raw_of side) ls) (price_value p) = ref_find_level ls p"
  by (induction ls) (simp_all add: raw_of_def price_value_inject)

definition updated_levels :: "book_level list \<Rightarrow> price_units \<Rightarrow> quantity_units \<Rightarrow> book_level list" where
  "updated_levels ls p q =
     (let i = ref_find_level ls p in
      if quantity_value q = 0 then (if i \<noteq> length ls then take i ls @ drop (Suc i) ls else ls)
      else if i \<noteq> length ls then ls[i := (ls ! i)\<lparr>lvl_quantity := q\<rparr>]
      else ls @ [BookLevel p q])"

lemma ref_apply_level_updated:
  "ref_levels (ref_apply_level ref side p q) side =
     (let ls = updated_levels (ref_levels ref side) p q in
      if quantity_value q = 0 then ls else sort_levels side ls)"
  by (simp add: ref_apply_level_def updated_levels_def ref_sort_side_def Let_def)

lemma rp_update_levels_eq:
  "rp_update_levels (map (raw_of side) ls) (raw_of side (BookLevel p q)) =
     map (raw_of side) (sort_levels side (updated_levels ls p q))"
proof -
  let ?i = "ref_find_level ls p"
  have upd: "(map (raw_of s) ls)[?i := (map (raw_of s) ls ! ?i)\<lparr>raw_quantity := quantity_value q\<rparr>] =
      map (raw_of s) (ls[?i := (ls ! ?i)\<lparr>lvl_quantity := q\<rparr>])" if "?i \<noteq> length ls" for s
  proof -
    have "?i < length ls" using that ref_find_level_props(1)[of ls p] by linarith
    then show ?thesis by (simp add: map_update raw_of_def)
  qed
  have "rp_update_levels (map (raw_of side) ls) (raw_of side (BookLevel p q)) =
      (if side = Bid then sort_key (\<lambda>l. - raw_price l) (map (raw_of side) (updated_levels ls p q))
       else sort_key raw_price (map (raw_of side) (updated_levels ls p q)))"
    by (simp add: rp_update_levels_def Let_def updated_levels_def take_map drop_map upd)
  then show ?thesis by (simp add: sort_key_map sort_levels_def)
qed

lemma rp_update_levels_map:
  assumes "\<And>side. ref_levels ref side = spec_levels side (B side)" and "\<And>side. finite (dom (B side))"
  shows "rp_update_levels (map (raw_of side) (ref_levels ref side)) (raw_of side (BookLevel p q)) =
    map (raw_of side) (ref_levels (ref_apply_level ref side p q) side)"
proof -
  have "sort_levels side (ref_levels (ref_apply_level ref side p q) side) =
      ref_levels (ref_apply_level ref side p q) side"
  proof -
    have fin: "finite (dom (spec_apply side p q B side))"
      using assms(2)[of side] by (simp add: spec_apply_def)
    note props = spec_levels_props[OF fin, of side]
    show ?thesis
      using sort_levels_eq[OF side_order.sorted_wrt_distinct[OF props(1)], of side] props(2)
      unfolding ref_apply_level_levels[OF assms] by simp
  qed
  then show ?thesis
    unfolding rp_update_levels_eq by (simp add: ref_apply_level_updated Let_def split: if_splits)
qed

subsection \<open>The simulation\<close>

text \<open>
  \<open>tracks p m\<close>: the production projection and the reference are in corresponding states.  The
  reference book in the middle carries the agreement of the levels.
\<close>

definition tracks :: "book_projection \<Rightarrow> reference_projection \<Rightarrow> bool" where
  "tracks p m \<longleftrightarrow> projection_inv p \<and>
     rp_policy m = reference_policy (bp_policy p) \<and> rp_status m = reference_status (bp_status p) \<and>
     rp_last m = bp_last_update_id p \<and> rp_last_gap m = map_option reference_gap (bp_last_gap p) \<and>
     rp_bids m = map (raw_of Bid) (OrderBook_all_levels (bp_book p) Bid) \<and>
     rp_asks m = map (raw_of Ask) (OrderBook_all_levels (bp_book p) Ask)"

definition result_matches :: "apply_result \<Rightarrow> ref_result \<Rightarrow> bool" where
  "result_matches r s \<longleftrightarrow> rr_disposition s = reference_disposition (ar_disposition r) \<and>
     rr_status s = reference_status (ar_status_after r) \<and> rr_last s = ar_last_update_id_after r \<and>
     rr_gap s = map_option reference_gap (ar_gap r)"

text \<open>The levels of the reference, as a book.\<close>

definition carries :: "reference_projection \<Rightarrow> order_book \<Rightarrow> bool" where
  "carries m book \<longleftrightarrow> book_wf book \<and> no_zero (book_abs book) \<and>
     rp_bids m = map (raw_of Bid) (OrderBook_all_levels book Bid) \<and>
     rp_asks m = map (raw_of Ask) (OrderBook_all_levels book Ask)"

lemma carries_apply_level:
  assumes "carries m book"
  shows "carries (rp_apply_level m (raw_of_update u))
    (snd (OrderBook_apply_level book (upd_side u) (upd_price u) (upd_quantity u)))"
proof -
  let ?side = "upd_side u" and ?p = "upd_price u" and ?q = "upd_quantity u"
  let ?ref = "\<lparr>ref_bids = OrderBook_all_levels book Bid, ref_asks = OrderBook_all_levels book Ask\<rparr>"
  let ?book = "snd (OrderBook_apply_level book ?side ?p ?q)"
  have agree: "books_agree book ?ref"
    using assms by (auto simp: carries_def books_agree_def ref_levels_def intro: book_side.exhaust)
  have agree': "books_agree ?book (ref_apply_level ?ref ?side ?p ?q)"
    by (rule agree_apply_level[OF agree])
  then have new: "OrderBook_all_levels ?book side = ref_levels (ref_apply_level ?ref ?side ?p ?q) side" for side
    by (simp add: books_agree_def)
  have upd: "rp_update_levels (map (raw_of ?side) (ref_levels ?ref ?side)) (raw_of_update u) =
      map (raw_of ?side) (OrderBook_all_levels ?book ?side)"
    unfolding new raw_of_update_def by (rule rp_update_levels_map) (rule agree_abs[OF agree])+
  have same: "OrderBook_all_levels ?book side = OrderBook_all_levels book side" if "side \<noteq> ?side" for side
    using that unfolding new
    by (cases side) (auto simp: ref_apply_level_def Let_def ref_sort_side_def ref_levels_def ref_set_levels_def)
  have wf: "book_wf ?book" "no_zero (book_abs ?book)" using agree' by (simp_all add: books_agree_def)
  have bid: "raw_bid (raw_of_update u) \<longleftrightarrow> ?side = Bid" by (simp add: raw_of_update_def raw_of_def)
  show ?thesis
    using assms upd same[of Bid] same[of Ask] wf
    by (cases ?side) (simp_all add: carries_def rp_apply_level_def bid ref_levels_def)
qed

lemma carries_apply_levels:
  "carries m book \<Longrightarrow> carries (rp_apply_levels m (map raw_of_update us)) (OrderBook_apply_updates book us)"
proof (induction us arbitrary: m book)
  case (Cons u us)
  from Cons.IH[OF carries_apply_level[OF Cons.prems, of u]] show ?case by simp
qed simp

lemma rp_apply_levels_frame [simp]:
  "rp_policy (rp_apply_levels m ls) = rp_policy m" "rp_status (rp_apply_levels m ls) = rp_status m"
  "rp_last (rp_apply_levels m ls) = rp_last m" "rp_last_gap (rp_apply_levels m ls) = rp_last_gap m"
  by (induction ls arbitrary: m) (simp_all add: rp_apply_level_def)

text \<open>Splitting a list of updates by side and replacing the book is applying them to a cleared one.\<close>

definition side_levels :: "book_side \<Rightarrow> level_update list \<Rightarrow> book_level list" where
  "side_levels side us = map (\<lambda>u. BookLevel (upd_price u) (upd_quantity u)) (filter (\<lambda>u. upd_side u = side) us)"

lemma updates_at_side_levels:
  "updates_at side p (levels_as_updates side' (side_levels side' us)) =
     (if side' = side then updates_at side p us else [])"
  by (induction us) (auto simp: updates_at_def levels_as_updates_def side_levels_def)

lemma updates_at_append: "updates_at side p (us @ vs) = updates_at side p us @ updates_at side p vs"
  by (simp add: updates_at_def)

lemma replace_all_side_levels:
  assumes "book_wf book"
  shows "OrderBook_replace_all book (side_levels Bid us) (side_levels Ask us) =
    OrderBook_apply_updates (OrderBook_clear book) us"
proof (rule order_book_eqI)
  have clear: "book_wf (OrderBook_clear book)" "book_abs (OrderBook_clear book) = (\<lambda>_. Map.empty)"
    using ob.clear[OF assms] by simp_all
  show "book_wf (OrderBook_replace_all book (side_levels Bid us) (side_levels Ask us))"
    "book_wf (OrderBook_apply_updates (OrderBook_clear book) us)"
    using ob.replace_all[OF assms] ob.apply_updates[OF clear(1), of us] by simp_all
  have "updates_at side p (levels_as_updates Bid (side_levels Bid us) @ levels_as_updates Ask (side_levels Ask us)) =
      updates_at side p us" for side p
    by (cases side) (simp_all add: updates_at_append updates_at_side_levels)
  then have "spec_replace (side_levels Bid us) (side_levels Ask us) = spec_updates us (\<lambda>_. Map.empty)"
    unfolding spec_replace_updates by (intro spec_updates_permute) simp_all
  then show "book_abs (OrderBook_replace_all book (side_levels Bid us) (side_levels Ask us)) =
      book_abs (OrderBook_apply_updates (OrderBook_clear book) us)"
    using ob.replace_all[OF assms] ob.apply_updates[OF clear(1), of us] clear(2) by simp
  show "ob_spec (OrderBook_replace_all book (side_levels Bid us) (side_levels Ask us)) =
      ob_spec (OrderBook_apply_updates (OrderBook_clear book) us)"
    using ob.replace_all[OF assms] ob.apply_updates[OF clear(1), of us] ob.clear[OF assms] by simp
qed

lemma tracks_carries: "tracks p m \<Longrightarrow> carries m (bp_book p)"
  by (simp add: tracks_def carries_def projection_inv_def)

lemma carries_cong: "carries m b \<Longrightarrow> rp_bids m' = rp_bids m \<Longrightarrow> rp_asks m' = rp_asks m \<Longrightarrow> carries m' b"
  by (simp add: carries_def)

lemma carries_clear:
  assumes "book_wf b" "rp_bids m = []" "rp_asks m = []"
  shows "carries m (OrderBook_clear b)"
proof -
  have "OrderBook_all_levels (OrderBook_clear b) side = []" for side
    using ob.clear[OF assms(1)] ob.all_levels_eq[of "OrderBook_clear b" side] spec_levels_props(4)[of Map.empty side]
    by simp
  with assms ob.clear[OF assms(1)] show ?thesis by (simp add: carries_def no_zero_empty)
qed

lemma tracks_create: "tracks (BookProjection_create spec policy) (ReferenceProjection_create (reference_policy policy))"
  using carries_clear[OF book_create(1), of "ReferenceProjection_create (reference_policy policy)" spec]
    create_inv[of spec policy]
  by (simp add: tracks_def carries_def BookProjection_create_def ReferenceProjection_create_def
      OrderBook_clear_def OrderBook_create_def)

lemma tracks_reset: "tracks p m \<Longrightarrow> tracks (BookProjection_reset p) (rp_reset m)"
  using carries_clear[of "bp_book p" "rp_reset m"] reset_inv[of p]
  by (auto simp: tracks_def carries_def BookProjection_reset_def rp_reset_def projection_inv_def)

lemma tracks_install:
  assumes "tracks p m"
    and "install_baseline p \<lparr>bb_last_update_id = i, bb_bids = side_levels Bid us, bb_asks = side_levels Ask us\<rparr> = (r, p')"
    and "rp_install m i (map raw_of_update us) = (s, m')"
  shows "tracks p' m'" and "ir_disposition r = Installed \<longleftrightarrow> ri_disposition s = RefInstalled"
    and "ir_disposition r = InstallRejectedWrongState \<longleftrightarrow> ri_disposition s = RefInstallRejectedWrongState"
proof -
  have inv: "projection_inv p'" using assms(1,2) install_baseline_inv by (auto simp: tracks_def)
  have wf: "book_wf (bp_book p)" using assms(1) by (simp add: tracks_def projection_inv_def)
  have "carries (rp_apply_levels (m\<lparr>rp_bids := [], rp_asks := []\<rparr>) (map raw_of_update us))
      (OrderBook_apply_updates (OrderBook_clear (bp_book p)) us)"
    by (rule carries_apply_levels) (rule carries_clear[OF wf], simp_all)
  with assms inv show "tracks p' m'" "ir_disposition r = Installed \<longleftrightarrow> ri_disposition s = RefInstalled"
    "ir_disposition r = InstallRejectedWrongState \<longleftrightarrow> ri_disposition s = RefInstallRejectedWrongState"
    by (auto simp: tracks_def carries_def install_baseline_def rp_install_def Let_def make_install_result_def
        replace_all_side_levels[OF wf] split: if_splits)
qed

lemma successor_covered:
  "\<not> (first > current \<and> \<not> (current \<noteq> UINT64_MAX \<and> first = current + 1)) \<longleftrightarrow> covers_successor current first"
  by (auto simp: covers_successor_def)

lemma rp_apply_eq:
  assumes "tracks p m" and "bp_last_update_id p = Some current" and "bp_status p \<noteq> NeedsResync"
  shows "rp_apply m (range_first (db_range b)) (range_final (db_range b)) (db_previous_final b) ls =
    (let c = classify p current b;
         m1 = rp_apply_levels m ls;
         m2 = (if range_final (db_range b) > current then m1\<lparr>rp_last := Some (range_final (db_range b))\<rparr> else m1);
         m3 = m2\<lparr>rp_status := RefSynchronized\<rparr>
     in case decision c of
          Stale \<Rightarrow> Some (rp_simple m RefIgnoredStale, m)
        | Duplicate \<Rightarrow> Some (rp_simple m RefIgnoredDuplicate, m)
        | Gap \<Rightarrow> (case cl_gap_reason c of None \<Rightarrow> None
                 | Some r \<Rightarrow> rp_gap m (range_first (db_range b)) (range_final (db_range b))
                     (db_previous_final b) (reference_gap_reason r))
        | Apply \<Rightarrow> Some (rp_simple m3 RefApplied, m3))"
proof -
  have m: "rp_last m = Some current" "rp_status m = reference_status (bp_status p)"
    "rp_policy m = reference_policy (bp_policy p)" "bp_status p \<noteq> AwaitingBaseline"
    using assms by (auto simp: tracks_def projection_inv_def)
  show ?thesis
  proof (cases "bp_policy p")
    case Spot
    with m assms(3) show ?thesis
      unfolding rp_apply_def classify_def classify_spot_bootstrap_def classify_spot_live_def Let_def
        successor_covered[symmetric]
      by simp
  next
    case UsdMPerpetual
    with m assms(3) show ?thesis
      unfolding rp_apply_def classify_def classify_usdm_bootstrap_def classify_usdm_live_def Let_def
      by (simp split: option.split)
  qed
qed

lemma tracks_apply:
  assumes "tracks p m" and "apply_batch p b = Some (r, p')"
  obtains s m' where "rp_apply m (range_first (db_range b)) (range_final (db_range b)) (db_previous_final b)
      (map raw_of_update (db_levels b)) = Some (s, m')"
    "result_matches r s" "tracks p' m'"
proof (cases "bp_status p = AwaitingBaseline \<or> bp_status p = NeedsResync")
  case True
  with assms that[of "rp_simple m RefRejectedWrongState" m] show ?thesis
    by (auto simp: tracks_def apply_batch_def rp_apply_def result_matches_def rp_simple_def make_apply_result_def)
next
  case False
  have inv: "projection_inv p" "projection_inv p'"
    using assms apply_batch_inv by (auto simp: tracks_def)
  then obtain current where current: "bp_last_update_id p = Some current"
    using False by (auto simp: projection_inv_def)
  have tx: "apply_transaction p us = p\<lparr>bp_book := OrderBook_apply_updates (bp_book p) us\<rparr>" for us
    using inv(1) by (intro apply_transaction_eq) (simp_all add: projection_inv_def)
  have carr: "carries (rp_apply_levels m (map raw_of_update (db_levels b)))
      (OrderBook_apply_updates (bp_book p) (db_levels b))"
    by (rule carries_apply_levels) (rule tracks_carries[OF assms(1)])
  have "\<exists>s m'. rp_apply m (range_first (db_range b)) (range_final (db_range b)) (db_previous_final b)
      (map raw_of_update (db_levels b)) = Some (s, m') \<and> result_matches r s \<and> tracks p' m'"
  proof (cases "decision (classify p current b)")
    case Apply
    with assms False current inv carr show ?thesis
      by (auto simp: rp_apply_eq[OF assms(1) current] apply_batch_def tx Let_def tracks_def carries_def
          result_matches_def rp_simple_def make_apply_result_def)
  next
    case Gap
    with assms False current inv show ?thesis
      by (auto simp: rp_apply_eq[OF assms(1) current] apply_batch_def Let_def tracks_def record_gap_def rp_gap_def
          result_matches_def reference_gap_def split: option.splits)
  qed (use assms False current in \<open>auto simp: rp_apply_eq[OF assms(1) current] apply_batch_def Let_def
      tracks_def result_matches_def rp_simple_def make_apply_result_def\<close>)
  with that show ?thesis by blast
qed

end
