(* ===== verification/Fuzz_Projection.thy ===== *)
theory Fuzz_Projection
  imports Reference_Projection
begin

unbundle bit_operations_syntax

text \<open>
  The fuzz target of \<open>fuzz/book_projection_fuzz.cpp\<close>: arbitrary bytes drive the production projection
  and the independent reference side by side; every result and the whole observable state are
  compared after every operation, and any difference aborts.  \<open>abort\<close> and an exception out of
  \<open>value()\<close> are \<open>None\<close>.  The theorem is that no input aborts.
\<close>

definition require_that :: "bool \<Rightarrow> 'a option \<Rightarrow> 'a option" where
  "require_that condition k = (if condition then k else None)"

subsection \<open>Decoding\<close>

text \<open>The codes compared with are those of the characters \<open>Z\<close>, \<open>0\<close>, \<open>9\<close> and \<open>E\<close>.\<close>

definition decode_id :: "uint8 \<Rightarrow> uint64" where
  "decode_id b =
     (if b = 0x5A then UINT64_MAX
      else if b \<ge> 0x30 \<and> b \<le> 0x39 then of_nat (unat b - 0x30)
      else of_nat (unat b mod 64))"

definition fuzz_decode_levels :: "uint8 list \<Rightarrow> bool \<Rightarrow> raw_level list" where
  "fuzz_decode_levels operation baseline =
     (if operation ! 7 = 0x45 then []
      else
        let price_v = int (unat (operation ! 5) mod 32 + 1);
            quantity_v = int (unat (operation ! 6) mod 8);
            bid = (operation ! 4 AND 1 = 0)
        in [\<lparr>raw_bid = bid, raw_price = price_v, raw_quantity = quantity_v\<rparr>] @
           (if operation ! 7 AND 1 \<noteq> 0
              then [\<lparr>raw_bid = bid, raw_price = price_v,
                     raw_quantity = int ((unat (operation ! 6) + 1) mod 8)\<rparr>] else []) @
           (if baseline \<and> operation ! 7 AND 2 \<noteq> 0
              then [\<lparr>raw_bid = (\<not> bid),
                     raw_price = int ((unat (operation ! 5) + unat (operation ! 7)) mod 32 + 1),
                     raw_quantity = int ((unat (operation ! 6) + 2) mod 8)\<rparr>] else []))"

fun to_updates :: "raw_level list \<Rightarrow> level_update list option" where
  "to_updates [] = Some []"
| "to_updates (l # ls) =
     (case PriceUnits_create (raw_price l) of
        None \<Rightarrow> None
      | Some p \<Rightarrow>
          (case QuantityUnits_create (raw_quantity l) of
             None \<Rightarrow> None
           | Some q \<Rightarrow>
               (case to_updates ls of
                  None \<Rightarrow> None
                | Some us \<Rightarrow> Some (LevelUpdate (if raw_bid l then Bid else Ask) p q # us))))"

fun to_baseline :: "raw_level list \<Rightarrow> bool \<Rightarrow> book_level list option" where
  "to_baseline [] bid = Some []"
| "to_baseline (l # ls) bid =
     (if raw_bid l = bid then
        (case PriceUnits_create (raw_price l) of
           None \<Rightarrow> None
         | Some p \<Rightarrow>
             (case QuantityUnits_create (raw_quantity l) of
                None \<Rightarrow> None
              | Some q \<Rightarrow>
                  (case to_baseline ls bid of
                     None \<Rightarrow> None
                   | Some bs \<Rightarrow> Some (BookLevel p q # bs))))
      else to_baseline ls bid)"

definition decode_previous :: "uint8 \<Rightarrow> reference_projection \<Rightarrow> uint64 option" where
  "decode_previous mode model =
     (if unat mode mod 3 = 0 then None
      else
        let current = (case rp_last model of None \<Rightarrow> 0 | Some v \<Rightarrow> v)
        in Some (if unat mode mod 3 = 1 then current else current + 1))"

subsection \<open>Comparison\<close>

definition raw_levels :: "order_book \<Rightarrow> book_side \<Rightarrow> raw_level list" where
  "raw_levels book side =
     map (\<lambda>l. \<lparr>raw_bid = (side = Bid), raw_price = price_value (lvl_price l),
       raw_quantity = quantity_value (lvl_quantity l)\<rparr>) (OrderBook_all_levels book side)"

definition check_gap :: "gap_info option \<Rightarrow> ref_gap option \<Rightarrow> bool" where
  "check_gap production model \<longleftrightarrow>
     (case (production, model) of
        (None, None) \<Rightarrow> True
      | (Some g, Some h) \<Rightarrow>
          last_accepted_final g = rg_last h \<and>
          range_first (incoming_range g) = rg_first h \<and>
          range_final (incoming_range g) = rg_final h \<and>
          same_option (incoming_previous_final g) (rg_previous h) \<and>
          reference_gap_reason (reason g) = rg_reason h \<and>
          reference_policy (gap_policy g) = rg_policy h
      | _ \<Rightarrow> False)"

definition check_state :: "book_projection \<Rightarrow> reference_projection \<Rightarrow> bool" where
  "check_state production model \<longleftrightarrow>
     reference_status (bp_status production) = rp_status model \<and>
     (synchronized_book production \<noteq> None) = rp_synchronized_visible model \<and>
     raw_levels (diagnostic_book production) Bid = rp_bids model \<and>
     raw_levels (diagnostic_book production) Ask = rp_asks model \<and>
     same_option (bp_last_update_id production) (rp_last model) \<and>
     check_gap (bp_last_gap production) (rp_last_gap model)"

definition check_result :: "apply_result \<Rightarrow> ref_result \<Rightarrow> bool" where
  "check_result production model \<longleftrightarrow>
     reference_disposition (ar_disposition production) = rr_disposition model \<and>
     reference_status (ar_status_after production) = rr_status model \<and>
     same_option (ar_last_update_id_after production) (rr_last model) \<and>
     check_gap (ar_gap production) (rr_gap model)"

subsection \<open>Operations\<close>

type_synonym projections = "book_projection \<times> reference_projection"

definition apply_valid ::
  "projections \<Rightarrow> uint64 \<Rightarrow> uint64 \<Rightarrow> uint64 option \<Rightarrow> raw_level list \<Rightarrow> projections option" where
  "apply_valid pm first final previous raw =
     (let (production, model) = pm in
      require_that (first \<le> final) (
      case UpdateRange_try_create first final of
        None \<Rightarrow> None
      | Some rng \<Rightarrow>
          (case to_updates raw of
             None \<Rightarrow> None
           | Some updates \<Rightarrow>
               (case apply_batch production
                       \<lparr>db_range = rng, db_previous_final = previous, db_levels = updates\<rparr> of
                  None \<Rightarrow> None
                | Some (production_result, production') \<Rightarrow>
                    (case rp_apply model first final previous raw of
                       None \<Rightarrow> None
                     | Some (model_result, model') \<Rightarrow>
                         require_that (check_result production_result model_result)
                           (Some (production', model')))))))"

definition fuzz_install :: "projections \<Rightarrow> uint64 \<Rightarrow> raw_level list \<Rightarrow> projections option" where
  "fuzz_install pm last_id raw =
     (let (production, model) = pm in
      case to_baseline raw True of
        None \<Rightarrow> None
      | Some bids \<Rightarrow>
          (case to_baseline raw False of
             None \<Rightarrow> None
           | Some asks \<Rightarrow>
               let (production_result, production') =
                     install_baseline production
                       \<lparr>bb_last_update_id = last_id, bb_bids = bids, bb_asks = asks\<rparr>;
                   (model_result, model') = rp_install model last_id raw
               in require_that
                    ((ir_disposition production_result = Installed) = (ri_disposition model_result = RefInstalled))
                    (Some (production', model'))))"

text \<open>Cases 7 and 8 of the \<open>switch\<close>: a batch that skips an id, and one that connects.\<close>

definition fuzz_skip_ahead :: "bool \<Rightarrow> projections \<Rightarrow> raw_level list \<Rightarrow> projections option" where
  "fuzz_skip_ahead spot pm raw =
     (case rp_last (snd pm) of
        None \<Rightarrow> Some pm
      | Some current \<Rightarrow>
          if current < UINT64_MAX - 2
            then apply_valid pm (current + 2) (current + 2) (if spot then None else Some (current + 1)) raw
          else Some pm)"

definition fuzz_connect ::
  "bool \<Rightarrow> projections \<Rightarrow> uint8 list \<Rightarrow> raw_level list \<Rightarrow> projections option" where
  "fuzz_connect spot pm operation raw =
     (case rp_last (snd pm) of
        None \<Rightarrow> Some pm
      | Some current \<Rightarrow>
          if spot then
            (if current < UINT64_MAX then
               let exact_next = (operation ! 7 AND 1 \<noteq> 0);
                   first = (if rp_status (snd pm) = RefAwaitingBridge
                            then (if exact_next then current + 1 else current) else current + 1)
               in apply_valid pm first (current + 1) None raw
             else Some pm)
          else if rp_status (snd pm) = RefAwaitingBridge then apply_valid pm current current (Some current) raw
          else if current < UINT64_MAX - 6 then apply_valid pm (current + 5) (current + 6) (Some current) raw
          else Some pm)"

definition fuzz_projection_operation ::
  "bool \<Rightarrow> uint8 list \<Rightarrow> projections \<Rightarrow> projections option" where
  "fuzz_projection_operation spot operation pm =
     (let type = unat (operation ! 0) mod 9;
          raw = fuzz_decode_levels operation (type = 0);
          (production, model) = pm;
          after =
            (if type = 0 then fuzz_install pm (decode_id (operation ! 1)) raw
             else if type = 1 then
               (let a = decode_id (operation ! 1); b = decode_id (operation ! 2);
                    (first, final) = (if a > b then (b, a) else (a, b))
                in apply_valid pm first final (decode_previous (operation ! 3) model) raw)
             else if type = 2 then Some (BookProjection_reset production, rp_reset model)
             else if type = 3 then Some pm
             else if type = 4 then
               (case rp_last model of None \<Rightarrow> Some pm | Some v \<Rightarrow> apply_valid pm 0 v None raw)
             else if type = 5 then
               (case rp_last model of
                  None \<Rightarrow> Some pm
                | Some v \<Rightarrow> if v > 0 then apply_valid pm 0 (v - 1) None raw else Some pm)
             else if type = 6 then require_that (UpdateRange_try_create 2 1 = None) (Some pm)
             else if type = 7 then fuzz_skip_ahead spot pm raw
             else if type = 8 then fuzz_connect spot pm operation raw
             else Some pm)
      in case after of
           None \<Rightarrow> None
         | Some (production', model') \<Rightarrow>
             require_that (check_state production' model') (Some (production', model')))"

fun fuzz_projection_operations ::
  "bool \<Rightarrow> uint8 list \<Rightarrow> nat \<Rightarrow> nat \<Rightarrow> projections \<Rightarrow> projections option" where
  "fuzz_projection_operations spot data index 0 pm = Some pm"
| "fuzz_projection_operations spot data index (Suc n) pm =
     (case fuzz_projection_operation spot (take 8 (drop (1 + index * 8) data)) pm of
        None \<Rightarrow> None
      | Some pm' \<Rightarrow> fuzz_projection_operations spot data (index + 1) n pm')"

definition book_projection_fuzz_one_input :: "uint8 list \<Rightarrow> unit option" where
  "book_projection_fuzz_one_input data =
     (if length data < 1 then Some ()
      else
        let spot = (data ! 0 = 0x53 \<or> data ! 0 AND 1 = 0);
            production_policy = (if spot then Spot else UsdMPerpetual);
            model_policy = (if spot then RefSpot else RefUsdM)
        in
        case DecimalScale_create 8 of
          None \<Rightarrow> None
        | Some scale \<Rightarrow>
            let production = BookProjection_create \<lparr>price_scale = scale, quantity_scale = scale\<rparr> production_policy;
                model = ReferenceProjection_create model_policy;
                available_operations = (length data - 1) div 8;
                operation_count = min available_operations 256
            in
            (case fuzz_projection_operations spot data 0 operation_count (production, model) of
               None \<Rightarrow> None
             | Some _ \<Rightarrow> Some ()))"

subsection \<open>The checks hold on tracking projections\<close>

lemma tracks_check_state: "tracks p m \<Longrightarrow> check_state p m"
  by (auto simp: tracks_def check_state_def synchronized_book_def rp_synchronized_visible_def diagnostic_book_def
      raw_levels_def raw_of_def[abs_def] same_option_def check_gap_def reference_gap_def split: option.split)

lemma matches_check_result: "result_matches r s \<Longrightarrow> check_result r s"
  by (auto simp: result_matches_def check_result_def same_option_def check_gap_def reference_gap_def
      split: option.split)

subsection \<open>Decoded levels are valid\<close>

definition valid_raw :: "raw_level \<Rightarrow> bool" where
  "valid_raw l \<longleftrightarrow> 0 < raw_price l \<and> raw_price l \<le> INT64_MAX \<and> 0 \<le> raw_quantity l \<and> raw_quantity l \<le> INT64_MAX"

lemma decoded_level_valid:
  "valid_raw \<lparr>raw_bid = bid, raw_price = int (n mod 32 + 1), raw_quantity = int (k mod 8)\<rparr>"
proof -
  have "n mod 32 < 32" "k mod 8 < 8" by simp_all
  then have "int (n mod 32 + 1) \<le> 33" "int (k mod 8) \<le> 8" by linarith+
  then show ?thesis unfolding valid_raw_def raw_level.select_convs by linarith
qed

lemma decoded_levels_valid: "list_all valid_raw (fuzz_decode_levels operation baseline)"
proof (cases "operation ! 7 = 0x45")
  case False
  have optional: "list_all valid_raw (if b then [l] else [])" if "valid_raw l" for b l
    using that by simp
  have single: "list_all valid_raw [l]" if "valid_raw l" for l using that by simp
  show ?thesis
    unfolding fuzz_decode_levels_def Let_def if_not_P[OF False] list_all_append
    by (intro conjI single optional decoded_level_valid)
qed (simp add: fuzz_decode_levels_def)

lemma to_updates_valid:
  assumes "list_all valid_raw raw"
  obtains us where "to_updates raw = Some us" "raw = map raw_of_update us"
    "to_baseline raw True = Some (side_levels Bid us)" "to_baseline raw False = Some (side_levels Ask us)"
proof -
  have "\<exists>us. to_updates raw = Some us \<and> raw = map raw_of_update us \<and>
      to_baseline raw True = Some (side_levels Bid us) \<and> to_baseline raw False = Some (side_levels Ask us)"
    using assms
  proof (induction raw)
    case (Cons l raw)
    then obtain us where us: "to_updates raw = Some us" "raw = map raw_of_update us"
      "to_baseline raw True = Some (side_levels Bid us)" "to_baseline raw False = Some (side_levels Ask us)"
      by auto
    let ?p = "PriceUnits (raw_price l)" and ?q = "QuantityUnits (raw_quantity l)"
    let ?u = "LevelUpdate (if raw_bid l then Bid else Ask) ?p ?q"
    have created: "PriceUnits_create (raw_price l) = Some ?p" "QuantityUnits_create (raw_quantity l) = Some ?q"
      using Cons.prems by (simp_all add: valid_raw_def PriceUnits_create_def QuantityUnits_create_def)
    have "raw_of_update ?u = l"
      using Cons.prems by (simp add: valid_raw_def raw_of_update_def raw_of_def)
    then have "l # raw = map raw_of_update (?u # us)" using us(2) by simp
    moreover have "to_updates (l # raw) = Some (?u # us)"
      "to_baseline (l # raw) True = Some (side_levels Bid (?u # us))"
      "to_baseline (l # raw) False = Some (side_levels Ask (?u # us))"
      by (simp_all add: us(1,3,4) created side_levels_def)
    ultimately show ?case by (intro exI[of _ "?u # us"] conjI)
  qed (simp add: side_levels_def)
  with that show ?thesis by blast
qed

subsection \<open>Every operation keeps the projections tracking\<close>

abbreviation survives :: "projections option \<Rightarrow> bool" where
  "survives r \<equiv> \<exists>p m. r = Some (p, m) \<and> tracks p m"

lemma apply_valid_survives:
  assumes "tracks p m" "list_all valid_raw raw" "first \<le> final"
  shows "survives (apply_valid (p, m) first final previous raw)"
proof -
  obtain us where us: "to_updates raw = Some us" "raw = map raw_of_update us"
    using to_updates_valid[OF assms(2)] by metis
  let ?b = "\<lparr>db_range = UpdateRange first final, db_previous_final = previous, db_levels = us\<rparr>"
  have "projection_inv p" using assms(1) by (simp add: tracks_def)
  then obtain r p' where step: "apply_batch p ?b = Some (r, p')" by (rule apply_batch_total)
  obtain s m' where "rp_apply m first final previous raw = Some (s, m')" "result_matches r s" "tracks p' m'"
    using tracks_apply[OF assms(1) step] assms(3) us(2) by auto
  with step assms(3) us(1) show ?thesis
    by (simp add: apply_valid_def require_that_def UpdateRange_try_create_def matches_check_result not_less)
qed

lemma fuzz_install_survives:
  assumes "tracks p m" "list_all valid_raw raw"
  shows "survives (fuzz_install (p, m) i raw)"
proof -
  obtain us where us: "raw = map raw_of_update us" "to_baseline raw True = Some (side_levels Bid us)"
    "to_baseline raw False = Some (side_levels Ask us)"
    using to_updates_valid[OF assms(2)] by metis
  obtain r p' where r: "install_baseline p \<lparr>bb_last_update_id = i, bb_bids = side_levels Bid us,
      bb_asks = side_levels Ask us\<rparr> = (r, p')" by fastforce
  obtain s m' where s: "rp_install m i (map raw_of_update us) = (s, m')" by fastforce
  from tracks_install[OF assms(1) r s] r s us show ?thesis
    by (simp add: fuzz_install_def require_that_def)
qed

lemma word_add_small:
  fixes c :: uint64
  assumes "unat c + k < 2 ^ 64"
  shows "unat (c + of_nat k) = unat c + k"
proof -
  have "unat (of_nat k :: uint64) = k" using assms by (simp add: unat_of_nat take_bit_nat_eq_self)
  with assms show ?thesis by (subst unat_plus_simple[THEN iffD1]) (simp_all add: no_olen_add_nat)
qed

lemma fuzz_connect_survives:
  assumes "tracks p m" "list_all valid_raw raw"
  shows "survives (fuzz_connect spot (p, m) operation raw)" "survives (fuzz_skip_ahead spot (p, m) raw)"
proof -
  have succ: "c \<le> c + 1" if "c < UINT64_MAX" for c :: uint64
    using that word_add_small[of c 1] by (simp add: word_less_nat_alt word_le_nat_alt)
  have five: "c + 5 \<le> c + 6" if "c < UINT64_MAX - 6" for c :: uint64
    using that word_add_small[of c 5] word_add_small[of c 6] by (simp add: word_less_nat_alt word_le_nat_alt)
  show "survives (fuzz_connect spot (p, m) operation raw)"
    using assms by (auto simp: fuzz_connect_def Let_def succ five split: option.split intro!: apply_valid_survives)
  show "survives (fuzz_skip_ahead spot (p, m) raw)"
    using assms by (auto simp: fuzz_skip_ahead_def split: option.split intro!: apply_valid_survives)
qed

lemma fuzz_projection_operation_survives:
  assumes "tracks p m"
  shows "survives (fuzz_projection_operation spot operation (p, m))"
proof -
  note valid = decoded_levels_valid
  note steps = apply_valid_survives[OF assms valid] fuzz_install_survives[OF assms valid]
    fuzz_connect_survives[OF assms valid] tracks_reset[OF assms]
  have check: "survives (case r of None \<Rightarrow> None | Some (p', m') \<Rightarrow>
      require_that (check_state p' m') (Some (p', m')))" if "survives r" for r
    using that by (auto simp: require_that_def tracks_check_state)
  have ex: "\<exists>p. Ex (tracks p)" using assms by blast
  have malformed: "UpdateRange_try_create 2 1 = None" by (simp add: UpdateRange_try_create_def)
  show ?thesis
    unfolding fuzz_projection_operation_def Let_def prod.case
    by (rule check) (simp add: steps assms ex malformed require_that_def split: option.split)
qed

lemma fuzz_projection_operations_survive:
  "tracks p m \<Longrightarrow> survives (fuzz_projection_operations spot data index n (p, m))"
proof (induction n arbitrary: index p m)
  case (Suc n)
  obtain p' m' where "fuzz_projection_operation spot (take 8 (drop (1 + index * 8) data)) (p, m) = Some (p', m')"
    "tracks p' m'"
    using fuzz_projection_operation_survives[OF Suc.prems] by blast
  with Suc.IH show ?case by simp
qed simp

text \<open>
  C16: the projection fuzz target never aborts.  Whatever the input bytes, the production projection
  and the independent reference return the same dispositions, statuses, ids and gap evidence for
  every call, hold the same levels, and hand out a synchronized book at the same times.
\<close>

theorem book_projection_fuzz_never_aborts: "book_projection_fuzz_one_input data = Some ()"
proof -
  have "survives (fuzz_projection_operations spot data 0 n
      (BookProjection_create spec (if spot then Spot else UsdMPerpetual),
       ReferenceProjection_create (if spot then RefSpot else RefUsdM)))" for spot n spec
    using tracks_create[of spec "if spot then Spot else UsdMPerpetual"]
    by (intro fuzz_projection_operations_survive) (simp split: if_splits)
  then have "(case fuzz_projection_operations spot data 0 n
      (BookProjection_create spec (if spot then Spot else UsdMPerpetual),
       ReferenceProjection_create (if spot then RefSpot else RefUsdM)) of
      None \<Rightarrow> None | Some _ \<Rightarrow> Some ()) = Some ()" for spot n spec
    by (metis option.simps(5))
  then show ?thesis
    by (simp add: book_projection_fuzz_one_input_def Let_def DecimalScale_create_def
        del: fuzz_projection_operations.simps)
qed

end
