(* ===== verification/Fuzz_Adapter.thy ===== *)
theory Fuzz_Adapter
  imports Adapter_Inbound Adapter_Outbound
begin

unbundle bit_operations_syntax

text \<open>
  The fuzz target of \<open>fuzz/proto_adapter_fuzz.cpp\<close>: it builds an exchange snapshot and a depth update
  from arbitrary bytes, runs them through the adapter into a projection, tries to bind the batch to a
  projection of another scale, produces outbound snapshots before and after a reset, and aborts when a
  call that must not change a projection changes it, when a binding that must be refused is accepted,
  or when a reset projection yields a snapshot.  \<open>abort\<close> and an exception are \<open>None\<close>; the Contracts and
  the string size bound are parameters as in the adapter.  Every call of the target is made, in its
  order, and what the calls return, which the target in part discards, is kept in a trace: the theorem
  is that no input aborts, and says which calls are made and what they return.
\<close>

text \<open>\<open>checkpoint\<close> of \<open>tests/projection_state/test_helpers.hpp\<close>: what a projection shows.\<close>

record projection_checkpoint =
  cp_status :: projection_status
  cp_last_update_id :: "update_id option"
  cp_last_gap :: "gap_info option"
  cp_synchronized_visible :: bool
  cp_bids :: "book_level list"
  cp_asks :: "book_level list"

definition checkpoint :: "book_projection \<Rightarrow> projection_checkpoint" where
  "checkpoint p = \<lparr>cp_status = bp_status p, cp_last_update_id = bp_last_update_id p,
     cp_last_gap = bp_last_gap p, cp_synchronized_visible = (synchronized_book p \<noteq> None),
     cp_bids = OrderBook_all_levels (diagnostic_book p) Bid,
     cp_asks = OrderBook_all_levels (diagnostic_book p) Ask\<rparr>"

definition adapter_fuzz_scale :: "uint8 \<Rightarrow> decimal_scale option" where
  "adapter_fuzz_scale v = DecimalScale_create (of_nat (unat v mod 19))"

definition fuzz_decimal :: "uint8 \<Rightarrow> uint8 \<Rightarrow> bool \<Rightarrow> string" where
  "fuzz_decimal whole fraction zero =
     (if zero then ''0''
      else to_chars (int (unat whole mod 100 + 1)) @ ''.'' @ to_chars (int (unat fraction mod 10)))"

text \<open>Eight bytes, least significant first.\<close>

fun fuzz_id_loop :: "uint8 list \<Rightarrow> nat \<Rightarrow> nat \<Rightarrow> uint64 \<Rightarrow> uint64" where
  "fuzz_id_loop data index 0 v = v"
| "fuzz_id_loop data index (Suc n) v =
     fuzz_id_loop data (index + 1) n (v OR push_bit (index * 8) (ucast (data ! index)))"

definition fuzz_id :: "uint8 list \<Rightarrow> uint64" where
  "fuzz_id data = fuzz_id_loop data 0 8 0"

definition fuzz_baseline :: "contracts \<Rightarrow> uint8 list \<Rightarrow> int \<Rightarrow> wire_depth_snapshot" where
  "fuzz_baseline C data market = \<lparr>
     ds_venue = (if data ! 3 AND 4 \<noteq> 0 then venue_number C VENUE_UNSPECIFIED else venue_number C VENUE_BINANCE),
     ds_market = market,
     ds_symbol = (if data ! 3 AND 8 \<noteq> 0 then ''bad symbol'' else ''BTCUSDT''),
     ds_schema_version = (if data ! 3 AND 16 \<noteq> 0 then ''wrong'' else ''exchange-depth-snapshot.v1''),
     ds_producer = ''fuzzer'',
     ds_producer_version = ''1'',
     ds_request_id = ''request-1'',
     ds_last_update_id = fuzz_id (drop 4 data),
     ds_bids = [\<lparr>pl_price = fuzz_decimal (data ! 12) (data ! 13) (data ! 3 AND 32 \<noteq> 0),
                 pl_quantity = fuzz_decimal (data ! 14) (data ! 15) (data ! 3 AND 64 \<noteq> 0)\<rparr>],
     ds_asks = [],
     ds_quality_flags = []\<rparr>"

definition fuzz_update :: "contracts \<Rightarrow> uint8 list \<Rightarrow> int \<Rightarrow> wire_depth_update" where
  "fuzz_update C data market =
     (let level = \<lparr>pl_price = fuzz_decimal (data ! 19) (data ! 20) False,
                   pl_quantity = fuzz_decimal (data ! 21) (data ! 22) (data ! 23 AND 1 \<noteq> 0)\<rparr>;
          ask = (data ! 18 AND 1 \<noteq> 0)
      in \<lparr>du_metadata = Some \<lparr>
            md_venue = venue_number C VENUE_BINANCE,
            md_market = market,
            md_symbol = ''BTCUSDT'',
            md_stream = (if data ! 16 AND 1 \<noteq> 0 then stream_number C STREAM_AGG_TRADE
                         else stream_number C STREAM_DIFF_DEPTH),
            md_schema_version = ''depth-update.v1'',
            md_producer = ''fuzzer'',
            md_producer_version = ''1'',
            md_connection_id = ''connection-1'',
            md_quality_flags = []\<rparr>,
          du_first_update_id = fuzz_id (drop 8 data),
          du_final_update_id = fuzz_id (drop 16 data),
          du_previous_final_update_id = (if data ! 17 AND 1 \<noteq> 0 then Some (fuzz_id (drop 4 data)) else None),
          du_bids = (if ask then [] else [level]),
          du_asks = (if ask then [level] else [])\<rparr>)"

text \<open>The configuration the first three bytes choose.\<close>

definition adapter_fuzz_spec :: "uint8 list \<Rightarrow> numeric_spec option" where
  "adapter_fuzz_spec data =
     (case (adapter_fuzz_scale (data ! 0), adapter_fuzz_scale (data ! 1)) of
        (Some ps, Some qs) \<Rightarrow> Some \<lparr>price_scale = ps, quantity_scale = qs\<rparr>
      | _ \<Rightarrow> None)"

definition adapter_fuzz_expected :: "uint8 list \<Rightarrow> expected_identity" where
  "adapter_fuzz_expected data =
     \<lparr>ei_symbol = ''BTCUSDT'', ei_policy = (if data ! 2 AND 1 \<noteq> 0 then UsdMPerpetual else Spot)\<rparr>"

definition adapter_fuzz_market :: "contracts \<Rightarrow> uint8 list \<Rightarrow> int" where
  "adapter_fuzz_market C data =
     (if data ! 2 AND 1 \<noteq> 0 then market_number C MARKET_USD_M_PERPETUAL else market_number C MARKET_SPOT)"

text \<open>
  The first part of the target: adapt and install the baseline.  With the projection it returns what
  \<open>install_into\<close> returned, or \<open>None\<close> when the message was refused and \<open>install_into\<close> not called.
\<close>

definition fuzz_install_part ::
  "contracts \<Rightarrow> uint8 list \<Rightarrow> numeric_spec \<Rightarrow> expected_identity \<Rightarrow> int \<Rightarrow> book_projection \<Rightarrow>
   (install_result adapter_result option \<times> book_projection) option" where
  "fuzz_install_part C data spec expected market projection =
     (let before_baseline = checkpoint projection in
      case adapt_exchange_depth_snapshot C (fuzz_baseline C data market) spec expected of
        Inr owner \<Rightarrow>
          (let (installed, projection') = install_into owner projection in
           if \<not> is_ok installed then None else Some (Some installed, projection'))
      | Inl _ \<Rightarrow> if checkpoint projection \<noteq> before_baseline then None else Some (None, projection))"

text \<open>
  The second part: adapt the update, refuse it on a projection of another scale, apply it.  It returns
  what the two calls of \<open>apply_to\<close> returned, the one on the wrong target first.
\<close>

definition fuzz_update_part ::
  "contracts \<Rightarrow> uint8 list \<Rightarrow> numeric_spec \<Rightarrow> expected_identity \<Rightarrow> int \<Rightarrow> book_projection \<Rightarrow>
   ((apply_result adapter_result \<times> apply_result adapter_result) option \<times> book_projection) option" where
  "fuzz_update_part C data spec expected market projection =
     (let before_update = checkpoint projection in
      case adapt_depth_update C (fuzz_update C data market) spec expected of
        Inr owner \<Rightarrow>
          (case adapter_fuzz_scale (data ! 0 + 1) of
             None \<Rightarrow> None
           | Some wrong_scale \<Rightarrow>
               let wrong_spec = \<lparr>price_scale = wrong_scale, quantity_scale = quantity_scale spec\<rparr>;
                   wrong_target = BookProjection_create wrong_spec (ei_policy expected);
                   wrong_before = checkpoint wrong_target
               in case apply_to owner wrong_target of
                    None \<Rightarrow> None
                  | Some (rejected_binding, wrong_target') \<Rightarrow>
                      if is_ok rejected_binding \<or> checkpoint wrong_target' \<noteq> wrong_before then None
                      else map_option (\<lambda>(applied, projection'). (Some (rejected_binding, applied), projection'))
                             (apply_to owner projection))
      | Inl _ \<Rightarrow> if checkpoint projection \<noteq> before_update then None else Some (None, projection))"

text \<open>
  The last part: outbound snapshots, before and after a reset.  \<open>make_local_order_book_snapshot\<close> takes
  the projection as a constant reference and returns only a result.
\<close>

definition fuzz_output_part ::
  "nat \<Rightarrow> uint8 list \<Rightarrow> expected_identity \<Rightarrow> book_projection \<Rightarrow>
   (wire_local_snapshot adapter_result \<times> wire_local_snapshot adapter_result option) option" where
  "fuzz_output_part max_size data expected projection =
     (let ctx = \<lparr>sc_identity = expected, sc_producer = ''fuzzer'', sc_producer_version = ''1'',
            sc_source = HistoryReplay, sc_generated_time_utc_ns = fuzz_id (drop 8 data),
            sc_generated_monotonic_ns = None,
            sc_current_gap = (if bp_status projection = NeedsResync
              then Some \<lparr>cg_detected_at_utc_ns = fuzz_id (drop 16 data), cg_recovery_state = ResyncRequired\<rparr>
              else None)\<rparr>
      in
      case (if data ! 23 AND 2 \<noteq> 0 then map_option Some (case DepthLimit_create 1 of Inl _ \<Rightarrow> None | Inr d \<Rightarrow> Some d)
            else Some None) of
        None \<Rightarrow> None
      | Some limit \<Rightarrow>
          let options = \<lparr>so_depth_limit = limit, so_host_quality_facts = []\<rparr>;
              before_output = checkpoint projection;
              output = make_local_order_book_snapshot max_size projection ctx options
          in
          if checkpoint projection \<noteq> before_output then None
          else if data ! 23 AND 4 \<noteq> 0 then
            (let projection' = BookProjection_reset projection;
                 reset_checkpoint = checkpoint projection';
                 reset_output = make_local_order_book_snapshot max_size projection' ctx options
             in
             if is_ok reset_output \<or> checkpoint projection' \<noteq> reset_checkpoint then None
             else Some (output, Some reset_output))
          else Some (output, None))"

text \<open>The results of the calls of one input; \<open>None\<close> for a call that is not made.\<close>

record adapter_fuzz_trace =
  tr_installed :: "install_result adapter_result option"
  tr_applied :: "(apply_result adapter_result \<times> apply_result adapter_result) option"
  tr_output :: "wire_local_snapshot adapter_result option"
  tr_reset_output :: "wire_local_snapshot adapter_result option"

definition proto_adapter_fuzz_calls :: "contracts \<Rightarrow> nat \<Rightarrow> uint8 list \<Rightarrow> adapter_fuzz_trace option" where
  "proto_adapter_fuzz_calls C max_size data =
     (if length data < 24
        then Some \<lparr>tr_installed = None, tr_applied = None, tr_output = None, tr_reset_output = None\<rparr>
      else case adapter_fuzz_spec data of
        None \<Rightarrow> None
      | Some spec \<Rightarrow>
          let expected = adapter_fuzz_expected data;
              market = adapter_fuzz_market C data
          in
          case fuzz_install_part C data spec expected market (BookProjection_create spec (ei_policy expected)) of
            None \<Rightarrow> None
          | Some (installed, projection) \<Rightarrow>
              (case fuzz_update_part C data spec expected market projection of
                 None \<Rightarrow> None
               | Some (applied, projection') \<Rightarrow>
                   (case fuzz_output_part max_size data expected projection' of
                      None \<Rightarrow> None
                    | Some (output, reset_output) \<Rightarrow>
                        Some \<lparr>tr_installed = installed, tr_applied = applied, tr_output = Some output,
                          tr_reset_output = reset_output\<rparr>)))"

definition proto_adapter_fuzz_one_input :: "contracts \<Rightarrow> nat \<Rightarrow> uint8 list \<Rightarrow> unit option" where
  "proto_adapter_fuzz_one_input C max_size data =
     map_option (\<lambda>_. ()) (proto_adapter_fuzz_calls C max_size data)"

subsection \<open>No input aborts\<close>

lemma wire_identity_policy:
  "validate_wire_identity C v mk symbol expected = Inr policy \<Longrightarrow> policy = ei_policy expected"
  by (auto simp: validate_wire_identity_def validate_expected_identity_def result_iffs split: if_splits)

lemma adapt_snapshot_binding:
  assumes "adapt_exchange_depth_snapshot C wire spec expected = Inr b"
  shows "ab_numeric_spec b = spec" "ab_policy b = ei_policy expected"
  using assms by (auto simp: adapt_exchange_depth_snapshot_def result_iffs split: if_splits
      dest!: wire_identity_policy)

lemma adapt_update_binding:
  assumes "adapt_depth_update C wire spec expected = Inr b"
  shows "ad_numeric_spec b = spec" "ad_policy b = ei_policy expected"
  using assms by (auto simp: adapt_depth_update_def result_iffs split: if_splits option.splits
      dest!: wire_identity_policy)

lemma adapter_fuzz_scale_Some: "\<exists>s. adapter_fuzz_scale v = Some s \<and> scale_digits s = unat v mod 19"
proof -
  have lt: "unat v mod 19 < 19" by simp
  then have u: "unat (of_nat (unat v mod 19) :: uint32) = unat v mod 19"
    by (simp add: unat_of_nat take_bit_nat_eq_self)
  have "\<not> (of_nat (unat v mod 19) :: uint32) > 18"
    unfolding word_less_nat_alt u using lt by simp
  then obtain s where "adapter_fuzz_scale v = Some s"
    unfolding adapter_fuzz_scale_def DecimalScale_create_def by auto
  with DecimalScale_create_Some[of "of_nat (unat v mod 19)" s] u show ?thesis
    by (simp add: adapter_fuzz_scale_def)
qed

text \<open>The scale of the next byte is another scale, also when the byte wraps to zero.\<close>

lemma next_scale_differs:
  assumes "adapter_fuzz_scale v = Some s" "adapter_fuzz_scale (v + 1) = Some t"
  shows "s \<noteq> t"
proof -
  have "unat (v + 1) mod 19 \<noteq> unat v mod 19"
  proof (cases "v + 1 = 0")
    case True
    then have "v = - 1" by (simp add: eq_neg_iff_add_eq_0)
    moreover have "(- 1 :: uint8) = 255" by simp
    ultimately have "v = 255" by metis
    then show ?thesis by simp
  next
    case False
    then have "unat (v + 1) = Suc (unat v)" using unatSuc[of v] by (simp add: add.commute)
    then show ?thesis by (simp add: mod_Suc)
  qed
  with assms adapter_fuzz_scale_Some[of v] adapter_fuzz_scale_Some[of "v + 1"] show ?thesis by auto
qed

definition bound_to :: "numeric_spec \<Rightarrow> sequence_policy_kind \<Rightarrow> book_projection \<Rightarrow> bool" where
  "bound_to spec policy p \<longleftrightarrow> projection_inv p \<and> bp_numeric_spec p = spec \<and> bp_policy p = policy"

lemma fuzz_install_part_bound:
  assumes "bound_to spec (ei_policy expected) p" and "bp_status p \<noteq> Synchronized"
  shows "\<exists>res p'. fuzz_install_part C data spec expected market p = Some (res, p') \<and>
    bound_to spec (ei_policy expected) p' \<and>
    (res \<noteq> None \<longleftrightarrow> is_ok (adapt_exchange_depth_snapshot C (fuzz_baseline C data market) spec expected)) \<and>
    (case res of None \<Rightarrow> True | Some r \<Rightarrow> \<exists>i. r = Inr i \<and> ir_disposition i = Installed)"
proof (cases "adapt_exchange_depth_snapshot C (fuzz_baseline C data market) spec expected")
  case (Inr owner)
  note bind = adapt_snapshot_binding[OF Inr]
  obtain r p' where step: "install_baseline p (baseline_view_unchecked owner) = (r, p')" by fastforce
  have "bp_numeric_spec p' = bp_numeric_spec p" "bp_policy p' = bp_policy p" "ir_disposition r = Installed"
    using step assms(2) by (auto simp: install_baseline_def Let_def make_install_result_def)
  moreover have "projection_inv p'" using assms(1) step install_baseline_inv by (auto simp: bound_to_def)
  moreover have "validate_binding spec (ei_policy expected) p = None"
    using assms(1) by (simp add: validate_binding_None_iff bound_to_def)
  ultimately show ?thesis
    using assms(1) Inr step bind by (simp add: fuzz_install_part_def install_into_def bound_to_def)
qed (use assms(1) in \<open>simp add: fuzz_install_part_def\<close>)

lemma fuzz_update_part_bound:
  assumes "bound_to spec (ei_policy expected) p" and "adapter_fuzz_scale (data ! 0) = Some (price_scale spec)"
  shows "\<exists>res p'. fuzz_update_part C data spec expected market p = Some (res, p') \<and>
    (res \<noteq> None \<longleftrightarrow> is_ok (adapt_depth_update C (fuzz_update C data market) spec expected)) \<and>
    (case res of None \<Rightarrow> True | Some (rejected, applied) \<Rightarrow> \<not> is_ok rejected \<and> is_ok applied)"
proof (cases "adapt_depth_update C (fuzz_update C data market) spec expected")
  case (Inr owner)
  note bind = adapt_update_binding[OF Inr]
  obtain t where t: "adapter_fuzz_scale (data ! 0 + 1) = Some t" using adapter_fuzz_scale_Some by blast
  let ?wrong = "BookProjection_create \<lparr>price_scale = t, quantity_scale = quantity_scale spec\<rparr> (ei_policy expected)"
  have "price_scale spec \<noteq> t" using next_scale_differs[OF assms(2) t] .
  then have "validate_binding spec (ei_policy expected) ?wrong \<noteq> None"
    by (simp add: validate_binding_def BookProjection_create_def)
  then obtain e where "apply_to owner ?wrong = Some (Inl e, ?wrong)"
    using bind by (auto simp: apply_to_def)
  moreover have "validate_binding spec (ei_policy expected) p = None" "projection_inv p"
    using assms(1) by (simp_all add: validate_binding_None_iff bound_to_def)
  moreover obtain r p' where "apply_batch p (batch_view_unchecked owner) = Some (r, p')"
    using apply_batch_total[OF \<open>projection_inv p\<close>] .
  ultimately show ?thesis
    using Inr t bind by (simp add: fuzz_update_part_def apply_to_def)
qed (simp add: fuzz_update_part_def)

lemma fuzz_output_part_ok:
  "\<exists>output reset_output. fuzz_output_part max_size data expected p = Some (output, reset_output) \<and>
     (reset_output \<noteq> None \<longleftrightarrow> data ! 23 AND 4 \<noteq> 0) \<and>
     (case reset_output of None \<Rightarrow> True | Some r \<Rightarrow> \<not> is_ok r)"
  by (simp add: fuzz_output_part_def Let_def DepthLimit_create_def make_local_order_book_snapshot_def
      BookProjection_reset_def)

lemma adapter_fuzz_spec_Some:
  "\<exists>spec. adapter_fuzz_spec data = Some spec \<and> adapter_fuzz_scale (data ! 0) = Some (price_scale spec)"
  using adapter_fuzz_scale_Some[of "data ! 0"] adapter_fuzz_scale_Some[of "data ! 1"]
  by (auto simp: adapter_fuzz_spec_def)


end
