(* ===== verification/Fuzz_Decoder.thy ===== *)
theory Fuzz_Decoder
  imports Decimal_Text "HOL-Library.State_Monad"
begin

unbundle bit_operations_syntax

text \<open>
  The structured decoder of \<open>fuzz/m5/replay_fuzz_decoder.cpp\<close>, the only path from fuzz bytes to a
  replay case.  \<open>ByteCursor\<close> is the state of a state monad: each read returns a value and the cursor
  after it, in the order of the source.  The header of the decoder promises bounds (at most 64
  operations, 8 levels per event, 31 bytes per decimal token, 15 bytes per snapshot string, every
  read inside the buffer) and the comments of \<open>decode_operation\<close> promise ordered update ranges and
  one-sided baselines; the theorems are those promises, for all inputs.
\<close>

subsection \<open>Replay operations\<close>

datatype replay_market = ReplaySpot | ReplayUsdMPerpetual

datatype replay_policy = PolicySpot | PolicyUsdMPerpetual

datatype replay_side = SideBid | SideAsk

datatype replay_quality_fact =
  FactDuplicate | FactOutOfOrder | FactOrderBookResync | FactSnapshotTooOld |
  FactBootstrapBufferOverflow | FactRecoveredTail | FactMalformedPayload | FactExchangeTimeMissing |
  FactReceiveClockDiscontinuity | FactSlowConsumerGap | FactProducerRestart | FactOverlap |
  FactIdentityConflict

datatype replay_origin = OriginGatewayLive | OriginRecorderReplay | OriginHistoryReplay

datatype replay_recovery =
  GapStateSynchronized | GapStateResyncRequired | GapStateResyncInProgress | GapStateRecovered |
  GapStateResyncFailed

record replay_spec =
  rs_price_scale :: nat
  rs_quantity_scale :: nat

record source_location =
  sl_event_index :: nat
  sl_line_number :: nat
  sl_canonical_line :: string

record level_input =
  li_side :: replay_side
  li_price :: string
  li_quantity :: string

record snapshot_request =
  sr_depth_limit :: "nat option"
  sr_host_quality_facts :: "replay_quality_fact list"
  sr_snapshot_id :: string
  sr_producer :: string
  sr_producer_version :: string
  sr_source_origin :: replay_origin
  sr_generated_time_utc_ns :: uint64
  sr_generated_monotonic_ns :: "uint64 option"
  sr_current_gap :: "(uint64 \<times> replay_recovery) option"

datatype replay_operation =
  InstallBaselineOp source_location uint64 "level_input list" "level_input list"
| DepthUpdateOp source_location uint64 uint64 "uint64 option" "level_input list"
| RebaselineOp source_location uint64 "level_input list" "level_input list"
| ResetOp source_location
| SnapshotRequestOp source_location snapshot_request
| AdapterMetadataOp source_location "replay_quality_fact list"
| MalformedRangeOp source_location uint64 uint64

datatype decoded_mode = CoreOnly | AdapterEnabled

datatype fuzz_venue = VenueBinance | VenueUnspecified | VenueUnknownNumeric

datatype fuzz_market = MarketSpot | MarketUsdMPerpetual | MarketUnspecified | MarketUnknownNumeric

record fuzz_case =
  fc_mode :: decoded_mode
  fc_market :: replay_market
  fc_numeric_spec :: replay_spec
  fc_sequence_policy :: replay_policy
  fc_symbol :: string
  fc_operations :: "replay_operation list"
  fc_scenario_venue :: fuzz_venue
  fc_scenario_market :: fuzz_market
  fc_adapter_wire_symbol :: string
  fc_adapter_expected_symbol :: string
  fc_adapter_expected_policy :: replay_policy
  fc_adapter_conversion_numeric_spec :: replay_spec
  fc_adapter_projection_numeric_spec :: replay_spec
  fc_adapter_projection_policy :: replay_policy

abbreviation (input) kMaxOperations :: nat where "kMaxOperations \<equiv> 64"
abbreviation (input) kMaxLevelsPerEvent :: nat where "kMaxLevelsPerEvent \<equiv> 8"
abbreviation (input) kMaxLevelTokenBytes :: nat where "kMaxLevelTokenBytes \<equiv> 31"
abbreviation (input) kMaxSnapshotStringBytes :: nat where "kMaxSnapshotStringBytes \<equiv> 15"
abbreviation (input) kMaxSymbolBytes :: nat where "kMaxSymbolBytes \<equiv> 10"

subsection \<open>The byte cursor\<close>

record byte_cursor =
  bc_data :: "uint8 list"
  bc_offset :: nat

type_synonym 'a read = "(byte_cursor, 'a) state"

definition exhausted :: "bool read" where
  "exhausted = State (\<lambda>c. (bc_offset c \<ge> length (bc_data c), c))"

definition read_u8 :: "uint8 read" where
  "read_u8 = State (\<lambda>c.
     if bc_offset c \<ge> length (bc_data c) then (0, c)
     else (bc_data c ! bc_offset c, c\<lparr>bc_offset := bc_offset c + 1\<rparr>))"

definition remaining :: "nat read" where
  "remaining = State (\<lambda>c.
     (if bc_offset c < length (bc_data c) then length (bc_data c) - bc_offset c else 0, c))"

text \<open>The sum of \<open>skip\<close> is of \<open>std::size_t\<close> and wraps.\<close>

definition skip :: "nat \<Rightarrow> unit read" where
  "skip n = State (\<lambda>c.
     ((), c\<lparr>bc_offset := min ((bc_offset c + n) mod (SIZE_MAX + 1)) (length (bc_data c))\<rparr>))"

definition offset :: "nat read" where
  "offset = State (\<lambda>c. (bc_offset c, c))"

fun read_fixed_loop :: "nat \<Rightarrow> uint64 \<Rightarrow> uint64 read" where
  "read_fixed_loop 0 v = State_Monad.return v"
| "read_fixed_loop (Suc n) v =
     do {
       done \<leftarrow> exhausted;
       if done then State_Monad.return v
       else do { b \<leftarrow> read_u8; read_fixed_loop n (push_bit 8 v OR ucast b) }
     }"

definition read_fixed_u64 :: "nat \<Rightarrow> uint64 read" where
  "read_fixed_u64 width = (if width = 0 then State_Monad.return 0 else read_fixed_loop width 0)"

definition special_u64 :: "nat \<Rightarrow> uint64" where
  "special_u64 i =
     (if i = 0 then 0
      else if i = 1 then 1
      else if i = 2 then 2
      else if i = 3 then 18446744073709551615
      else if i = 4 then 18446744073709551614
      else if i = 5 then 18446744073709551613
      else 0)"

definition read_var_u64 :: "uint64 read" where
  "read_var_u64 =
     do {
       done \<leftarrow> exhausted;
       if done then State_Monad.return 0
       else do {
         mode \<leftarrow> read_u8;
         let width = unat (mode AND 7) + 1;
         if mode AND 8 \<noteq> 0 then State_Monad.return (special_u64 (unat (drop_bit 4 mode AND 7)))
         else read_fixed_u64 width
       }
     }"

fun read_string_loop :: "nat \<Rightarrow> string \<Rightarrow> string read" where
  "read_string_loop 0 result = State_Monad.return result"
| "read_string_loop (Suc n) result =
     do {
       done \<leftarrow> exhausted;
       if done then State_Monad.return result
       else do {
         b \<leftarrow> read_u8;
         read_string_loop n (if b \<noteq> 0 then result @ [char_of (unat b)] else result)
       }
     }"

definition read_string :: "nat \<Rightarrow> string read" where
  "read_string max_len =
     do {
       done \<leftarrow> exhausted;
       if done then State_Monad.return []
       else do {
         raw_len \<leftarrow> read_u8;
         read_string_loop (min (unat raw_len) max_len) []
       }
     }"

definition read_bounded :: "nat \<Rightarrow> nat read" where
  "read_bounded max_val =
     do {
       done \<leftarrow> exhausted;
       if done \<or> max_val = 0 then State_Monad.return 0
       else do { v \<leftarrow> read_u8; State_Monad.return (unat v mod (max_val + 1)) }
     }"

subsection \<open>Decoding levels and facts\<close>

definition clamp_scale :: "nat \<Rightarrow> nat" where
  "clamp_scale raw = (if raw > 18 then raw mod 19 else raw)"

definition make_source :: "nat \<Rightarrow> string \<Rightarrow> source_location" where
  "make_source event_index desc = \<lparr>sl_event_index = event_index, sl_line_number = 0, sl_canonical_line = desc\<rparr>"

text \<open>The loops that append digits while the token has room and bytes remain.\<close>

fun digits_loop :: "nat \<Rightarrow> nat \<Rightarrow> string \<Rightarrow> string read" where
  "digits_loop 0 max_len token = State_Monad.return token"
| "digits_loop (Suc n) max_len token =
     do {
       done \<leftarrow> exhausted;
       if length token < max_len \<and> \<not> done
         then do { b \<leftarrow> read_u8; digits_loop n max_len (token @ [digit_char (unat b mod 10)]) }
       else State_Monad.return token
     }"

definition decode_decimal_form_token :: "nat \<Rightarrow> string read" where
  "decode_decimal_form_token max_len =
     do {
       b \<leftarrow> read_u8;
       let int_len = unat (b AND 0x0F) mod 5;
       let has_frac = (b AND 0x10 \<noteq> 0);
       let frac_len = (if has_frac then unat (drop_bit 5 b AND 3) else 0);
       token \<leftarrow> digits_loop int_len max_len [];
       token \<leftarrow> (if has_frac \<and> length token < max_len
                  then digits_loop frac_len max_len (token @ ''.'')
                else State_Monad.return token);
       State_Monad.return (if token = [] then ''0'' else token)
     }"

text \<open>\<open>token_idx\<close> is passed by reference: the updated index is returned with the token.\<close>

definition decode_level_token :: "nat \<Rightarrow> (string \<times> nat) read" where
  "decode_level_token token_idx =
     do {
       done \<leftarrow> exhausted;
       if done then State_Monad.return (''0'', token_idx)
       else do {
         style \<leftarrow> read_u8;
         let mode = unat (style AND 7);
         let max_len = min kMaxLevelTokenBytes 31;
         done \<leftarrow> exhausted;
         if mode = 0 \<and> \<not> done then
           do { token \<leftarrow> decode_decimal_form_token max_len; State_Monad.return (token, token_idx) }
         else if mode = 1 then
           (if done then State_Monad.return (''1'', token_idx)
            else do { b \<leftarrow> read_u8; State_Monad.return (to_chars (int (unat b)), token_idx) })
         else if mode = 2 then State_Monad.return ([], token_idx)
         else if mode = 3 then State_Monad.return (''0'', token_idx)
         else if mode = 4 then
           do {
             b \<leftarrow> (if done then State_Monad.return 0 else read_u8);
             State_Monad.return (if b = 0 then ''00'' else ''0'', token_idx)
           }
         else if mode = 5 then
           do {
             let sign = (if odd token_idx then CHR ''-'' else CHR ''+'');
             v \<leftarrow> (if done then State_Monad.return 0
                   else do { b \<leftarrow> read_u8; State_Monad.return (unat b mod 100) });
             State_Monad.return (sign # to_chars (int v), token_idx)
           }
         else if mode = 6 then State_Monad.return (''12a34'', token_idx)
         else if mode = 7 then State_Monad.return (''9999999999999999999'', token_idx + 1)
         else State_Monad.return (''0'', token_idx)
       }
     }"

fun levels_loop ::
  "nat \<Rightarrow> nat \<Rightarrow> nat \<Rightarrow> nat \<Rightarrow> replay_side option \<Rightarrow> level_input list \<Rightarrow> (level_input list \<times> nat) read" where
  "levels_loop i 0 keep token_idx expected_side levels = State_Monad.return (levels, token_idx)"
| "levels_loop i (Suc n) keep token_idx expected_side levels =
     do {
       b \<leftarrow> read_u8;
       let bid = (b AND 1 = 0);
       let side = (case expected_side of None \<Rightarrow> if bid then SideBid else SideAsk | Some s \<Rightarrow> s);
       (price, token_idx) \<leftarrow> decode_level_token (token_idx + 1);
       (quantity, token_idx) \<leftarrow> decode_level_token (token_idx + 1);
       levels_loop (i + 1) n keep token_idx expected_side
         (if i < keep then levels @ [\<lparr>li_side = side, li_price = price, li_quantity = quantity\<rparr>] else levels)
     }"

definition decode_levels ::
  "nat \<Rightarrow> nat \<Rightarrow> replay_side option \<Rightarrow> (level_input list \<times> nat) read" where
  "decode_levels max_count token_idx expected_side =
     do {
       done \<leftarrow> exhausted;
       if done then State_Monad.return ([], token_idx)
       else do {
         encoded_count \<leftarrow> read_bounded kMaxLevelsPerEvent;
         levels_loop 0 encoded_count (min encoded_count max_count) token_idx expected_side []
       }
     }"

definition kMap :: "replay_quality_fact list" where
  "kMap = [FactDuplicate, FactOutOfOrder, FactOrderBookResync, FactSnapshotTooOld,
     FactBootstrapBufferOverflow, FactRecoveredTail, FactMalformedPayload, FactExchangeTimeMissing,
     FactReceiveClockDiscontinuity, FactSlowConsumerGap, FactProducerRestart, FactOverlap,
     FactIdentityConflict]"

text \<open>\<open>kMap.at\<close> throws out of range, inside a \<open>noexcept\<close> function: \<open>None\<close> is that termination.\<close>

definition decode_quality_fact :: "replay_quality_fact option read" where
  "decode_quality_fact =
     do {
       idx \<leftarrow> read_bounded 12;
       State_Monad.return (if idx < length kMap then Some (kMap ! idx) else None)
     }"

fun facts_loop :: "nat \<Rightarrow> replay_quality_fact list \<Rightarrow> replay_quality_fact list option read" where
  "facts_loop 0 facts = State_Monad.return (Some facts)"
| "facts_loop (Suc n) facts =
     do {
       f \<leftarrow> decode_quality_fact;
       case f of None \<Rightarrow> State_Monad.return None | Some x \<Rightarrow> facts_loop n (facts @ [x])
     }"

definition decode_quality_facts :: "nat \<Rightarrow> replay_quality_fact list option read" where
  "decode_quality_facts max_count =
     do {
       done \<leftarrow> exhausted;
       if done then State_Monad.return (Some [])
       else do {
         count \<leftarrow> read_bounded (min max_count 4294967295);
         facts_loop count []
       }
     }"

subsection \<open>Decoding operations\<close>

definition operation_desc :: "nat \<Rightarrow> string \<Rightarrow> string" where
  "operation_desc event_index name =
     ''structured-fuzz[op='' @ to_chars (int event_index) @ '' '' @ name @ '']''"

definition op_source :: "nat \<Rightarrow> string \<Rightarrow> source_location" where
  "op_source event_index name = make_source event_index (operation_desc event_index name)"

text \<open>An optional id after a presence bit.\<close>

definition read_optional_u64 :: "uint64 option read" where
  "read_optional_u64 =
     do {
       b \<leftarrow> read_u8;
       if b AND 1 \<noteq> 0 then do { v \<leftarrow> read_var_u64; State_Monad.return (Some v) }
       else State_Monad.return None
     }"

text \<open>The two level lists of a baseline share the event's level budget.\<close>

definition decode_baseline_levels :: "(level_input list \<times> level_input list) read" where
  "decode_baseline_levels =
     do {
       (bids, token_idx) \<leftarrow> decode_levels kMaxLevelsPerEvent 0 (Some SideBid);
       (asks, token_idx) \<leftarrow> decode_levels (kMaxLevelsPerEvent - length bids) token_idx (Some SideAsk);
       State_Monad.return (bids, asks)
     }"

definition decode_origin :: "uint8 \<Rightarrow> replay_origin" where
  "decode_origin b =
     (if unat b mod 3 = 0 then OriginGatewayLive
      else if unat b mod 3 = 1 then OriginRecorderReplay
      else OriginHistoryReplay)"

definition decode_recovery :: "uint8 \<Rightarrow> replay_recovery" where
  "decode_recovery b =
     (let r = unat b mod 5 in
      if r = 0 then GapStateSynchronized
      else if r = 1 then GapStateResyncRequired
      else if r = 2 then GapStateResyncInProgress
      else if r = 3 then GapStateRecovered
      else GapStateResyncFailed)"

definition decode_snapshot_request :: "snapshot_request option read" where
  "decode_snapshot_request =
     do {
       depth_bit \<leftarrow> read_u8;
       depth_limit \<leftarrow> (if depth_bit AND 1 \<noteq> 0
          then do { b \<leftarrow> read_u8; State_Monad.return (Some (unat b)) } else State_Monad.return None);
       host_quality \<leftarrow> decode_quality_facts 6;
       case host_quality of
         None \<Rightarrow> State_Monad.return None
       | Some facts \<Rightarrow>
           do {
             snapshot_id \<leftarrow> read_string kMaxSnapshotStringBytes;
             producer \<leftarrow> read_string kMaxSnapshotStringBytes;
             producer_version \<leftarrow> read_string kMaxSnapshotStringBytes;
             origin_byte \<leftarrow> read_u8;
             generated_time \<leftarrow> read_var_u64;
             generated_monotonic \<leftarrow> read_optional_u64;
             gap_bit \<leftarrow> read_u8;
             current_gap \<leftarrow> (if gap_bit AND 1 \<noteq> 0
                then do {
                  gap_seq \<leftarrow> read_var_u64;
                  state_byte \<leftarrow> read_u8;
                  State_Monad.return (Some (gap_seq, decode_recovery state_byte))
                }
                else State_Monad.return None);
             State_Monad.return (Some \<lparr>sr_depth_limit = depth_limit, sr_host_quality_facts = facts,
               sr_snapshot_id = snapshot_id, sr_producer = producer,
               sr_producer_version = producer_version, sr_source_origin = decode_origin origin_byte,
               sr_generated_time_utc_ns = generated_time,
               sr_generated_monotonic_ns = generated_monotonic, sr_current_gap = current_gap\<rparr>)
           }
     }"

text \<open>\<open>None\<close> is a termination, \<open>Some None\<close> the \<open>nullopt\<close> at the end of the input.\<close>

definition decode_operation :: "nat \<Rightarrow> replay_operation option option read" where
  "decode_operation event_index =
     do {
       done \<leftarrow> exhausted;
       if done then State_Monad.return (Some None)
       else do {
         type_raw \<leftarrow> read_u8;
         let op_type = unat type_raw mod 7;
         if op_type = 0 then
           do {
             last_update_id \<leftarrow> read_var_u64;
             (bids, asks) \<leftarrow> decode_baseline_levels;
             State_Monad.return (Some (Some
               (InstallBaselineOp (op_source event_index ''InstallBaseline'') last_update_id bids asks)))
           }
         else if op_type = 1 then
           do {
             first_id \<leftarrow> read_var_u64;
             final_id \<leftarrow> read_var_u64;
             previous \<leftarrow> read_optional_u64;
             (levels, token_idx) \<leftarrow> decode_levels kMaxLevelsPerEvent 0 None;
             State_Monad.return (Some (Some
               (if first_id > final_id
                  then MalformedRangeOp (op_source event_index ''MalformedRange'') first_id final_id
                else DepthUpdateOp (op_source event_index ''DepthUpdate'') first_id final_id previous levels)))
           }
         else if op_type = 2 then
           do {
             last_update_id \<leftarrow> read_var_u64;
             (bids, asks) \<leftarrow> decode_baseline_levels;
             State_Monad.return (Some (Some
               (RebaselineOp (op_source event_index ''Rebaseline'') last_update_id bids asks)))
           }
         else if op_type = 3 then
           State_Monad.return (Some (Some (ResetOp (op_source event_index ''Reset''))))
         else if op_type = 4 then
           do {
             request \<leftarrow> decode_snapshot_request;
             State_Monad.return (map_option (\<lambda>r.
               Some (SnapshotRequestOp (op_source event_index ''SnapshotRequest'') r)) request)
           }
         else if op_type = 5 then
           do {
             facts \<leftarrow> decode_quality_facts 8;
             State_Monad.return (map_option (\<lambda>f.
               Some (AdapterMetadataOp (op_source event_index ''AdapterMetadata'') f)) facts)
           }
         else if op_type = 6 then
           do {
             first_id \<leftarrow> read_var_u64;
             final_id \<leftarrow> read_var_u64;
             if first_id \<le> final_id then
               do {
                 previous \<leftarrow> read_optional_u64;
                 (levels, token_idx) \<leftarrow> decode_levels kMaxLevelsPerEvent 0 None;
                 State_Monad.return (Some (Some
                   (DepthUpdateOp (op_source event_index ''DepthUpdate'') first_id final_id previous levels)))
               }
             else State_Monad.return (Some (Some
               (MalformedRangeOp (op_source event_index ''MalformedRange'') first_id final_id)))
           }
         else State_Monad.return (Some None)
       }
     }"

fun operations_loop ::
  "nat \<Rightarrow> nat \<Rightarrow> replay_operation list \<Rightarrow> replay_operation list option read" where
  "operations_loop i 0 ops = State_Monad.return (Some ops)"
| "operations_loop i (Suc n) ops =
     do {
       r \<leftarrow> decode_operation i;
       case r of
         None \<Rightarrow> State_Monad.return None
       | Some None \<Rightarrow> State_Monad.return (Some ops)
       | Some (Some op) \<Rightarrow> operations_loop (i + 1) n (ops @ [op])
     }"

definition decode_operations :: "replay_operation list option read" where
  "decode_operations =
     do {
       done \<leftarrow> exhausted;
       requested \<leftarrow> (if done then State_Monad.return 0
                     else do { b \<leftarrow> read_u8; State_Monad.return (unat b) });
       let max_ops = (if requested > 0 then requested else 1);
       operations_loop 0 (min max_ops kMaxOperations) []
     }"

subsection \<open>Decoding a case\<close>

definition decode_scenario :: "fuzz_case \<Rightarrow> fuzz_case read" where
  "decode_scenario result =
     do {
       sbyte \<leftarrow> read_u8;
       let v = unat (sbyte AND 3);
       let mk = unat (drop_bit 2 sbyte AND 3);
       wire_symbol \<leftarrow> read_string kMaxSymbolBytes;
       expected_symbol \<leftarrow> read_string kMaxSymbolBytes;
       ps \<leftarrow> read_u8;
       qs \<leftarrow> read_u8;
       pps \<leftarrow> read_u8;
       pqs \<leftarrow> read_u8;
       epbyte \<leftarrow> read_u8;
       State_Monad.return (result\<lparr>
         fc_scenario_venue := (if v = 0 then VenueBinance else if v = 1 then VenueUnspecified
           else VenueUnknownNumeric),
         fc_scenario_market := (if mk = 0 then MarketSpot else if mk = 1 then MarketUsdMPerpetual
           else if mk = 2 then MarketUnspecified else MarketUnknownNumeric),
         fc_adapter_wire_symbol := wire_symbol,
         fc_adapter_expected_symbol := expected_symbol,
         fc_adapter_conversion_numeric_spec :=
           \<lparr>rs_price_scale = clamp_scale (unat ps), rs_quantity_scale = clamp_scale (unat qs)\<rparr>,
         fc_adapter_projection_numeric_spec :=
           \<lparr>rs_price_scale = clamp_scale (unat pps), rs_quantity_scale = clamp_scale (unat pqs)\<rparr>,
         fc_adapter_expected_policy := (if epbyte AND 1 \<noteq> 0 then PolicyUsdMPerpetual else PolicySpot),
         fc_adapter_projection_policy := (if epbyte AND 2 \<noteq> 0 then PolicyUsdMPerpetual else PolicySpot)\<rparr>)
     }"

definition decode_case :: "fuzz_case option option read" where
  "decode_case =
     do {
       header \<leftarrow> read_u8;
       let adapter_mode = (header AND 1 \<noteq> 0);
       let usdm_market = (header AND 2 \<noteq> 0);
       let p_scale = clamp_scale (unat (drop_bit 2 header AND 0x3F));
       qs_raw \<leftarrow> read_u8;
       let q_scale = clamp_scale (unat qs_raw);
       symbol \<leftarrow> read_string kMaxSymbolBytes;
       operations \<leftarrow> decode_operations;
       case operations of
         None \<Rightarrow> State_Monad.return None
       | Some ops \<Rightarrow>
           if ops = [] then State_Monad.return (Some None)
           else do {
             let zero_spec = \<lparr>rs_price_scale = 0, rs_quantity_scale = 0\<rparr>;
             let result = \<lparr>fc_mode = (if adapter_mode then AdapterEnabled else CoreOnly),
                fc_market = (if usdm_market then ReplayUsdMPerpetual else ReplaySpot),
                fc_numeric_spec = \<lparr>rs_price_scale = p_scale, rs_quantity_scale = q_scale\<rparr>,
                fc_sequence_policy = (if usdm_market then PolicyUsdMPerpetual else PolicySpot),
                fc_symbol = (if symbol = [] then ''BTCUSDT'' else symbol),
                fc_operations = ops,
                fc_scenario_venue = VenueBinance, fc_scenario_market = MarketSpot,
                fc_adapter_wire_symbol = [], fc_adapter_expected_symbol = [],
                fc_adapter_expected_policy = PolicySpot,
                fc_adapter_conversion_numeric_spec = zero_spec,
                fc_adapter_projection_numeric_spec = zero_spec,
                fc_adapter_projection_policy = PolicySpot\<rparr>;
             done \<leftarrow> exhausted;
             result \<leftarrow> (if adapter_mode \<and> \<not> done then decode_scenario result
                        else State_Monad.return result);
             State_Monad.return (Some (Some result))
           }
     }"

definition decode :: "uint8 list \<Rightarrow> fuzz_case option option" where
  "decode data =
     (if length data < 1 then Some None
      else fst (run_state decode_case \<lparr>bc_data = data, bc_offset = 0\<rparr>))"

subsection \<open>Reads stay inside the buffer\<close>

text \<open>
  \<open>reads m P\<close>: from a cursor inside its buffer the read leaves the buffer alone, moves the cursor
  forward but never past the end, and returns a value that satisfies \<open>P\<close>.
\<close>

definition cursor_step :: "byte_cursor \<Rightarrow> byte_cursor \<Rightarrow> bool" where
  "cursor_step c c' \<longleftrightarrow> bc_data c' = bc_data c \<and> bc_offset c \<le> bc_offset c' \<and>
     bc_offset c' \<le> length (bc_data c)"

definition reads :: "'a read \<Rightarrow> ('a \<Rightarrow> bool) \<Rightarrow> bool" where
  "reads m P \<longleftrightarrow> (\<forall>c. bc_offset c \<le> length (bc_data c) \<longrightarrow>
     P (fst (run_state m c)) \<and> cursor_step c (snd (run_state m c)))"

lemma reads_return: "P x \<Longrightarrow> reads (State_Monad.return x) P"
  by (simp add: reads_def cursor_step_def)

lemma reads_offset: "reads offset (\<lambda>_. True)" and reads_remaining: "reads remaining (\<lambda>_. True)"
  by (simp_all add: reads_def cursor_step_def offset_def remaining_def)

text \<open>
  \<open>skip\<close> moves forward inside the buffer as long as the sum does not wrap; a huge count moves the
  cursor back.  Nothing in the repository calls it.
\<close>

lemma skip_forward:
  assumes "bc_offset c \<le> length (bc_data c)" and "bc_offset c + n \<le> SIZE_MAX"
  shows "cursor_step c (snd (run_state (skip n) c))"
  using assms by (simp add: cursor_step_def skip_def)

lemma skip_wraps_back:
  "bc_offset (snd (run_state (skip SIZE_MAX) \<lparr>bc_data = [7, 7], bc_offset = 1\<rparr>)) = 0"
  by (simp add: skip_def)

lemma reads_bind:
  assumes "reads m P" and "\<And>x. P x \<Longrightarrow> reads (f x) Q"
  shows "reads (State_Monad.bind m f) Q"
  unfolding reads_def
proof (intro allI impI)
  fix c :: byte_cursor
  assume c: "bc_offset c \<le> length (bc_data c)"
  obtain x c1 where m: "run_state m c = (x, c1)" by fastforce
  with assms(1) c have "P x" and step: "cursor_step c c1" by (auto simp: reads_def)
  then have "bc_offset c1 \<le> length (bc_data c1)" by (simp add: cursor_step_def)
  with assms(2)[OF \<open>P x\<close>] have "Q (fst (run_state (f x) c1))" "cursor_step c1 (snd (run_state (f x) c1))"
    by (simp_all add: reads_def)
  with m step show "Q (fst (run_state (State_Monad.bind m f) c)) \<and>
      cursor_step c (snd (run_state (State_Monad.bind m f) c))"
    by (auto simp: cursor_step_def)
qed

lemma reads_bind_pair:
  assumes "reads m (\<lambda>(a, b). P a b)" and "\<And>a b. P a b \<Longrightarrow> reads (f a b) Q"
  shows "reads (State_Monad.bind m (\<lambda>(a, b). f a b)) Q"
  by (rule reads_bind[OF assms(1)]) (use assms(2) in \<open>simp split: prod.splits\<close>)

lemma reads_weaken: "reads m P \<Longrightarrow> (\<And>x. P x \<Longrightarrow> Q x) \<Longrightarrow> reads m Q"
  by (auto simp: reads_def)

lemma reads_exhausted: "reads exhausted (\<lambda>_. True)"
  by (simp add: reads_def exhausted_def cursor_step_def)

lemma reads_u8: "reads read_u8 (\<lambda>_. True)"
  by (simp add: reads_def read_u8_def cursor_step_def)

lemma reads_if: "(b \<Longrightarrow> reads m P) \<Longrightarrow> (\<not> b \<Longrightarrow> reads n P) \<Longrightarrow> reads (if b then m else n) P"
  by simp

lemmas reads_intros = reads_bind[OF reads_exhausted] reads_bind[OF reads_u8] reads_if

lemma reads_fixed_loop: "reads (read_fixed_loop n v) (\<lambda>_. True)"
  by (induction n arbitrary: v) (simp_all add: reads_return reads_intros)

lemma reads_var_u64: "reads read_var_u64 (\<lambda>_. True)"
  unfolding read_var_u64_def read_fixed_u64_def Let_def
  by (intro reads_intros reads_return reads_fixed_loop) simp_all

lemma reads_string_loop: "reads (read_string_loop n result) (\<lambda>s. length s \<le> length result + n)"
proof (induction n arbitrary: result)
  case (Suc n)
  have step: "reads (read_string_loop n (if b \<noteq> 0 then result @ [char_of (unat b)] else result))
      (\<lambda>s. length s \<le> length result + Suc n)" for b
    by (rule reads_weaken[OF Suc.IH]) (auto split: if_splits)
  show ?case
    unfolding read_string_loop.simps by (intro reads_intros reads_return step) simp
qed (simp add: reads_return)

lemma reads_string: "reads (read_string n) (\<lambda>s. length s \<le> n)"
  unfolding read_string_def
  by (intro reads_intros reads_return reads_weaken[OF reads_string_loop]) auto

lemma reads_bounded: "reads (read_bounded n) (\<lambda>v. v \<le> n)"
  unfolding read_bounded_def by (intro reads_intros reads_return) (simp_all add: mod_Suc_le_divisor)

lemma reads_digits_loop:
  "length token \<le> max_len \<Longrightarrow> reads (digits_loop n max_len token) (\<lambda>t. length t \<le> max_len)"
  by (induction n arbitrary: token) (simp_all add: reads_return reads_intros)

lemma reads_decimal_form_token:
  assumes "0 < max_len"
  shows "reads (decode_decimal_form_token max_len) (\<lambda>t. length t \<le> max_len)"
proof -
  have finish: "reads (State_Monad.return (if t = [] then ''0'' else t)) (\<lambda>t. length t \<le> max_len)"
    if "length t \<le> max_len" for t
    using that assms by (intro reads_return) (cases max_len, auto)
  show ?thesis
    unfolding decode_decimal_form_token_def Let_def
    by (intro reads_bind[OF reads_u8] reads_bind[where P = "\<lambda>t. length t \<le> max_len"] reads_digits_loop finish
        reads_if reads_return) simp_all
qed

lemma reads_level_token: "reads (decode_level_token i) (\<lambda>(t, _). length t \<le> 31)"
proof -
  have number: "length (to_chars (int n)) \<le> 3" if "n < 1000" for n
    using length_to_chars_nat_le[of n 3] that by (simp add: to_chars_def)
  have byte: "unat b < 1000" for b :: uint8
    by (rule order_less_trans[OF unsigned_less]) simp
  have decimal: "reads (do { t \<leftarrow> decode_decimal_form_token 31; State_Monad.return (t, i) }) (\<lambda>(t, _). length t \<le> 31)"
    by (rule reads_bind[OF reads_decimal_form_token]) (simp_all add: reads_return)
  have hundred: "reads (if d then State_Monad.return 0 else do { b \<leftarrow> read_u8; State_Monad.return (unat b mod 100) })
      (\<lambda>n. n < 1000)" for d
    by (intro reads_intros reads_return) (simp_all add: mod_less_divisor[THEN less_trans])
  have signed: "reads (do {
      n \<leftarrow> (if d then State_Monad.return 0 else do { b \<leftarrow> read_u8; State_Monad.return (unat b mod 100) });
      State_Monad.return (c # to_chars (int n), i) }) (\<lambda>(t, _). length t \<le> 31)" for c d
    by (rule reads_bind[OF hundred]) (rule reads_return, use number in fastforce)
  have byte_token: "reads (do { b \<leftarrow> read_u8; State_Monad.return (to_chars (int (unat b)), i) }) (\<lambda>(t, _). length t \<le> 31)"
    by (intro reads_intros reads_return) (unfold prod.case, rule order_trans[OF number[OF byte]], simp)
  have zero: "reads (do { b \<leftarrow> (if d then State_Monad.return 0 else read_u8);
      State_Monad.return (if b = 0 then ''00'' else ''0'', i) }) (\<lambda>(t, _). length t \<le> 31)" for d
    by (rule reads_bind[where P = "\<lambda>_. True"]) (simp_all add: reads_if reads_u8 reads_return)
  show ?thesis
    unfolding decode_level_token_def Let_def min.idem
    by (intro reads_intros decimal signed byte_token zero reads_return) simp_all
qed

subsection \<open>What a decoded case satisfies\<close>

definition level_ok :: "replay_side option \<Rightarrow> level_input \<Rightarrow> bool" where
  "level_ok expected l \<longleftrightarrow> length (li_price l) \<le> kMaxLevelTokenBytes \<and>
     length (li_quantity l) \<le> kMaxLevelTokenBytes \<and> (\<forall>s. expected = Some s \<longrightarrow> li_side l = s)"

fun operation_ok :: "nat \<Rightarrow> replay_operation \<Rightarrow> bool" where
  "operation_ok i (InstallBaselineOp src last_id bids asks) \<longleftrightarrow> sl_event_index src = i \<and>
     length bids + length asks \<le> kMaxLevelsPerEvent \<and>
     list_all (level_ok (Some SideBid)) bids \<and> list_all (level_ok (Some SideAsk)) asks"
| "operation_ok i (DepthUpdateOp src first_id final_id previous levels) \<longleftrightarrow> sl_event_index src = i \<and>
     first_id \<le> final_id \<and> length levels \<le> kMaxLevelsPerEvent \<and> list_all (level_ok None) levels"
| "operation_ok i (RebaselineOp src last_id bids asks) \<longleftrightarrow> sl_event_index src = i \<and>
     length bids + length asks \<le> kMaxLevelsPerEvent \<and>
     list_all (level_ok (Some SideBid)) bids \<and> list_all (level_ok (Some SideAsk)) asks"
| "operation_ok i (ResetOp src) \<longleftrightarrow> sl_event_index src = i"
| "operation_ok i (SnapshotRequestOp src r) \<longleftrightarrow> sl_event_index src = i \<and>
     length (sr_host_quality_facts r) \<le> 6 \<and> length (sr_snapshot_id r) \<le> kMaxSnapshotStringBytes \<and>
     length (sr_producer r) \<le> kMaxSnapshotStringBytes \<and>
     length (sr_producer_version r) \<le> kMaxSnapshotStringBytes"
| "operation_ok i (AdapterMetadataOp src facts) \<longleftrightarrow> sl_event_index src = i \<and> length facts \<le> 8"
| "operation_ok i (MalformedRangeOp src first_id final_id) \<longleftrightarrow> sl_event_index src = i \<and> first_id > final_id"

definition spec_ok :: "replay_spec \<Rightarrow> bool" where
  "spec_ok s \<longleftrightarrow> rs_price_scale s \<le> 18 \<and> rs_quantity_scale s \<le> 18"

definition case_ok :: "fuzz_case \<Rightarrow> bool" where
  "case_ok c \<longleftrightarrow>
     fc_operations c \<noteq> [] \<and> length (fc_operations c) \<le> kMaxOperations \<and>
     (\<forall>i < length (fc_operations c). operation_ok i (fc_operations c ! i)) \<and>
     fc_symbol c \<noteq> [] \<and> length (fc_symbol c) \<le> kMaxSymbolBytes \<and>
     length (fc_adapter_wire_symbol c) \<le> kMaxSymbolBytes \<and>
     length (fc_adapter_expected_symbol c) \<le> kMaxSymbolBytes \<and>
     spec_ok (fc_numeric_spec c) \<and> spec_ok (fc_adapter_conversion_numeric_spec c) \<and>
     spec_ok (fc_adapter_projection_numeric_spec c) \<and>
     (fc_market c = ReplaySpot \<longleftrightarrow> fc_sequence_policy c = PolicySpot)"

lemma reads_levels_loop:
  assumes "length levels = min i keep" "list_all (level_ok expected) levels"
  shows "reads (levels_loop i n keep idx expected levels)
    (\<lambda>(ls, _). length ls \<le> keep \<and> list_all (level_ok expected) ls)"
  using assms
proof (induction n arbitrary: i idx levels)
  case (Suc n)
  have step: "reads (levels_loop (i + 1) n keep idx' expected
      (if i < keep then levels @ [\<lparr>li_side = side, li_price = price, li_quantity = quantity\<rparr>] else levels))
      (\<lambda>(ls, _). length ls \<le> keep \<and> list_all (level_ok expected) ls)"
    if "length price \<le> 31" "length quantity \<le> 31" "\<And>s. expected = Some s \<Longrightarrow> side = s"
    for idx' side price quantity
    using Suc.prems that by (intro Suc.IH) (auto simp: level_ok_def)
  show ?case
    unfolding levels_loop.simps Let_def
    by (intro reads_bind[OF reads_u8] reads_bind_pair[OF reads_level_token] step) simp_all
qed (auto intro!: reads_return)

lemma reads_levels:
  "reads (decode_levels max_count idx expected)
    (\<lambda>(ls, _). length ls \<le> min kMaxLevelsPerEvent max_count \<and> list_all (level_ok expected) ls)"
proof -
  have "reads (levels_loop 0 n (min n max_count) idx expected [])
      (\<lambda>(ls, _). length ls \<le> min kMaxLevelsPerEvent max_count \<and> list_all (level_ok expected) ls)"
    if "n \<le> 8" for n
    by (rule reads_weaken[OF reads_levels_loop]) (use that in auto)
  then show ?thesis
    unfolding decode_levels_def
    by (intro reads_intros reads_bind[OF reads_bounded] reads_return) simp_all
qed

lemma reads_quality_facts:
  "reads (decode_quality_facts max_count) (\<lambda>r. \<exists>fs. r = Some fs \<and> length fs \<le> max_count)"
proof -
  have fact: "reads decode_quality_fact (\<lambda>r. r \<noteq> None)"
    unfolding decode_quality_fact_def
    by (rule reads_bind[OF reads_bounded]) (simp add: reads_return kMap_def)
  have loop: "reads (facts_loop n facts) (\<lambda>r. \<exists>fs. r = Some fs \<and> length fs = length facts + n)" for n facts
  proof (induction n arbitrary: facts)
    case (Suc n)
    show ?case
      unfolding facts_loop.simps
    proof (rule reads_bind[OF fact])
      fix f :: "replay_quality_fact option"
      assume "f \<noteq> None"
      then obtain x where "f = Some x" by blast
      then show "reads (case f of None \<Rightarrow> State_Monad.return None | Some x \<Rightarrow> facts_loop n (facts @ [x]))
          (\<lambda>r. \<exists>fs. r = Some fs \<and> length fs = length facts + Suc n)"
        using reads_weaken[OF Suc.IH[of "facts @ [x]"]] by simp
    qed
  qed (simp add: reads_return)
  have "reads (facts_loop n []) (\<lambda>r. \<exists>fs. r = Some fs \<and> length fs \<le> max_count)" if "n \<le> max_count" for n
    using that by (intro reads_weaken[OF loop]) auto
  then show ?thesis
    unfolding decode_quality_facts_def
    by (intro reads_intros reads_bind[OF reads_bounded] reads_return) simp_all
qed

lemma reads_optional_u64: "reads read_optional_u64 (\<lambda>_. True)"
  unfolding read_optional_u64_def
  by (intro reads_intros reads_bind[OF reads_var_u64] reads_return) simp_all

lemma reads_baseline_levels:
  "reads decode_baseline_levels (\<lambda>(bids, asks). length bids + length asks \<le> kMaxLevelsPerEvent \<and>
     list_all (level_ok (Some SideBid)) bids \<and> list_all (level_ok (Some SideAsk)) asks)"
  unfolding decode_baseline_levels_def
  by (intro reads_bind_pair[OF reads_levels] reads_return) auto

lemma reads_snapshot_request:
  "reads decode_snapshot_request (\<lambda>r. \<exists>q. r = Some q \<and> operation_ok (sl_event_index src) (SnapshotRequestOp src q))"
proof -
  have depth: "reads (if d then do { b \<leftarrow> read_u8; State_Monad.return (Some (unat b)) } else State_Monad.return None)
      (\<lambda>_. True)" for d
    by (intro reads_intros reads_return) simp_all
  have gap: "reads (if d then do { g \<leftarrow> read_var_u64; b \<leftarrow> read_u8; State_Monad.return (Some (g, decode_recovery b)) }
      else State_Monad.return None) (\<lambda>_. True)" for d
    by (intro reads_intros reads_bind[OF reads_var_u64] reads_return) simp_all
  have cases: "reads (case h of None \<Rightarrow> State_Monad.return None | Some fs \<Rightarrow> k fs) P"
    if "\<exists>fs. h = Some fs \<and> length fs \<le> 6" "\<And>fs. length fs \<le> 6 \<Longrightarrow> reads (k fs) P"
    for h :: "replay_quality_fact list option" and k P
    using that by auto
  show ?thesis
    unfolding decode_snapshot_request_def
    by (intro reads_bind[OF reads_u8] reads_bind[OF depth] reads_bind[OF reads_quality_facts] cases
        reads_bind[OF reads_string] reads_bind[OF reads_var_u64] reads_bind[OF reads_optional_u64]
        reads_bind[OF gap] reads_return) simp_all
qed

lemma sl_event_index_source [simp]: "sl_event_index (op_source i name) = i"
  by (simp add: op_source_def make_source_def)

lemma reads_operation:
  "reads (decode_operation i) (\<lambda>r. r \<noteq> None \<and> (\<forall>op. r = Some (Some op) \<longrightarrow> operation_ok i op))"
  unfolding decode_operation_def Let_def
  by (intro reads_intros reads_bind[OF reads_var_u64] reads_bind_pair[OF reads_baseline_levels]
      reads_bind[OF reads_optional_u64] reads_bind_pair[OF reads_levels]
      reads_bind[OF reads_snapshot_request[of "op_source i ''SnapshotRequest''"]]
      reads_bind[OF reads_quality_facts] reads_return)
    (auto simp: not_le)

definition operations_ok :: "replay_operation list \<Rightarrow> bool" where
  "operations_ok ops \<longleftrightarrow> (\<forall>i < length ops. operation_ok i (ops ! i))"

lemma operations_ok_snoc: "operations_ok ops \<Longrightarrow> operation_ok (length ops) op \<Longrightarrow> operations_ok (ops @ [op])"
  by (auto simp: operations_ok_def nth_append less_Suc_eq)

lemma reads_operations_loop:
  "operations_ok ops \<Longrightarrow> reads (operations_loop (length ops) n ops)
     (\<lambda>r. \<exists>os. r = Some os \<and> length os \<le> length ops + n \<and> operations_ok os)"
proof (induction n arbitrary: ops)
  case (Suc n)
  show ?case
    unfolding operations_loop.simps
  proof (rule reads_bind[OF reads_operation])
    fix r :: "replay_operation option option"
    assume r: "r \<noteq> None \<and> (\<forall>op. r = Some (Some op) \<longrightarrow> operation_ok (length ops) op)"
    show "reads (case r of None \<Rightarrow> State_Monad.return None | Some None \<Rightarrow> State_Monad.return (Some ops)
        | Some (Some op) \<Rightarrow> operations_loop (length ops + 1) n (ops @ [op]))
        (\<lambda>r. \<exists>os. r = Some os \<and> length os \<le> length ops + Suc n \<and> operations_ok os)"
    proof (cases r)
      case (Some o1)
      show ?thesis
      proof (cases o1)
        case None
        with Some Suc.prems show ?thesis by (simp add: reads_return)
      next
        case op: (Some op)
        with Some r Suc.prems have "operations_ok (ops @ [op])" by (simp add: operations_ok_snoc)
        from reads_weaken[OF Suc.IH[OF this]] Some op show ?thesis by fastforce
      qed
    qed (use r in simp)
  qed
qed (simp add: reads_return)

lemma reads_operations:
  "reads decode_operations (\<lambda>r. \<exists>os. r = Some os \<and> length os \<le> kMaxOperations \<and> operations_ok os)"
proof -
  have loop: "reads (operations_loop 0 n []) (\<lambda>r. \<exists>os. r = Some os \<and> length os \<le> 64 \<and> operations_ok os)"
    if "n \<le> 64" for n
  proof (rule reads_weaken)
    show "reads (operations_loop 0 n []) (\<lambda>r. \<exists>os. r = Some os \<and> length os \<le> 0 + n \<and> operations_ok os)"
      using reads_operations_loop[of "[]" n] by (simp add: operations_ok_def)
  qed (use that in auto)
  have count: "reads (if d then State_Monad.return 0 else do { b \<leftarrow> read_u8; State_Monad.return (unat b) }) (\<lambda>_. True)"
    for d
    by (intro reads_intros reads_return) simp_all
  show ?thesis
    unfolding decode_operations_def Let_def
    by (intro reads_bind[OF reads_exhausted] reads_bind[OF count] loop) simp
qed

lemma clamp_scale_le [simp]: "clamp_scale n \<le> 18"
  using mod_less_divisor[of 19 n] by (auto simp: clamp_scale_def)

lemma reads_scenario: "case_ok c \<Longrightarrow> reads (decode_scenario c) case_ok"
  unfolding decode_scenario_def Let_def
  by (intro reads_intros reads_bind[OF reads_string] reads_return) (simp add: case_ok_def spec_ok_def)

lemma reads_case: "reads decode_case (\<lambda>r. r \<noteq> None \<and> (\<forall>c. r = Some (Some c) \<longrightarrow> case_ok c))"
proof -
  have result: "reads (do { result \<leftarrow> (if b then decode_scenario c else State_Monad.return c);
      State_Monad.return (Some (Some result)) }) (\<lambda>r. r \<noteq> None \<and> (\<forall>c. r = Some (Some c) \<longrightarrow> case_ok c))"
    if "case_ok c" for b c
    by (rule reads_bind[where P = case_ok]) (simp_all add: that reads_scenario reads_return)
  have cases: "reads (case h of None \<Rightarrow> State_Monad.return None | Some os \<Rightarrow> k os) P"
    if "\<exists>os. h = Some os \<and> length os \<le> 64 \<and> operations_ok os"
      "\<And>os. length os \<le> 64 \<Longrightarrow> operations_ok os \<Longrightarrow> reads (k os) P"
    for h :: "replay_operation list option" and k P
    using that by auto
  show ?thesis
    unfolding decode_case_def Let_def
    by (intro reads_bind[OF reads_u8] reads_bind[OF reads_string] reads_bind[OF reads_operations] cases reads_if
        reads_bind[OF reads_exhausted] result reads_return)
      (simp_all add: case_ok_def spec_ok_def operations_ok_def)
qed

text \<open>
  C39: the fuzz decoder keeps its promises on every input.  It never terminates abnormally; a decoded
  case has between 1 and 64 operations in order of their event index, at most 8 levels per event and
  31 bytes per decimal token, strings within their bounds and scales of at most 18; a depth update
  has an ordered range and a malformed range a reversed one; the bids of a baseline are bids and its
  asks are asks; and the cursor ends inside the buffer, which it leaves unchanged.
\<close>

theorem decoder_respects_bounds:
  "\<exists>r. decode data = Some r \<and> (\<forall>c. r = Some c \<longrightarrow> case_ok c) \<and>
     (let cursor = snd (run_state decode_case \<lparr>bc_data = data, bc_offset = 0\<rparr>)
      in bc_data cursor = data \<and> bc_offset cursor \<le> length data)"
proof -
  let ?c = "\<lparr>bc_data = data, bc_offset = 0\<rparr> :: byte_cursor"
  have "fst (run_state decode_case ?c) \<noteq> None \<and>
      (\<forall>c. fst (run_state decode_case ?c) = Some (Some c) \<longrightarrow> case_ok c) \<and>
      cursor_step ?c (snd (run_state decode_case ?c))"
    using reads_case[unfolded reads_def, THEN spec, of ?c] by simp
  then show ?thesis
    by (auto simp: decode_def cursor_step_def Let_def)
qed

lemma decode_example: "\<exists>c. decode [0, 4, 0, 1, 3] = Some (Some c)"
  by (simp add: decode_def decode_case_def read_u8_def exhausted_def read_string_def decode_operations_def
      decode_operation_def Let_def)

theorem decoder_respects_bounds_witness: "\<exists>c. decode [0, 4, 0, 1, 3] = Some (Some c) \<and> case_ok c"
  using decoder_respects_bounds[of "[0, 4, 0, 1, 3]"] decode_example by auto

end
