(* ===== verification/Fuzz_Fixture.thy ===== *)
theory Fuzz_Fixture
  imports Fuzz_Decoder
begin

text \<open>
  From a decoded case to what the differential replay runs on: the fixture of
  \<open>fuzz/m5/replay_fuzz_fixture.cpp\<close> and the adapter scenario \<open>fuzz/replay_fuzz.cpp\<close> selects.  The replay
  driver and its sides are modelled in the \<open>Replay\<close> theories; what is shown here is that they are always
  given a consistent fixture and a usable scenario.
\<close>

subsection \<open>Fixtures\<close>

record fixture_identity =
  fi_schema_version :: nat
  fi_replay_log_sha256 :: string
  fi_fixture_id :: string
  fi_market :: replay_market
  fi_symbol :: string
  fi_numeric_spec :: replay_spec
  fi_sequence_policy :: replay_policy

record replay_header =
  rh_schema_version :: nat
  rh_market :: replay_market
  rh_symbol :: string
  rh_numeric_spec :: replay_spec
  rh_sequence_policy :: replay_policy
  rh_fixture_id :: string
  rh_provenance :: "(string \<times> string) list"

record normalized_replay =
  nr_header :: replay_header
  nr_operations :: "replay_operation list"

record replay_manifest =
  rm_identity :: fixture_identity
  rm_event_count :: nat
  rm_provenance :: "(string \<times> string) list"

record replay_fixture =
  rf_replay :: normalized_replay
  rf_manifest :: replay_manifest
  rf_identity :: fixture_identity
  rf_canonical_log_sha256 :: string

definition kReplaySchemaVersion :: nat where
  "kReplaySchemaVersion = 1"

definition build_structured_fixture :: "fuzz_case \<Rightarrow> replay_fixture" where
  "build_structured_fixture fuzz_case =
     (let identity =
        \<lparr>fi_schema_version = kReplaySchemaVersion, fi_replay_log_sha256 = [],
         fi_fixture_id = ''structured-fuzz'', fi_market = fc_market fuzz_case,
         fi_symbol = fc_symbol fuzz_case, fi_numeric_spec = fc_numeric_spec fuzz_case,
         fi_sequence_policy = fc_sequence_policy fuzz_case\<rparr>
      in
        \<lparr>rf_replay =
           \<lparr>nr_header =
              \<lparr>rh_schema_version = kReplaySchemaVersion, rh_market = fc_market fuzz_case,
               rh_symbol = fc_symbol fuzz_case, rh_numeric_spec = fc_numeric_spec fuzz_case,
               rh_sequence_policy = fc_sequence_policy fuzz_case,
               rh_fixture_id = ''structured-fuzz'', rh_provenance = []\<rparr>,
            nr_operations = fc_operations fuzz_case\<rparr>,
         rf_manifest =
           \<lparr>rm_identity = identity, rm_event_count = length (fc_operations fuzz_case),
            rm_provenance = []\<rparr>,
         rf_identity = identity,
         rf_canonical_log_sha256 = []\<rparr>)"

subsection \<open>Adapter scenarios\<close>

datatype scenario_venue = ScenarioBinance | ScenarioVenueUnspecified | ScenarioVenueUnknown

datatype scenario_market =
  ScenarioSpot | ScenarioUsdMPerpetual | ScenarioMarketUnspecified | ScenarioMarketUnknown

record adapter_scenario =
  as_wire_venue :: scenario_venue
  as_wire_market :: scenario_market
  as_wire_symbol :: string
  as_expected_symbol :: string
  as_expected_policy :: replay_policy
  as_conversion_numeric_spec :: replay_spec
  as_projection_numeric_spec :: replay_spec
  as_projection_policy :: replay_policy

fun map_fuzz_venue :: "fuzz_venue \<Rightarrow> scenario_venue" where
  "map_fuzz_venue VenueBinance = ScenarioBinance"
| "map_fuzz_venue VenueUnspecified = ScenarioVenueUnspecified"
| "map_fuzz_venue VenueUnknownNumeric = ScenarioVenueUnknown"

fun map_fuzz_market :: "fuzz_market \<Rightarrow> scenario_market" where
  "map_fuzz_market MarketSpot = ScenarioSpot"
| "map_fuzz_market MarketUsdMPerpetual = ScenarioUsdMPerpetual"
| "map_fuzz_market MarketUnspecified = ScenarioMarketUnspecified"
| "map_fuzz_market MarketUnknownNumeric = ScenarioMarketUnknown"

definition fuzz_scenario :: "fuzz_case \<Rightarrow> adapter_scenario" where
  "fuzz_scenario fuzz_case =
     \<lparr>as_wire_venue = map_fuzz_venue (fc_scenario_venue fuzz_case),
      as_wire_market = map_fuzz_market (fc_scenario_market fuzz_case),
      as_wire_symbol =
        (if fc_adapter_wire_symbol fuzz_case = [] then fc_symbol fuzz_case
         else fc_adapter_wire_symbol fuzz_case),
      as_expected_symbol =
        (if fc_adapter_expected_symbol fuzz_case = [] then fc_symbol fuzz_case
         else fc_adapter_expected_symbol fuzz_case),
      as_expected_policy = fc_adapter_expected_policy fuzz_case,
      as_conversion_numeric_spec =
        (if rs_price_scale (fc_adapter_conversion_numeric_spec fuzz_case) = 0 \<and>
            rs_quantity_scale (fc_adapter_conversion_numeric_spec fuzz_case) = 0
           then fc_numeric_spec fuzz_case else fc_adapter_conversion_numeric_spec fuzz_case),
      as_projection_numeric_spec =
        (if rs_price_scale (fc_adapter_projection_numeric_spec fuzz_case) = 0 \<and>
            rs_quantity_scale (fc_adapter_projection_numeric_spec fuzz_case) = 0
           then fc_numeric_spec fuzz_case else fc_adapter_projection_numeric_spec fuzz_case),
      as_projection_policy = fc_adapter_projection_policy fuzz_case\<rparr>"

subsection \<open>Properties\<close>

fun operation_source :: "replay_operation \<Rightarrow> source_location" where
  "operation_source (InstallBaselineOp src _ _ _) = src"
| "operation_source (DepthUpdateOp src _ _ _ _) = src"
| "operation_source (RebaselineOp src _ _ _) = src"
| "operation_source (ResetOp src) = src"
| "operation_source (SnapshotRequestOp src _) = src"
| "operation_source (AdapterMetadataOp src _) = src"
| "operation_source (MalformedRangeOp src _ _) = src"

lemma operation_ok_index: "operation_ok i op \<Longrightarrow> sl_event_index (operation_source op) = i"
  by (cases op) simp_all

text \<open>A numeric specification the core accepts: both scales pass \<open>DecimalScale::create\<close>.\<close>

definition spec_creatable :: "replay_spec \<Rightarrow> bool" where
  "spec_creatable s \<longleftrightarrow> DecimalScale_create (of_nat (rs_price_scale s)) \<noteq> None \<and>
     DecimalScale_create (of_nat (rs_quantity_scale s)) \<noteq> None"

lemma spec_ok_creatable: "spec_ok s \<Longrightarrow> spec_creatable s"
proof -
  have "DecimalScale_create (of_nat n) \<noteq> None" if "n \<le> 18" for n
    using that by (simp add: DecimalScale_create_def word_less_nat_alt unat_of_nat take_bit_nat_eq_self)
  then show "spec_ok s \<Longrightarrow> spec_creatable s" by (simp add: spec_creatable_def spec_ok_def)
qed

lemma decoded_case_ok:
  assumes "decode data = Some (Some c)"
  shows "case_ok c"
proof -
  have "\<forall>c. fst (run_state decode_case \<lparr>bc_data = data, bc_offset = 0\<rparr>) = Some (Some c) \<longrightarrow> case_ok c"
    using reads_case[unfolded reads_def, THEN spec, of "\<lparr>bc_data = data, bc_offset = 0\<rparr>"] by simp
  with assms show ?thesis by (simp add: decode_def split: if_splits)
qed

text \<open>
  The replay driver is always given a consistent fixture.  For every input that decodes, the
  identity, the replay header and the manifest of the fixture agree, the event count is the number
  of operations and the operations carry their position; no log digest is claimed.  The adapter
  scenario has non-empty symbols of at most 10 bytes, and every numeric specification is one the
  core accepts, so no decoded case is lost to an invalid scale.
\<close>

lemma structured_fixture_consistent:
  fixes c :: fuzz_case
  defines "fixture \<equiv> build_structured_fixture c" and "scenario \<equiv> fuzz_scenario c"
  defines "header \<equiv> nr_header (rf_replay fixture)" and "identity \<equiv> rf_identity fixture"
  assumes "decode data = Some (Some c)"
  shows "rm_identity (rf_manifest fixture) = identity \<and>
    rh_schema_version header = fi_schema_version identity \<and> rh_market header = fi_market identity \<and>
    rh_symbol header = fi_symbol identity \<and> rh_numeric_spec header = fi_numeric_spec identity \<and>
    rh_sequence_policy header = fi_sequence_policy identity \<and>
    rh_fixture_id header = fi_fixture_id identity \<and>
    rm_event_count (rf_manifest fixture) = length (nr_operations (rf_replay fixture)) \<and>
    (\<forall>i < rm_event_count (rf_manifest fixture).
       sl_event_index (operation_source (nr_operations (rf_replay fixture) ! i)) = i) \<and>
    fi_replay_log_sha256 identity = [] \<and> rf_canonical_log_sha256 fixture = [] \<and>
    list_all (\<lambda>s. s \<noteq> [] \<and> length s \<le> kMaxSymbolBytes)
      [fi_symbol identity, as_wire_symbol scenario, as_expected_symbol scenario] \<and>
    list_all spec_creatable
      [fi_numeric_spec identity, as_conversion_numeric_spec scenario, as_projection_numeric_spec scenario]"
proof -
  have ok: "case_ok c" using assms(5) by (rule decoded_case_ok)
  have "sl_event_index (operation_source (fc_operations c ! i)) = i" if "i < length (fc_operations c)" for i
    using ok that by (intro operation_ok_index) (simp add: case_ok_def)
  moreover have "list_all spec_creatable [fc_numeric_spec c, as_conversion_numeric_spec scenario,
      as_projection_numeric_spec scenario]"
    using ok by (simp add: scenario_def fuzz_scenario_def case_ok_def spec_ok_creatable)
  ultimately show ?thesis
    using ok
    by (simp add: fixture_def header_def identity_def scenario_def build_structured_fixture_def
        fuzz_scenario_def Let_def case_ok_def)
qed

lemma decode_reset_example: "\<exists>c. decode [1, 4, 0, 1, 3] = Some (Some c)"
  by (simp add: decode_def decode_case_def read_u8_def exhausted_def read_string_def decode_operations_def
      decode_operation_def Let_def)

end
