(* ===== verification/Replay_Observation.thy ===== *)
theory Replay_Observation
  imports Fuzz_Fixture Decimal_Format
begin

text \<open>
  The unit of comparison of the differential replay and its comparator:
  \<open>tests/m5/oracle/operation_observation.hpp\<close> and the comparison half of \<open>divergence.cpp\<close>.  A
  \<open>Divergence\<close> keeps what selects and locates the first mismatch (event, layer, category, detail,
  fixture and source line); the four fields that only render the compared values as text
  (\<open>production_value\<close>, \<open>reference_value\<close> and the two checkpoints) and the rendering itself are left out.
\<close>

subsection \<open>Canonical vocabulary\<close>

datatype layer = R1 | R2 | R3 | R4 | LayerD

datatype divergence_category =
  ParseEvidence | OperationResult | Checkpoint | SnapshotObservation | Composition

datatype event_kind =
  KindInstallBaseline | KindDepthUpdate | KindRebaseline | KindReset | KindSnapshotRequest |
  KindAdapterMetadata | KindMalformedRange

datatype canonical_disposition =
  CInstalled | CApplied | CIgnoredStale | CIgnoredDuplicate | CGapDetected | CRejectedWrongState

datatype canonical_status = CAwaitingBaseline | CAwaitingBridge | CSynchronized | CNeedsResync

datatype canonical_gap_reason =
  CSpotBootstrapForwardGap | CSpotLiveForwardGap | CFuturesBootstrapRangeMiss |
  CFuturesMissingPreviousFinal | CFuturesPreviousFinalMismatch

datatype canonical_policy = CSpot | CUsdMPerpetual

datatype canonical_venue = CVenueBinance

datatype canonical_market = CMarketSpot | CMarketUsdMPerpetual

datatype canonical_decimal_error =
  CEmpty | CInvalidSyntax | CSignNotAllowed | CLeadingZero | CMissingFractionDigits |
  CZeroNotAllowed | CInexactScale | COverflow

datatype canonical_book_side = CBid | CAsk

datatype canonical_decimal_role = RolePrice | RoleQuantity

record canonical_decimal_value =
  cv_units :: int
  cv_storage_scale :: nat
  cv_source_fraction_digits :: nat

record canonical_decimal_failure =
  cf_category :: canonical_decimal_error
  cf_offset :: nat

type_synonym canonical_decimal_result = "canonical_decimal_value + canonical_decimal_failure"

record canonical_decimal_observation =
  co_side :: canonical_book_side
  co_level_position :: nat
  co_role :: canonical_decimal_role
  co_result :: canonical_decimal_result

datatype canonical_adapter_code =
  CodeUnsupportedVenue | CodeUnsupportedMarket | CodeUnexpectedStream | CodeIdentityMismatch |
  CodeUnsupportedSchemaVersion | CodeUnspecifiedEnum | CodeUnknownEnumValue | CodeInvalidUpdateRange |
  CodeMissingRequiredField | CodeInvalidIdentifier | CodeInvalidDecimal | CodeNegativeQuantity |
  CodeNonPositivePrice | CodeScaleMismatch | CodeNumericOverflow | CodeInvalidDepthLimit |
  CodeInvalidOrdering | CodeUnsupportedProjectionState | CodeMissingLastUpdateId |
  CodeInvalidGapContext | CodeInvalidHostQualityCombination | CodeContractsVersionMismatch |
  CodeProjectionNumericSpecMismatch | CodeProjectionPolicyMismatch

datatype canonical_adapter_field =
  FieldNone | FieldVenue | FieldMarket | FieldStream | FieldSymbol | FieldSchemaVersion |
  FieldProducer | FieldProducerVersion | FieldRequestId | FieldConnectionId | FieldFirstUpdateId |
  FieldFinalUpdateId | FieldPreviousFinalUpdateId | FieldBidPrice | FieldBidQuantity |
  FieldAskPrice | FieldAskQuantity | FieldQualityFlag | FieldProjectionPriceScale |
  FieldProjectionQuantityScale | FieldProjectionPolicy | FieldDepthLimit | FieldSnapshotSource |
  FieldLastUpdateId | FieldCurrentGap | FieldGapRecoveryState | FieldHostQualityFact

datatype canonical_quality_flag =
  FlagDuplicate | FlagOutOfOrder | FlagSequenceGap | FlagOrderBookResync | FlagSnapshotBridgePending |
  FlagSnapshotTooOld | FlagBootstrapBufferOverflow | FlagRecoveredTail | FlagMalformedPayload |
  FlagExchangeTimeMissing | FlagReceiveClockDiscontinuity | FlagSlowConsumerGap |
  FlagProducerRestart | FlagOverlap | FlagIdentityConflict | FlagCrossedBook

datatype canonical_snapshot_source = CGatewayLive | CRecorderReplay | CHistoryReplay

datatype canonical_resync_state = CResyncRequired | CResyncInProgress | CResyncFailed

datatype canonical_reason_code = CSequenceGapDetected

record canonical_level =
  cl_price :: int
  cl_quantity :: int

record canonical_gap_evidence =
  ge_last_accepted_final :: uint64
  ge_first_update_id :: uint64
  ge_final_update_id :: uint64
  ge_previous_final :: "uint64 option"
  ge_reason :: canonical_gap_reason
  ge_policy :: canonical_policy

subsection \<open>Observations\<close>

record install_outcome =
  io_disposition :: canonical_disposition
  io_status_after :: canonical_status
  io_last_update_id_after :: "uint64 option"

record apply_outcome =
  ao_disposition :: canonical_disposition
  ao_status_after :: canonical_status
  ao_last_update_id_after :: "uint64 option"
  ao_gap :: "canonical_gap_evidence option"

record adapter_error_outcome =
  oe_code :: canonical_adapter_code
  oe_field :: canonical_adapter_field
  oe_decimal_error :: "canonical_decimal_error option"

record adapter_success_outcome =
  su_core_result :: "install_outcome + apply_outcome"
  su_observed_quality :: "canonical_quality_flag list"

record snapshot_level =
  sl_price :: string
  sl_quantity :: string

record gap_descriptor_observation =
  go_detected_at_utc_ns :: uint64
  go_previous_sequence :: uint64
  go_next_sequence :: uint64
  go_reason_code :: canonical_reason_code
  go_recovery_state :: canonical_resync_state

record snapshot_outcome =
  sn_venue :: canonical_venue
  sn_market :: canonical_market
  sn_schema_version :: string
  sn_policy :: canonical_policy
  sn_symbol :: string
  sn_producer :: string
  sn_producer_version :: string
  sn_source :: canonical_snapshot_source
  sn_generated_time_utc_ns :: uint64
  sn_generated_monotonic_ns :: "uint64 option"
  sn_last_update_id :: "uint64 option"
  sn_synchronized :: bool
  sn_bids :: "snapshot_level list"
  sn_asks :: "snapshot_level list"
  sn_quality_flags :: "canonical_quality_flag list"
  sn_depth_limit :: "nat option"
  sn_gap_descriptor :: "gap_descriptor_observation option"

datatype operation_result =
  DecimalErrorOutcome canonical_decimal_error
| InstallOutcome install_outcome
| ApplyOutcome apply_outcome
| AdapterErrorOutcome adapter_error_outcome
| AdapterSuccessOutcome adapter_success_outcome
| SnapshotOutcome snapshot_outcome
| SnapshotNotProducedOutcome
| ResetOutcome
| RangeOutcome bool
| MetadataOutcome

record semantic_checkpoint =
  cp_status :: canonical_status
  cp_last_update_id :: "uint64 option"
  cp_last_gap :: "canonical_gap_evidence option"
  cp_synchronized_visible :: bool
  cp_bids :: "canonical_level list"
  cp_asks :: "canonical_level list"
  cp_price_scale :: nat
  cp_quantity_scale :: nat

record operation_observation =
  oo_event_index :: nat
  oo_event_kind :: event_kind
  oo_decimal_observations :: "canonical_decimal_observation list"
  oo_result :: operation_result
  oo_checkpoint :: semantic_checkpoint
  oo_snapshot :: "snapshot_outcome option"

record divergence =
  dv_event_index :: nat
  dv_event_kind :: event_kind
  dv_layer :: layer
  dv_category :: divergence_category
  dv_detail :: string
  dv_fixture_identity :: string
  dv_source_line :: string
  dv_source_line_number :: nat
  dv_fixture_id :: string
  dv_replay_log_sha256 :: string
  dv_price_scale :: nat
  dv_quantity_scale :: nat
  dv_policy :: string
  dv_market :: string
  dv_symbol :: string
  dv_provenance :: "(string \<times> string) list"

text \<open>The constructor; the members it does not name have their default values.\<close>

definition Divergence ::
  "nat \<Rightarrow> event_kind \<Rightarrow> layer \<Rightarrow> divergence_category \<Rightarrow> string \<Rightarrow> string \<Rightarrow> string \<Rightarrow> divergence" where
  "Divergence index kind layer category detail fixture_identity source_line =
     \<lparr>dv_event_index = index, dv_event_kind = kind, dv_layer = layer, dv_category = category,
      dv_detail = detail, dv_fixture_identity = fixture_identity, dv_source_line = source_line,
      dv_source_line_number = 0, dv_fixture_id = [], dv_replay_log_sha256 = [], dv_price_scale = 0,
      dv_quantity_scale = 0, dv_policy = [], dv_market = [], dv_symbol = [], dv_provenance = []\<rparr>"

end
