(* ===== verification/Replay_Compare.thy ===== *)
theory Replay_Compare
  imports Replay_Observation
begin

text \<open>
  The comparator of the differential replay, \<open>compare_observations\<close> of
  \<open>tests/m5/oracle/divergence.cpp\<close>: the fixed order of comparisons (parse evidence, kind of result,
  fields of the result, checkpoint, snapshot) and the layer each mismatch is charged to.
\<close>

subsection \<open>Parse evidence\<close>

text \<open>The first field in which two observations of a decimal differ.\<close>

definition decimal_field :: "canonical_decimal_observation \<Rightarrow> canonical_decimal_observation \<Rightarrow> string option" where
  "decimal_field expected actual =
     (if co_side expected \<noteq> co_side actual then Some ''side''
      else if co_level_position expected \<noteq> co_level_position actual then Some ''level_position''
      else if co_role expected \<noteq> co_role actual then Some ''role''
      else case (co_result expected, co_result actual) of
        (Inl expected_value, Inl actual_value) \<Rightarrow>
          if cv_units expected_value \<noteq> cv_units actual_value then Some ''units''
          else if cv_storage_scale expected_value \<noteq> cv_storage_scale actual_value then Some ''storage_scale''
          else if cv_source_fraction_digits expected_value \<noteq> cv_source_fraction_digits actual_value
            then Some ''source_fraction_digits''
          else None
      | (Inr expected_failure, Inr actual_failure) \<Rightarrow>
          if cf_category expected_failure \<noteq> cf_category actual_failure then Some ''error.category''
          else if cf_offset expected_failure \<noteq> cf_offset actual_failure then Some ''error.offset''
          else None
      | _ \<Rightarrow> Some ''result kind'')"

fun decimal_loop ::
  "(string \<Rightarrow> divergence) \<Rightarrow> nat \<Rightarrow> canonical_decimal_observation list \<Rightarrow>
   canonical_decimal_observation list \<Rightarrow> divergence option" where
  "decimal_loop mismatch index (expected # es) (actual # as) =
     (case decimal_field expected actual of
        Some field \<Rightarrow>
          Some (mismatch (''decimal evidence['' @ to_chars_nat index @ ''].'' @ field @ '' differs''))
      | None \<Rightarrow> decimal_loop mismatch (index + 1) es as)"
| "decimal_loop mismatch index es as = None"

definition compare_decimal_observations ::
  "operation_observation \<Rightarrow> operation_observation \<Rightarrow> string \<Rightarrow> source_location \<Rightarrow> divergence option" where
  "compare_decimal_observations production reference fixture_identity source =
     (let mismatch = (\<lambda>detail. Divergence (oo_event_index production) (oo_event_kind production) R1
            ParseEvidence detail fixture_identity (sl_canonical_line source))
      in
      if length (oo_decimal_observations production) \<noteq> length (oo_decimal_observations reference)
        then Some (mismatch ''decimal evidence count differs'')
      else decimal_loop mismatch 0 (oo_decimal_observations production) (oo_decimal_observations reference))"

subsection \<open>Levels\<close>

fun levels_loop_compare ::
  "(string \<Rightarrow> divergence) \<Rightarrow> string \<Rightarrow> nat \<Rightarrow> canonical_level list \<Rightarrow> canonical_level list \<Rightarrow>
   divergence option" where
  "levels_loop_compare mismatch side index (expected # es) (actual # as) =
     (if cl_price expected \<noteq> cl_price actual
        then Some (mismatch (side @ ''['' @ to_chars_nat index @ ''].price differs''))
      else if cl_quantity expected \<noteq> cl_quantity actual
        then Some (mismatch (side @ ''['' @ to_chars_nat index @ ''].quantity differs''))
      else levels_loop_compare mismatch side (index + 1) es as)"
| "levels_loop_compare mismatch side index es as = None"

definition compare_levels ::
  "canonical_level list \<Rightarrow> string \<Rightarrow> canonical_level list \<Rightarrow> nat \<Rightarrow> event_kind \<Rightarrow> layer \<Rightarrow>
   divergence option" where
  "compare_levels expected side actual event_index kind layer =
     (let mismatch = (\<lambda>detail. Divergence event_index kind layer Checkpoint detail [] []) in
      if length expected \<noteq> length actual then Some (mismatch (side @ '' level count differs''))
      else levels_loop_compare mismatch side 0 expected actual)"

subsection \<open>Results\<close>

text \<open>
  The overloads of \<open>compare_result_impl\<close>.  Each returns the first differing field with the layer it
  is charged to; \<open>result_divergence\<close> is the record their \<open>mismatch\<close> closures build.
\<close>

definition result_divergence ::
  "operation_observation \<Rightarrow> string \<Rightarrow> source_location \<Rightarrow> layer \<Rightarrow> string \<Rightarrow> divergence" where
  "result_divergence production fixture_identity source layer field =
     Divergence (oo_event_index production) (oo_event_kind production) layer OperationResult
       (''operation result field '' @ [CHR 0x27] @ field @ [CHR 0x27] @ '' differs'') fixture_identity (sl_canonical_line source)"

definition install_field :: "install_outcome \<Rightarrow> install_outcome \<Rightarrow> string option" where
  "install_field expected actual =
     (if io_disposition expected \<noteq> io_disposition actual then Some ''disposition''
      else if io_status_after expected \<noteq> io_status_after actual then Some ''status_after''
      else if io_last_update_id_after expected \<noteq> io_last_update_id_after actual
        then Some ''last_update_id_after''
      else None)"

definition gap_field :: "canonical_gap_evidence \<Rightarrow> canonical_gap_evidence \<Rightarrow> string option" where
  "gap_field expected_gap actual_gap =
     (if ge_last_accepted_final expected_gap \<noteq> ge_last_accepted_final actual_gap
        then Some ''gap.last_accepted_final''
      else if ge_first_update_id expected_gap \<noteq> ge_first_update_id actual_gap
        then Some ''gap.first_update_id''
      else if ge_final_update_id expected_gap \<noteq> ge_final_update_id actual_gap
        then Some ''gap.final_update_id''
      else if ge_previous_final expected_gap \<noteq> ge_previous_final actual_gap then Some ''gap.previous_final''
      else if ge_reason expected_gap \<noteq> ge_reason actual_gap then Some ''gap.reason''
      else if ge_policy expected_gap \<noteq> ge_policy actual_gap then Some ''gap.policy''
      else None)"

definition apply_field :: "apply_outcome \<Rightarrow> apply_outcome \<Rightarrow> string option" where
  "apply_field expected actual =
     (if ao_disposition expected \<noteq> ao_disposition actual then Some ''disposition''
      else if ao_status_after expected \<noteq> ao_status_after actual then Some ''status_after''
      else if ao_last_update_id_after expected \<noteq> ao_last_update_id_after actual
        then Some ''last_update_id_after''
      else case (ao_gap expected, ao_gap actual) of
        (None, None) \<Rightarrow> None
      | (Some expected_gap, Some actual_gap) \<Rightarrow> gap_field expected_gap actual_gap
      | _ \<Rightarrow> Some ''gap'')"

definition adapter_error_field :: "adapter_error_outcome \<Rightarrow> adapter_error_outcome \<Rightarrow> string option" where
  "adapter_error_field expected actual =
     (if oe_code expected \<noteq> oe_code actual then Some ''code''
      else if oe_field expected \<noteq> oe_field actual then Some ''field''
      else if oe_decimal_error expected \<noteq> oe_decimal_error actual then Some ''decimal_error''
      else None)"

fun observed_quality_loop :: "canonical_quality_flag list \<Rightarrow> canonical_quality_flag list \<Rightarrow> bool" where
  "observed_quality_loop (expected # es) (actual # as) \<longleftrightarrow>
     (if expected \<noteq> actual then False else observed_quality_loop es as)"
| "observed_quality_loop es as \<longleftrightarrow> True"

definition adapter_success_field ::
  "adapter_success_outcome \<Rightarrow> adapter_success_outcome \<Rightarrow> (layer \<times> string) option" where
  "adapter_success_field expected actual =
     (let core =
        (case (su_core_result expected, su_core_result actual) of
           (Inl e, Inl a) \<Rightarrow> map_option (Pair R3) (install_field e a)
         | (Inr e, Inr a) \<Rightarrow> map_option (Pair R3) (apply_field e a)
         | _ \<Rightarrow> Some (R3, ''core_result kind''))
      in case core of
        Some mismatch \<Rightarrow> Some mismatch
      | None \<Rightarrow>
          if length (su_observed_quality expected) \<noteq> length (su_observed_quality actual)
            then Some (R4, ''observed_quality count'')
          else if \<not> observed_quality_loop (su_observed_quality expected) (su_observed_quality actual)
            then Some (R4, ''observed_quality'')
          else None)"

definition snapshot_field :: "snapshot_outcome \<Rightarrow> snapshot_outcome \<Rightarrow> string option" where
  "snapshot_field expected actual =
     (if sn_policy expected \<noteq> sn_policy actual then Some ''policy''
      else if sn_symbol expected \<noteq> sn_symbol actual then Some ''symbol''
      else if sn_producer expected \<noteq> sn_producer actual then Some ''producer''
      else if sn_producer_version expected \<noteq> sn_producer_version actual then Some ''producer_version''
      else if sn_source expected \<noteq> sn_source actual then Some ''source''
      else if sn_generated_time_utc_ns expected \<noteq> sn_generated_time_utc_ns actual
        then Some ''generated_time_utc_ns''
      else if sn_generated_monotonic_ns expected \<noteq> sn_generated_monotonic_ns actual
        then Some ''generated_monotonic_ns''
      else if sn_last_update_id expected \<noteq> sn_last_update_id actual then Some ''last_update_id''
      else if sn_synchronized expected \<noteq> sn_synchronized actual then Some ''synchronized''
      else if sn_bids expected \<noteq> sn_bids actual then Some ''bids''
      else if sn_asks expected \<noteq> sn_asks actual then Some ''asks''
      else if sn_quality_flags expected \<noteq> sn_quality_flags actual then Some ''quality_flags''
      else if sn_depth_limit expected \<noteq> sn_depth_limit actual then Some ''depth_limit''
      else if sn_gap_descriptor expected \<noteq> sn_gap_descriptor actual then Some ''gap_descriptor''
      else None)"

definition compare_range ::
  "bool \<Rightarrow> bool \<Rightarrow> operation_observation \<Rightarrow> string \<Rightarrow> source_location \<Rightarrow> divergence option" where
  "compare_range expected actual production fixture_identity source =
     (if expected \<noteq> actual
        then Some (result_divergence production fixture_identity source R3 ''invalid_as_intended'')
      else if \<not> expected
        then Some (Divergence (oo_event_index production) (oo_event_kind production) LayerD Composition
          ''MALFORMED_RANGE did not denote a reversed range'' fixture_identity (sl_canonical_line source))
      else None)"

text \<open>
  The dispatch of \<open>compare_observations\<close> over two results of the same kind; \<open>None\<close> in the outer
  option is a pair of different kinds.
\<close>

definition compare_result_impl ::
  "operation_observation \<Rightarrow> operation_observation \<Rightarrow> string \<Rightarrow> source_location \<Rightarrow>
   divergence option option" where
  "compare_result_impl production reference fixture_identity source =
     (let mismatch = result_divergence production fixture_identity source in
      case (oo_result production, oo_result reference) of
        (DecimalErrorOutcome expected, DecimalErrorOutcome actual) \<Rightarrow>
          Some (if expected \<noteq> actual then Some (mismatch R1 ''category'') else None)
      | (InstallOutcome expected, InstallOutcome actual) \<Rightarrow>
          Some (map_option (mismatch R3) (install_field expected actual))
      | (ApplyOutcome expected, ApplyOutcome actual) \<Rightarrow>
          Some (map_option (mismatch R3) (apply_field expected actual))
      | (AdapterErrorOutcome expected, AdapterErrorOutcome actual) \<Rightarrow>
          Some (map_option (mismatch R4) (adapter_error_field expected actual))
      | (AdapterSuccessOutcome expected, AdapterSuccessOutcome actual) \<Rightarrow>
          Some (map_option (\<lambda>(layer, field). mismatch layer field) (adapter_success_field expected actual))
      | (SnapshotOutcome expected, SnapshotOutcome actual) \<Rightarrow>
          Some (map_option (mismatch R4) (snapshot_field expected actual))
      | (RangeOutcome expected, RangeOutcome actual) \<Rightarrow>
          Some (compare_range expected actual production fixture_identity source)
      | (SnapshotNotProducedOutcome, SnapshotNotProducedOutcome) \<Rightarrow> Some None
      | (ResetOutcome, ResetOutcome) \<Rightarrow> Some None
      | (MetadataOutcome, MetadataOutcome) \<Rightarrow> Some None
      | _ \<Rightarrow> None)"

fun holds_adapter :: "operation_result \<Rightarrow> bool" where
  "holds_adapter (AdapterErrorOutcome _) = True"
| "holds_adapter (AdapterSuccessOutcome _) = True"
| "holds_adapter (SnapshotOutcome _) = True"
| "holds_adapter _ = False"

fun holds_decimal :: "operation_result \<Rightarrow> bool" where
  "holds_decimal (DecimalErrorOutcome _) = True"
| "holds_decimal _ = False"

fun holds_composition :: "operation_result \<Rightarrow> bool" where
  "holds_composition MetadataOutcome = True"
| "holds_composition SnapshotNotProducedOutcome = True"
| "holds_composition _ = False"

definition layer_for_result_kind :: "operation_result \<Rightarrow> operation_result \<Rightarrow> layer" where
  "layer_for_result_kind production reference =
     (if holds_adapter production \<or> holds_adapter reference then R4
      else if holds_decimal production \<or> holds_decimal reference then R1
      else if holds_composition production \<or> holds_composition reference then LayerD
      else R3)"

subsection \<open>Checkpoints, snapshots, observations\<close>

definition compare_checkpoint ::
  "operation_observation \<Rightarrow> operation_observation \<Rightarrow> string \<Rightarrow> source_location \<Rightarrow> divergence option" where
  "compare_checkpoint production reference fixture_identity source =
     (let divergence = (\<lambda>layer detail. Some (Divergence (oo_event_index production)
            (oo_event_kind production) layer Checkpoint detail fixture_identity (sl_canonical_line source)));
          levels = (\<lambda>expected side actual. compare_levels expected side actual
            (oo_event_index production) (oo_event_kind production) R2);
          expected = oo_checkpoint production;
          actual = oo_checkpoint reference
      in
      if cp_status expected \<noteq> cp_status actual
        then divergence R3 ''checkpoint field 'status' differs''
      else if cp_last_update_id expected \<noteq> cp_last_update_id actual
        then divergence R3 ''checkpoint field 'last_update_id' differs''
      else if cp_last_gap expected \<noteq> cp_last_gap actual
        then divergence R3 ''checkpoint field 'last_gap' differs''
      else if cp_synchronized_visible expected \<noteq> cp_synchronized_visible actual
        then divergence R3 ''checkpoint field 'synchronized_visible' differs''
      else case levels (cp_bids expected) ''bids'' (cp_bids actual) of
        Some level_divergence \<Rightarrow> Some level_divergence
      | None \<Rightarrow>
          (case levels (cp_asks expected) ''asks'' (cp_asks actual) of
             Some level_divergence \<Rightarrow> Some level_divergence
           | None \<Rightarrow>
               if cp_price_scale expected \<noteq> cp_price_scale actual
                 then divergence R3 ''checkpoint field 'price_scale' differs''
               else if cp_quantity_scale expected \<noteq> cp_quantity_scale actual
                 then divergence R3 ''checkpoint field 'quantity_scale' differs''
               else None))"

definition compare_snapshot ::
  "operation_observation \<Rightarrow> operation_observation \<Rightarrow> string \<Rightarrow> source_location \<Rightarrow> divergence option" where
  "compare_snapshot production reference fixture_identity source =
     (let divergence = (\<lambda>layer detail. Some (Divergence (oo_event_index production)
            (oo_event_kind production) layer SnapshotObservation detail fixture_identity
            (sl_canonical_line source)))
      in case (oo_snapshot production, oo_snapshot reference) of
        (None, None) \<Rightarrow> None
      | (Some expected, Some actual) \<Rightarrow>
          if expected \<noteq> actual then divergence R4 ''snapshot semantic observation differs'' else None
      | _ \<Rightarrow> divergence R4 ''snapshot observation presence differs'')"

definition compare_observations ::
  "operation_observation \<Rightarrow> operation_observation \<Rightarrow> string \<Rightarrow> source_location \<Rightarrow> divergence option" where
  "compare_observations production reference fixture_identity source =
     (if oo_event_kind production \<noteq> oo_event_kind reference then
        Some (Divergence (oo_event_index production) (oo_event_kind production) LayerD Composition
          ''event kind differs'' fixture_identity (sl_canonical_line source))
      else case compare_decimal_observations production reference fixture_identity source of
        Some nested \<Rightarrow> Some nested
      | None \<Rightarrow>
          (case compare_result_impl production reference fixture_identity source of
             None \<Rightarrow>
               Some (Divergence (oo_event_index production) (oo_event_kind production)
                 (layer_for_result_kind (oo_result production) (oo_result reference)) OperationResult
                 ''operation result kind differs'' fixture_identity (sl_canonical_line source))
           | Some (Some nested) \<Rightarrow> Some nested
           | Some None \<Rightarrow>
               (case compare_checkpoint production reference fixture_identity source of
                  Some nested \<Rightarrow> Some nested
                | None \<Rightarrow> compare_snapshot production reference fixture_identity source)))"

text \<open>The context a reported divergence is given afterwards.\<close>

definition enrich_divergence :: "divergence \<Rightarrow> replay_fixture \<Rightarrow> source_location \<Rightarrow> divergence" where
  "enrich_divergence d fixture source =
     d\<lparr>dv_fixture_identity := ''fixture_id='' @ fi_fixture_id (rf_identity fixture) @ '' log_sha256='' @
         fi_replay_log_sha256 (rf_identity fixture),
       dv_source_line := sl_canonical_line source,
       dv_source_line_number := sl_line_number source,
       dv_fixture_id := fi_fixture_id (rf_identity fixture),
       dv_replay_log_sha256 := fi_replay_log_sha256 (rf_identity fixture),
       dv_price_scale := rs_price_scale (fi_numeric_spec (rf_identity fixture)),
       dv_quantity_scale := rs_quantity_scale (fi_numeric_spec (rf_identity fixture)),
       dv_policy := (if fi_sequence_policy (rf_identity fixture) = PolicySpot then ''Spot'' else ''UsdMPerpetual''),
       dv_market := (if fi_market (rf_identity fixture) = ReplaySpot then ''Spot'' else ''UsdMPerpetual''),
       dv_symbol := fi_symbol (rf_identity fixture),
       dv_provenance := rm_provenance (rf_manifest fixture)\<rparr>"

subsection \<open>What the comparator accepts\<close>

lemma if_Some_None [simp]: "(if c then Some x else y) = None \<longleftrightarrow> \<not> c \<and> y = None"
  by simp

lemma first_None [simp]:
  "(\<And>x. g x \<noteq> None) \<Longrightarrow> (case c of None \<Rightarrow> q | Some x \<Rightarrow> g x) = None \<longleftrightarrow> c = None \<and> q = None"
  by (cases c) simp_all

lemma decimal_field_None [simp]: "decimal_field e a = None \<longleftrightarrow> e = a"
  by (cases e; cases a; cases "co_result e"; cases "co_result a") (auto simp: decimal_field_def)

lemma decimal_loop_None:
  "length es = length as \<Longrightarrow> decimal_loop mismatch index es as = None \<longleftrightarrow> es = as"
  by (induction es as arbitrary: index rule: list_induct2) simp_all

lemma compare_decimal_None:
  "compare_decimal_observations p r f s = None \<longleftrightarrow> oo_decimal_observations p = oo_decimal_observations r"
  by (auto simp: compare_decimal_observations_def Let_def decimal_loop_None)

lemma levels_loop_None:
  "length es = length as \<Longrightarrow> levels_loop_compare mismatch side index es as = None \<longleftrightarrow> es = as"
  by (induction es as arbitrary: index rule: list_induct2) auto

lemma compare_levels_None: "compare_levels es side as i k l = None \<longleftrightarrow> es = as"
  by (auto simp: compare_levels_def Let_def levels_loop_None)

lemma install_field_None [simp]: "install_field e a = None \<longleftrightarrow> e = a"
  by (cases e; cases a) (simp add: install_field_def)

lemma gap_field_None [simp]: "gap_field e a = None \<longleftrightarrow> e = a"
  by (cases e; cases a) (simp add: gap_field_def)

lemma apply_field_None [simp]: "apply_field e a = None \<longleftrightarrow> e = a"
  by (cases e; cases a; cases "ao_gap e"; cases "ao_gap a") (simp_all add: apply_field_def)

lemma adapter_error_field_None [simp]: "adapter_error_field e a = None \<longleftrightarrow> e = a"
  by (cases e; cases a) (simp add: adapter_error_field_def)

lemma observed_quality_loop_eq: "length es = length as \<Longrightarrow> observed_quality_loop es as \<longleftrightarrow> es = as"
  by (induction es as rule: list_induct2) auto

lemma adapter_success_field_None [simp]: "adapter_success_field e a = None \<longleftrightarrow> e = a"
  by (cases e; cases a; cases "su_core_result e"; cases "su_core_result a")
    (auto simp: adapter_success_field_def observed_quality_loop_eq)

lemma snapshot_field_None:
  "snapshot_field e a = None \<longleftrightarrow>
     e = a\<lparr>sn_venue := sn_venue e, sn_market := sn_market e, sn_schema_version := sn_schema_version e\<rparr>"
  by (cases e; cases a) (simp add: snapshot_field_def)

text \<open>
  Two results agree when they are equal, up to the three members of a snapshot the result comparison
  leaves to the snapshot comparison, and are not a range event that turned out to be valid.
\<close>

definition result_agrees :: "operation_result \<Rightarrow> operation_result \<Rightarrow> bool" where
  "result_agrees e a \<longleftrightarrow>
     (case (e, a) of
        (SnapshotOutcome s, SnapshotOutcome t) \<Rightarrow>
          s = t\<lparr>sn_venue := sn_venue s, sn_market := sn_market s, sn_schema_version := sn_schema_version s\<rparr>
      | _ \<Rightarrow> e = a \<and> e \<noteq> RangeOutcome False)"

lemma compare_result_None:
  "compare_result_impl p r f s = Some None \<longleftrightarrow> result_agrees (oo_result p) (oo_result r)"
  by (cases "oo_result p"; cases "oo_result r")
    (simp_all add: compare_result_impl_def result_agrees_def snapshot_field_None compare_range_def)

lemma compare_checkpoint_None:
  "compare_checkpoint p r f s = None \<longleftrightarrow> oo_checkpoint p = oo_checkpoint r"
  by (cases "oo_checkpoint p"; cases "oo_checkpoint r") (simp add: compare_checkpoint_def Let_def compare_levels_None)

lemma compare_snapshot_None: "compare_snapshot p r f s = None \<longleftrightarrow> oo_snapshot p = oo_snapshot r"
  by (cases "oo_snapshot p"; cases "oo_snapshot r") (simp_all add: compare_snapshot_def)

lemmas compare_None = compare_decimal_None compare_result_None compare_checkpoint_None compare_snapshot_None

lemma compare_observations_None:
  "compare_observations p r f s = None \<longleftrightarrow>
     oo_event_kind p = oo_event_kind r \<and> oo_decimal_observations p = oo_decimal_observations r \<and>
     result_agrees (oo_result p) (oo_result r) \<and> oo_checkpoint p = oo_checkpoint r \<and>
     oo_snapshot p = oo_snapshot r"
proof (cases "compare_result_impl p r f s")
  case None
  then have "\<not> result_agrees (oo_result p) (oo_result r)" using compare_result_None[of p r f s] by simp
  with None show ?thesis by (simp add: compare_observations_def split: option.split)
next
  case (Some nested)
  then show ?thesis
    by (cases nested)
      (auto simp: compare_observations_def compare_None[symmetric, of p r f s] split: option.splits)
qed

text \<open>The category of a divergence tells which comparison failed.\<close>

lemma Divergence_sel [simp]:
  "dv_event_index (Divergence i k l c t f n) = i" "dv_event_kind (Divergence i k l c t f n) = k"
  "dv_layer (Divergence i k l c t f n) = l" "dv_category (Divergence i k l c t f n) = c"
  "dv_detail (Divergence i k l c t f n) = t"
  by (simp_all add: Divergence_def)

lemma decimal_loop_Some: "decimal_loop mismatch index es as = Some d \<Longrightarrow> \<exists>t. d = mismatch t"
  by (induction mismatch index es as rule: decimal_loop.induct) (auto split: option.splits)

lemma compare_decimal_Some: "compare_decimal_observations p r f s = Some d \<Longrightarrow> dv_category d = ParseEvidence"
  by (auto simp: compare_decimal_observations_def Let_def dest!: decimal_loop_Some split: if_splits)

lemma compare_result_Some:
  "compare_result_impl p r f s = Some (Some d) \<Longrightarrow> dv_category d =
     (if oo_result p = RangeOutcome False \<and> oo_result r = RangeOutcome False then Composition else OperationResult)"
  by (cases "oo_result p"; cases "oo_result r")
    (auto simp: compare_result_impl_def result_divergence_def compare_range_def split: if_splits)

lemma levels_loop_Some: "levels_loop_compare mismatch side index es as = Some d \<Longrightarrow> \<exists>t. d = mismatch t"
  by (induction mismatch side index es as rule: levels_loop_compare.induct) (auto split: if_splits)

lemma compare_levels_Some: "compare_levels es side as i k l = Some d \<Longrightarrow> dv_category d = Checkpoint"
  by (auto simp: compare_levels_def Let_def dest!: levels_loop_Some split: if_splits)

lemma compare_checkpoint_Some: "compare_checkpoint p r f s = Some d \<Longrightarrow> dv_category d = Checkpoint"
  by (auto simp: compare_checkpoint_def Let_def dest: compare_levels_Some split: if_splits option.splits)

lemma compare_snapshot_Some: "compare_snapshot p r f s = Some d \<Longrightarrow> dv_category d = SnapshotObservation"
  by (cases "oo_snapshot p"; cases "oo_snapshot r") (auto simp: compare_snapshot_def split: if_splits)

lemma compare_observations_Some:
  assumes "compare_observations p r f s = Some d"
  obtains (kind) "oo_event_kind p \<noteq> oo_event_kind r" "dv_category d = Composition"
  | (evidence) "oo_event_kind p = oo_event_kind r" "oo_decimal_observations p \<noteq> oo_decimal_observations r"
      "dv_category d = ParseEvidence"
  | (result) "oo_event_kind p = oo_event_kind r" "oo_decimal_observations p = oo_decimal_observations r"
      "\<not> result_agrees (oo_result p) (oo_result r)"
      "dv_category d =
        (if oo_result p = RangeOutcome False \<and> oo_result r = RangeOutcome False then Composition else OperationResult)"
  | (checkpoint) "oo_event_kind p = oo_event_kind r" "oo_decimal_observations p = oo_decimal_observations r"
      "result_agrees (oo_result p) (oo_result r)" "oo_checkpoint p \<noteq> oo_checkpoint r"
      "dv_category d = Checkpoint"
  | (snapshot) "oo_event_kind p = oo_event_kind r" "oo_decimal_observations p = oo_decimal_observations r"
      "result_agrees (oo_result p) (oo_result r)" "oo_checkpoint p = oo_checkpoint r"
      "oo_snapshot p \<noteq> oo_snapshot r" "dv_category d = SnapshotObservation"
proof -
  note none = compare_None[of p r f s, symmetric]
  consider "oo_event_kind p \<noteq> oo_event_kind r"
    | d' where "oo_event_kind p = oo_event_kind r" "compare_decimal_observations p r f s = Some d'"
    | "oo_event_kind p = oo_event_kind r" "compare_decimal_observations p r f s = None"
      "compare_result_impl p r f s = None"
    | d' where "oo_event_kind p = oo_event_kind r" "compare_decimal_observations p r f s = None"
      "compare_result_impl p r f s = Some (Some d')"
    | d' where "oo_event_kind p = oo_event_kind r" "compare_decimal_observations p r f s = None"
      "compare_result_impl p r f s = Some None" "compare_checkpoint p r f s = Some d'"
    | "oo_event_kind p = oo_event_kind r" "compare_decimal_observations p r f s = None"
      "compare_result_impl p r f s = Some None" "compare_checkpoint p r f s = None"
    by (metis option.exhaust)
  then show thesis
  proof cases
    case 1 with assms that(1) show thesis by (auto simp: compare_observations_def)
  next
    case 2 with assms that(2) show thesis by (auto simp: compare_observations_def none compare_decimal_Some)
  next
    case 3
    then have "\<not> (oo_result p = RangeOutcome False \<and> oo_result r = RangeOutcome False)"
      by (auto simp: compare_result_impl_def)
    with 3 assms that(3) show thesis by (auto simp: compare_observations_def none)
  next
    case 4 with assms that(3) show thesis
      by (auto simp: compare_observations_def none dest: compare_result_Some)
  next
    case 5 with assms that(4) show thesis
      by (auto simp: compare_observations_def none dest: compare_checkpoint_Some)
  next
    case 6 with assms that(5) show thesis
      by (auto simp: compare_observations_def none dest: compare_snapshot_Some)
  qed
qed

text \<open>The sides carry the snapshot of a snapshot result in the observation as well.\<close>

definition observation_consistent :: "operation_observation \<Rightarrow> bool" where
  "observation_consistent ob \<longleftrightarrow>
     (case oo_result ob of SnapshotOutcome s \<Rightarrow> oo_snapshot ob = Some s | _ \<Rightarrow> True)"

lemma result_agrees_consistent:
  assumes "observation_consistent p" "observation_consistent r" "oo_snapshot p = oo_snapshot r"
  shows "result_agrees (oo_result p) (oo_result r) \<longleftrightarrow>
    oo_result p = oo_result r \<and> oo_result p \<noteq> RangeOutcome False"
  using assms
  by (cases "oo_result p"; cases "oo_result r") (auto simp: observation_consistent_def result_agrees_def)

text \<open>
  C40: the comparator has no blind spot.  For observations that carry the snapshot of a snapshot
  result, it accepts exactly the pairs that are equal but for the event index, and of those not a
  range event that turned out to be valid.  When it reports, the category names the first of the
  comparisons that fails: the event kind (\<open>Composition\<close>), the parse evidence, the result
  (\<open>OperationResult\<close>), the checkpoint, the snapshot.  A range event both sides found valid, which no
  fixture should hold, is charged to \<open>Composition\<close> when the kind and the evidence agree.
\<close>

theorem comparator_exact:
  assumes "observation_consistent p" and "observation_consistent r"
  shows "(compare_observations p r f s = None \<longleftrightarrow>
      p = r\<lparr>oo_event_index := oo_event_index p\<rparr> \<and> oo_result p \<noteq> RangeOutcome False) \<and>
    (\<forall>d. compare_observations p r f s = Some d \<longrightarrow>
      (dv_category d = Composition \<longleftrightarrow>
         oo_event_kind p \<noteq> oo_event_kind r \<or>
         oo_decimal_observations p = oo_decimal_observations r \<and>
         oo_result p = RangeOutcome False \<and> oo_result r = RangeOutcome False) \<and>
      (dv_category d = ParseEvidence \<longleftrightarrow>
         oo_event_kind p = oo_event_kind r \<and> oo_decimal_observations p \<noteq> oo_decimal_observations r) \<and>
      (dv_category d = OperationResult \<longleftrightarrow>
         oo_event_kind p = oo_event_kind r \<and> oo_decimal_observations p = oo_decimal_observations r \<and>
         \<not> result_agrees (oo_result p) (oo_result r) \<and>
         \<not> (oo_result p = RangeOutcome False \<and> oo_result r = RangeOutcome False)) \<and>
      (dv_category d = Checkpoint \<longleftrightarrow>
         oo_event_kind p = oo_event_kind r \<and> oo_decimal_observations p = oo_decimal_observations r \<and>
         result_agrees (oo_result p) (oo_result r) \<and> oo_checkpoint p \<noteq> oo_checkpoint r) \<and>
      (dv_category d = SnapshotObservation \<longleftrightarrow>
         oo_event_kind p = oo_event_kind r \<and> oo_decimal_observations p = oo_decimal_observations r \<and>
         result_agrees (oo_result p) (oo_result r) \<and> oo_checkpoint p = oo_checkpoint r \<and>
         oo_snapshot p \<noteq> oo_snapshot r))"
proof (intro conjI allI impI)
  have "compare_observations p r f s = None \<longleftrightarrow>
      oo_event_kind p = oo_event_kind r \<and> oo_decimal_observations p = oo_decimal_observations r \<and>
      (oo_result p = oo_result r \<and> oo_result p \<noteq> RangeOutcome False) \<and>
      oo_checkpoint p = oo_checkpoint r \<and> oo_snapshot p = oo_snapshot r"
    using result_agrees_consistent[OF assms] by (auto simp: compare_observations_None)
  then show "compare_observations p r f s = None \<longleftrightarrow>
      p = r\<lparr>oo_event_index := oo_event_index p\<rparr> \<and> oo_result p \<noteq> RangeOutcome False"
    by (cases p; cases r) auto
next
  fix d
  assume some: "compare_observations p r f s = Some d"
  show "dv_category d = Composition \<longleftrightarrow>
         oo_event_kind p \<noteq> oo_event_kind r \<or>
         oo_decimal_observations p = oo_decimal_observations r \<and>
         oo_result p = RangeOutcome False \<and> oo_result r = RangeOutcome False"
    using some by (cases rule: compare_observations_Some) (auto simp: result_agrees_def)
  show "dv_category d = ParseEvidence \<longleftrightarrow>
         oo_event_kind p = oo_event_kind r \<and> oo_decimal_observations p \<noteq> oo_decimal_observations r"
    using some by (cases rule: compare_observations_Some) (auto simp: result_agrees_def)
  show "dv_category d = OperationResult \<longleftrightarrow>
         oo_event_kind p = oo_event_kind r \<and> oo_decimal_observations p = oo_decimal_observations r \<and>
         \<not> result_agrees (oo_result p) (oo_result r) \<and>
         \<not> (oo_result p = RangeOutcome False \<and> oo_result r = RangeOutcome False)"
    using some by (cases rule: compare_observations_Some) (auto simp: result_agrees_def)
  show "dv_category d = Checkpoint \<longleftrightarrow>
         oo_event_kind p = oo_event_kind r \<and> oo_decimal_observations p = oo_decimal_observations r \<and>
         result_agrees (oo_result p) (oo_result r) \<and> oo_checkpoint p \<noteq> oo_checkpoint r"
    using some by (cases rule: compare_observations_Some) (auto simp: result_agrees_def)
  show "dv_category d = SnapshotObservation \<longleftrightarrow>
         oo_event_kind p = oo_event_kind r \<and> oo_decimal_observations p = oo_decimal_observations r \<and>
         result_agrees (oo_result p) (oo_result r) \<and> oo_checkpoint p = oo_checkpoint r \<and>
         oo_snapshot p \<noteq> oo_snapshot r"
    using some by (cases rule: compare_observations_Some) (auto simp: result_agrees_def)
qed

definition example_observation :: "operation_result \<Rightarrow> operation_observation" where
  "example_observation res =
     \<lparr>oo_event_index = 0, oo_event_kind = KindReset, oo_decimal_observations = [], oo_result = res,
      oo_checkpoint = \<lparr>cp_status = CAwaitingBaseline, cp_last_update_id = None, cp_last_gap = None,
        cp_synchronized_visible = False, cp_bids = [], cp_asks = [], cp_price_scale = 2,
        cp_quantity_scale = 3\<rparr>,
      oo_snapshot = None\<rparr>"

definition example_source :: source_location where
  "example_source = \<lparr>sl_event_index = 0, sl_line_number = 1, sl_canonical_line = ''RESET''\<rparr>"

theorem comparator_exact_witness:
  "compare_observations (example_observation ResetOutcome) (example_observation ResetOutcome) [] example_source = None \<and>
   (\<exists>d. compare_observations (example_observation ResetOutcome) (example_observation MetadataOutcome) []
      example_source = Some d \<and> dv_category d = OperationResult) \<and>
   (\<exists>d. compare_observations (example_observation (RangeOutcome False)) (example_observation (RangeOutcome False)) []
      example_source = Some d \<and> dv_category d = Composition)"
proof -
  note facts = observation_consistent_def example_observation_def result_agrees_def
  show ?thesis
    using comparator_exact[of "example_observation ResetOutcome" "example_observation ResetOutcome" "[]" example_source]
      comparator_exact[of "example_observation ResetOutcome" "example_observation MetadataOutcome" "[]" example_source]
      comparator_exact[of "example_observation (RangeOutcome False)" "example_observation (RangeOutcome False)" "[]"
        example_source]
    by (auto simp: facts)
qed

end
