(* ===== verification/Replay_Driver.thy ===== *)
theory Replay_Driver
  imports Replay_Compare
begin

text \<open>
  \<open>ReplayDriver::run\<close> of \<open>tests/m5/oracle/replay_driver.cpp\<close>, over two arbitrary sides.  A side is
  the interface \<open>ReplaySide\<close> of \<open>replay_side.hpp\<close>: it observes one operation at a time and keeps a
  state of its own.  It may refuse an observation (\<open>nullopt\<close>); an uncaught exception inside it is the
  outer \<open>None\<close>.  The locale \<open>lockstep_sides\<close> is what two sides must promise for a replay to run to
  the end without a divergence.
\<close>

type_synonym 's side = "'s \<Rightarrow> replay_operation \<Rightarrow> (operation_observation option \<times> 's) option"

datatype observation_retention = RetainAll | RetainNone

record compact_install_result =
  ci_event_index :: nat
  ci_disposition :: canonical_disposition
  ci_status_after :: canonical_status

record compact_depth_result =
  cd_event_index :: nat
  cd_disposition :: canonical_disposition
  cd_status_after :: canonical_status

record execution_summary =
  es_processed_events :: nat
  es_install_events :: nat
  es_depth_events :: nat
  es_first_install :: "compact_install_result option"
  es_first_depth_update :: "compact_depth_result option"
  es_depth_results :: "compact_depth_result list"
  es_installed_count :: nat
  es_applied_count :: nat
  es_ignored_stale_count :: nat
  es_ignored_duplicate_count :: nat
  es_gap_detected_count :: nat
  es_rejected_wrong_state_count :: nat
  es_adapter_error_count :: nat
  es_decimal_error_count :: nat
  es_other_events_count :: nat
  es_first_other_event_index :: "nat option"
  es_first_adapter_error_index :: "nat option"

record replay_outcome =
  ro_observations :: "operation_observation list"
  ro_final_observation :: "operation_observation option"
  ro_first_divergence :: "divergence option"
  ro_summary :: execution_summary
  ro_processed_events :: nat

definition empty_summary :: execution_summary where
  "empty_summary =
     \<lparr>es_processed_events = 0, es_install_events = 0, es_depth_events = 0, es_first_install = None,
      es_first_depth_update = None, es_depth_results = [], es_installed_count = 0, es_applied_count = 0,
      es_ignored_stale_count = 0, es_ignored_duplicate_count = 0, es_gap_detected_count = 0,
      es_rejected_wrong_state_count = 0, es_adapter_error_count = 0, es_decimal_error_count = 0,
      es_other_events_count = 0, es_first_other_event_index = None, es_first_adapter_error_index = None\<rparr>"

definition empty_outcome :: replay_outcome where
  "empty_outcome = \<lparr>ro_observations = [], ro_final_observation = None, ro_first_divergence = None,
     ro_summary = empty_summary, ro_processed_events = 0\<rparr>"

fun event_kind_of :: "replay_operation \<Rightarrow> event_kind" where
  "event_kind_of (InstallBaselineOp _ _ _ _) = KindInstallBaseline"
| "event_kind_of (DepthUpdateOp _ _ _ _ _) = KindDepthUpdate"
| "event_kind_of (RebaselineOp _ _ _ _) = KindRebaseline"
| "event_kind_of (ResetOp _) = KindReset"
| "event_kind_of (SnapshotRequestOp _ _) = KindSnapshotRequest"
| "event_kind_of (AdapterMetadataOp _ _) = KindAdapterMetadata"
| "event_kind_of (MalformedRangeOp _ _ _) = KindMalformedRange"

definition fixture_identity_text :: "fixture_identity \<Rightarrow> string" where
  "fixture_identity_text identity =
     ''fixture_id='' @ fi_fixture_id identity @ '' log_sha256='' @ fi_replay_log_sha256 identity"

subsection \<open>The summary\<close>

definition accumulate_install :: "execution_summary \<Rightarrow> nat \<Rightarrow> install_outcome \<Rightarrow> execution_summary" where
  "accumulate_install summary event_index install =
     (let s1 = summary\<lparr>es_install_events := es_install_events summary + 1\<rparr>;
          s2 = (if es_first_install s1 = None then
                  s1\<lparr>es_first_install := Some \<lparr>ci_event_index = event_index,
                    ci_disposition = io_disposition install, ci_status_after = io_status_after install\<rparr>\<rparr>
                else s1)
      in case io_disposition install of
           CInstalled \<Rightarrow> s2\<lparr>es_installed_count := es_installed_count s2 + 1\<rparr>
         | CRejectedWrongState \<Rightarrow> s2\<lparr>es_rejected_wrong_state_count := es_rejected_wrong_state_count s2 + 1\<rparr>
         | _ \<Rightarrow> s2)"

definition accumulate_apply :: "execution_summary \<Rightarrow> nat \<Rightarrow> apply_outcome \<Rightarrow> execution_summary" where
  "accumulate_apply summary event_index apply_res =
     (let compact = \<lparr>cd_event_index = event_index, cd_disposition = ao_disposition apply_res,
            cd_status_after = ao_status_after apply_res\<rparr>;
          s1 = summary\<lparr>es_depth_events := es_depth_events summary + 1\<rparr>;
          s2 = (if es_first_depth_update s1 = None then s1\<lparr>es_first_depth_update := Some compact\<rparr> else s1);
          s3 = s2\<lparr>es_depth_results := es_depth_results s2 @ [compact]\<rparr>
      in case ao_disposition apply_res of
           CApplied \<Rightarrow> s3\<lparr>es_applied_count := es_applied_count s3 + 1\<rparr>
         | CIgnoredStale \<Rightarrow> s3\<lparr>es_ignored_stale_count := es_ignored_stale_count s3 + 1\<rparr>
         | CIgnoredDuplicate \<Rightarrow> s3\<lparr>es_ignored_duplicate_count := es_ignored_duplicate_count s3 + 1\<rparr>
         | CGapDetected \<Rightarrow> s3\<lparr>es_gap_detected_count := es_gap_detected_count s3 + 1\<rparr>
         | CRejectedWrongState \<Rightarrow> s3\<lparr>es_rejected_wrong_state_count := es_rejected_wrong_state_count s3 + 1\<rparr>
         | CInstalled \<Rightarrow> s3)"

definition accumulate_summary :: "execution_summary \<Rightarrow> nat \<Rightarrow> operation_result \<Rightarrow> execution_summary" where
  "accumulate_summary summary event_index res =
     (case res of
        InstallOutcome install \<Rightarrow> accumulate_install summary event_index install
      | ApplyOutcome apply_res \<Rightarrow> accumulate_apply summary event_index apply_res
      | AdapterSuccessOutcome success \<Rightarrow>
          (case su_core_result success of
             Inl inner_install \<Rightarrow> accumulate_install summary event_index inner_install
           | Inr inner_apply \<Rightarrow> accumulate_apply summary event_index inner_apply)
      | AdapterErrorOutcome _ \<Rightarrow>
          (let s1 = summary\<lparr>es_adapter_error_count := es_adapter_error_count summary + 1\<rparr> in
           if es_first_adapter_error_index s1 = None
             then s1\<lparr>es_first_adapter_error_index := Some event_index\<rparr> else s1)
      | DecimalErrorOutcome _ \<Rightarrow> summary\<lparr>es_decimal_error_count := es_decimal_error_count summary + 1\<rparr>
      | _ \<Rightarrow>
          (let s1 = summary\<lparr>es_other_events_count := es_other_events_count summary + 1\<rparr> in
           if es_first_other_event_index s1 = None
             then s1\<lparr>es_first_other_event_index := Some event_index\<rparr> else s1))"

subsection \<open>The run\<close>

text \<open>One event: the stamped observation to keep, or the divergence that ends the run.\<close>

definition stamp :: "nat \<Rightarrow> event_kind \<Rightarrow> operation_observation \<Rightarrow> operation_observation" where
  "stamp index kind ob = ob\<lparr>oo_event_index := index, oo_event_kind := kind\<rparr>"

definition judge_event ::
  "replay_fixture \<Rightarrow> nat \<Rightarrow> replay_operation \<Rightarrow> operation_observation option \<Rightarrow>
   operation_observation option \<Rightarrow> divergence + operation_observation" where
  "judge_event fixture index operation production reference =
     (let identity = fixture_identity_text (rf_identity fixture);
          kind = event_kind_of operation;
          source = operation_source operation
      in case (production, reference) of
           (Some production, Some reference) \<Rightarrow>
             (case compare_observations (stamp index kind production) (stamp index kind reference) identity source of
                Some divergence \<Rightarrow> Inl (enrich_divergence divergence fixture source)
              | None \<Rightarrow> Inr (stamp index kind production))
         | _ \<Rightarrow> Inl (enrich_divergence (Divergence index kind LayerD Composition
             ''pipeline side failed to produce an observation'' identity (sl_canonical_line source))
             fixture source))"

definition record_event ::
  "observation_retention \<Rightarrow> nat \<Rightarrow> operation_observation \<Rightarrow> replay_outcome \<Rightarrow> replay_outcome" where
  "record_event retention index ob outcome =
     (let o1 = outcome\<lparr>ro_final_observation := Some ob,
            ro_summary := accumulate_summary (ro_summary outcome) index (oo_result ob)\<rparr>
      in if retention = RetainAll then o1\<lparr>ro_observations := ro_observations o1 @ [ob]\<rparr> else o1)"

fun run_loop ::
  "'p side \<Rightarrow> 'r side \<Rightarrow> replay_fixture \<Rightarrow> observation_retention \<Rightarrow> nat \<Rightarrow> replay_operation list \<Rightarrow>
   'p \<Rightarrow> 'r \<Rightarrow> replay_outcome \<Rightarrow> replay_outcome option" where
  "run_loop production reference fixture retention index [] p r outcome = Some outcome"
| "run_loop production reference fixture retention index (operation # rest) p r outcome =
     (case production p operation of
        None \<Rightarrow> None
      | Some (production_ob, p') \<Rightarrow>
          (case reference r operation of
             None \<Rightarrow> None
           | Some (reference_ob, r') \<Rightarrow>
               let outcome = outcome\<lparr>ro_processed_events := index + 1\<rparr> in
               (case judge_event fixture index operation production_ob reference_ob of
                  Inl divergence \<Rightarrow> Some (outcome\<lparr>ro_first_divergence := Some divergence\<rparr>)
                | Inr ob \<Rightarrow>
                    run_loop production reference fixture retention (index + 1) rest p' r'
                      (record_event retention index ob outcome))))"

definition ReplayDriver_run ::
  "'p side \<Rightarrow> 'r side \<Rightarrow> replay_fixture \<Rightarrow> observation_retention \<Rightarrow> 'p \<Rightarrow> 'r \<Rightarrow> replay_outcome option" where
  "ReplayDriver_run production reference fixture retention p r =
     run_loop production reference fixture retention 0 (nr_operations (rf_replay fixture)) p r empty_outcome"

subsection \<open>Fault hooks\<close>

definition MutatingSide :: "(operation_observation \<Rightarrow> operation_observation) \<Rightarrow> 's side \<Rightarrow> 's side" where
  "MutatingSide mutator wrapped s operation =
     (case wrapped s operation of
        None \<Rightarrow> None
      | Some (observation, s') \<Rightarrow> Some (map_option mutator observation, s'))"

text \<open>The counter \<open>observed_events_\<close> is paired with the wrapped side's state.\<close>

definition FailingSide :: "nat \<Rightarrow> 's side \<Rightarrow> (nat \<times> 's) side" where
  "FailingSide fail_at_event wrapped state operation =
     (let (observed_events, s) = state in
      if observed_events = fail_at_event then Some (None, observed_events + 1, s)
      else
        (case wrapped s operation of
           None \<Rightarrow> None
         | Some (observation, s') \<Rightarrow> Some (observation, observed_events + 1, s')))"

lemma FailingSide_step:
  "FailingSide fail_at_event wrapped (n, s) operation =
     (if n = fail_at_event then Some (None, n + 1, s)
      else case wrapped s operation of
        None \<Rightarrow> None | Some (observation, s') \<Rightarrow> Some (observation, n + 1, s'))"
  by (simp add: FailingSide_def)

subsection \<open>Every event is counted once\<close>

definition counted_events :: "execution_summary \<Rightarrow> nat" where
  "counted_events s = es_install_events s + es_depth_events s + es_adapter_error_count s +
     es_decimal_error_count s + es_other_events_count s"

lemma accumulate_install_counted [simp]:
  "counted_events (accumulate_install s i r) = counted_events s + 1"
  by (simp add: accumulate_install_def Let_def counted_events_def split: canonical_disposition.split)

lemma accumulate_apply_counted [simp]:
  "counted_events (accumulate_apply s i r) = counted_events s + 1"
  by (simp add: accumulate_apply_def Let_def counted_events_def split: canonical_disposition.split)

lemma accumulate_summary_counted [simp]:
  "counted_events (accumulate_summary s i r) = counted_events s + 1"
proof (cases r)
  case (AdapterSuccessOutcome x)
  then show ?thesis by (cases "su_core_result x") (simp_all add: accumulate_summary_def)
qed (simp_all add: accumulate_summary_def, simp_all add: counted_events_def Let_def)

text \<open>One depth result per depth event, each with one of five dispositions.\<close>

definition summary_ok :: "execution_summary \<Rightarrow> bool" where
  "summary_ok s \<longleftrightarrow> es_depth_events s = length (es_depth_results s) \<and>
     es_first_depth_update s = (if es_depth_results s = [] then None else Some (hd (es_depth_results s)))"

lemma empty_summary_ok: "summary_ok empty_summary" "counted_events empty_summary = 0"
  by (simp_all add: summary_ok_def empty_summary_def counted_events_def)

lemma accumulate_install_ok: "summary_ok s \<Longrightarrow> summary_ok (accumulate_install s i r)"
  by (simp add: summary_ok_def accumulate_install_def Let_def split: canonical_disposition.split)

lemma accumulate_apply_ok: "summary_ok s \<Longrightarrow> summary_ok (accumulate_apply s i r)"
  by (auto simp: summary_ok_def accumulate_apply_def Let_def split: canonical_disposition.split)

lemma accumulate_summary_ok: "summary_ok s \<Longrightarrow> summary_ok (accumulate_summary s i r)"
proof (cases r)
  case (AdapterSuccessOutcome x)
  then show "summary_ok s \<Longrightarrow> ?thesis"
    by (cases "su_core_result x") (simp_all add: accumulate_summary_def accumulate_install_ok accumulate_apply_ok)
qed (simp_all add: accumulate_summary_def accumulate_install_ok accumulate_apply_ok,
     simp_all add: summary_ok_def Let_def)

subsection \<open>Sides that move in lockstep\<close>

lemma result_agrees_refl: "result_agrees e e \<longleftrightarrow> e \<noteq> RangeOutcome False"
  by (cases e) (simp_all add: result_agrees_def)

lemma enrich_sel [simp]:
  "dv_event_index (enrich_divergence d fixture source) = dv_event_index d"
  "dv_layer (enrich_divergence d fixture source) = dv_layer d"
  "dv_category (enrich_divergence d fixture source) = dv_category d"
  by (simp_all add: enrich_divergence_def)

lemma judge_event_same:
  "oo_result ob \<noteq> RangeOutcome False \<Longrightarrow>
     judge_event fixture index op (Some ob) (Some ob) = Inr (stamp index (event_kind_of op) ob)"
proof -
  assume "oo_result ob \<noteq> RangeOutcome False"
  then have "compare_observations (stamp i k ob) (stamp i k ob) f s = None" for i k f s
    by (simp add: compare_observations_None stamp_def result_agrees_refl)
  then show ?thesis by (simp add: judge_event_def Let_def)
qed

lemma record_event_sel [simp]:
  "ro_first_divergence (record_event retention i ob out) = ro_first_divergence out"
  "ro_processed_events (record_event retention i ob out) = ro_processed_events out"
  "ro_summary (record_event retention i ob out) = accumulate_summary (ro_summary out) i (oo_result ob)"
  "ro_final_observation (record_event retention i ob out) = Some ob"
  by (simp_all add: record_event_def Let_def)

text \<open>
  Two sides in lockstep: from related states they observe the same of an admissible operation, it
  is not a range event that turned out to be valid, and the states stay related.
\<close>

locale lockstep_sides =
  fixes production :: "'p side" and reference :: "'r side"
    and related :: "'p \<Rightarrow> 'r \<Rightarrow> bool" and admissible :: "replay_operation \<Rightarrow> bool"
  assumes lockstep: "related p r \<Longrightarrow> admissible operation \<Longrightarrow>
    \<exists>ob p' r'. production p operation = Some (Some ob, p') \<and> reference r operation = Some (Some ob, r') \<and>
      oo_result ob \<noteq> RangeOutcome False \<and> related p' r'"
begin

lemma step:
  assumes "related p r" "admissible operation"
  obtains ob p' r' where "production p operation = Some (Some ob, p')"
    "reference r operation = Some (Some ob, r')" "oo_result ob \<noteq> RangeOutcome False" "related p' r'"
  using lockstep[OF assms] by blast

lemma run_loop_agrees:
  assumes "related p r" and "list_all admissible ops" and "ro_first_divergence out = None"
    and "summary_ok (ro_summary out)" and "ro_processed_events out = index"
  shows "\<exists>out'. run_loop production reference fixture retention index ops p r out = Some out' \<and>
    ro_first_divergence out' = None \<and> ro_processed_events out' = index + length ops \<and>
    counted_events (ro_summary out') = counted_events (ro_summary out) + length ops \<and>
    summary_ok (ro_summary out')"
  using assms
proof (induction ops arbitrary: index p r out)
  case (Cons op ops)
  from Cons.prems obtain ob p' r' where step: "production p op = Some (Some ob, p')"
    "reference r op = Some (Some ob, r')" "oo_result ob \<noteq> RangeOutcome False" "related p' r'"
    by (auto elim: step)
  let ?ob = "stamp index (event_kind_of op) ob"
  let ?out = "record_event retention index ?ob (out\<lparr>ro_processed_events := index + 1\<rparr>)"
  have "\<exists>out'. run_loop production reference fixture retention (index + 1) ops p' r' ?out = Some out' \<and>
    ro_first_divergence out' = None \<and> ro_processed_events out' = (index + 1) + length ops \<and>
    counted_events (ro_summary out') = counted_events (ro_summary ?out) + length ops \<and>
    summary_ok (ro_summary out')"
    by (rule Cons.IH) (use Cons.prems step in \<open>simp_all add: accumulate_summary_ok\<close>)
  with step show ?case by (simp add: judge_event_same)
qed auto

text \<open>A side that gives no observation is reported at once, as a fault of the composition.\<close>

lemma run_loop_failing:
  assumes "related p r" and "list_all admissible ops" and "index \<le> fail_at" and "fail_at < index + length ops"
    and "ro_first_divergence out = None"
  shows "\<exists>out' d. run_loop (FailingSide fail_at production) reference fixture retention index ops (index, p) r out
      = Some out' \<and> ro_first_divergence out' = Some d \<and> ro_processed_events out' = fail_at + 1 \<and>
    dv_event_index d = fail_at \<and> dv_layer d = LayerD \<and> dv_category d = Composition"
  using assms
proof (induction ops arbitrary: index p r out)
  case (Cons op ops)
  from Cons.prems obtain ob p' r' where step: "production p op = Some (Some ob, p')"
    "reference r op = Some (Some ob, r')" "oo_result ob \<noteq> RangeOutcome False" "related p' r'"
    by (auto elim: step)
  show ?case
  proof (cases "index = fail_at")
    case True
    with step show ?thesis by (simp add: FailingSide_step judge_event_def Let_def)
  next
    case False
    let ?out = "record_event retention index (stamp index (event_kind_of op) ob)
      (out\<lparr>ro_processed_events := index + 1\<rparr>)"
    have "\<exists>out' d. run_loop (FailingSide fail_at production) reference fixture retention (index + 1) ops
        (index + 1, p') r' ?out = Some out' \<and> ro_first_divergence out' = Some d \<and>
      ro_processed_events out' = fail_at + 1 \<and>
      dv_event_index d = fail_at \<and> dv_layer d = LayerD \<and> dv_category d = Composition"
      by (rule Cons.IH) (use Cons.prems step False in simp_all)
    with step False show ?thesis by (simp add: FailingSide_step judge_event_same)
  qed
qed simp

lemma run_agrees:
  assumes "related p r" and "list_all admissible (nr_operations (rf_replay fixture))"
  obtains out where "ReplayDriver_run production reference fixture retention p r = Some out"
    "ro_first_divergence out = None" "ro_processed_events out = length (nr_operations (rf_replay fixture))"
    "counted_events (ro_summary out) = length (nr_operations (rf_replay fixture))" "summary_ok (ro_summary out)"
  using run_loop_agrees[OF assms, of empty_outcome 0 fixture retention] empty_summary_ok
  by (auto simp: ReplayDriver_run_def empty_outcome_def)

end

end
