(* ===== verification/Replay_Production.thy ===== *)
theory Replay_Production
  imports Replay_Driver Book_Projection
begin

text \<open>
  The production side of the core-only differential replay:
  \<open>tests/m5/oracle/core_production_side.cpp\<close> over \<open>BookProjection\<close>, the decimal evidence of
  \<open>production_decimal_observation.cpp\<close> and the conversions of \<open>canonical_convert.hpp\<close>.
\<close>

subsection \<open>Production values in canonical form\<close>

fun canonical_status_of :: "projection_status \<Rightarrow> canonical_status" where
  "canonical_status_of AwaitingBaseline = CAwaitingBaseline"
| "canonical_status_of AwaitingBridge = CAwaitingBridge"
| "canonical_status_of Synchronized = CSynchronized"
| "canonical_status_of NeedsResync = CNeedsResync"

fun canonical_install_disposition :: "install_disposition \<Rightarrow> canonical_disposition" where
  "canonical_install_disposition Installed = CInstalled"
| "canonical_install_disposition InstallRejectedWrongState = CRejectedWrongState"

fun canonical_apply_disposition :: "apply_disposition \<Rightarrow> canonical_disposition" where
  "canonical_apply_disposition Applied = CApplied"
| "canonical_apply_disposition IgnoredStale = CIgnoredStale"
| "canonical_apply_disposition IgnoredDuplicate = CIgnoredDuplicate"
| "canonical_apply_disposition GapDetected = CGapDetected"
| "canonical_apply_disposition RejectedWrongState = CRejectedWrongState"

fun canonical_gap_reason_of :: "gap_reason \<Rightarrow> canonical_gap_reason" where
  "canonical_gap_reason_of SpotBootstrapForwardGap = CSpotBootstrapForwardGap"
| "canonical_gap_reason_of SpotLiveForwardGap = CSpotLiveForwardGap"
| "canonical_gap_reason_of FuturesBootstrapRangeMiss = CFuturesBootstrapRangeMiss"
| "canonical_gap_reason_of FuturesMissingPreviousFinal = CFuturesMissingPreviousFinal"
| "canonical_gap_reason_of FuturesPreviousFinalMismatch = CFuturesPreviousFinalMismatch"

fun canonical_policy_of :: "sequence_policy_kind \<Rightarrow> canonical_policy" where
  "canonical_policy_of Spot = CSpot"
| "canonical_policy_of UsdMPerpetual = CUsdMPerpetual"

fun canonical_error_of :: "decimal_error_code \<Rightarrow> canonical_decimal_error" where
  "canonical_error_of Empty = CEmpty"
| "canonical_error_of InvalidSyntax = CInvalidSyntax"
| "canonical_error_of SignNotAllowed = CSignNotAllowed"
| "canonical_error_of LeadingZero = CLeadingZero"
| "canonical_error_of MissingFractionDigits = CMissingFractionDigits"
| "canonical_error_of ZeroNotAllowed = CZeroNotAllowed"
| "canonical_error_of InexactScale = CInexactScale"
| "canonical_error_of Overflow = COverflow"

definition canonical_gap_of :: "gap_info \<Rightarrow> canonical_gap_evidence" where
  "canonical_gap_of gap =
     \<lparr>ge_last_accepted_final = last_accepted_final gap, ge_first_update_id = range_first (incoming_range gap),
      ge_final_update_id = range_final (incoming_range gap), ge_previous_final = incoming_previous_final gap,
      ge_reason = canonical_gap_reason_of (reason gap), ge_policy = canonical_policy_of (gap_policy gap)\<rparr>"

definition canonical_install_of :: "install_result \<Rightarrow> install_outcome" where
  "canonical_install_of res =
     \<lparr>io_disposition = canonical_install_disposition (ir_disposition res),
      io_status_after = canonical_status_of (ir_status_after res),
      io_last_update_id_after = ir_last_update_id_after res\<rparr>"

definition canonical_apply_of :: "apply_result \<Rightarrow> apply_outcome" where
  "canonical_apply_of res =
     \<lparr>ao_disposition = canonical_apply_disposition (ar_disposition res),
      ao_status_after = canonical_status_of (ar_status_after res),
      ao_last_update_id_after = ar_last_update_id_after res,
      ao_gap = map_option canonical_gap_of (ar_gap res)\<rparr>"

fun canonical_side :: "replay_side \<Rightarrow> canonical_book_side" where
  "canonical_side SideBid = CBid"
| "canonical_side SideAsk = CAsk"

subsection \<open>Production decimals\<close>

record production_level_observation =
  plo_decimals :: "canonical_decimal_observation list"
  plo_levels :: "book_level list"
  plo_first_error :: "canonical_decimal_error option"

definition success_observation ::
  "level_input \<Rightarrow> nat \<Rightarrow> canonical_decimal_role \<Rightarrow> int \<Rightarrow> nat \<Rightarrow> decimal_scale \<Rightarrow> canonical_decimal_observation" where
  "success_observation level position role units digits storage_scale =
     \<lparr>co_side = canonical_side (li_side level), co_level_position = position, co_role = role,
      co_result = Inl \<lparr>cv_units = units, cv_storage_scale = scale_digits storage_scale,
        cv_source_fraction_digits = digits\<rparr>\<rparr>"

definition failure_observation ::
  "level_input \<Rightarrow> nat \<Rightarrow> canonical_decimal_role \<Rightarrow> decimal_error \<Rightarrow> canonical_decimal_observation" where
  "failure_observation level position role e =
     \<lparr>co_side = canonical_side (li_side level), co_level_position = position, co_role = role,
      co_result = Inr \<lparr>cf_category = canonical_error_of (dec_code e), cf_offset = dec_offset e\<rparr>\<rparr>"

definition record_first_error :: "production_level_observation \<Rightarrow> decimal_error \<Rightarrow> production_level_observation" where
  "record_first_error observation e =
     (if plo_first_error observation = None
        then observation\<lparr>plo_first_error := Some (canonical_error_of (dec_code e))\<rparr> else observation)"

definition push_decimal ::
  "production_level_observation \<Rightarrow> canonical_decimal_observation \<Rightarrow> production_level_observation" where
  "push_decimal observation d = observation\<lparr>plo_decimals := plo_decimals observation @ [d]\<rparr>"

definition observe_production_level ::
  "numeric_spec \<Rightarrow> nat \<Rightarrow> level_input \<Rightarrow> production_level_observation \<Rightarrow> production_level_observation" where
  "observe_production_level spec position level observation =
     (let price = parse_price (li_price level) (price_scale spec);
          quantity = parse_quantity (li_quantity level) (quantity_scale spec);
          o1 = (case price of
                  Inl failure \<Rightarrow>
                    record_first_error
                      (push_decimal observation (failure_observation level position RolePrice failure)) failure
                | Inr parsed \<Rightarrow>
                    push_decimal observation (success_observation level position RolePrice
                      (price_value (pd_value parsed)) (pd_fraction_digits parsed) (price_scale spec)));
          o2 = (case quantity of
                  Inl failure \<Rightarrow>
                    record_first_error
                      (push_decimal o1 (failure_observation level position RoleQuantity failure)) failure
                | Inr parsed \<Rightarrow>
                    push_decimal o1 (success_observation level position RoleQuantity
                      (quantity_value (pd_value parsed)) (pd_fraction_digits parsed) (quantity_scale spec)))
      in case (price, quantity) of
           (Inr p, Inr q) \<Rightarrow> o2\<lparr>plo_levels := plo_levels o2 @ [BookLevel (pd_value p) (pd_value q)]\<rparr>
         | _ \<Rightarrow> o2)"

fun production_levels_loop ::
  "numeric_spec \<Rightarrow> nat \<Rightarrow> level_input list \<Rightarrow> production_level_observation \<Rightarrow> production_level_observation" where
  "production_levels_loop spec position [] observation = observation"
| "production_levels_loop spec position (level # rest) observation =
     production_levels_loop spec (position + 1) rest (observe_production_level spec position level observation)"

definition observe_production_levels :: "level_input list \<Rightarrow> numeric_spec \<Rightarrow> production_level_observation" where
  "observe_production_levels levels spec =
     production_levels_loop spec 0 levels \<lparr>plo_decimals = [], plo_levels = [], plo_first_error = None\<rparr>"

subsection \<open>The production side\<close>

definition required_scale :: "nat \<Rightarrow> decimal_scale option" where
  "required_scale v = DecimalScale_create (of_nat v)"

definition make_core_production_side :: "replay_fixture \<Rightarrow> book_projection option" where
  "make_core_production_side fixture =
     (case required_scale (rs_price_scale (fi_numeric_spec (rf_identity fixture))) of
        None \<Rightarrow> None
      | Some ps \<Rightarrow>
          (case required_scale (rs_quantity_scale (fi_numeric_spec (rf_identity fixture))) of
             None \<Rightarrow> None
           | Some qs \<Rightarrow> Some (BookProjection_create \<lparr>price_scale = ps, quantity_scale = qs\<rparr>
               (if fi_sequence_policy (rf_identity fixture) = PolicySpot then Spot else UsdMPerpetual))))"

definition canonical_level_of :: "book_level \<Rightarrow> canonical_level" where
  "canonical_level_of l = \<lparr>cl_price = price_value (lvl_price l), cl_quantity = quantity_value (lvl_quantity l)\<rparr>"

definition production_checkpoint :: "book_projection \<Rightarrow> semantic_checkpoint" where
  "production_checkpoint p =
     \<lparr>cp_status = canonical_status_of (bp_status p), cp_last_update_id = bp_last_update_id p,
      cp_last_gap = map_option canonical_gap_of (bp_last_gap p),
      cp_synchronized_visible = (synchronized_book p \<noteq> None),
      cp_bids = map canonical_level_of (OrderBook_all_levels (diagnostic_book p) Bid),
      cp_asks = map canonical_level_of (OrderBook_all_levels (diagnostic_book p) Ask),
      cp_price_scale = scale_digits (price_scale (bp_numeric_spec p)),
      cp_quantity_scale = scale_digits (quantity_scale (bp_numeric_spec p))\<rparr>"

text \<open>\<open>make_observation\<close>: event index and kind are placeholders the driver overwrites.\<close>

definition core_observation ::
  "operation_result \<Rightarrow> canonical_decimal_observation list \<Rightarrow> semantic_checkpoint \<Rightarrow> operation_observation" where
  "core_observation res decimals checkpoint =
     \<lparr>oo_event_index = 0, oo_event_kind = KindInstallBaseline, oo_decimal_observations = decimals,
      oo_result = res, oo_checkpoint = checkpoint, oo_snapshot = None\<rparr>"

definition snapshot_observation :: "snapshot_outcome \<Rightarrow> semantic_checkpoint \<Rightarrow> operation_observation" where
  "snapshot_observation snapshot checkpoint =
     \<lparr>oo_event_index = 0, oo_event_kind = KindInstallBaseline, oo_decimal_observations = [],
      oo_result = SnapshotOutcome snapshot, oo_checkpoint = checkpoint, oo_snapshot = Some snapshot\<rparr>"

definition production_observation ::
  "operation_result \<Rightarrow> canonical_decimal_observation list \<Rightarrow> book_projection \<Rightarrow>
   (operation_observation option \<times> book_projection) option" where
  "production_observation res decimals p = Some (Some (core_observation res decimals (production_checkpoint p)), p)"

definition production_install ::
  "book_projection \<Rightarrow> uint64 \<Rightarrow> level_input list \<Rightarrow> level_input list \<Rightarrow>
   (operation_observation option \<times> book_projection) option" where
  "production_install p last_update_id bids_input asks_input =
     (let bids = observe_production_levels bids_input (bp_numeric_spec p);
          asks = observe_production_levels asks_input (bp_numeric_spec p);
          decimals = plo_decimals bids @ plo_decimals asks
      in case plo_first_error bids of
           Some e \<Rightarrow> production_observation (DecimalErrorOutcome e) decimals p
         | None \<Rightarrow>
             (case plo_first_error asks of
                Some e \<Rightarrow> production_observation (DecimalErrorOutcome e) decimals p
              | None \<Rightarrow>
                  (case install_baseline p \<lparr>bb_last_update_id = last_update_id, bb_bids = plo_levels bids,
                          bb_asks = plo_levels asks\<rparr> of
                     (res, p') \<Rightarrow> production_observation (InstallOutcome (canonical_install_of res)) decimals p')))"

text \<open>Pairing each input level with its parsed level; \<open>vector::at\<close> throws when there is none.\<close>

fun depth_level_updates :: "level_input list \<Rightarrow> book_level list \<Rightarrow> level_update list option" where
  "depth_level_updates [] _ = Some []"
| "depth_level_updates (level # rest) [] = None"
| "depth_level_updates (level # rest) (parsed # ps) =
     map_option ((#) (LevelUpdate (if li_side level = SideBid then Bid else Ask) (lvl_price parsed) (lvl_quantity parsed)))
       (depth_level_updates rest ps)"

definition production_depth_update ::
  "book_projection \<Rightarrow> uint64 \<Rightarrow> uint64 \<Rightarrow> uint64 option \<Rightarrow> level_input list \<Rightarrow>
   (operation_observation option \<times> book_projection) option" where
  "production_depth_update p first_update_id final_update_id previous_final levels =
     (let parsed = observe_production_levels levels (bp_numeric_spec p) in
      case plo_first_error parsed of
        Some e \<Rightarrow> production_observation (DecimalErrorOutcome e) (plo_decimals parsed) p
      | None \<Rightarrow>
          if first_update_id > final_update_id
            then production_observation (RangeOutcome False) (plo_decimals parsed) p
          else
            (case depth_level_updates levels (plo_levels parsed) of
               None \<Rightarrow> None
             | Some updates \<Rightarrow>
                 (case UpdateRange_try_create first_update_id final_update_id of
                    None \<Rightarrow> production_observation (RangeOutcome False) (plo_decimals parsed) p
                  | Some rng \<Rightarrow>
                      (case apply_batch p \<lparr>db_range = rng, db_previous_final = previous_final,
                              db_levels = updates\<rparr> of
                         None \<Rightarrow> None
                       | Some (res, p') \<Rightarrow>
                           production_observation (ApplyOutcome (canonical_apply_of res)) (plo_decimals parsed) p'))))"

fun core_production_observe :: "book_projection side" where
  "core_production_observe p (InstallBaselineOp _ last_id bids asks) = production_install p last_id bids asks"
| "core_production_observe p (DepthUpdateOp _ first_id final_id previous levels) =
     production_depth_update p first_id final_id previous levels"
| "core_production_observe p (RebaselineOp _ last_id bids asks) = production_install p last_id bids asks"
| "core_production_observe p (ResetOp _) = production_observation ResetOutcome [] (BookProjection_reset p)"
| "core_production_observe p (SnapshotRequestOp _ _) = production_observation SnapshotNotProducedOutcome [] p"
| "core_production_observe p (AdapterMetadataOp _ _) = production_observation MetadataOutcome [] p"
| "core_production_observe p (MalformedRangeOp _ first_id final_id) =
     production_observation (RangeOutcome (UpdateRange_try_create first_id final_id = None)) [] p"

end
