(* ===== verification/Replay_Adapter.thy ===== *)
theory Replay_Adapter
  imports Replay_Production Adapter_Outbound
begin

text \<open>
  The production side of the adapter-enabled differential replay,
  \<open>tests/m5/oracle/adapter_production_side.cpp\<close>: every operation is rendered as a wire message, adapted
  by the protobuf adapter and applied to the projection, and snapshots are produced and read back.
  \<open>contracts\<close> and \<open>max_size\<close> are the parameters of the adapter model.  The wire fields outside the
  differential scope have the fixed values of the source.
\<close>

subsection \<open>Replay values as wire values\<close>

definition kReplayProducer :: string where
  "kReplayProducer = ''replay-driver''"

definition kReplayProducerVersion :: string where
  "kReplayProducerVersion = ''1''"

definition kRawUnknownEnumNumericValue :: int where
  "kRawUnknownEnumNumericValue = 999"

fun wire_venue :: "contracts \<Rightarrow> scenario_venue \<Rightarrow> int" where
  "wire_venue C ScenarioBinance = venue_number C VENUE_BINANCE"
| "wire_venue C ScenarioVenueUnspecified = venue_number C VENUE_UNSPECIFIED"
| "wire_venue C ScenarioVenueUnknown = kRawUnknownEnumNumericValue"

fun wire_market :: "contracts \<Rightarrow> scenario_market \<Rightarrow> int" where
  "wire_market C ScenarioSpot = market_number C MARKET_SPOT"
| "wire_market C ScenarioUsdMPerpetual = market_number C MARKET_USD_M_PERPETUAL"
| "wire_market C ScenarioMarketUnspecified = market_number C MARKET_UNSPECIFIED"
| "wire_market C ScenarioMarketUnknown = kRawUnknownEnumNumericValue"

definition core_policy :: "replay_policy \<Rightarrow> sequence_policy_kind" where
  "core_policy policy = (if policy = PolicySpot then Spot else UsdMPerpetual)"

definition core_numeric_spec :: "replay_spec \<Rightarrow> numeric_spec option" where
  "core_numeric_spec spec =
     (case required_scale (rs_price_scale spec) of
        None \<Rightarrow> None
      | Some ps \<Rightarrow>
          map_option (\<lambda>qs. \<lparr>price_scale = ps, quantity_scale = qs\<rparr>) (required_scale (rs_quantity_scale spec)))"

fun host_fact :: "replay_quality_fact \<Rightarrow> host_quality_fact" where
  "host_fact FactDuplicate = HqDuplicate"
| "host_fact FactOutOfOrder = HqOutOfOrder"
| "host_fact FactOrderBookResync = HqOrderBookResync"
| "host_fact FactSnapshotTooOld = HqSnapshotTooOld"
| "host_fact FactBootstrapBufferOverflow = HqBootstrapBufferOverflow"
| "host_fact FactRecoveredTail = HqRecoveredTail"
| "host_fact FactMalformedPayload = HqMalformedPayload"
| "host_fact FactExchangeTimeMissing = HqExchangeTimeMissing"
| "host_fact FactReceiveClockDiscontinuity = HqReceiveClockDiscontinuity"
| "host_fact FactSlowConsumerGap = HqSlowConsumerGap"
| "host_fact FactProducerRestart = HqProducerRestart"
| "host_fact FactOverlap = HqOverlap"
| "host_fact FactIdentityConflict = HqIdentityConflict"

fun recovery_state :: "replay_recovery \<Rightarrow> gap_recovery_state" where
  "recovery_state GapStateSynchronized = RecoverySynchronized"
| "recovery_state GapStateResyncRequired = ResyncRequired"
| "recovery_state GapStateResyncInProgress = ResyncInProgress"
| "recovery_state GapStateRecovered = Recovered"
| "recovery_state GapStateResyncFailed = ResyncFailed"

fun snapshot_origin_of :: "replay_origin \<Rightarrow> snapshot_origin" where
  "snapshot_origin_of OriginGatewayLive = GatewayLive"
| "snapshot_origin_of OriginRecorderReplay = RecorderReplay"
| "snapshot_origin_of OriginHistoryReplay = HistoryReplay"

fun wire_quality :: "replay_quality_fact \<Rightarrow> quality_flag" where
  "wire_quality FactDuplicate = QUALITY_FLAG_DUPLICATE"
| "wire_quality FactOutOfOrder = QUALITY_FLAG_OUT_OF_ORDER"
| "wire_quality FactOrderBookResync = QUALITY_FLAG_ORDERBOOK_RESYNC"
| "wire_quality FactSnapshotTooOld = QUALITY_FLAG_SNAPSHOT_TOO_OLD"
| "wire_quality FactBootstrapBufferOverflow = QUALITY_FLAG_BOOTSTRAP_BUFFER_OVERFLOW"
| "wire_quality FactRecoveredTail = QUALITY_FLAG_RECOVERED_TAIL"
| "wire_quality FactMalformedPayload = QUALITY_FLAG_MALFORMED_PAYLOAD"
| "wire_quality FactExchangeTimeMissing = QUALITY_FLAG_EXCHANGE_TIME_MISSING"
| "wire_quality FactReceiveClockDiscontinuity = QUALITY_FLAG_RECEIVE_CLOCK_DISCONTINUITY"
| "wire_quality FactSlowConsumerGap = QUALITY_FLAG_SLOW_CONSUMER_GAP"
| "wire_quality FactProducerRestart = QUALITY_FLAG_PRODUCER_RESTART"
| "wire_quality FactOverlap = QUALITY_FLAG_OVERLAP"
| "wire_quality FactIdentityConflict = QUALITY_FLAG_IDENTITY_CONFLICT"

subsection \<open>Adapter values in canonical form\<close>

fun canonical_host_fact :: "host_quality_fact \<Rightarrow> canonical_quality_flag" where
  "canonical_host_fact HqDuplicate = FlagDuplicate"
| "canonical_host_fact HqOutOfOrder = FlagOutOfOrder"
| "canonical_host_fact HqOrderBookResync = FlagOrderBookResync"
| "canonical_host_fact HqSnapshotTooOld = FlagSnapshotTooOld"
| "canonical_host_fact HqBootstrapBufferOverflow = FlagBootstrapBufferOverflow"
| "canonical_host_fact HqRecoveredTail = FlagRecoveredTail"
| "canonical_host_fact HqMalformedPayload = FlagMalformedPayload"
| "canonical_host_fact HqExchangeTimeMissing = FlagExchangeTimeMissing"
| "canonical_host_fact HqReceiveClockDiscontinuity = FlagReceiveClockDiscontinuity"
| "canonical_host_fact HqSlowConsumerGap = FlagSlowConsumerGap"
| "canonical_host_fact HqProducerRestart = FlagProducerRestart"
| "canonical_host_fact HqOverlap = FlagOverlap"
| "canonical_host_fact HqIdentityConflict = FlagIdentityConflict"

fun canonical_code :: "adapter_error_code \<Rightarrow> canonical_adapter_code" where
  "canonical_code UnsupportedVenue = CodeUnsupportedVenue"
| "canonical_code UnsupportedMarket = CodeUnsupportedMarket"
| "canonical_code UnexpectedStream = CodeUnexpectedStream"
| "canonical_code IdentityMismatch = CodeIdentityMismatch"
| "canonical_code UnsupportedSchemaVersion = CodeUnsupportedSchemaVersion"
| "canonical_code UnspecifiedEnum = CodeUnspecifiedEnum"
| "canonical_code UnknownEnumValue = CodeUnknownEnumValue"
| "canonical_code InvalidUpdateRange = CodeInvalidUpdateRange"
| "canonical_code MissingRequiredField = CodeMissingRequiredField"
| "canonical_code InvalidIdentifier = CodeInvalidIdentifier"
| "canonical_code InvalidDecimal = CodeInvalidDecimal"
| "canonical_code NegativeQuantity = CodeNegativeQuantity"
| "canonical_code NonPositivePrice = CodeNonPositivePrice"
| "canonical_code ScaleMismatch = CodeScaleMismatch"
| "canonical_code NumericOverflow = CodeNumericOverflow"
| "canonical_code InvalidDepthLimit = CodeInvalidDepthLimit"
| "canonical_code InvalidOrdering = CodeInvalidOrdering"
| "canonical_code UnsupportedProjectionState = CodeUnsupportedProjectionState"
| "canonical_code MissingLastUpdateId = CodeMissingLastUpdateId"
| "canonical_code InvalidGapContext = CodeInvalidGapContext"
| "canonical_code InvalidHostQualityCombination = CodeInvalidHostQualityCombination"
| "canonical_code ContractsVersionMismatch = CodeContractsVersionMismatch"
| "canonical_code ProjectionNumericSpecMismatch = CodeProjectionNumericSpecMismatch"
| "canonical_code ProjectionPolicyMismatch = CodeProjectionPolicyMismatch"

fun canonical_field :: "adapter_field \<Rightarrow> canonical_adapter_field" where
  "canonical_field NoField = FieldNone"
| "canonical_field VenueField = FieldVenue"
| "canonical_field MarketField = FieldMarket"
| "canonical_field StreamField = FieldStream"
| "canonical_field SymbolField = FieldSymbol"
| "canonical_field SchemaVersionField = FieldSchemaVersion"
| "canonical_field ProducerField = FieldProducer"
| "canonical_field ProducerVersionField = FieldProducerVersion"
| "canonical_field RequestIdField = FieldRequestId"
| "canonical_field ConnectionIdField = FieldConnectionId"
| "canonical_field FirstUpdateIdField = FieldFirstUpdateId"
| "canonical_field FinalUpdateIdField = FieldFinalUpdateId"
| "canonical_field PreviousFinalUpdateIdField = FieldPreviousFinalUpdateId"
| "canonical_field BidPriceField = FieldBidPrice"
| "canonical_field BidQuantityField = FieldBidQuantity"
| "canonical_field AskPriceField = FieldAskPrice"
| "canonical_field AskQuantityField = FieldAskQuantity"
| "canonical_field QualityFlagField = FieldQualityFlag"
| "canonical_field ProjectionPriceScaleField = FieldProjectionPriceScale"
| "canonical_field ProjectionQuantityScaleField = FieldProjectionQuantityScale"
| "canonical_field ProjectionPolicyField = FieldProjectionPolicy"
| "canonical_field DepthLimitField = FieldDepthLimit"
| "canonical_field SnapshotSourceField = FieldSnapshotSource"
| "canonical_field LastUpdateIdField = FieldLastUpdateId"
| "canonical_field CurrentGapField = FieldCurrentGap"
| "canonical_field GapRecoveryStateField = FieldGapRecoveryState"
| "canonical_field HostQualityFactField = FieldHostQualityFact"

definition canonical_adapter_error :: "adapter_error \<Rightarrow> adapter_error_outcome" where
  "canonical_adapter_error e =
     \<lparr>oe_code = canonical_code (ae_code e), oe_field = canonical_field (ae_field e),
      oe_decimal_error = map_option (\<lambda>d. canonical_error_of (dec_code d)) (ae_decimal_error e)\<rparr>"

definition canonical_observed :: "adapted_metadata \<Rightarrow> canonical_quality_flag list" where
  "canonical_observed metadata = map canonical_host_fact (observed_quality metadata)"

text \<open>
  The snapshot enums are those the adapter writes; the \<open>default\<close> branches for other numbers have no
  value to be taken on where every enumerator of the type is named.
\<close>

fun snapshot_source_of :: "snapshot_source \<Rightarrow> canonical_snapshot_source option" where
  "snapshot_source_of SNAPSHOT_SOURCE_GATEWAY_LIVE = Some CGatewayLive"
| "snapshot_source_of SNAPSHOT_SOURCE_RECORDER_REPLAY = Some CRecorderReplay"
| "snapshot_source_of SNAPSHOT_SOURCE_HISTORY_REPLAY = Some CHistoryReplay"

fun snapshot_resync_state :: "resync_state \<Rightarrow> canonical_resync_state option" where
  "snapshot_resync_state RESYNC_STATE_RESYNC_REQUIRED = Some CResyncRequired"
| "snapshot_resync_state RESYNC_STATE_RESYNC_IN_PROGRESS = Some CResyncInProgress"
| "snapshot_resync_state RESYNC_STATE_RESYNC_FAILED = Some CResyncFailed"

fun snapshot_reason_code :: "reason_code \<Rightarrow> canonical_reason_code option" where
  "snapshot_reason_code REASON_CODE_SEQUENCE_GAP_DETECTED = Some CSequenceGapDetected"

fun snapshot_flag :: "quality_flag \<Rightarrow> canonical_quality_flag option" where
  "snapshot_flag QUALITY_FLAG_DUPLICATE = Some FlagDuplicate"
| "snapshot_flag QUALITY_FLAG_OUT_OF_ORDER = Some FlagOutOfOrder"
| "snapshot_flag QUALITY_FLAG_SEQUENCE_GAP = Some FlagSequenceGap"
| "snapshot_flag QUALITY_FLAG_ORDERBOOK_RESYNC = Some FlagOrderBookResync"
| "snapshot_flag QUALITY_FLAG_SNAPSHOT_BRIDGE_PENDING = Some FlagSnapshotBridgePending"
| "snapshot_flag QUALITY_FLAG_SNAPSHOT_TOO_OLD = Some FlagSnapshotTooOld"
| "snapshot_flag QUALITY_FLAG_BOOTSTRAP_BUFFER_OVERFLOW = Some FlagBootstrapBufferOverflow"
| "snapshot_flag QUALITY_FLAG_RECOVERED_TAIL = Some FlagRecoveredTail"
| "snapshot_flag QUALITY_FLAG_MALFORMED_PAYLOAD = Some FlagMalformedPayload"
| "snapshot_flag QUALITY_FLAG_EXCHANGE_TIME_MISSING = Some FlagExchangeTimeMissing"
| "snapshot_flag QUALITY_FLAG_RECEIVE_CLOCK_DISCONTINUITY = Some FlagReceiveClockDiscontinuity"
| "snapshot_flag QUALITY_FLAG_SLOW_CONSUMER_GAP = Some FlagSlowConsumerGap"
| "snapshot_flag QUALITY_FLAG_PRODUCER_RESTART = Some FlagProducerRestart"
| "snapshot_flag QUALITY_FLAG_OVERLAP = Some FlagOverlap"
| "snapshot_flag QUALITY_FLAG_IDENTITY_CONFLICT = Some FlagIdentityConflict"
| "snapshot_flag QUALITY_FLAG_CROSSED_BOOK = Some FlagCrossedBook"
| "snapshot_flag QUALITY_FLAG_UNSPECIFIED = None"

fun snapshot_venue :: "venue \<Rightarrow> canonical_venue option" where
  "snapshot_venue VENUE_BINANCE = Some CVenueBinance"
| "snapshot_venue VENUE_UNSPECIFIED = None"

fun snapshot_market :: "market \<Rightarrow> canonical_market option" where
  "snapshot_market MARKET_SPOT = Some CMarketSpot"
| "snapshot_market MARKET_USD_M_PERPETUAL = Some CMarketUsdMPerpetual"
| "snapshot_market MARKET_UNSPECIFIED = None"

type_synonym snapshot_extraction_error = "canonical_adapter_code \<times> canonical_adapter_field"

fun extract_snapshot_flags ::
  "quality_flag list \<Rightarrow> canonical_quality_flag list \<Rightarrow> snapshot_extraction_error + canonical_quality_flag list" where
  "extract_snapshot_flags [] flags = Inr flags"
| "extract_snapshot_flags (raw # rest) flags =
     (case snapshot_flag raw of
        None \<Rightarrow>
          Inl (if raw = QUALITY_FLAG_UNSPECIFIED then CodeUnspecifiedEnum else CodeUnknownEnumValue,
            FieldQualityFlag)
      | Some flag \<Rightarrow> extract_snapshot_flags rest (flags @ [flag]))"

text \<open>The only reason code and the three recovery states the adapter writes are all recognised.\<close>

definition extract_snapshot_gap ::
  "wire_gap_descriptor option \<Rightarrow> snapshot_extraction_error + gap_descriptor_observation option" where
  "extract_snapshot_gap wire_gap =
     (case wire_gap of
        None \<Rightarrow> Inr None
      | Some gap \<Rightarrow>
          (case snapshot_reason_code (gd_reason_code gap) of
             None \<Rightarrow> Inl (CodeInvalidGapContext, FieldCurrentGap)
           | Some reason_code \<Rightarrow>
               (case snapshot_resync_state (gd_recovery_state gap) of
                  None \<Rightarrow> Inl (CodeInvalidGapContext, FieldGapRecoveryState)
                | Some recovery \<Rightarrow>
                    Inr (Some \<lparr>go_detected_at_utc_ns = gd_detected_at_utc_ns gap,
                      go_previous_sequence = gd_previous_sequence gap, go_next_sequence = gd_next_sequence gap,
                      go_reason_code = reason_code, go_recovery_state = recovery\<rparr>))))"

definition canonical_wire_level :: "wire_price_level \<Rightarrow> snapshot_level" where
  "canonical_wire_level l = \<lparr>sl_price = pl_price l, sl_quantity = pl_quantity l\<rparr>"

definition extract_snapshot_observation ::
  "wire_local_snapshot \<Rightarrow> sequence_policy_kind \<Rightarrow> snapshot_extraction_error + snapshot_outcome" where
  "extract_snapshot_observation wire policy =
     (case snapshot_venue (ls_venue wire) of
        None \<Rightarrow>
          Inl (if ls_venue wire = VENUE_UNSPECIFIED then CodeUnspecifiedEnum else CodeUnsupportedVenue, FieldVenue)
      | Some venue \<Rightarrow>
      (case snapshot_market (ls_market wire) of
        None \<Rightarrow>
          Inl (if ls_market wire = MARKET_UNSPECIFIED then CodeUnspecifiedEnum else CodeUnknownEnumValue, FieldMarket)
      | Some market \<Rightarrow>
      (case snapshot_source_of (ls_source wire) of
        None \<Rightarrow> Inl (CodeUnknownEnumValue, FieldSnapshotSource)
      | Some source \<Rightarrow>
      (case extract_snapshot_flags (ls_quality_flags wire) [] of
        Inl e \<Rightarrow> Inl e
      | Inr flags \<Rightarrow>
      (case extract_snapshot_gap (ls_last_gap wire) of
        Inl e \<Rightarrow> Inl e
      | Inr gap \<Rightarrow>
          Inr \<lparr>sn_venue = venue, sn_market = market, sn_schema_version = ls_schema_version wire,
               sn_policy = canonical_policy_of policy, sn_symbol = ls_symbol wire,
               sn_producer = ls_producer wire, sn_producer_version = ls_producer_version wire,
               sn_source = source, sn_generated_time_utc_ns = ls_generated_time_utc_ns wire,
               sn_generated_monotonic_ns = ls_generated_monotonic_ns wire,
               sn_last_update_id = Some (ls_last_update_id wire),
               sn_synchronized = ls_synchronized wire,
               sn_bids = map canonical_wire_level (ls_bids wire),
               sn_asks = map canonical_wire_level (ls_asks wire),
               sn_quality_flags = flags,
               sn_depth_limit = map_option nat (ls_depth_limit wire),
               sn_gap_descriptor = gap\<rparr>)))))"

subsection \<open>The side\<close>

record adapter_side =
  apd_projection :: book_projection
  apd_scenario :: adapter_scenario
  apd_pending_metadata :: "replay_quality_fact list"

definition make_adapter_production_side :: "adapter_scenario \<Rightarrow> adapter_side option" where
  "make_adapter_production_side scenario =
     map_option (\<lambda>spec. \<lparr>apd_projection = BookProjection_create spec (core_policy (as_projection_policy scenario)),
         apd_scenario = scenario, apd_pending_metadata = []\<rparr>)
       (core_numeric_spec (as_projection_numeric_spec scenario))"

definition adapter_observation ::
  "operation_result \<Rightarrow> canonical_decimal_observation list \<Rightarrow> adapter_side \<Rightarrow>
   (operation_observation option \<times> adapter_side) option" where
  "adapter_observation res decimals s =
     Some (Some (core_observation res decimals (production_checkpoint (apd_projection s))), s)"

definition adapter_snapshot_observation ::
  "snapshot_outcome \<Rightarrow> adapter_side \<Rightarrow> (operation_observation option \<times> adapter_side) option" where
  "adapter_snapshot_observation snapshot s =
     Some (Some (snapshot_observation snapshot (production_checkpoint (apd_projection s))), s)"

definition wire_level :: "level_input \<Rightarrow> wire_price_level" where
  "wire_level level = \<lparr>pl_price = li_price level, pl_quantity = li_quantity level\<rparr>"

definition scenario_identity :: "adapter_scenario \<Rightarrow> expected_identity" where
  "scenario_identity scenario =
     \<lparr>ei_symbol = as_expected_symbol scenario, ei_policy = core_policy (as_expected_policy scenario)\<rparr>"

text \<open>The wire messages built by \<open>observe_install\<close> and \<open>observe_depth_update\<close>.\<close>

definition replay_snapshot_wire ::
  "contracts \<Rightarrow> adapter_side \<Rightarrow> nat \<Rightarrow> uint64 \<Rightarrow> level_input list \<Rightarrow> level_input list \<Rightarrow> wire_depth_snapshot" where
  "replay_snapshot_wire C s event_index last_update_id bids asks =
     \<lparr>ds_venue = wire_venue C (as_wire_venue (apd_scenario s)),
      ds_market = wire_market C (as_wire_market (apd_scenario s)),
      ds_symbol = as_wire_symbol (apd_scenario s),
      ds_schema_version = ''exchange-depth-snapshot.v1'',
      ds_producer = kReplayProducer, ds_producer_version = kReplayProducerVersion,
      ds_request_id = ''replay-baseline-'' @ to_chars_nat event_index,
      ds_last_update_id = last_update_id,
      ds_bids = map wire_level bids, ds_asks = map wire_level asks,
      ds_quality_flags = map (\<lambda>f. quality_number C (wire_quality f)) (apd_pending_metadata s)\<rparr>"

definition replay_update_wire ::
  "contracts \<Rightarrow> adapter_side \<Rightarrow> nat \<Rightarrow> uint64 \<Rightarrow> uint64 \<Rightarrow> uint64 option \<Rightarrow> level_input list \<Rightarrow>
   wire_depth_update" where
  "replay_update_wire C s event_index first_update_id final_update_id previous_final levels =
     \<lparr>du_metadata = Some
        \<lparr>md_venue = wire_venue C (as_wire_venue (apd_scenario s)),
         md_market = wire_market C (as_wire_market (apd_scenario s)),
         md_symbol = as_wire_symbol (apd_scenario s),
         md_stream = stream_number C STREAM_DIFF_DEPTH,
         md_schema_version = ''depth-update.v1'',
         md_producer = kReplayProducer, md_producer_version = kReplayProducerVersion,
         md_connection_id = ''replay-connection-'' @ to_chars_nat event_index,
         md_quality_flags = map (\<lambda>f. quality_number C (wire_quality f)) (apd_pending_metadata s)\<rparr>,
      du_first_update_id = first_update_id, du_final_update_id = final_update_id,
      du_previous_final_update_id = previous_final,
      du_bids = map wire_level (filter (\<lambda>l. li_side l = SideBid) levels),
      du_asks = map wire_level (filter (\<lambda>l. li_side l \<noteq> SideBid) levels)\<rparr>"

definition adapter_install ::
  "contracts \<Rightarrow> adapter_side \<Rightarrow> nat \<Rightarrow> uint64 \<Rightarrow> level_input list \<Rightarrow> level_input list \<Rightarrow>
   (operation_observation option \<times> adapter_side) option" where
  "adapter_install C s event_index last_update_id bids_input asks_input =
     (case core_numeric_spec (as_conversion_numeric_spec (apd_scenario s)) of
        None \<Rightarrow> None
      | Some conversion_spec \<Rightarrow>
          let bids = observe_production_levels bids_input conversion_spec;
              asks = observe_production_levels asks_input conversion_spec;
              decimals = plo_decimals bids @ plo_decimals asks;
              wire = replay_snapshot_wire C s event_index last_update_id bids_input asks_input;
              s1 = s\<lparr>apd_pending_metadata := []\<rparr>
          in case adapt_exchange_depth_snapshot C wire conversion_spec (scenario_identity (apd_scenario s)) of
               Inl failure \<Rightarrow>
                 adapter_observation (AdapterErrorOutcome (canonical_adapter_error failure)) decimals s1
             | Inr owner \<Rightarrow>
                 (case install_into owner (apd_projection s1) of
                    (Inl failure, p') \<Rightarrow>
                      adapter_observation (AdapterErrorOutcome (canonical_adapter_error failure)) decimals
                        (s1\<lparr>apd_projection := p'\<rparr>)
                  | (Inr installed, p') \<Rightarrow>
                      adapter_observation
                        (AdapterSuccessOutcome \<lparr>su_core_result = Inl (canonical_install_of installed),
                           su_observed_quality = canonical_observed (ab_metadata owner)\<rparr>)
                        decimals (s1\<lparr>apd_projection := p'\<rparr>)))"

definition adapter_depth_update ::
  "contracts \<Rightarrow> adapter_side \<Rightarrow> nat \<Rightarrow> uint64 \<Rightarrow> uint64 \<Rightarrow> uint64 option \<Rightarrow> level_input list \<Rightarrow>
   (operation_observation option \<times> adapter_side) option" where
  "adapter_depth_update C s event_index first_update_id final_update_id previous_final levels =
     (case core_numeric_spec (as_conversion_numeric_spec (apd_scenario s)) of
        None \<Rightarrow> None
      | Some conversion_spec \<Rightarrow>
          let decimals = plo_decimals (observe_production_levels levels conversion_spec);
              wire = replay_update_wire C s event_index first_update_id final_update_id previous_final levels;
              s1 = s\<lparr>apd_pending_metadata := []\<rparr>
          in case adapt_depth_update C wire conversion_spec (scenario_identity (apd_scenario s)) of
               Inl failure \<Rightarrow>
                 adapter_observation (AdapterErrorOutcome (canonical_adapter_error failure)) decimals s1
             | Inr owner \<Rightarrow>
                 (case apply_to owner (apd_projection s1) of
                    None \<Rightarrow> None
                  | Some (Inl failure, p') \<Rightarrow>
                      adapter_observation (AdapterErrorOutcome (canonical_adapter_error failure)) decimals
                        (s1\<lparr>apd_projection := p'\<rparr>)
                  | Some (Inr applied, p') \<Rightarrow>
                      adapter_observation
                        (AdapterSuccessOutcome \<lparr>su_core_result = Inr (canonical_apply_of applied),
                           su_observed_quality = canonical_observed (ad_metadata owner)\<rparr>)
                        decimals (s1\<lparr>apd_projection := p'\<rparr>)))"

definition replay_snapshot_context :: "adapter_scenario \<Rightarrow> snapshot_request \<Rightarrow> snapshot_context" where
  "replay_snapshot_context scenario operation =
     \<lparr>sc_identity = scenario_identity scenario,
      sc_producer = sr_producer operation, sc_producer_version = sr_producer_version operation,
      sc_source = snapshot_origin_of (sr_source_origin operation),
      sc_generated_time_utc_ns = sr_generated_time_utc_ns operation,
      sc_generated_monotonic_ns = sr_generated_monotonic_ns operation,
      sc_current_gap = map_option (\<lambda>(detected, state).
        \<lparr>cg_detected_at_utc_ns = detected, cg_recovery_state = recovery_state state\<rparr>) (sr_current_gap operation)\<rparr>"

definition replay_depth_limit :: "nat option \<Rightarrow> adapter_error + depth_limit option" where
  "replay_depth_limit limit =
     (case limit of
        None \<Rightarrow> Inr None
      | Some n \<Rightarrow> (case DepthLimit_create (int n) of Inl e \<Rightarrow> Inl e | Inr l \<Rightarrow> Inr (Some l)))"

definition adapter_snapshot_request ::
  "nat \<Rightarrow> adapter_side \<Rightarrow> snapshot_request \<Rightarrow> (operation_observation option \<times> adapter_side) option" where
  "adapter_snapshot_request max_size s operation =
     (case replay_depth_limit (sr_depth_limit operation) of
        Inl failure \<Rightarrow> adapter_observation (AdapterErrorOutcome (canonical_adapter_error failure)) [] s
      | Inr limit \<Rightarrow>
          let options = \<lparr>so_depth_limit = limit,
                so_host_quality_facts = map host_fact (sr_host_quality_facts operation)\<rparr>
          in case make_local_order_book_snapshot max_size (apd_projection s)
                    (replay_snapshot_context (apd_scenario s) operation) options of
               Inl failure \<Rightarrow> adapter_observation (AdapterErrorOutcome (canonical_adapter_error failure)) [] s
             | Inr produced \<Rightarrow>
                 (case extract_snapshot_observation produced (bp_policy (apd_projection s)) of
                    Inl (code, field) \<Rightarrow>
                      adapter_observation (AdapterErrorOutcome
                        \<lparr>oe_code = code, oe_field = field, oe_decimal_error = None\<rparr>) [] s
                  | Inr snapshot \<Rightarrow> adapter_snapshot_observation snapshot s))"

text \<open>A re-baseline does not cross the adapter: it is the core side's install.\<close>

definition on_projection ::
  "(book_projection \<Rightarrow> (operation_observation option \<times> book_projection) option) \<Rightarrow> adapter_side \<Rightarrow>
   (operation_observation option \<times> adapter_side) option" where
  "on_projection step s =
     map_option (\<lambda>(ob, p'). (ob, s\<lparr>apd_projection := p'\<rparr>)) (step (apd_projection s))"

fun adapter_production_observe :: "contracts \<Rightarrow> nat \<Rightarrow> adapter_side side" where
  "adapter_production_observe C max_size s (InstallBaselineOp src last_id bids asks) =
     adapter_install C s (sl_event_index src) last_id bids asks"
| "adapter_production_observe C max_size s (DepthUpdateOp src first_id final_id previous levels) =
     adapter_depth_update C s (sl_event_index src) first_id final_id previous levels"
| "adapter_production_observe C max_size s (RebaselineOp _ last_id bids asks) =
     on_projection (\<lambda>p. production_install p last_id bids asks) s"
| "adapter_production_observe C max_size s (ResetOp _) =
     on_projection (\<lambda>p. production_observation ResetOutcome [] (BookProjection_reset p)) s"
| "adapter_production_observe C max_size s (SnapshotRequestOp _ operation) =
     adapter_snapshot_request max_size s operation"
| "adapter_production_observe C max_size s (AdapterMetadataOp _ facts) =
     adapter_observation MetadataOutcome [] (s\<lparr>apd_pending_metadata := facts\<rparr>)"
| "adapter_production_observe C max_size s (MalformedRangeOp _ first_id final_id) =
     adapter_observation (RangeOutcome (UpdateRange_try_create first_id final_id = None)) [] s"

end
