(* ===== verification/Reference_Adapter.thy ===== *)
theory Reference_Adapter
  imports Fuzz_Fixture Reference_Decimal Reference_Projection Adapter_Text
begin

text \<open>
  The independent reference of the adapter boundary, \<open>tests/m5/reference/reference_adapter.cpp\<close>.  It
  predicts, from a replay operation and the reference projection, the error or the result the
  protobuf adapter must give.  It validates symbols with tables of lead and second bytes where the
  production code decodes code points; the two are shown to accept the same symbols.
\<close>

subsection \<open>Vocabulary\<close>

datatype ref_venue = RefVenueBinance | RefVenueUnspecified | RefVenueUnknown

datatype ref_market = RefMarketSpot | RefMarketUsdMPerpetual | RefMarketUnspecified | RefMarketUnknown

datatype ref_adapter_policy = RefPolicySpot | RefPolicyUsdMPerpetual

datatype ref_adapter_code =
  RcUnsupportedVenue | RcUnsupportedMarket | RcUnexpectedStream | RcIdentityMismatch |
  RcUnsupportedSchemaVersion | RcUnspecifiedEnum | RcUnknownEnumValue | RcInvalidUpdateRange |
  RcMissingRequiredField | RcInvalidIdentifier | RcInvalidDecimal | RcNegativeQuantity |
  RcNonPositivePrice | RcScaleMismatch | RcNumericOverflow | RcInvalidDepthLimit | RcInvalidOrdering |
  RcUnsupportedProjectionState | RcMissingLastUpdateId | RcInvalidGapContext |
  RcInvalidHostQualityCombination | RcProjectionNumericSpecMismatch | RcProjectionPolicyMismatch

datatype ref_adapter_field =
  RfNone | RfVenue | RfMarket | RfStream | RfSymbol | RfSchemaVersion | RfProducer |
  RfProducerVersion | RfRequestId | RfConnectionId | RfFirstUpdateId | RfFinalUpdateId |
  RfPreviousFinalUpdateId | RfBidPrice | RfBidQuantity | RfAskPrice | RfAskQuantity | RfQualityFlag |
  RfProjectionPriceScale | RfProjectionQuantityScale | RfProjectionPolicy | RfDepthLimit |
  RfSnapshotSource | RfLastUpdateId | RfCurrentGap | RfGapRecoveryState | RfHostQualityFact

record ref_adapter_error =
  rae_code :: ref_adapter_code
  rae_field :: ref_adapter_field
  rae_decimal_error :: "reference_decimal_error_code option"

datatype ref_quality_flag =
  RqDuplicate | RqOutOfOrder | RqSequenceGap | RqOrderBookResync | RqSnapshotBridgePending |
  RqSnapshotTooOld | RqBootstrapBufferOverflow | RqRecoveredTail | RqMalformedPayload |
  RqExchangeTimeMissing | RqReceiveClockDiscontinuity | RqSlowConsumerGap | RqProducerRestart |
  RqOverlap | RqIdentityConflict | RqCrossedBook

datatype ref_resync_state = RrResyncRequired | RrResyncInProgress | RrResyncFailed

datatype ref_reason_code = RrSequenceGapDetected

record ref_dimensions =
  rd_wire_venue :: ref_venue
  rd_wire_market :: ref_market
  rd_wire_symbol :: string
  rd_expected_symbol :: string
  rd_expected_policy :: ref_adapter_policy
  rd_conversion_numeric_spec :: replay_spec
  rd_projection_numeric_spec :: replay_spec
  rd_projection_policy :: ref_adapter_policy

record ref_gap_descriptor =
  rgd_detected_at_utc_ns :: uint64
  rgd_previous_sequence :: uint64
  rgd_next_sequence :: uint64
  rgd_reason_code :: ref_reason_code
  rgd_recovery_state :: ref_resync_state

record ref_snapshot_level =
  rsl_price :: string
  rsl_quantity :: string

record ref_snapshot_prediction =
  rsp_venue :: ref_venue
  rsp_market :: ref_market
  rsp_schema_version :: string
  rsp_synchronized :: bool
  rsp_last_update_id :: "uint64 option"
  rsp_bids :: "ref_snapshot_level list"
  rsp_asks :: "ref_snapshot_level list"
  rsp_quality_flags :: "ref_quality_flag list"
  rsp_depth_limit :: "nat option"
  rsp_gap_descriptor :: "ref_gap_descriptor option"

definition ref_error :: "ref_adapter_code \<Rightarrow> ref_adapter_field \<Rightarrow> ref_adapter_error" where
  "ref_error code field = \<lparr>rae_code = code, rae_field = field, rae_decimal_error = None\<rparr>"

definition ref_decimal_error ::
  "ref_adapter_code \<Rightarrow> ref_adapter_field \<Rightarrow> reference_decimal_error_code \<Rightarrow> ref_adapter_error" where
  "ref_decimal_error code field detail =
     \<lparr>rae_code = code, rae_field = field, rae_decimal_error = Some detail\<rparr>"

subsection \<open>Symbols and text\<close>

definition ref_is_safe_ascii_symbol_byte :: "nat \<Rightarrow> bool" where
  "ref_is_safe_ascii_symbol_byte v \<longleftrightarrow>
     v \<noteq> 0 \<and> v \<ge> 0x20 \<and> v \<noteq> 0x7F \<and> \<not> is_ascii_whitespace (char_of v)"

definition utf8_symbol_width :: "nat \<Rightarrow> nat" where
  "utf8_symbol_width lead =
     (if lead \<ge> 0xC2 \<and> lead \<le> 0xDF then 2
      else if lead \<ge> 0xE0 \<and> lead \<le> 0xEF then 3
      else if lead \<ge> 0xF0 \<and> lead \<le> 0xF4 then 4
      else 0)"

definition has_valid_utf8_symbol_boundaries :: "string \<Rightarrow> nat \<Rightarrow> nat \<Rightarrow> nat \<Rightarrow> bool" where
  "has_valid_utf8_symbol_boundaries v lead index width =
     (let second = char_code (v ! (index + 1)) in
      if second AND 0xC0 \<noteq> 0x80 then False
      else if (lead = 0xE0 \<and> second < 0xA0) \<or> (lead = 0xED \<and> second > 0x9F) \<or>
              (lead = 0xF0 \<and> second < 0x90) \<or> (lead = 0xF4 \<and> second > 0x8F) then False
      else list_all (\<lambda>offset. char_code (v ! (index + offset)) AND 0xC0 = 0x80) [2..<width])"

function ref_is_symbol_from :: "string \<Rightarrow> nat \<Rightarrow> bool" where
  "ref_is_symbol_from v index =
     (if index < length v then
        let lead = char_code (v ! index) in
        if lead < 0x80 then
          (if \<not> ref_is_safe_ascii_symbol_byte lead then False else ref_is_symbol_from v (index + 1))
        else
          let width = utf8_symbol_width lead in
          if width = 0 \<or> length v - index < width \<or> \<not> has_valid_utf8_symbol_boundaries v lead index width
            then False
          else ref_is_symbol_from v (index + width)
      else True)"
  by pat_completeness auto
termination by (relation "measure (\<lambda>(v, index). length v - index)") auto

declare ref_is_symbol_from.simps [simp del]

definition ref_is_symbol :: "string \<Rightarrow> bool" where
  "ref_is_symbol v = (if v = [] then False else ref_is_symbol_from v 0)"

text \<open>\<open>is_non_empty_text\<close> is the same text as in the production adapter.\<close>

definition ref_is_non_empty_text :: "string \<Rightarrow> bool" where
  "ref_is_non_empty_text v \<longleftrightarrow> v \<noteq> [] \<and> length v \<le> 256 \<and> \<not> is_ascii_whitespace (hd v) \<and>
     \<not> is_ascii_whitespace (last v)"

subsection \<open>Mappings\<close>

fun policy_for_market :: "ref_market \<Rightarrow> ref_adapter_policy" where
  "policy_for_market RefMarketSpot = RefPolicySpot"
| "policy_for_market _ = RefPolicyUsdMPerpetual"

fun ref_quality_rank :: "ref_quality_flag \<Rightarrow> nat" where
  "ref_quality_rank RqDuplicate = 0"
| "ref_quality_rank RqOutOfOrder = 1"
| "ref_quality_rank RqSequenceGap = 2"
| "ref_quality_rank RqOrderBookResync = 3"
| "ref_quality_rank RqSnapshotBridgePending = 4"
| "ref_quality_rank RqSnapshotTooOld = 5"
| "ref_quality_rank RqBootstrapBufferOverflow = 6"
| "ref_quality_rank RqRecoveredTail = 7"
| "ref_quality_rank RqMalformedPayload = 8"
| "ref_quality_rank RqExchangeTimeMissing = 9"
| "ref_quality_rank RqReceiveClockDiscontinuity = 10"
| "ref_quality_rank RqSlowConsumerGap = 11"
| "ref_quality_rank RqProducerRestart = 12"
| "ref_quality_rank RqOverlap = 13"
| "ref_quality_rank RqIdentityConflict = 14"
| "ref_quality_rank RqCrossedBook = 15"

fun map_inbound_fact :: "replay_quality_fact \<Rightarrow> ref_quality_flag" where
  "map_inbound_fact FactDuplicate = RqDuplicate"
| "map_inbound_fact FactOutOfOrder = RqOutOfOrder"
| "map_inbound_fact FactOrderBookResync = RqOrderBookResync"
| "map_inbound_fact FactSnapshotTooOld = RqSnapshotTooOld"
| "map_inbound_fact FactBootstrapBufferOverflow = RqBootstrapBufferOverflow"
| "map_inbound_fact FactRecoveredTail = RqRecoveredTail"
| "map_inbound_fact FactMalformedPayload = RqMalformedPayload"
| "map_inbound_fact FactExchangeTimeMissing = RqExchangeTimeMissing"
| "map_inbound_fact FactReceiveClockDiscontinuity = RqReceiveClockDiscontinuity"
| "map_inbound_fact FactSlowConsumerGap = RqSlowConsumerGap"
| "map_inbound_fact FactProducerRestart = RqProducerRestart"
| "map_inbound_fact FactOverlap = RqOverlap"
| "map_inbound_fact FactIdentityConflict = RqIdentityConflict"

text \<open>Different flags have different ranks, so \<open>std::sort\<close> by rank has one possible result.\<close>

definition deduplicate_and_rank :: "ref_quality_flag list \<Rightarrow> ref_quality_flag list" where
  "deduplicate_and_rank flags = remdups_adj (sort_key ref_quality_rank flags)"

definition map_observed_quality :: "replay_quality_fact list \<Rightarrow> ref_quality_flag list" where
  "map_observed_quality facts = deduplicate_and_rank (map map_inbound_fact facts)"

fun host_fact_valid_for_status :: "replay_quality_fact \<Rightarrow> ref_status \<Rightarrow> bool" where
  "host_fact_valid_for_status FactOrderBookResync status \<longleftrightarrow>
     status = RefAwaitingBridge \<or> status = RefNeedsResync"
| "host_fact_valid_for_status FactRecoveredTail status \<longleftrightarrow> status = RefSynchronized"
| "host_fact_valid_for_status FactMalformedPayload status \<longleftrightarrow>
     status = RefAwaitingBridge \<or> status = RefNeedsResync"
| "host_fact_valid_for_status _ status \<longleftrightarrow> True"

fun map_recovery :: "replay_recovery \<Rightarrow> ref_resync_state option" where
  "map_recovery GapStateResyncRequired = Some RrResyncRequired"
| "map_recovery GapStateResyncInProgress = Some RrResyncInProgress"
| "map_recovery GapStateResyncFailed = Some RrResyncFailed"
| "map_recovery GapStateSynchronized = None"
| "map_recovery GapStateRecovered = None"

subsection \<open>Levels\<close>

definition ref_adapt_price :: "string \<Rightarrow> ref_adapter_field \<Rightarrow> nat \<Rightarrow> ref_adapter_error option" where
  "ref_adapt_price t field storage_scale =
     (case parse_reference_decimal t storage_scale False of
        Inr _ \<Rightarrow> None
      | Inl failure \<Rightarrow>
          let code =
            (if rde_code failure = RefZeroNotAllowed \<or> (t \<noteq> [] \<and> hd t = CHR ''-'') then RcNonPositivePrice
             else if rde_code failure = RefInexactScale then RcScaleMismatch
             else if rde_code failure = RefOverflow then RcNumericOverflow
             else RcInvalidDecimal)
          in Some (ref_decimal_error code field (rde_code failure)))"

definition ref_adapt_quantity :: "string \<Rightarrow> ref_adapter_field \<Rightarrow> nat \<Rightarrow> ref_adapter_error option" where
  "ref_adapt_quantity t field storage_scale =
     (case parse_reference_decimal t storage_scale True of
        Inr _ \<Rightarrow> None
      | Inl failure \<Rightarrow>
          let code =
            (if t \<noteq> [] \<and> hd t = CHR ''-'' then RcNegativeQuantity
             else if rde_code failure = RefInexactScale then RcScaleMismatch
             else if rde_code failure = RefOverflow then RcNumericOverflow
             else RcInvalidDecimal)
          in Some (ref_decimal_error code field (rde_code failure)))"

definition ref_adapt_level :: "level_input \<Rightarrow> replay_spec \<Rightarrow> ref_adapter_error option" where
  "ref_adapt_level level spec =
     (let bids = (li_side level = SideBid);
          price_field = (if bids then RfBidPrice else RfAskPrice);
          quantity_field = (if bids then RfBidQuantity else RfAskQuantity)
      in case ref_adapt_price (li_price level) price_field (rs_price_scale spec) of
           Some failure \<Rightarrow> Some failure
         | None \<Rightarrow> ref_adapt_quantity (li_quantity level) quantity_field (rs_quantity_scale spec))"

text \<open>
  The lambda \<open>adapt_baseline_side\<close>.  \<open>std::get\<close> on the price follows an accepted \<open>adapt_level\<close>; the
  error alternative, where it would throw, is the outer \<open>None\<close>.
\<close>

fun ref_baseline_side ::
  "replay_spec \<Rightarrow> bool \<Rightarrow> int option \<Rightarrow> level_input list \<Rightarrow> ref_adapter_error option option" where
  "ref_baseline_side spec bids_side previous_price [] = Some None"
| "ref_baseline_side spec bids_side previous_price (level # rest) =
     (case ref_adapt_level level spec of
        Some failure \<Rightarrow> Some (Some failure)
      | None \<Rightarrow>
          (case parse_reference_decimal (li_price level) (rs_price_scale spec) False of
             Inl _ \<Rightarrow> None
           | Inr price \<Rightarrow>
               let units = rdv_units price in
               if (case previous_price of None \<Rightarrow> False
                   | Some previous \<Rightarrow> if bids_side then units \<ge> previous else units \<le> previous)
                 then Some (Some (ref_error RcInvalidOrdering (if bids_side then RfBidPrice else RfAskPrice)))
               else ref_baseline_side spec bids_side (Some units) rest))"

fun ref_update_side :: "replay_spec \<Rightarrow> replay_side \<Rightarrow> level_input list \<Rightarrow> ref_adapter_error option" where
  "ref_update_side spec side [] = None"
| "ref_update_side spec side (level # rest) =
     (if li_side level = side then
        (case ref_adapt_level level spec of
           Some failure \<Rightarrow> Some failure
         | None \<Rightarrow> ref_update_side spec side rest)
      else ref_update_side spec side rest)"

subsection \<open>Validation\<close>

definition validate_inbound_identity :: "ref_dimensions \<Rightarrow> ref_adapter_error option" where
  "validate_inbound_identity d =
     (if rd_wire_venue d = RefVenueUnspecified then Some (ref_error RcUnspecifiedEnum RfVenue)
      else if rd_wire_venue d = RefVenueUnknown then Some (ref_error RcUnsupportedVenue RfVenue)
      else if rd_wire_market d = RefMarketUnspecified then Some (ref_error RcUnspecifiedEnum RfMarket)
      else if rd_wire_market d = RefMarketUnknown then Some (ref_error RcUnknownEnumValue RfMarket)
      else if \<not> ref_is_symbol (rd_wire_symbol d) then Some (ref_error RcInvalidIdentifier RfSymbol)
      else if \<not> ref_is_symbol (rd_expected_symbol d) \<or> rd_wire_symbol d \<noteq> rd_expected_symbol d
        then Some (ref_error RcIdentityMismatch RfSymbol)
      else if policy_for_market (rd_wire_market d) \<noteq> rd_expected_policy d
        then Some (ref_error RcIdentityMismatch RfMarket)
      else None)"

definition validate_snapshot_identity :: "ref_dimensions \<Rightarrow> ref_adapter_error option" where
  "validate_snapshot_identity d =
     (if \<not> ref_is_symbol (rd_expected_symbol d) then Some (ref_error RcInvalidIdentifier RfSymbol)
      else if rd_expected_policy d \<noteq> rd_projection_policy d
        then Some (ref_error RcProjectionPolicyMismatch RfProjectionPolicy)
      else None)"

definition ref_validate_binding :: "ref_dimensions \<Rightarrow> ref_adapter_error option" where
  "ref_validate_binding d =
     (if rs_price_scale (rd_conversion_numeric_spec d) \<noteq> rs_price_scale (rd_projection_numeric_spec d)
        then Some (ref_error RcProjectionNumericSpecMismatch RfProjectionPriceScale)
      else if rs_quantity_scale (rd_conversion_numeric_spec d) \<noteq> rs_quantity_scale (rd_projection_numeric_spec d)
        then Some (ref_error RcProjectionNumericSpecMismatch RfProjectionQuantityScale)
      else if policy_for_market (rd_wire_market d) \<noteq> rd_projection_policy d
        then Some (ref_error RcProjectionPolicyMismatch RfProjectionPolicy)
      else None)"

definition validate_depth_limit :: "nat option \<Rightarrow> ref_adapter_error option" where
  "validate_depth_limit depth_limit =
     (case depth_limit of
        None \<Rightarrow> None
      | Some limit \<Rightarrow>
          if limit = 0 \<or> limit > nat INT32_MAX then Some (ref_error RcInvalidDepthLimit RfDepthLimit) else None)"

subsection \<open>Inbound predictions\<close>

definition predict_baseline_levels ::
  "ref_dimensions \<Rightarrow> level_input list \<Rightarrow> level_input list \<Rightarrow> replay_quality_fact list \<Rightarrow>
   (ref_adapter_error + ref_quality_flag list) option" where
  "predict_baseline_levels d bids asks inbound_facts =
     (case ref_baseline_side (rd_conversion_numeric_spec d) True None bids of
        None \<Rightarrow> None
      | Some (Some failure) \<Rightarrow> Some (Inl failure)
      | Some None \<Rightarrow>
          (case ref_baseline_side (rd_conversion_numeric_spec d) False None asks of
             None \<Rightarrow> None
           | Some (Some failure) \<Rightarrow> Some (Inl failure)
           | Some None \<Rightarrow> Some (Inr (map_observed_quality inbound_facts))))"

definition predict_update_levels ::
  "ref_dimensions \<Rightarrow> level_input list \<Rightarrow> replay_quality_fact list \<Rightarrow> ref_adapter_error + ref_quality_flag list" where
  "predict_update_levels d levels inbound_facts =
     (case ref_update_side (rd_conversion_numeric_spec d) SideBid levels of
        Some failure \<Rightarrow> Inl failure
      | None \<Rightarrow>
          (case ref_update_side (rd_conversion_numeric_spec d) SideAsk levels of
             Some failure \<Rightarrow> Inl failure
           | None \<Rightarrow> Inr (map_observed_quality inbound_facts)))"

definition predict_baseline_input ::
  "ref_dimensions \<Rightarrow> level_input list \<Rightarrow> level_input list \<Rightarrow> replay_quality_fact list \<Rightarrow>
   (ref_adapter_error + ref_quality_flag list) option" where
  "predict_baseline_input d bids asks inbound_facts =
     (case validate_inbound_identity d of
        Some identity_error \<Rightarrow> Some (Inl identity_error)
      | None \<Rightarrow>
          (case predict_baseline_levels d bids asks inbound_facts of
             None \<Rightarrow> None
           | Some (Inl failure) \<Rightarrow> Some (Inl failure)
           | Some (Inr _) \<Rightarrow>
               (case ref_validate_binding d of
                  Some binding_error \<Rightarrow> Some (Inl binding_error)
                | None \<Rightarrow> Some (Inr (map_observed_quality inbound_facts)))))"

definition predict_depth_update_input ::
  "ref_dimensions \<Rightarrow> uint64 \<Rightarrow> uint64 \<Rightarrow> level_input list \<Rightarrow> replay_quality_fact list \<Rightarrow>
   ref_adapter_error + ref_quality_flag list" where
  "predict_depth_update_input d first_update_id final_update_id levels inbound_facts =
     (case validate_inbound_identity d of
        Some identity_error \<Rightarrow> Inl identity_error
      | None \<Rightarrow>
          if first_update_id > final_update_id then Inl (ref_error RcInvalidUpdateRange RfFinalUpdateId)
          else
            (case predict_update_levels d levels inbound_facts of
               Inl failure \<Rightarrow> Inl failure
             | Inr _ \<Rightarrow>
                 (case ref_validate_binding d of
                    Some binding_error \<Rightarrow> Inl binding_error
                  | None \<Rightarrow> Inr (map_observed_quality inbound_facts))))"

subsection \<open>Snapshot prediction\<close>

definition kLocalOrderBookSnapshotSchema :: string where
  "kLocalOrderBookSnapshotSchema = ''local-order-book-snapshot.v1''"

fun host_facts_loop ::
  "ref_status \<Rightarrow> replay_quality_fact list \<Rightarrow> ref_quality_flag list \<Rightarrow> ref_adapter_error + ref_quality_flag list" where
  "host_facts_loop status [] flags = Inr flags"
| "host_facts_loop status (f # facts) flags =
     (if \<not> host_fact_valid_for_status f status
        then Inl (ref_error RcInvalidHostQualityCombination RfHostQualityFact)
      else host_facts_loop status facts (flags @ [map_inbound_fact f]))"

definition predict_host_quality ::
  "reference_projection \<Rightarrow> replay_quality_fact list \<Rightarrow> ref_adapter_error + ref_quality_flag list" where
  "predict_host_quality projection facts =
     (let status = rp_status projection; bids = rp_bids projection; asks = rp_asks projection in
      case host_facts_loop status facts [] of
        Inl failure \<Rightarrow> Inl failure
      | Inr flags0 \<Rightarrow>
          let flags1 = (if status = RefAwaitingBridge then flags0 @ [RqSnapshotBridgePending] else flags0);
              flags2 = (if status = RefNeedsResync then flags1 @ [RqSequenceGap] else flags1);
              flags3 = (if bids \<noteq> [] \<and> asks \<noteq> [] \<and> raw_price (hd bids) \<ge> raw_price (hd asks)
                        then flags2 @ [RqCrossedBook] else flags2)
          in Inr flags3)"

definition predict_gap_descriptor ::
  "reference_projection \<Rightarrow> (uint64 \<times> replay_recovery) option \<Rightarrow> ref_gap_descriptor option" where
  "predict_gap_descriptor projection current_gap =
     (case (rp_last_gap projection, current_gap) of
        (Some gap, Some (detected, state)) \<Rightarrow>
          (case map_recovery state of
             None \<Rightarrow> None
           | Some recovery \<Rightarrow>
               Some \<lparr>rgd_detected_at_utc_ns = detected, rgd_previous_sequence = rg_last gap,
                 rgd_next_sequence = rg_first gap, rgd_reason_code = RrSequenceGapDetected,
                 rgd_recovery_state = recovery\<rparr>)
      | _ \<Rightarrow> None)"

text \<open>The lambda \<open>select_levels\<close>: its loop stops at the limit.\<close>

fun select_levels_loop ::
  "replay_spec \<Rightarrow> nat \<Rightarrow> nat \<Rightarrow> raw_level list \<Rightarrow> ref_snapshot_level list" where
  "select_levels_loop spec limit count [] = []"
| "select_levels_loop spec limit count (level # rest) =
     (if count = limit then []
      else \<lparr>rsl_price = reference_fixed (raw_price level) (rs_price_scale spec),
            rsl_quantity = reference_fixed (raw_quantity level) (rs_quantity_scale spec)\<rparr> #
           select_levels_loop spec limit (count + 1) rest)"

definition select_levels :: "replay_spec \<Rightarrow> nat option \<Rightarrow> raw_level list \<Rightarrow> ref_snapshot_level list" where
  "select_levels spec depth_limit levels =
     select_levels_loop spec (case depth_limit of Some limit \<Rightarrow> limit | None \<Rightarrow> length levels) 0 levels"

definition ref_missing_or_invalid :: "string \<Rightarrow> ref_adapter_code" where
  "ref_missing_or_invalid t = (if t = [] then RcMissingRequiredField else RcInvalidIdentifier)"

definition predict_snapshot ::
  "ref_dimensions \<Rightarrow> reference_projection \<Rightarrow> snapshot_request \<Rightarrow> ref_adapter_error + ref_snapshot_prediction" where
  "predict_snapshot d projection operation =
     (let status = rp_status projection; needs_resync = (status = RefNeedsResync) in
      case validate_depth_limit (sr_depth_limit operation) of
        Some depth_error \<Rightarrow> Inl depth_error
      | None \<Rightarrow>
      if status = RefAwaitingBaseline then Inl (ref_error RcMissingLastUpdateId RfLastUpdateId)
      else if rp_last projection = None then Inl (ref_error RcMissingLastUpdateId RfLastUpdateId)
      else case validate_snapshot_identity d of
        Some identity_error \<Rightarrow> Inl identity_error
      | None \<Rightarrow>
      if \<not> ref_is_non_empty_text (sr_producer operation)
        then Inl (ref_error (ref_missing_or_invalid (sr_producer operation)) RfProducer)
      else if \<not> ref_is_non_empty_text (sr_producer_version operation)
        then Inl (ref_error (ref_missing_or_invalid (sr_producer_version operation)) RfProducerVersion)
      else if needs_resync \<noteq> (sr_current_gap operation \<noteq> None)
        then Inl (ref_error (if needs_resync then RcMissingRequiredField else RcInvalidGapContext) RfCurrentGap)
      else case predict_host_quality projection (sr_host_quality_facts operation) of
        Inl quality_error \<Rightarrow> Inl quality_error
      | Inr flags \<Rightarrow>
          let prediction =
            \<lparr>rsp_venue = RefVenueBinance,
             rsp_market = (if rd_projection_policy d = RefPolicySpot then RefMarketSpot else RefMarketUsdMPerpetual),
             rsp_schema_version = kLocalOrderBookSnapshotSchema,
             rsp_synchronized = (status = RefSynchronized),
             rsp_last_update_id = rp_last projection,
             rsp_bids = select_levels (rd_projection_numeric_spec d) (sr_depth_limit operation) (rp_bids projection),
             rsp_asks = select_levels (rd_projection_numeric_spec d) (sr_depth_limit operation) (rp_asks projection),
             rsp_quality_flags = deduplicate_and_rank flags,
             rsp_depth_limit = sr_depth_limit operation,
             rsp_gap_descriptor = None\<rparr>
          in
          if needs_resync then
            (case predict_gap_descriptor projection (sr_current_gap operation) of
               None \<Rightarrow> Inl (ref_error RcInvalidGapContext RfGapRecoveryState)
             | Some gap \<Rightarrow> Inr (prediction\<lparr>rsp_gap_descriptor := Some gap\<rparr>))
          else Inr prediction)"

subsection \<open>The two symbol validators agree\<close>

lemma continuation_and: "char_code c AND 0xC0 = 0x80 \<longleftrightarrow> 0x80 \<le> char_code c \<and> char_code c < 0xC0"
  by (simp add: is_continuation_iff)

lemma boundaries_eq:
  assumes "2 \<le> width"
  shows "has_valid_utf8_symbol_boundaries v lead index width \<longleftrightarrow>
    continuation_at v (index + 1) \<and> (\<forall>k. 2 \<le> k \<longrightarrow> k < width \<longrightarrow> continuation_at v (index + k)) \<and>
    \<not> (lead = 0xE0 \<and> byte_at v (index + 1) < 0xA0 \<or> lead = 0xED \<and> byte_at v (index + 1) > 0x9F \<or>
       lead = 0xF0 \<and> byte_at v (index + 1) < 0x90 \<or> lead = 0xF4 \<and> byte_at v (index + 1) > 0x8F)"
  unfolding has_valid_utf8_symbol_boundaries_def continuation_at_def byte_at_def list_all_iff Let_def
    continuation_and
  by auto

lemma three_byte_valid:
  assumes "x < 16" "a < 64" "b < 64"
  shows "is_valid_utf8_symbol_code_point ((x * 64 + a) * 64 + b) 0x800 \<longleftrightarrow>
    \<not> (x = 0 \<and> a < 0x20 \<or> x = 0xD \<and> a > 0x1F)"
proof -
  consider "x = 0" | "0 < x" "x < 0xD" | "x = 0xD" | "0xD < x" by linarith
  then show ?thesis
    using assms unfolding is_valid_utf8_symbol_code_point_def by cases auto
qed

lemma four_byte_valid:
  assumes "x \<le> 4" "a < 64" "b < 64" "c < 64"
  shows "is_valid_utf8_symbol_code_point (((x * 64 + a) * 64 + b) * 64 + c) 0x10000 \<longleftrightarrow>
    \<not> (x = 0 \<and> a < 0x10 \<or> x = 4 \<and> a > 0xF)"
proof -
  consider "x = 0" | "0 < x" "x < 4" | "x = 4" using assms(1) by linarith
  then show ?thesis
    using assms unfolding is_valid_utf8_symbol_code_point_def by cases auto
qed

text \<open>
  The lead and second byte decide whether a decoded code point is overlong, a surrogate or beyond
  the last code point.
\<close>

lemma multi_byte_agrees:
  assumes "0x80 \<le> byte_at v i"
  shows "(\<exists>d. decode_utf8_symbol_code_point v i = Some d \<and> cp_width d = w \<and>
      is_valid_utf8_symbol_code_point (cp_code_point d) (cp_minimum d)) \<longleftrightarrow>
    w = utf8_symbol_width (byte_at v i) \<and> w \<noteq> 0 \<and> w \<le> length v - i \<and>
      has_valid_utf8_symbol_boundaries v (byte_at v i) i w"
proof -
  let ?lead = "byte_at v i" and ?p = "\<lambda>k. payload_at v (i + k)"
  consider (none) "utf8_symbol_width ?lead = 0" | (two) "0xC2 \<le> ?lead" "?lead \<le> 0xDF"
    | (three) "0xE0 \<le> ?lead" "?lead \<le> 0xEF" | (four) "0xF0 \<le> ?lead" "?lead \<le> 0xF4"
    unfolding utf8_symbol_width_def by presburger
  then show ?thesis
  proof cases
    case none
    then have "decode_utf8_symbol_code_point v i = None"
      unfolding decode_eq' by (auto simp: utf8_symbol_width_def split: if_splits)
    with none show ?thesis by auto
  next
    case two
    have lead: "?lead mod 32 = ?lead - 0xC0" using two by (intro lead_mod) simp_all
    have "?lead mod 32 * 64 + ?p 1 \<ge> 0x80 \<and> ?lead mod 32 * 64 + ?p 1 < 0x800"
      unfolding lead using two payload_less[of v "i + 1"] by linarith
    then show ?thesis
      using two unfolding decode_eq'
      by (auto simp: utf8_symbol_width_def boundaries_eq is_valid_utf8_symbol_code_point_def)
  next
    case three
    have lead: "?lead mod 16 = ?lead - 0xE0" using three by (intro lead_mod) simp_all
    let ?cp = "(?lead mod 16 * 64 + ?p 1) * 64 + ?p 2"
    have valid: "is_valid_utf8_symbol_code_point ?cp 0x800 \<longleftrightarrow>
        \<not> (?lead = 0xE0 \<and> byte_at v (i + 1) < 0xA0 \<or> ?lead = 0xED \<and> byte_at v (i + 1) > 0x9F)"
      if "continuation_at v (i + 1)"
      using three_byte_valid[of "?lead mod 16" "?p 1" "?p 2"] three
      unfolding lead continuation_byte[OF that] by auto
    have "(\<forall>k\<ge>2. k < 3 \<longrightarrow> continuation_at v (i + k)) \<longleftrightarrow> continuation_at v (i + 2)"
      by (auto simp: numeral_2_eq_2 numeral_3_eq_3 less_Suc_eq_le intro: le_antisym)
    with three valid show ?thesis
      unfolding decode_eq' by (auto simp: utf8_symbol_width_def boundaries_eq)
  next
    case four
    have lead: "?lead mod 8 = ?lead - 0xF0" using four by (intro lead_mod) simp_all
    let ?cp = "((?lead mod 8 * 64 + ?p 1) * 64 + ?p 2) * 64 + ?p 3"
    have valid: "is_valid_utf8_symbol_code_point ?cp 0x10000 \<longleftrightarrow>
        \<not> (?lead = 0xF0 \<and> byte_at v (i + 1) < 0x90 \<or> ?lead = 0xF4 \<and> byte_at v (i + 1) > 0x8F)"
      if "continuation_at v (i + 1)"
      using four_byte_valid[of "?lead mod 8" "?p 1" "?p 2" "?p 3"] four
      unfolding lead continuation_byte[OF that] by auto
    have "k = 2 \<or> k = 3" if "2 \<le> k" "k < 4" for k :: nat using that by linarith
    then have "(\<forall>k\<ge>2. k < 4 \<longrightarrow> continuation_at v (i + k)) \<longleftrightarrow>
        continuation_at v (i + 2) \<and> continuation_at v (i + 3)" by force
    with four valid show ?thesis
      unfolding decode_eq' by (auto simp: utf8_symbol_width_def boundaries_eq)
  qed
qed

lemma ref_is_symbol_from_eq: "ref_is_symbol_from v i = is_symbol_from v i"
proof (induction v i rule: ref_is_symbol_from.induct)
  case (1 v i)
  show ?case
  proof (cases "i < length v")
    case False
    then show ?thesis by (simp add: ref_is_symbol_from.simps[of v i] is_symbol_from.simps[of v i])
  next
    case len: True
    show ?thesis
    proof (cases "byte_at v i < 0x80")
      case True
      with 1 len show ?thesis
        by (simp add: ref_is_symbol_from.simps[of v i] is_symbol_from.simps[of v i] byte_at_def
            ref_is_safe_ascii_symbol_byte_def is_safe_ascii_symbol_byte_def)
    next
      case False
      let ?w = "utf8_symbol_width (byte_at v i)"
      have "is_symbol_from v i \<longleftrightarrow> (\<exists>w. (\<exists>d. decode_utf8_symbol_code_point v i = Some d \<and> cp_width d = w \<and>
          is_valid_utf8_symbol_code_point (cp_code_point d) (cp_minimum d)) \<and> is_symbol_from v (i + w))"
        using len False by (auto simp: is_symbol_from.simps[of v i] byte_at_def split: option.splits)
      also have "\<dots> \<longleftrightarrow> ?w \<noteq> 0 \<and> ?w \<le> length v - i \<and>
          has_valid_utf8_symbol_boundaries v (byte_at v i) i ?w \<and> is_symbol_from v (i + ?w)"
        using multi_byte_agrees[of v i] False by auto
      also have "\<dots> \<longleftrightarrow> ref_is_symbol_from v i"
        using 1(2)[OF len refl] len False
        by (auto simp: ref_is_symbol_from.simps[of v i] byte_at_def Let_def)
      finally show ?thesis by simp
    qed
  qed
qed

lemma ref_is_symbol_eq [simp]: "ref_is_symbol v = is_symbol v"
  by (simp add: ref_is_symbol_def is_symbol_def ref_is_symbol_from_eq)

lemma ref_is_non_empty_text_eq [simp]: "ref_is_non_empty_text v = is_non_empty_text v"
  by (simp add: ref_is_non_empty_text_def is_non_empty_text_def)

end
