(* ===== verification/Replay_Reference.thy ===== *)
theory Replay_Reference
  imports Replay_Production Reference_Adapter
begin

text \<open>
  The reference side of the differential replay, \<open>tests/m5/oracle/reference_side.cpp\<close>: it composes the
  reference decimal, the reference projection and the reference adapter, in core-only and in
  adapter-enabled mode, and states its results in the canonical vocabulary.
\<close>

subsection \<open>Reference values in canonical form\<close>

fun canonical_ref_policy :: "ref_policy \<Rightarrow> canonical_policy" where
  "canonical_ref_policy RefSpot = CSpot"
| "canonical_ref_policy RefUsdM = CUsdMPerpetual"

fun canonical_ref_status :: "ref_status \<Rightarrow> canonical_status" where
  "canonical_ref_status RefAwaitingBaseline = CAwaitingBaseline"
| "canonical_ref_status RefAwaitingBridge = CAwaitingBridge"
| "canonical_ref_status RefSynchronized = CSynchronized"
| "canonical_ref_status RefNeedsResync = CNeedsResync"

fun canonical_ref_install_disposition :: "ref_install_disposition \<Rightarrow> canonical_disposition" where
  "canonical_ref_install_disposition RefInstalled = CInstalled"
| "canonical_ref_install_disposition RefInstallRejectedWrongState = CRejectedWrongState"

fun canonical_ref_disposition :: "ref_disposition \<Rightarrow> canonical_disposition" where
  "canonical_ref_disposition RefApplied = CApplied"
| "canonical_ref_disposition RefIgnoredStale = CIgnoredStale"
| "canonical_ref_disposition RefIgnoredDuplicate = CIgnoredDuplicate"
| "canonical_ref_disposition RefGapDetected = CGapDetected"
| "canonical_ref_disposition RefRejectedWrongState = CRejectedWrongState"

fun canonical_ref_gap_reason :: "ref_gap_reason \<Rightarrow> canonical_gap_reason" where
  "canonical_ref_gap_reason RefSpotBootstrapForwardGap = CSpotBootstrapForwardGap"
| "canonical_ref_gap_reason RefSpotLiveForwardGap = CSpotLiveForwardGap"
| "canonical_ref_gap_reason RefFuturesBootstrapRangeMiss = CFuturesBootstrapRangeMiss"
| "canonical_ref_gap_reason RefFuturesMissingPreviousFinal = CFuturesMissingPreviousFinal"
| "canonical_ref_gap_reason RefFuturesPreviousFinalMismatch = CFuturesPreviousFinalMismatch"

definition canonical_ref_gap :: "ref_gap \<Rightarrow> canonical_gap_evidence" where
  "canonical_ref_gap gap =
     \<lparr>ge_last_accepted_final = rg_last gap, ge_first_update_id = rg_first gap, ge_final_update_id = rg_final gap,
      ge_previous_final = rg_previous gap, ge_reason = canonical_ref_gap_reason (rg_reason gap),
      ge_policy = canonical_ref_policy (rg_policy gap)\<rparr>"

definition canonical_ref_install :: "ref_install_result \<Rightarrow> install_outcome" where
  "canonical_ref_install res =
     \<lparr>io_disposition = canonical_ref_install_disposition (ri_disposition res),
      io_status_after = canonical_ref_status (ri_status res), io_last_update_id_after = ri_last res\<rparr>"

definition canonical_ref_result :: "ref_result \<Rightarrow> apply_outcome" where
  "canonical_ref_result res =
     \<lparr>ao_disposition = canonical_ref_disposition (rr_disposition res),
      ao_status_after = canonical_ref_status (rr_status res), ao_last_update_id_after = rr_last res,
      ao_gap = map_option canonical_ref_gap (rr_gap res)\<rparr>"

fun canonical_ref_error :: "reference_decimal_error_code \<Rightarrow> canonical_decimal_error" where
  "canonical_ref_error RefEmpty = CEmpty"
| "canonical_ref_error RefInvalidSyntax = CInvalidSyntax"
| "canonical_ref_error RefSignNotAllowed = CSignNotAllowed"
| "canonical_ref_error RefLeadingZero = CLeadingZero"
| "canonical_ref_error RefMissingFractionDigits = CMissingFractionDigits"
| "canonical_ref_error RefZeroNotAllowed = CZeroNotAllowed"
| "canonical_ref_error RefInexactScale = CInexactScale"
| "canonical_ref_error RefOverflow = COverflow"

fun canonical_ref_venue :: "ref_venue \<Rightarrow> canonical_venue" where
  "canonical_ref_venue _ = CVenueBinance"

fun canonical_ref_market :: "ref_market \<Rightarrow> canonical_market" where
  "canonical_ref_market RefMarketUsdMPerpetual = CMarketUsdMPerpetual"
| "canonical_ref_market _ = CMarketSpot"

fun canonical_ref_code :: "ref_adapter_code \<Rightarrow> canonical_adapter_code" where
  "canonical_ref_code RcUnsupportedVenue = CodeUnsupportedVenue"
| "canonical_ref_code RcUnsupportedMarket = CodeUnsupportedMarket"
| "canonical_ref_code RcUnexpectedStream = CodeUnexpectedStream"
| "canonical_ref_code RcIdentityMismatch = CodeIdentityMismatch"
| "canonical_ref_code RcUnsupportedSchemaVersion = CodeUnsupportedSchemaVersion"
| "canonical_ref_code RcUnspecifiedEnum = CodeUnspecifiedEnum"
| "canonical_ref_code RcUnknownEnumValue = CodeUnknownEnumValue"
| "canonical_ref_code RcInvalidUpdateRange = CodeInvalidUpdateRange"
| "canonical_ref_code RcMissingRequiredField = CodeMissingRequiredField"
| "canonical_ref_code RcInvalidIdentifier = CodeInvalidIdentifier"
| "canonical_ref_code RcInvalidDecimal = CodeInvalidDecimal"
| "canonical_ref_code RcNegativeQuantity = CodeNegativeQuantity"
| "canonical_ref_code RcNonPositivePrice = CodeNonPositivePrice"
| "canonical_ref_code RcScaleMismatch = CodeScaleMismatch"
| "canonical_ref_code RcNumericOverflow = CodeNumericOverflow"
| "canonical_ref_code RcInvalidDepthLimit = CodeInvalidDepthLimit"
| "canonical_ref_code RcInvalidOrdering = CodeInvalidOrdering"
| "canonical_ref_code RcUnsupportedProjectionState = CodeUnsupportedProjectionState"
| "canonical_ref_code RcMissingLastUpdateId = CodeMissingLastUpdateId"
| "canonical_ref_code RcInvalidGapContext = CodeInvalidGapContext"
| "canonical_ref_code RcInvalidHostQualityCombination = CodeInvalidHostQualityCombination"
| "canonical_ref_code RcProjectionNumericSpecMismatch = CodeProjectionNumericSpecMismatch"
| "canonical_ref_code RcProjectionPolicyMismatch = CodeProjectionPolicyMismatch"

fun canonical_ref_field :: "ref_adapter_field \<Rightarrow> canonical_adapter_field" where
  "canonical_ref_field RfNone = FieldNone"
| "canonical_ref_field RfVenue = FieldVenue"
| "canonical_ref_field RfMarket = FieldMarket"
| "canonical_ref_field RfStream = FieldStream"
| "canonical_ref_field RfSymbol = FieldSymbol"
| "canonical_ref_field RfSchemaVersion = FieldSchemaVersion"
| "canonical_ref_field RfProducer = FieldProducer"
| "canonical_ref_field RfProducerVersion = FieldProducerVersion"
| "canonical_ref_field RfRequestId = FieldRequestId"
| "canonical_ref_field RfConnectionId = FieldConnectionId"
| "canonical_ref_field RfFirstUpdateId = FieldFirstUpdateId"
| "canonical_ref_field RfFinalUpdateId = FieldFinalUpdateId"
| "canonical_ref_field RfPreviousFinalUpdateId = FieldPreviousFinalUpdateId"
| "canonical_ref_field RfBidPrice = FieldBidPrice"
| "canonical_ref_field RfBidQuantity = FieldBidQuantity"
| "canonical_ref_field RfAskPrice = FieldAskPrice"
| "canonical_ref_field RfAskQuantity = FieldAskQuantity"
| "canonical_ref_field RfQualityFlag = FieldQualityFlag"
| "canonical_ref_field RfProjectionPriceScale = FieldProjectionPriceScale"
| "canonical_ref_field RfProjectionQuantityScale = FieldProjectionQuantityScale"
| "canonical_ref_field RfProjectionPolicy = FieldProjectionPolicy"
| "canonical_ref_field RfDepthLimit = FieldDepthLimit"
| "canonical_ref_field RfSnapshotSource = FieldSnapshotSource"
| "canonical_ref_field RfLastUpdateId = FieldLastUpdateId"
| "canonical_ref_field RfCurrentGap = FieldCurrentGap"
| "canonical_ref_field RfGapRecoveryState = FieldGapRecoveryState"
| "canonical_ref_field RfHostQualityFact = FieldHostQualityFact"

fun canonical_ref_flag :: "ref_quality_flag \<Rightarrow> canonical_quality_flag" where
  "canonical_ref_flag RqDuplicate = FlagDuplicate"
| "canonical_ref_flag RqOutOfOrder = FlagOutOfOrder"
| "canonical_ref_flag RqSequenceGap = FlagSequenceGap"
| "canonical_ref_flag RqOrderBookResync = FlagOrderBookResync"
| "canonical_ref_flag RqSnapshotBridgePending = FlagSnapshotBridgePending"
| "canonical_ref_flag RqSnapshotTooOld = FlagSnapshotTooOld"
| "canonical_ref_flag RqBootstrapBufferOverflow = FlagBootstrapBufferOverflow"
| "canonical_ref_flag RqRecoveredTail = FlagRecoveredTail"
| "canonical_ref_flag RqMalformedPayload = FlagMalformedPayload"
| "canonical_ref_flag RqExchangeTimeMissing = FlagExchangeTimeMissing"
| "canonical_ref_flag RqReceiveClockDiscontinuity = FlagReceiveClockDiscontinuity"
| "canonical_ref_flag RqSlowConsumerGap = FlagSlowConsumerGap"
| "canonical_ref_flag RqProducerRestart = FlagProducerRestart"
| "canonical_ref_flag RqOverlap = FlagOverlap"
| "canonical_ref_flag RqIdentityConflict = FlagIdentityConflict"
| "canonical_ref_flag RqCrossedBook = FlagCrossedBook"

fun canonical_ref_resync :: "ref_resync_state \<Rightarrow> canonical_resync_state" where
  "canonical_ref_resync RrResyncRequired = CResyncRequired"
| "canonical_ref_resync RrResyncInProgress = CResyncInProgress"
| "canonical_ref_resync RrResyncFailed = CResyncFailed"

fun canonical_ref_reason :: "ref_reason_code \<Rightarrow> canonical_reason_code" where
  "canonical_ref_reason RrSequenceGapDetected = CSequenceGapDetected"

fun canonical_origin :: "replay_origin \<Rightarrow> canonical_snapshot_source" where
  "canonical_origin OriginGatewayLive = CGatewayLive"
| "canonical_origin OriginRecorderReplay = CRecorderReplay"
| "canonical_origin OriginHistoryReplay = CHistoryReplay"

definition canonical_ref_adapter_error :: "ref_adapter_error \<Rightarrow> adapter_error_outcome" where
  "canonical_ref_adapter_error e =
     \<lparr>oe_code = canonical_ref_code (rae_code e), oe_field = canonical_ref_field (rae_field e),
      oe_decimal_error = map_option canonical_ref_error (rae_decimal_error e)\<rparr>"

definition canonical_quality :: "ref_quality_flag list \<Rightarrow> canonical_quality_flag list" where
  "canonical_quality flags = map canonical_ref_flag flags"

subsection \<open>Reference decimals\<close>

record reference_level_observation =
  rlo_decimals :: "canonical_decimal_observation list"
  rlo_levels :: "raw_level list"
  rlo_first_error :: "canonical_decimal_error option"

definition reference_decimal_observation ::
  "level_input \<Rightarrow> nat \<Rightarrow> canonical_decimal_role \<Rightarrow> reference_decimal_result \<Rightarrow> nat \<Rightarrow>
   canonical_decimal_observation" where
  "reference_decimal_observation level position role parsed storage_scale =
     \<lparr>co_side = canonical_side (li_side level), co_level_position = position, co_role = role,
      co_result =
        (case parsed of
           Inl failure \<Rightarrow> Inr \<lparr>cf_category = canonical_ref_error (rde_code failure), cf_offset = rde_offset failure\<rparr>
         | Inr v \<Rightarrow> Inl \<lparr>cv_units = rdv_units v, cv_storage_scale = storage_scale,
             cv_source_fraction_digits = rdv_source_fraction_digits v\<rparr>)\<rparr>"

definition reference_record_first_error ::
  "reference_level_observation \<Rightarrow> reference_decimal_result \<Rightarrow> reference_level_observation" where
  "reference_record_first_error observation parsed =
     (if rlo_first_error observation \<noteq> None then observation
      else case parsed of
        Inl failure \<Rightarrow> observation\<lparr>rlo_first_error := Some (canonical_ref_error (rde_code failure))\<rparr>
      | Inr _ \<Rightarrow> observation)"

definition observe_reference_level ::
  "replay_spec \<Rightarrow> nat \<Rightarrow> level_input \<Rightarrow> reference_level_observation \<Rightarrow> reference_level_observation" where
  "observe_reference_level spec position level observation =
     (let price = parse_reference_decimal (li_price level) (rs_price_scale spec) False;
          quantity = parse_reference_decimal (li_quantity level) (rs_quantity_scale spec) True;
          o1 = observation\<lparr>rlo_decimals := rlo_decimals observation @
            [reference_decimal_observation level position RolePrice price (rs_price_scale spec),
             reference_decimal_observation level position RoleQuantity quantity (rs_quantity_scale spec)]\<rparr>;
          o2 = reference_record_first_error (reference_record_first_error o1 price) quantity
      in case (price, quantity) of
           (Inr p, Inr q) \<Rightarrow>
             o2\<lparr>rlo_levels := rlo_levels o2 @ [\<lparr>raw_bid = (li_side level = SideBid), raw_price = rdv_units p,
               raw_quantity = rdv_units q\<rparr>]\<rparr>
         | _ \<Rightarrow> o2)"

fun reference_levels_loop ::
  "replay_spec \<Rightarrow> nat \<Rightarrow> level_input list \<Rightarrow> reference_level_observation \<Rightarrow> reference_level_observation" where
  "reference_levels_loop spec position [] observation = observation"
| "reference_levels_loop spec position (level # rest) observation =
     reference_levels_loop spec (position + 1) rest (observe_reference_level spec position level observation)"

definition observe_reference_levels :: "level_input list \<Rightarrow> replay_spec \<Rightarrow> reference_level_observation" where
  "observe_reference_levels levels spec =
     reference_levels_loop spec 0 levels \<lparr>rlo_decimals = [], rlo_levels = [], rlo_first_error = None\<rparr>"

subsection \<open>The reference side\<close>

datatype replay_mode = ReplayCoreOnly | ReplayAdapterEnabled

definition default_adapter_scenario :: "replay_fixture \<Rightarrow> adapter_scenario" where
  "default_adapter_scenario fixture =
     (let policy = fi_sequence_policy (rf_identity fixture) in
      \<lparr>as_wire_venue = ScenarioBinance,
       as_wire_market = (if policy = PolicySpot then ScenarioSpot else ScenarioUsdMPerpetual),
       as_wire_symbol = fi_symbol (rf_identity fixture), as_expected_symbol = fi_symbol (rf_identity fixture),
       as_expected_policy = policy, as_conversion_numeric_spec = fi_numeric_spec (rf_identity fixture),
       as_projection_numeric_spec = fi_numeric_spec (rf_identity fixture), as_projection_policy = policy\<rparr>)"

fun reference_adapter_policy :: "replay_policy \<Rightarrow> ref_adapter_policy" where
  "reference_adapter_policy PolicySpot = RefPolicySpot"
| "reference_adapter_policy PolicyUsdMPerpetual = RefPolicyUsdMPerpetual"

fun reference_venue :: "scenario_venue \<Rightarrow> ref_venue" where
  "reference_venue ScenarioBinance = RefVenueBinance"
| "reference_venue ScenarioVenueUnspecified = RefVenueUnspecified"
| "reference_venue ScenarioVenueUnknown = RefVenueUnknown"

fun reference_market :: "scenario_market \<Rightarrow> ref_market" where
  "reference_market ScenarioSpot = RefMarketSpot"
| "reference_market ScenarioUsdMPerpetual = RefMarketUsdMPerpetual"
| "reference_market ScenarioMarketUnspecified = RefMarketUnspecified"
| "reference_market ScenarioMarketUnknown = RefMarketUnknown"

definition reference_dimensions :: "adapter_scenario \<Rightarrow> ref_dimensions" where
  "reference_dimensions scenario =
     \<lparr>rd_wire_venue = reference_venue (as_wire_venue scenario),
      rd_wire_market = reference_market (as_wire_market scenario),
      rd_wire_symbol = as_wire_symbol scenario, rd_expected_symbol = as_expected_symbol scenario,
      rd_expected_policy = reference_adapter_policy (as_expected_policy scenario),
      rd_conversion_numeric_spec = as_conversion_numeric_spec scenario,
      rd_projection_numeric_spec = as_projection_numeric_spec scenario,
      rd_projection_policy = reference_adapter_policy (as_projection_policy scenario)\<rparr>"

record reference_side =
  rsd_projection :: reference_projection
  rsd_adapter :: ref_dimensions
  rsd_conversion_numeric_spec :: replay_spec
  rsd_projection_numeric_spec :: replay_spec
  rsd_projection_policy :: replay_policy
  rsd_expected_symbol :: string
  rsd_pending_metadata :: "replay_quality_fact list"
  rsd_mode :: replay_mode

definition make_reference_side :: "replay_mode \<Rightarrow> adapter_scenario \<Rightarrow> reference_side" where
  "make_reference_side mode scenario =
     \<lparr>rsd_projection = ReferenceProjection_create
        (if as_projection_policy scenario = PolicySpot then RefSpot else RefUsdM),
      rsd_adapter = reference_dimensions scenario,
      rsd_conversion_numeric_spec = as_conversion_numeric_spec scenario,
      rsd_projection_numeric_spec = as_projection_numeric_spec scenario,
      rsd_projection_policy = as_projection_policy scenario,
      rsd_expected_symbol = as_expected_symbol scenario,
      rsd_pending_metadata = [], rsd_mode = mode\<rparr>"

definition canonical_level_of_raw :: "raw_level \<Rightarrow> canonical_level" where
  "canonical_level_of_raw l = \<lparr>cl_price = raw_price l, cl_quantity = raw_quantity l\<rparr>"

definition reference_checkpoint :: "reference_side \<Rightarrow> semantic_checkpoint" where
  "reference_checkpoint r =
     \<lparr>cp_status = canonical_ref_status (rp_status (rsd_projection r)),
      cp_last_update_id = rp_last (rsd_projection r),
      cp_last_gap = map_option canonical_ref_gap (rp_last_gap (rsd_projection r)),
      cp_synchronized_visible = (rp_status (rsd_projection r) = RefSynchronized),
      cp_bids = map canonical_level_of_raw (rp_bids (rsd_projection r)),
      cp_asks = map canonical_level_of_raw (rp_asks (rsd_projection r)),
      cp_price_scale = rs_price_scale (rsd_projection_numeric_spec r),
      cp_quantity_scale = rs_quantity_scale (rsd_projection_numeric_spec r)\<rparr>"

definition reference_observation ::
  "operation_result \<Rightarrow> canonical_decimal_observation list \<Rightarrow> reference_side \<Rightarrow>
   (operation_observation option \<times> reference_side) option" where
  "reference_observation res decimals r = Some (Some (core_observation res decimals (reference_checkpoint r)), r)"

definition reference_snapshot_observation ::
  "snapshot_outcome \<Rightarrow> reference_side \<Rightarrow> (operation_observation option \<times> reference_side) option" where
  "reference_snapshot_observation snapshot r =
     Some (Some (snapshot_observation snapshot (reference_checkpoint r)), r)"

text \<open>
  \<open>observe_install\<close>.  The core-only tail and the re-baseline branch run the same statements at the
  numeric specification of their own, which \<open>reference_install\<close> holds.
\<close>

definition reference_install ::
  "reference_side \<Rightarrow> replay_spec \<Rightarrow> uint64 \<Rightarrow> level_input list \<Rightarrow> level_input list \<Rightarrow>
   (operation_observation option \<times> reference_side) option" where
  "reference_install r spec last_update_id bids_input asks_input =
     (let bids = observe_reference_levels bids_input spec;
          asks = observe_reference_levels asks_input spec;
          decimals = rlo_decimals bids @ rlo_decimals asks
      in case rlo_first_error bids of
           Some e \<Rightarrow> reference_observation (DecimalErrorOutcome e) decimals r
         | None \<Rightarrow>
             (case rlo_first_error asks of
                Some e \<Rightarrow> reference_observation (DecimalErrorOutcome e) decimals r
              | None \<Rightarrow>
                  (case rp_install (rsd_projection r) last_update_id (rlo_levels bids @ rlo_levels asks) of
                     (res, m') \<Rightarrow>
                       reference_observation (InstallOutcome (canonical_ref_install res)) decimals
                         (r\<lparr>rsd_projection := m'\<rparr>))))"

definition reference_adapter_install ::
  "reference_side \<Rightarrow> uint64 \<Rightarrow> level_input list \<Rightarrow> level_input list \<Rightarrow>
   (operation_observation option \<times> reference_side) option" where
  "reference_adapter_install r last_update_id bids_input asks_input =
     (let bids = observe_reference_levels bids_input (rsd_conversion_numeric_spec r);
          asks = observe_reference_levels asks_input (rsd_conversion_numeric_spec r);
          decimals = rlo_decimals bids @ rlo_decimals asks;
          r1 = r\<lparr>rsd_pending_metadata := []\<rparr>
      in case predict_baseline_input (rsd_adapter r) bids_input asks_input (rsd_pending_metadata r) of
           None \<Rightarrow> None
         | Some (Inl failure) \<Rightarrow>
             reference_observation (AdapterErrorOutcome (canonical_ref_adapter_error failure)) decimals r1
         | Some (Inr quality) \<Rightarrow>
             (case rp_install (rsd_projection r) last_update_id (rlo_levels bids @ rlo_levels asks) of
                (res, m') \<Rightarrow>
                  reference_observation
                    (AdapterSuccessOutcome \<lparr>su_core_result = Inl (canonical_ref_install res),
                       su_observed_quality = canonical_quality quality\<rparr>)
                    decimals (r1\<lparr>rsd_projection := m'\<rparr>)))"

definition reference_observe_install ::
  "reference_side \<Rightarrow> uint64 \<Rightarrow> level_input list \<Rightarrow> level_input list \<Rightarrow> bool \<Rightarrow>
   (operation_observation option \<times> reference_side) option" where
  "reference_observe_install r last_update_id bids_input asks_input rebaseline =
     (if rebaseline then reference_install r (rsd_projection_numeric_spec r) last_update_id bids_input asks_input
      else if rsd_mode r = ReplayAdapterEnabled then reference_adapter_install r last_update_id bids_input asks_input
      else reference_install r (rsd_conversion_numeric_spec r) last_update_id bids_input asks_input)"

definition reference_depth_update ::
  "reference_side \<Rightarrow> uint64 \<Rightarrow> uint64 \<Rightarrow> uint64 option \<Rightarrow> level_input list \<Rightarrow>
   (operation_observation option \<times> reference_side) option" where
  "reference_depth_update r first_update_id final_update_id previous_final levels =
     (let parsed = observe_reference_levels levels (rsd_conversion_numeric_spec r);
          decimals = rlo_decimals parsed
      in
      if rsd_mode r = ReplayAdapterEnabled then
        let r1 = r\<lparr>rsd_pending_metadata := []\<rparr> in
        (case predict_depth_update_input (rsd_adapter r) first_update_id final_update_id levels
                (rsd_pending_metadata r) of
           Inl failure \<Rightarrow>
             reference_observation (AdapterErrorOutcome (canonical_ref_adapter_error failure)) decimals r1
         | Inr quality \<Rightarrow>
             (case rp_apply (rsd_projection r) first_update_id final_update_id previous_final (rlo_levels parsed) of
                None \<Rightarrow> None
              | Some (res, m') \<Rightarrow>
                  reference_observation
                    (AdapterSuccessOutcome \<lparr>su_core_result = Inr (canonical_ref_result res),
                       su_observed_quality = canonical_quality quality\<rparr>)
                    decimals (r1\<lparr>rsd_projection := m'\<rparr>)))
      else
        (case rlo_first_error parsed of
           Some e \<Rightarrow> reference_observation (DecimalErrorOutcome e) decimals r
         | None \<Rightarrow>
             if first_update_id > final_update_id
               then reference_observation (RangeOutcome False) decimals r
             else
               (case rp_apply (rsd_projection r) first_update_id final_update_id previous_final (rlo_levels parsed) of
                  None \<Rightarrow> None
                | Some (res, m') \<Rightarrow>
                    reference_observation (ApplyOutcome (canonical_ref_result res)) decimals
                      (r\<lparr>rsd_projection := m'\<rparr>))))"

definition canonical_ref_gap_descriptor :: "ref_gap_descriptor \<Rightarrow> gap_descriptor_observation" where
  "canonical_ref_gap_descriptor gap =
     \<lparr>go_detected_at_utc_ns = rgd_detected_at_utc_ns gap, go_previous_sequence = rgd_previous_sequence gap,
      go_next_sequence = rgd_next_sequence gap, go_reason_code = canonical_ref_reason (rgd_reason_code gap),
      go_recovery_state = canonical_ref_resync (rgd_recovery_state gap)\<rparr>"

definition reference_snapshot_request ::
  "reference_side \<Rightarrow> snapshot_request \<Rightarrow> (operation_observation option \<times> reference_side) option" where
  "reference_snapshot_request r operation =
     (if rsd_mode r \<noteq> ReplayAdapterEnabled then reference_observation SnapshotNotProducedOutcome [] r
      else case predict_snapshot (rsd_adapter r) (rsd_projection r) operation of
        Inl failure \<Rightarrow> reference_observation (AdapterErrorOutcome (canonical_ref_adapter_error failure)) [] r
      | Inr predicted \<Rightarrow>
          reference_snapshot_observation
            \<lparr>sn_venue = canonical_ref_venue (rsp_venue predicted),
             sn_market = canonical_ref_market (rsp_market predicted),
             sn_schema_version = rsp_schema_version predicted,
             sn_policy = (if rsd_projection_policy r = PolicySpot then CSpot else CUsdMPerpetual),
             sn_symbol = rsd_expected_symbol r,
             sn_producer = sr_producer operation,
             sn_producer_version = sr_producer_version operation,
             sn_source = canonical_origin (sr_source_origin operation),
             sn_generated_time_utc_ns = sr_generated_time_utc_ns operation,
             sn_generated_monotonic_ns = sr_generated_monotonic_ns operation,
             sn_last_update_id = rsp_last_update_id predicted,
             sn_synchronized = rsp_synchronized predicted,
             sn_bids = map (\<lambda>l. \<lparr>sl_price = rsl_price l, sl_quantity = rsl_quantity l\<rparr>) (rsp_bids predicted),
             sn_asks = map (\<lambda>l. \<lparr>sl_price = rsl_price l, sl_quantity = rsl_quantity l\<rparr>) (rsp_asks predicted),
             sn_quality_flags = canonical_quality (rsp_quality_flags predicted),
             sn_depth_limit = rsp_depth_limit predicted,
             sn_gap_descriptor = map_option canonical_ref_gap_descriptor (rsp_gap_descriptor predicted)\<rparr> r)"

fun reference_observe :: "reference_side side" where
  "reference_observe r (InstallBaselineOp _ last_id bids asks) =
     reference_observe_install r last_id bids asks False"
| "reference_observe r (DepthUpdateOp _ first_id final_id previous levels) =
     reference_depth_update r first_id final_id previous levels"
| "reference_observe r (RebaselineOp _ last_id bids asks) =
     reference_observe_install r last_id bids asks True"
| "reference_observe r (ResetOp _) =
     reference_observation ResetOutcome [] (r\<lparr>rsd_projection := rp_reset (rsd_projection r)\<rparr>)"
| "reference_observe r (SnapshotRequestOp _ operation) = reference_snapshot_request r operation"
| "reference_observe r (AdapterMetadataOp _ facts) =
     reference_observation MetadataOutcome []
       (if rsd_mode r = ReplayAdapterEnabled then r\<lparr>rsd_pending_metadata := facts\<rparr> else r)"
| "reference_observe r (MalformedRangeOp _ first_id final_id) =
     reference_observation (RangeOutcome (first_id > final_id)) [] r"

subsection \<open>The canonical forms correspond\<close>

lemma canonical_status_agrees [simp]: "canonical_ref_status (reference_status s) = canonical_status_of s"
  by (cases s) simp_all

lemma canonical_policy_agrees [simp]: "canonical_ref_policy (reference_policy s) = canonical_policy_of s"
  by (cases s) simp_all

lemma canonical_disposition_agrees [simp]:
  "canonical_ref_disposition (reference_disposition d) = canonical_apply_disposition d"
  by (cases d) simp_all

lemma canonical_reason_agrees [simp]:
  "canonical_ref_gap_reason (reference_gap_reason d) = canonical_gap_reason_of d"
  by (cases d) simp_all

lemma canonical_error_agrees [simp]: "canonical_error_of (production_code c) = canonical_ref_error c"
  by (cases c) simp_all

lemma canonical_gap_agrees [simp]: "canonical_ref_gap (reference_gap g) = canonical_gap_of g"
  by (simp add: canonical_ref_gap_def reference_gap_def canonical_gap_of_def)

lemma canonical_level_agrees [simp]: "canonical_level_of_raw (raw_of side l) = canonical_level_of l"
  by (simp add: canonical_level_of_raw_def canonical_level_of_def)

lemma canonical_result_agrees: "result_matches r s \<Longrightarrow> canonical_ref_result s = canonical_apply_of r"
  by (simp add: result_matches_def canonical_ref_result_def canonical_apply_of_def option.map_comp comp_def)

end
