(* ===== verification/Replay_Levels.thy ===== *)
theory Replay_Levels
  imports Replay_Reference
begin

text \<open>
  The production and the reference side read the same decimals: from corresponding numeric
  specifications they record the same evidence and the same first error, and the levels they keep
  are the same updates.
\<close>

subsection \<open>Scales\<close>

definition spec_matches :: "numeric_spec \<Rightarrow> replay_spec \<Rightarrow> bool" where
  "spec_matches spec rspec \<longleftrightarrow> rs_price_scale rspec = scale_digits (price_scale spec) \<and>
     rs_quantity_scale rspec = scale_digits (quantity_scale spec)"

lemma required_scale_ok:
  assumes "n \<le> 18"
  obtains s where "required_scale n = Some s" "scale_digits s = n"
proof -
  have n: "unat (of_nat n :: uint32) = n"
    using assms by (simp add: unat_of_nat take_bit_nat_eq_self)
  then obtain s where s: "required_scale n = Some s"
    using assms that by (auto simp: required_scale_def DecimalScale_create_def word_less_nat_alt)
  with n DecimalScale_create_Some[of "of_nat n" s] that show ?thesis by (simp add: required_scale_def)
qed

subsection \<open>One decimal\<close>

lemma production_error_sel [simp]:
  "dec_code (production_error e) = production_code (rde_code e)" "dec_offset (production_error e) = rde_offset e"
  by (simp_all add: production_error_def)

lemma parse_price_cases:
  assumes "length t \<le> SIZE_MAX"
  obtains (failure) e where "parse_price t s = Inl (production_error e)"
      "parse_reference_decimal t (scale_digits s) False = Inl e"
  | (parsed) p where "parse_price t s = Inr p" "parse_reference_decimal t (scale_digits s) False =
      Inr \<lparr>rdv_units = price_value (pd_value p), rdv_source_fraction_digits = pd_fraction_digits p\<rparr>"
  using reference_parse_outcomes(2)[OF assms, of s] that
  by (cases "parse_price t s"; cases "parse_reference_decimal t (scale_digits s) False")
    (auto simp: reference_outcome_def price_outcome_def)

lemma parse_quantity_cases:
  assumes "length t \<le> SIZE_MAX"
  obtains (failure) e where "parse_quantity t s = Inl (production_error e)"
      "parse_reference_decimal t (scale_digits s) True = Inl e"
  | (parsed) p where "parse_quantity t s = Inr p" "parse_reference_decimal t (scale_digits s) True =
      Inr \<lparr>rdv_units = quantity_value (pd_value p), rdv_source_fraction_digits = pd_fraction_digits p\<rparr>"
  using reference_parse_outcomes(1)[OF assms, of s] that
  by (cases "parse_quantity t s"; cases "parse_reference_decimal t (scale_digits s) True")
    (auto simp: reference_outcome_def quantity_outcome_def)

subsection \<open>One level\<close>

definition level_fits :: "level_input \<Rightarrow> bool" where
  "level_fits l \<longleftrightarrow> length (li_price l) \<le> SIZE_MAX \<and> length (li_quantity l) \<le> SIZE_MAX"

definition book_side_of :: "replay_side \<Rightarrow> book_side" where
  "book_side_of side = (if side = SideBid then Bid else Ask)"

lemma book_side_of_simps [simp]: "book_side_of SideBid = Bid" "book_side_of SideAsk = Ask"
  by (simp_all add: book_side_of_def)

lemma side_not_bid [simp]: "side \<noteq> SideBid \<longleftrightarrow> side = SideAsk"
  by (cases side) simp_all

text \<open>The level the production parser accepts, if any, as an update of its side.\<close>

definition parsed_level :: "numeric_spec \<Rightarrow> level_input \<Rightarrow> book_level option" where
  "parsed_level spec l =
     (case (parse_price (li_price l) (price_scale spec), parse_quantity (li_quantity l) (quantity_scale spec)) of
        (Inr p, Inr q) \<Rightarrow> Some (BookLevel (pd_value p) (pd_value q))
      | _ \<Rightarrow> None)"

definition parsed_update :: "numeric_spec \<Rightarrow> level_input \<Rightarrow> level_update option" where
  "parsed_update spec l =
     map_option (\<lambda>b. LevelUpdate (book_side_of (li_side l)) (lvl_price b) (lvl_quantity b)) (parsed_level spec l)"

lemma observe_production_level_levels:
  "plo_levels (observe_production_level spec i l ob) = plo_levels ob @ List.map_filter (parsed_level spec) [l]"
  by (simp add: observe_production_level_def parsed_level_def Let_def map_filter_simps push_decimal_def
      record_first_error_def split: sum.split)

lemma observe_production_level_error:
  "plo_first_error (observe_production_level spec i l ob) = None \<longleftrightarrow>
     plo_first_error ob = None \<and> parsed_level spec l \<noteq> None"
  by (auto simp: observe_production_level_def parsed_level_def Let_def push_decimal_def
      record_first_error_def split: sum.split)

definition evidence_agrees :: "production_level_observation \<Rightarrow> reference_level_observation \<Rightarrow> bool" where
  "evidence_agrees P R \<longleftrightarrow> plo_decimals P = rlo_decimals R \<and> plo_first_error P = rlo_first_error R"

lemma observe_level_agrees:
  assumes "spec_matches spec rspec" "level_fits l" "evidence_agrees P R"
  shows "evidence_agrees (observe_production_level spec i l P) (observe_reference_level rspec i l R)"
    and "rlo_levels (observe_reference_level rspec i l R) =
      rlo_levels R @ map raw_of_update (List.map_filter (parsed_update spec) [l])"
proof -
  have fits: "length (li_price l) \<le> SIZE_MAX" "length (li_quantity l) \<le> SIZE_MAX"
    using assms(2) by (simp_all add: level_fits_def)
  note defs = observe_production_level_def observe_reference_level_def Let_def push_decimal_def
    record_first_error_def reference_record_first_error_def reference_decimal_observation_def
    success_observation_def failure_observation_def evidence_agrees_def
  have "evidence_agrees (observe_production_level spec i l P) (observe_reference_level rspec i l R) \<and>
    rlo_levels (observe_reference_level rspec i l R) =
      rlo_levels R @ map raw_of_update (List.map_filter (parsed_update spec) [l])"
    using fits(1)
  proof (cases rule: parse_price_cases[where s = "price_scale spec"])
    case price: (failure e)
    show ?thesis
      using fits(2)
    proof (cases rule: parse_quantity_cases[where s = "quantity_scale spec"])
      case (failure e')
      with price assms show ?thesis
        by (cases "rlo_first_error R")
          (simp_all add: defs spec_matches_def parsed_update_def parsed_level_def map_filter_simps)
    next
      case (parsed q)
      with price assms show ?thesis
        by (cases "rlo_first_error R")
          (simp_all add: defs spec_matches_def parsed_update_def parsed_level_def map_filter_simps)
    qed
  next
    case price: (parsed p)
    show ?thesis
      using fits(2)
    proof (cases rule: parse_quantity_cases[where s = "quantity_scale spec"])
      case (failure e')
      with price assms show ?thesis
        by (cases "rlo_first_error R")
          (simp_all add: defs spec_matches_def parsed_update_def parsed_level_def map_filter_simps)
    next
      case (parsed q)
      with price assms show ?thesis
        by (cases "li_side l")
          (simp_all add: defs spec_matches_def parsed_update_def parsed_level_def map_filter_simps
            raw_of_update_def raw_of_def)
    qed
  qed
  then show "evidence_agrees (observe_production_level spec i l P) (observe_reference_level rspec i l R)"
    and "rlo_levels (observe_reference_level rspec i l R) =
      rlo_levels R @ map raw_of_update (List.map_filter (parsed_update spec) [l])" by simp_all
qed

subsection \<open>Lists of levels\<close>

definition updates_of :: "numeric_spec \<Rightarrow> level_input list \<Rightarrow> level_update list" where
  "updates_of spec ls = List.map_filter (parsed_update spec) ls"

lemma updates_of_simps [simp]:
  "updates_of spec [] = []"
  "updates_of spec (ls @ ls') = updates_of spec ls @ updates_of spec ls'"
  by (simp_all add: updates_of_def List.map_filter_def)

lemma updates_of_Cons:
  "updates_of spec (l # ls) = (case parsed_update spec l of None \<Rightarrow> [] | Some u \<Rightarrow> [u]) @ updates_of spec ls"
  by (simp add: updates_of_def map_filter_simps split: option.split)

lemma production_loop_levels:
  "plo_levels (production_levels_loop spec i ls ob) = plo_levels ob @ List.map_filter (parsed_level spec) ls"
  by (induction ls arbitrary: i ob) (simp_all add: observe_production_level_levels map_filter_simps split: option.split)

lemma production_loop_error:
  "plo_first_error (production_levels_loop spec i ls ob) = None \<longleftrightarrow>
     plo_first_error ob = None \<and> list_all (\<lambda>l. parsed_level spec l \<noteq> None) ls"
  by (induction ls arbitrary: i ob) (auto simp: observe_production_level_error)

lemma levels_loop_agrees:
  assumes "spec_matches spec rspec" "list_all level_fits ls" "evidence_agrees P R"
  shows "evidence_agrees (production_levels_loop spec i ls P) (reference_levels_loop rspec i ls R) \<and>
    rlo_levels (reference_levels_loop rspec i ls R) = rlo_levels R @ map raw_of_update (updates_of spec ls)"
  using assms
proof (induction ls arbitrary: i P R)
  case (Cons l ls)
  note step = observe_level_agrees[OF Cons.prems(1) _ Cons.prems(3), of l i]
  with Cons show ?case
    by (simp add: updates_of_def map_filter_simps split: option.split)
qed (simp add: updates_of_def)

text \<open>The two observations of a list of levels.\<close>

lemma observe_levels_agree:
  assumes "spec_matches spec rspec" "list_all level_fits ls"
  shows "rlo_decimals (observe_reference_levels ls rspec) = plo_decimals (observe_production_levels ls spec)"
    and "rlo_first_error (observe_reference_levels ls rspec) = plo_first_error (observe_production_levels ls spec)"
    and "rlo_levels (observe_reference_levels ls rspec) = map raw_of_update (updates_of spec ls)"
  using levels_loop_agrees[OF assms, of "\<lparr>plo_decimals = [], plo_levels = [], plo_first_error = None\<rparr>"
      "\<lparr>rlo_decimals = [], rlo_levels = [], rlo_first_error = None\<rparr>" 0]
  by (simp_all add: evidence_agrees_def observe_production_levels_def observe_reference_levels_def)

lemma production_levels_eq:
  "plo_levels (observe_production_levels ls spec) = List.map_filter (parsed_level spec) ls"
  "plo_first_error (observe_production_levels ls spec) = None \<longleftrightarrow> list_all (\<lambda>l. parsed_level spec l \<noteq> None) ls"
  by (simp_all add: observe_production_levels_def production_loop_levels production_loop_error)

lemma depth_level_updates_eq:
  assumes "list_all (\<lambda>l. parsed_level spec l \<noteq> None) ls"
  shows "depth_level_updates ls (List.map_filter (parsed_level spec) ls) = Some (updates_of spec ls)"
  using assms
  by (induction ls) (auto simp: updates_of_Cons parsed_update_def book_side_of_def map_filter_simps)

lemma side_levels_append: "side_levels side (us @ vs) = side_levels side us @ side_levels side vs"
  by (simp add: side_levels_def)

lemma side_levels_updates_of:
  assumes "list_all (\<lambda>l. li_side l = s) ls"
  shows "side_levels side (updates_of spec ls) =
    (if book_side_of s = side then List.map_filter (parsed_level spec) ls else [])"
  using assms
proof (induction ls)
  case (Cons l ls)
  have "side_levels side (case parsed_update spec l of None \<Rightarrow> [] | Some u \<Rightarrow> [u]) =
      (if book_side_of s = side then List.map_filter (parsed_level spec) [l] else [])"
    using Cons.prems
    by (cases "parsed_level spec l") (simp_all add: parsed_update_def side_levels_def map_filter_simps)
  with Cons show ?case by (simp add: updates_of_Cons side_levels_append map_filter_simps split: option.split)
qed (simp add: side_levels_def map_filter_simps)

end
