(* ===== verification/Replay_Core.thy ===== *)
theory Replay_Core
  imports Replay_Levels
begin

text \<open>
  The two sides of the core-only differential replay run in lockstep: from corresponding states every
  operation a decoded case or a replay log can hold gives the same observation on both sides and
  leaves them in corresponding states.
\<close>

subsection \<open>Corresponding states\<close>

text \<open>An operation of a decoded case.\<close>

definition admissible :: "replay_operation \<Rightarrow> bool" where
  "admissible op \<longleftrightarrow> operation_ok (sl_event_index (operation_source op)) op \<and>
     sl_event_index (operation_source op) \<le> kMaxOperations"

lemma level_ok_fits: "level_ok e l \<Longrightarrow> level_fits l"
  by (simp add: level_ok_def level_fits_def)

lemma levels_ok_fit: "list_all (level_ok e) ls \<Longrightarrow> list_all level_fits ls"
  by (erule list.pred_mono_strong) (rule level_ok_fits)

lemma levels_ok_side: "list_all (level_ok (Some s)) ls \<Longrightarrow> list_all (\<lambda>l. li_side l = s) ls"
  by (erule list.pred_mono_strong) (simp add: level_ok_def)

text \<open>
  What the core-only sides need of an operation: decimal texts that fit a string, the levels of a
  baseline on their side, and update ranges that are valid exactly where the event says so.
\<close>

fun core_runnable :: "replay_operation \<Rightarrow> bool" where
  "core_runnable (InstallBaselineOp _ _ bids asks) \<longleftrightarrow> list_all level_fits (bids @ asks) \<and>
     list_all (\<lambda>l. li_side l = SideBid) bids \<and> list_all (\<lambda>l. li_side l = SideAsk) asks"
| "core_runnable (RebaselineOp _ _ bids asks) \<longleftrightarrow> list_all level_fits (bids @ asks) \<and>
     list_all (\<lambda>l. li_side l = SideBid) bids \<and> list_all (\<lambda>l. li_side l = SideAsk) asks"
| "core_runnable (DepthUpdateOp _ first_id final_id _ levels) \<longleftrightarrow> first_id \<le> final_id \<and> list_all level_fits levels"
| "core_runnable (MalformedRangeOp _ first_id final_id) \<longleftrightarrow> first_id > final_id"
| "core_runnable _ \<longleftrightarrow> True"

lemma admissible_runnable: "admissible op \<Longrightarrow> core_runnable op"
  by (cases op) (auto simp: admissible_def intro: levels_ok_fit levels_ok_side)

text \<open>The state the two modes share: projections that track one another and corresponding scales.\<close>

definition projections_related :: "book_projection \<Rightarrow> reference_side \<Rightarrow> bool" where
  "projections_related p r \<longleftrightarrow> tracks p (rsd_projection r) \<and>
     spec_matches (bp_numeric_spec p) (rsd_projection_numeric_spec r)"

lemma checkpoint_agrees:
  assumes "projections_related p r"
  shows "reference_checkpoint r = production_checkpoint p"
proof -
  have sync: "rp_status (rsd_projection r) = RefSynchronized \<longleftrightarrow> synchronized_book p \<noteq> None"
    using assms by (cases "bp_status p") (simp_all add: projections_related_def tracks_def synchronized_book_def)
  with assms show ?thesis
    by (simp add: projections_related_def tracks_def reference_checkpoint_def production_checkpoint_def
        spec_matches_def diagnostic_book_def option.map_comp comp_def)
qed

lemma related_reset:
  "projections_related p r \<Longrightarrow>
   projections_related (BookProjection_reset p) (r\<lparr>rsd_projection := rp_reset (rsd_projection r)\<rparr>)"
  by (simp add: projections_related_def tracks_reset) (simp add: BookProjection_reset_def)

lemma install_result_matches:
  assumes "tracks p m"
    and "install_baseline p \<lparr>bb_last_update_id = i, bb_bids = side_levels Bid us, bb_asks = side_levels Ask us\<rparr> = (res, p')"
    and "rp_install m i (map raw_of_update us) = (s, m')"
  shows "canonical_ref_install s = canonical_install_of res"
  using assms
  by (auto simp: tracks_def install_baseline_def rp_install_def Let_def make_install_result_def
      canonical_ref_install_def canonical_install_of_def split: if_splits)

lemma install_numeric_spec: "install_baseline p b = (res, p') \<Longrightarrow> bp_numeric_spec p' = bp_numeric_spec p"
  by (auto simp: install_baseline_def Let_def split: if_splits)

lemma apply_numeric_spec: "apply_batch p b = Some (res, p') \<Longrightarrow> bp_numeric_spec p' = bp_numeric_spec p"
  by (auto simp: apply_batch_def apply_transaction_def record_gap_def Let_def
      split: if_splits option.splits sequence_decision.splits)

lemma install_step:
  assumes "projections_related p r" "list_all (\<lambda>l. li_side l = SideBid) bids" "list_all (\<lambda>l. li_side l = SideAsk) asks"
  obtains res p' s m' where
    "install_baseline p \<lparr>bb_last_update_id = i, bb_bids = List.map_filter (parsed_level spec) bids,
       bb_asks = List.map_filter (parsed_level spec) asks\<rparr> = (res, p')"
    "rp_install (rsd_projection r) i (map raw_of_update (updates_of spec bids) @ map raw_of_update (updates_of spec asks))
       = (s, m')"
    "canonical_ref_install s = canonical_install_of res"
    "projections_related p' (r\<lparr>rsd_projection := m'\<rparr>)" "bp_numeric_spec p' = bp_numeric_spec p"
proof -
  let ?us = "updates_of spec bids @ updates_of spec asks"
  have levels: "side_levels Bid ?us = List.map_filter (parsed_level spec) bids"
    "side_levels Ask ?us = List.map_filter (parsed_level spec) asks"
    using assms(2,3) by (simp_all add: side_levels_append side_levels_updates_of)
  obtain res p' where p': "install_baseline p \<lparr>bb_last_update_id = i, bb_bids = side_levels Bid ?us,
       bb_asks = side_levels Ask ?us\<rparr> = (res, p')" by fastforce
  obtain s m' where m': "rp_install (rsd_projection r) i (map raw_of_update ?us) = (s, m')" by fastforce
  have tracks: "tracks p (rsd_projection r)" using assms(1) by (simp add: projections_related_def)
  note facts = install_result_matches[OF tracks p' m'] tracks_install(1)[OF tracks p' m'] install_numeric_spec[OF p']
  show ?thesis
    by (rule that[of res p' s m'])
      (use p' m' facts levels assms(1) in \<open>simp_all add: projections_related_def\<close>)
qed

lemma apply_step:
  assumes "projections_related p r" "range_first rng \<le> range_final rng"
  obtains res p' s m' where
    "apply_batch p \<lparr>db_range = rng, db_previous_final = previous, db_levels = us\<rparr> = Some (res, p')"
    "rp_apply (rsd_projection r) (range_first rng) (range_final rng) previous (map raw_of_update us) = Some (s, m')"
    "canonical_ref_result s = canonical_apply_of res"
    "projections_related p' (r\<lparr>rsd_projection := m'\<rparr>)" "bp_numeric_spec p' = bp_numeric_spec p"
proof -
  let ?b = "\<lparr>db_range = rng, db_previous_final = previous, db_levels = us\<rparr>"
  have tracks: "tracks p (rsd_projection r)" using assms(1) by (simp add: projections_related_def)
  then have "projection_inv p" by (simp add: tracks_def)
  then obtain res p' where p': "apply_batch p ?b = Some (res, p')" by (rule apply_batch_total)
  obtain s m' where m': "rp_apply (rsd_projection r) (range_first rng) (range_final rng) previous
      (map raw_of_update us) = Some (s, m')" "result_matches res s" "tracks p' m'"
    using tracks_apply[OF tracks p'] by auto
  show ?thesis
    by (rule that[OF p' m'(1)])
      (use assms(1) m' apply_numeric_spec[OF p'] in \<open>simp_all add: projections_related_def canonical_result_agrees\<close>)
qed

lemma observations_agree:
  assumes "projections_related p r"
  shows "production_observation res ds p = Some (Some (core_observation res ds (production_checkpoint p)), p)"
    and "reference_observation res ds r = Some (Some (core_observation res ds (production_checkpoint p)), r)"
  using checkpoint_agrees[OF assms] by (simp_all add: production_observation_def reference_observation_def)

lemma core_observation_result [simp]: "oo_result (core_observation res ds c) = res"
  by (simp add: core_observation_def)

subsection \<open>The operations\<close>

text \<open>
  \<open>agree P R rel\<close>: two observations that both happen, are equal, are no failed range check, and whose
  states are related by \<open>rel\<close>.
\<close>

definition agree ::
  "(operation_observation option \<times> 'p) option \<Rightarrow> (operation_observation option \<times> 'r) option \<Rightarrow>
   ('p \<Rightarrow> 'r \<Rightarrow> bool) \<Rightarrow> bool" where
  "agree P R rel \<longleftrightarrow> (\<exists>ob p' r'. P = Some (Some ob, p') \<and> R = Some (Some ob, r') \<and>
     oo_result ob \<noteq> RangeOutcome False \<and> rel p' r')"

lemma agree_mono: "agree P R rel \<Longrightarrow> (\<And>p' r'. rel p' r' \<Longrightarrow> rel' p' r') \<Longrightarrow> agree P R rel'"
  unfolding agree_def by blast

lemma agree_observation:
  assumes "projections_related p r" "res \<noteq> RangeOutcome False" "rel p r"
  shows "agree (production_observation res ds p) (reference_observation res ds r) rel"
  using observations_agree[OF assms(1)] assms(2,3) by (simp add: agree_def)

text \<open>What an operation keeps of the reference side: all but the projection.\<close>

definition same_projection_frame :: "book_projection \<Rightarrow> reference_side \<Rightarrow> book_projection \<Rightarrow> reference_side \<Rightarrow> bool" where
  "same_projection_frame p r p' r' \<longleftrightarrow> projections_related p' r' \<and> bp_numeric_spec p' = bp_numeric_spec p \<and>
     r' = r\<lparr>rsd_projection := rsd_projection r'\<rparr>"

lemma install_agrees:
  assumes "projections_related p r" "spec_matches (bp_numeric_spec p) rspec"
    and "list_all level_fits (bids @ asks)" "list_all (\<lambda>l. li_side l = SideBid) bids" "list_all (\<lambda>l. li_side l = SideAsk) asks"
  shows "agree (production_install p i bids asks) (reference_install r rspec i bids asks)
    (same_projection_frame p r)"
proof -
  let ?spec = "bp_numeric_spec p"
  have "list_all level_fits bids" "list_all level_fits asks" using assms(3) by simp_all
  note bids = observe_levels_agree[OF assms(2) this(1)] and asks = observe_levels_agree[OF assms(2) this(2)]
  have failed: "agree (production_observation (DecimalErrorOutcome e) ds p)
      (reference_observation (DecimalErrorOutcome e) ds r) (same_projection_frame p r)" for e ds
    by (rule agree_observation[OF assms(1)]) (simp_all add: same_projection_frame_def assms(1))
  obtain res p' s m' where step:
    "install_baseline p \<lparr>bb_last_update_id = i, bb_bids = List.map_filter (parsed_level ?spec) bids,
       bb_asks = List.map_filter (parsed_level ?spec) asks\<rparr> = (res, p')"
    "rp_install (rsd_projection r) i (map raw_of_update (updates_of ?spec bids) @ map raw_of_update (updates_of ?spec asks))
       = (s, m')"
    "canonical_ref_install s = canonical_install_of res"
    "projections_related p' (r\<lparr>rsd_projection := m'\<rparr>)" "bp_numeric_spec p' = bp_numeric_spec p"
    using assms(1,4,5) by (rule install_step)
  have success: "agree (production_observation (InstallOutcome (canonical_install_of res)) ds p')
      (reference_observation (InstallOutcome (canonical_install_of res)) ds (r\<lparr>rsd_projection := m'\<rparr>))
      (same_projection_frame p r)" for ds
    by (rule agree_observation[OF step(4)]) (simp_all add: same_projection_frame_def step)
  show ?thesis
    unfolding production_install_def reference_install_def Let_def bids asks production_levels_eq
    using failed success step(1-3) by (simp split: option.split)
qed

lemma depth_update_agrees:
  assumes "projections_related p r" "spec_matches (bp_numeric_spec p) (rsd_conversion_numeric_spec r)"
    and "rsd_mode r = ReplayCoreOnly" "first_id \<le> final_id" "list_all level_fits levels"
  shows "agree (production_depth_update p first_id final_id previous levels)
    (reference_depth_update r first_id final_id previous levels) (same_projection_frame p r)"
proof -
  let ?spec = "bp_numeric_spec p"
  note levels = observe_levels_agree[OF assms(2,5)]
  have failed: "agree (production_observation (DecimalErrorOutcome e) ds p)
      (reference_observation (DecimalErrorOutcome e) ds r) (same_projection_frame p r)" for e ds
    by (rule agree_observation[OF assms(1)]) (simp_all add: same_projection_frame_def assms(1))
  obtain rng where rng: "UpdateRange_try_create first_id final_id = Some rng" "range_first rng = first_id"
    "range_final rng = final_id"
    by (rule that[of "UpdateRange first_id final_id"]) (use assms(4) in \<open>simp_all add: UpdateRange_try_create_def not_less\<close>)
  obtain res p' s m' where step:
    "apply_batch p \<lparr>db_range = rng, db_previous_final = previous, db_levels = updates_of ?spec levels\<rparr> = Some (res, p')"
    "rp_apply (rsd_projection r) (range_first rng) (range_final rng) previous (map raw_of_update (updates_of ?spec levels))
       = Some (s, m')"
    "canonical_ref_result s = canonical_apply_of res"
    "projections_related p' (r\<lparr>rsd_projection := m'\<rparr>)" "bp_numeric_spec p' = bp_numeric_spec p"
    using assms(1,4) rng apply_step by metis
  have success: "agree (production_observation (ApplyOutcome (canonical_apply_of res)) ds p')
      (reference_observation (ApplyOutcome (canonical_apply_of res)) ds (r\<lparr>rsd_projection := m'\<rparr>))
      (same_projection_frame p r)" for ds
    by (rule agree_observation[OF step(4)]) (simp_all add: same_projection_frame_def step)
  show ?thesis
  proof (cases "plo_first_error (observe_production_levels levels ?spec)")
    case None
    then have "depth_level_updates levels (plo_levels (observe_production_levels levels ?spec)) =
        Some (updates_of ?spec levels)"
      by (simp add: production_levels_eq depth_level_updates_eq)
    with None assms(3) leD[OF assms(4)] step(1-3) rng success show ?thesis
      by (simp add: production_depth_update_def reference_depth_update_def Let_def levels)
  next
    case (Some e)
    with failed assms(3) show ?thesis
      by (simp add: production_depth_update_def reference_depth_update_def Let_def levels)
  qed
qed

subsection \<open>Lockstep\<close>

definition core_related :: "book_projection \<Rightarrow> reference_side \<Rightarrow> bool" where
  "core_related p r \<longleftrightarrow> projections_related p r \<and> rsd_mode r = ReplayCoreOnly \<and>
     rsd_conversion_numeric_spec r = rsd_projection_numeric_spec r"

lemma core_related_frame: "core_related p r \<Longrightarrow> same_projection_frame p r p' r' \<Longrightarrow> core_related p' r'"
  unfolding core_related_def same_projection_frame_def
  by (metis reference_side.select_convs reference_side.surjective reference_side.update_convs(1))

lemma core_step:
  assumes "core_related p r" "core_runnable op"
  shows "agree (core_production_observe p op) (reference_observe r op) core_related"
proof -
  have rel: "projections_related p r" and mode: "rsd_mode r = ReplayCoreOnly"
    and spec: "rsd_conversion_numeric_spec r = rsd_projection_numeric_spec r"
    "spec_matches (bp_numeric_spec p) (rsd_projection_numeric_spec r)"
    using assms(1) by (simp_all add: core_related_def projections_related_def)
  note frame = agree_mono[OF _ core_related_frame[OF assms(1)]]
  note here = agree_observation[where rel = core_related, OF rel _ assms(1)]
  show ?thesis
  proof (cases op)
    case (InstallBaselineOp src i bids asks)
    with assms(2) rel mode spec show ?thesis
      by (auto simp: reference_observe_install_def intro!: frame install_agrees)
  next
    case (RebaselineOp src i bids asks)
    with assms(2) rel mode spec show ?thesis
      by (auto simp: reference_observe_install_def intro!: frame install_agrees)
  next
    case (DepthUpdateOp src first_id final_id previous levels)
    with assms(2) rel mode spec show ?thesis
      by (auto intro!: frame depth_update_agrees)
  next
    case (ResetOp src)
    have "core_related (BookProjection_reset p) (r\<lparr>rsd_projection := rp_reset (rsd_projection r)\<rparr>)"
      using assms(1) by (simp add: core_related_def related_reset)
    with ResetOp show ?thesis
      by (simp add: agree_observation core_related_def)
  next
    case (SnapshotRequestOp src request)
    with here mode show ?thesis by (simp add: reference_snapshot_request_def)
  next
    case (AdapterMetadataOp src facts)
    with here mode show ?thesis by simp
  next
    case (MalformedRangeOp src first_id final_id)
    with here assms(2) show ?thesis by (simp add: UpdateRange_try_create_def)
  qed
qed

interpretation core_replay: lockstep_sides core_production_observe reference_observe core_related core_runnable
  using core_step by unfold_locales (simp add: agree_def)

text \<open>The sides the replay starts from.\<close>

lemma core_sides_start:
  assumes "spec_ok (fi_numeric_spec (rf_identity fixture))"
  obtains p where "make_core_production_side fixture = Some p"
    "core_related p (make_reference_side ReplayCoreOnly (default_adapter_scenario fixture))"
proof -
  obtain ps where ps: "required_scale (rs_price_scale (fi_numeric_spec (rf_identity fixture))) = Some ps"
    "scale_digits ps = rs_price_scale (fi_numeric_spec (rf_identity fixture))"
    using assms by (auto simp: spec_ok_def elim: required_scale_ok)
  obtain qs where qs: "required_scale (rs_quantity_scale (fi_numeric_spec (rf_identity fixture))) = Some qs"
    "scale_digits qs = rs_quantity_scale (fi_numeric_spec (rf_identity fixture))"
    using assms by (auto simp: spec_ok_def elim: required_scale_ok)
  let ?p = "BookProjection_create \<lparr>price_scale = ps, quantity_scale = qs\<rparr>
    (if fi_sequence_policy (rf_identity fixture) = PolicySpot then Spot else UsdMPerpetual)"
  show ?thesis
  proof (rule that[of ?p])
    show "make_core_production_side fixture = Some ?p"
      using ps qs by (simp add: make_core_production_side_def)
    show "core_related ?p (make_reference_side ReplayCoreOnly (default_adapter_scenario fixture))"
      using ps qs tracks_create[of "\<lparr>price_scale = ps, quantity_scale = qs\<rparr>" Spot]
        tracks_create[of "\<lparr>price_scale = ps, quantity_scale = qs\<rparr>" UsdMPerpetual]
      by (simp add: core_related_def projections_related_def make_reference_side_def default_adapter_scenario_def
          Let_def spec_matches_def BookProjection_create_def)
  qed
qed

end
