(* ===== verification/Replay_Inbound.thy ===== *)
theory Replay_Inbound
  imports Replay_Adapter Replay_Core
begin

text \<open>
  What the reference adapter predicts of an inbound message is what the protobuf adapter does with
  it: the same error in canonical form, or the same levels and the same observed quality.
\<close>

subsection \<open>Predictions\<close>

text \<open>
  \<open>predicts res pred P\<close>: the adapter fails with the predicted error, or succeeds where no error is
  predicted, with a value that satisfies \<open>P\<close>.
\<close>

definition predicts :: "'a adapter_result \<Rightarrow> ref_adapter_error option \<Rightarrow> ('a \<Rightarrow> bool) \<Rightarrow> bool" where
  "predicts res pred P \<longleftrightarrow>
     (case res of
        Inl e \<Rightarrow> \<exists>f. pred = Some f \<and> canonical_adapter_error e = canonical_ref_adapter_error f
      | Inr x \<Rightarrow> pred = None \<and> P x)"

lemma predicts_Inl [simp]:
  "predicts (Inl e) pred P \<longleftrightarrow> (\<exists>f. pred = Some f \<and> canonical_adapter_error e = canonical_ref_adapter_error f)"
  by (simp add: predicts_def)

lemma predicts_Inr [simp]: "predicts (Inr x) pred P \<longleftrightarrow> pred = None \<and> P x"
  by (simp add: predicts_def)

lemma predicts_mono: "predicts r pred P \<Longrightarrow> (\<And>x. P x \<Longrightarrow> Q x) \<Longrightarrow> predicts r pred Q"
  by (cases r) auto

lemma predicts_bind:
  assumes "predicts r pred P" and "\<And>x. P x \<Longrightarrow> predicts (f x) pred' Q"
  shows "predicts (bind_result r f) (case pred of Some e \<Rightarrow> Some e | None \<Rightarrow> pred') Q"
  using assms by (cases r) auto

lemma error_agrees [simp]:
  "canonical_adapter_error (adapter_error code field) = canonical_ref_adapter_error (ref_error rcode rfield) \<longleftrightarrow>
     canonical_code code = canonical_ref_code rcode \<and> canonical_field field = canonical_ref_field rfield"
  by (simp add: canonical_adapter_error_def canonical_ref_adapter_error_def adapter_error_def ref_error_def)

lemma enum_error_agrees [simp]:
  "canonical_adapter_error (enum_error code field n) = canonical_ref_adapter_error (ref_error rcode rfield) \<longleftrightarrow>
     canonical_code code = canonical_ref_code rcode \<and> canonical_field field = canonical_ref_field rfield"
  by (simp add: canonical_adapter_error_def canonical_ref_adapter_error_def enum_error_def ref_error_def)

lemma decimal_error_agrees [simp]:
  "canonical_adapter_error (adapter_decimal_error code field (production_error e)) =
     canonical_ref_adapter_error (ref_decimal_error rcode rfield (rde_code e)) \<longleftrightarrow>
     canonical_code code = canonical_ref_code rcode \<and> canonical_field field = canonical_ref_field rfield"
  by (simp add: canonical_adapter_error_def canonical_ref_adapter_error_def adapter_decimal_error_def
      ref_decimal_error_def)

subsection \<open>Levels\<close>

lemma wire_level_sel [simp]: "pl_price (wire_level l) = li_price l" "pl_quantity (wire_level l) = li_quantity l"
  by (simp_all add: wire_level_def)

lemma production_code_cases [simp]:
  "production_code c = ZeroNotAllowed \<longleftrightarrow> c = RefZeroNotAllowed"
  "production_code c = InexactScale \<longleftrightarrow> c = RefInexactScale"
  "production_code c = Overflow \<longleftrightarrow> c = RefOverflow"
  by (cases c; simp)+

lemma adapt_level_predicted:
  assumes "spec_matches spec rspec" "level_fits l" "bids = (li_side l = SideBid)"
  shows "predicts (adapt_book_level (wire_level l) spec (side_fields bids)) (ref_adapt_level l rspec)
    (\<lambda>b. parsed_level spec l = Some b \<and>
       (\<exists>v. parse_reference_decimal (li_price l) (rs_price_scale rspec) False = Inr v \<and>
          rdv_units v = price_value (lvl_price b)))"
proof -
  have fits: "length (li_price l) \<le> SIZE_MAX" "length (li_quantity l) \<le> SIZE_MAX"
    using assms(2) by (simp_all add: level_fits_def)
  note defs = adapt_book_level_def ref_adapt_level_def ref_adapt_price_def ref_adapt_quantity_def Let_def
    spec_matches_def side_fields_def parsed_level_def
  show ?thesis
    using fits(1)
  proof (cases rule: parse_price_cases[where s = "price_scale spec"])
    case (failure e)
    with assms show ?thesis by (simp add: defs)
  next
    case price: (parsed p)
    show ?thesis
      using fits(2)
    proof (cases rule: parse_quantity_cases[where s = "quantity_scale spec"])
      case (failure e)
      with price assms show ?thesis by (simp add: defs)
    next
      case (parsed q)
      with price assms show ?thesis by (simp add: defs)
    qed
  qed
qed

lemma map_filter_Cons_Some: "f x = Some y \<Longrightarrow> List.map_filter f (x # xs) = y # List.map_filter f xs"
  by (simp add: map_filter_simps)

lemma baseline_side_predicted:
  assumes "spec_matches spec rspec" "list_all level_fits ls" "list_all (\<lambda>l. li_side l = s) ls"
    and "bids = (s = SideBid)" "previous = (if acc = [] then None else Some (price_value (lvl_price (last acc))))"
  shows "\<exists>pred. ref_baseline_side rspec bids previous ls = Some pred \<and>
    predicts (adapt_baseline_loop spec bids (map wire_level ls) acc) pred
      (\<lambda>bs. bs = acc @ List.map_filter (parsed_level spec) ls)"
  using assms
proof (induction ls arbitrary: acc previous)
  case Nil
  then show ?case by (simp add: map_filter_simps)
next
  case (Cons l ls)
  have level: "predicts (adapt_book_level (wire_level l) spec (side_fields bids)) (ref_adapt_level l rspec)
    (\<lambda>b. parsed_level spec l = Some b \<and>
       (\<exists>v. parse_reference_decimal (li_price l) (rs_price_scale rspec) False = Inr v \<and>
          rdv_units v = price_value (lvl_price b)))"
    using Cons.prems by (intro adapt_level_predicted) simp_all
  show ?case
  proof (cases "adapt_book_level (wire_level l) spec (side_fields bids)")
    case (Inl e)
    with level show ?thesis by auto
  next
    case (Inr b)
    with level obtain v where b: "parsed_level spec l = Some b" "ref_adapt_level l rspec = None"
      "parse_reference_decimal (li_price l) (rs_price_scale rspec) False = Inr v"
      "rdv_units v = price_value (lvl_price b)" by auto
    have IH: "\<exists>pred. ref_baseline_side rspec bids (Some (price_value (lvl_price b))) ls = Some pred \<and>
      predicts (adapt_baseline_loop spec bids (map wire_level ls) (acc @ [b])) pred
        (\<lambda>bs. bs = (acc @ [b]) @ List.map_filter (parsed_level spec) ls)"
      by (rule Cons.IH) (use Cons.prems in simp_all)
    have order: "(case previous of None \<Rightarrow> False
          | Some previous \<Rightarrow> if bids then rdv_units v \<ge> previous else rdv_units v \<le> previous) \<longleftrightarrow>
        acc \<noteq> [] \<and> \<not> (if bids then lvl_price b < lvl_price (last acc) else lvl_price b > lvl_price (last acc))"
      using Cons.prems(5) b(4) by (auto simp: price_less_iff)
    let ?bad = "acc \<noteq> [] \<and> \<not> (if bids then lvl_price b < lvl_price (last acc) else lvl_price b > lvl_price (last acc))"
    have ref: "ref_baseline_side rspec bids previous (l # ls) =
        (if ?bad then Some (Some (ref_error RcInvalidOrdering (if bids then RfBidPrice else RfAskPrice)))
         else ref_baseline_side rspec bids (Some (price_value (lvl_price b))) ls)"
      unfolding ref_baseline_side.simps b(2,3) option.case sum.case Let_def order unfolding b(4) ..
    have prod: "adapt_baseline_loop spec bids (map wire_level (l # ls)) acc =
        (if ?bad then Inl (adapter_error InvalidOrdering (if bids then BidPriceField else AskPriceField))
         else adapt_baseline_loop spec bids (map wire_level ls) (acc @ [b]))"
      unfolding list.map adapt_baseline_loop.simps Inr by simp
    show ?thesis
    proof (cases ?bad)
      case True
      then show ?thesis unfolding ref prod if_P[OF True] by simp
    next
      case False
      with IH b(1) show ?thesis unfolding ref prod if_not_P[OF False] by (simp add: map_filter_Cons_Some)
    qed
  qed
qed

lemma update_side_predicted:
  assumes "spec_matches spec rspec" "list_all level_fits ls"
  shows "predicts (adapt_updates_loop spec (book_side_of s) (map wire_level (filter (\<lambda>l. li_side l = s) ls)) acc)
    (ref_update_side rspec s ls) (\<lambda>us. us = acc @ updates_of spec (filter (\<lambda>l. li_side l = s) ls))"
  using assms
proof (induction ls arbitrary: acc)
  case (Cons l ls)
  show ?case
  proof (cases "li_side l = s")
    case True
    have bid: "(book_side_of s = Bid) = (li_side l = SideBid)" using True by (cases s) simp_all
    have level: "level_fits l" using Cons.prems by simp
    have rest: "predicts (adapt_updates_loop spec (book_side_of s) (map wire_level (filter (\<lambda>l. li_side l = s) ls))
          (acc @ [LevelUpdate (book_side_of s) (lvl_price b) (lvl_quantity b)]))
        (ref_update_side rspec s ls) (\<lambda>us. us = acc @ updates_of spec (l # filter (\<lambda>l. li_side l = s) ls))"
      if "parsed_level spec l = Some b" for b
      using Cons.IH[of "acc @ [LevelUpdate (book_side_of s) (lvl_price b) (lvl_quantity b)]"] that True Cons.prems
      by (simp add: updates_of_Cons parsed_update_def)
    show ?thesis
      unfolding filter.simps list.map adapt_updates_loop.simps ref_update_side.simps if_P[OF True]
      by (rule predicts_bind[OF adapt_level_predicted[OF Cons.prems(1) level bid]]) (rule rest, simp)
  next
    case False
    with Cons show ?thesis by simp
  qed
qed simp

subsection \<open>Identity, binding and text\<close>

text \<open>
  The Contracts do not use the number the harness takes for an unknown enumerator.
\<close>

definition unknown_enum_free :: "contracts \<Rightarrow> bool" where
  "unknown_enum_free C \<longleftrightarrow> kRawUnknownEnumNumericValue \<notin> range (venue_number C) \<and>
     kRawUnknownEnumNumericValue \<notin> range (market_number C)"

lemma unknown_enum_free_neq:
  assumes "unknown_enum_free C"
  shows "kRawUnknownEnumNumericValue \<noteq> venue_number C v" "kRawUnknownEnumNumericValue \<noteq> market_number C m"
  using assms by (auto simp: unknown_enum_free_def)

lemma policies_agree [simp]:
  "core_policy a = core_policy b \<longleftrightarrow> reference_adapter_policy a = reference_adapter_policy b"
  "core_policy a = core_policy b \<longleftrightarrow> a = b"
  by (cases a; cases b; simp add: core_policy_def)+

lemma identity_predicted:
  assumes "contracts_ok C" "unknown_enum_free C"
  shows "predicts
    (validate_wire_identity C (wire_venue C (as_wire_venue sc)) (wire_market C (as_wire_market sc)) (as_wire_symbol sc)
      (scenario_identity sc))
    (validate_inbound_identity (reference_dimensions sc))
    (\<lambda>policy. policy = core_policy (as_expected_policy sc) \<and>
       policy_for_market (reference_market (as_wire_market sc)) = reference_adapter_policy (as_expected_policy sc))"
  using unknown_enum_free_neq[OF assms(2)]
  by (cases "as_wire_venue sc"; cases "as_wire_market sc"; cases "as_expected_policy sc")
    (auto simp: validate_wire_identity_def validate_venue_def map_market_def validate_expected_identity_def
      contracts_ok_eq[OF assms(1)] validate_inbound_identity_def reference_dimensions_def scenario_identity_def
      core_policy_def)

lemma binding_predicted:
  assumes "spec_matches spec (as_conversion_numeric_spec sc)"
    and "spec_matches (bp_numeric_spec p) (as_projection_numeric_spec sc)"
    and "bp_policy p = core_policy (as_projection_policy sc)"
    and "policy = core_policy (as_expected_policy sc)"
    and "policy_for_market (reference_market (as_wire_market sc)) = reference_adapter_policy (as_expected_policy sc)"
  shows "predicts (case validate_binding spec policy p of Some e \<Rightarrow> Inl e | None \<Rightarrow> Inr ())
    (ref_validate_binding (reference_dimensions sc)) (\<lambda>_. spec = bp_numeric_spec p)"
  using assms
  by (auto simp: validate_binding_def ref_validate_binding_def reference_dimensions_def spec_matches_def
      scale_eq_iff)

lemma digits_identifier:
  assumes "list_all is_identifier_tail t" "t \<noteq> []" "is_ascii_alphanumeric (hd t)" "length t + length (to_chars_nat n) \<le> 128"
  shows "is_identifier (t @ to_chars_nat n)"
proof -
  have "list_all is_identifier_tail (to_chars_nat n)"
    using to_chars_nat_digits[of n]
    by (auto simp: list_all_iff is_identifier_tail_def is_ascii_alphanumeric_def is_ascii_digit_def)
  with assms show ?thesis by (cases t) (auto simp: is_identifier_def)
qed

lemma replay_text_accepted:
  assumes "n \<le> kMaxOperations"
  shows "validate_required_text kReplayProducer kReplayProducerVersion (''replay-baseline-'' @ to_chars_nat n) field = None"
    and "validate_required_text kReplayProducer kReplayProducerVersion (''replay-connection-'' @ to_chars_nat n) field = None"
proof -
  have len: "length (to_chars_nat n) \<le> 2"
    using assms by (intro length_to_chars_nat_le) simp_all
  have "is_identifier (''replay-baseline-'' @ to_chars_nat n)" "is_identifier (''replay-connection-'' @ to_chars_nat n)"
    using len by (intro digits_identifier; simp add: is_identifier_tail_def is_ascii_alphanumeric_def)+
  then show "validate_required_text kReplayProducer kReplayProducerVersion (''replay-baseline-'' @ to_chars_nat n) field = None"
    "validate_required_text kReplayProducer kReplayProducerVersion (''replay-connection-'' @ to_chars_nat n) field = None"
    by (simp_all add: validate_required_text_None_iff text_acceptable_def kReplayProducer_def
        kReplayProducerVersion_def is_non_empty_text_def is_ascii_whitespace_def)
qed

subsection \<open>Quality\<close>

lemma strictly_ranked_unique:
  fixes key :: "'a \<Rightarrow> nat"
  assumes "sorted_wrt (\<lambda>a b. key a < key b) xs" "sorted_wrt (\<lambda>a b. key a < key b) ys" "set xs = set ys"
  shows "xs = ys"
  using assms
proof (induction xs arbitrary: ys)
  case (Cons x xs)
  then obtain y ys' where ys: "ys = y # ys'" by (cases ys) auto
  have "x = y"
  proof (rule ccontr)
    assume "x \<noteq> y"
    then have "x \<in> set ys'" "y \<in> set xs" using Cons.prems(3) unfolding ys by auto
    then show False using Cons.prems(1,2) unfolding ys by (auto dest: less_asym)
  qed
  moreover from this have "set xs = set ys'" using Cons.prems unfolding ys by auto
  ultimately show ?case using Cons ys by simp
qed simp

lemma inj_ref_quality_rank: "inj ref_quality_rank"
proof (rule injI)
  fix f g
  assume "ref_quality_rank f = ref_quality_rank g"
  then show "f = g" by (cases f; cases g) simp_all
qed

lemma deduplicate_and_rank_props:
  "sorted_wrt (\<lambda>a b. ref_quality_rank a < ref_quality_rank b) (deduplicate_and_rank flags)"
  "set (deduplicate_and_rank flags) = set flags"
  unfolding deduplicate_and_rank_def
  by (rule remdups_adj_strict[OF inj_ref_quality_rank]) simp_all

text \<open>The reference flag of a host fact of the adapter.\<close>

fun ref_flag_of_fact :: "host_quality_fact \<Rightarrow> ref_quality_flag" where
  "ref_flag_of_fact HqDuplicate = RqDuplicate"
| "ref_flag_of_fact HqOutOfOrder = RqOutOfOrder"
| "ref_flag_of_fact HqOrderBookResync = RqOrderBookResync"
| "ref_flag_of_fact HqSnapshotTooOld = RqSnapshotTooOld"
| "ref_flag_of_fact HqBootstrapBufferOverflow = RqBootstrapBufferOverflow"
| "ref_flag_of_fact HqRecoveredTail = RqRecoveredTail"
| "ref_flag_of_fact HqMalformedPayload = RqMalformedPayload"
| "ref_flag_of_fact HqExchangeTimeMissing = RqExchangeTimeMissing"
| "ref_flag_of_fact HqReceiveClockDiscontinuity = RqReceiveClockDiscontinuity"
| "ref_flag_of_fact HqSlowConsumerGap = RqSlowConsumerGap"
| "ref_flag_of_fact HqProducerRestart = RqProducerRestart"
| "ref_flag_of_fact HqOverlap = RqOverlap"
| "ref_flag_of_fact HqIdentityConflict = RqIdentityConflict"

lemma fact_mappings_agree [simp]:
  "ref_flag_of_fact (host_fact f) = map_inbound_fact f" "flag_of_fact (host_fact f) = wire_quality f"
  "canonical_ref_flag (ref_flag_of_fact h) = canonical_host_fact h"
  by (cases f; simp; fail)+ (cases h; simp)

lemma inj_flag_of_fact: "flag_of_fact a = flag_of_fact b \<longleftrightarrow> a = b"
  by (cases a; cases b) simp_all

lemma quality_predicted:
  assumes "contracts_ok C"
  obtains m where "adapt_quality C (map (\<lambda>f. quality_number C (wire_quality f)) facts) = Inr m"
    "canonical_observed m = canonical_quality (map_observed_quality facts)"
proof -
  let ?flags = "map (\<lambda>f. quality_number C (wire_quality f)) facts"
  let ?stated = "filter (\<lambda>h. h \<in> host_fact ` set facts) host_quality_facts"
  have "wire_quality f \<noteq> QUALITY_FLAG_UNSPECIFIED" for f by (cases f) simp_all
  then have accepted: "list_all (flag_accepted C) ?flags"
    by (simp add: list_all_iff flag_accepted_def contracts_ok_eq[OF assms])
  have "facts_stated C ?flags = ?stated"
    unfolding facts_stated_def
    by (intro filter_cong refl)
      (auto simp: contracts_ok_eq[OF assms] fact_mappings_agree(2)[symmetric] inj_flag_of_fact simp del: fact_mappings_agree(2))
  then have m: "adapt_quality C ?flags = Inr \<lparr>observed_quality = ?stated\<rparr>"
    using accepted by (simp add: adapt_quality_Inr_iff[OF assms])
  have "sorted_wrt (\<lambda>a b. ref_quality_rank (ref_flag_of_fact a) < ref_quality_rank (ref_flag_of_fact b)) host_quality_facts"
    by (simp add: host_quality_facts_def)
  then have "sorted_wrt (\<lambda>a b. ref_quality_rank a < ref_quality_rank b) (map ref_flag_of_fact ?stated)"
    by (simp add: sorted_wrt_map sorted_wrt_filter)
  moreover have "set (map ref_flag_of_fact ?stated) = set (map map_inbound_fact facts)"
    by (auto simp: host_facts_complete image_image)
  ultimately have "map_observed_quality facts = map ref_flag_of_fact ?stated"
    unfolding map_observed_quality_def
    by (intro strictly_ranked_unique[of ref_quality_rank]) (simp_all add: deduplicate_and_rank_props)
  then have "canonical_observed \<lparr>observed_quality = ?stated\<rparr> = canonical_quality (map_observed_quality facts)"
    by (simp add: canonical_observed_def canonical_quality_def)
  with m that show ?thesis by blast
qed

subsection \<open>Order of updates\<close>

text \<open>
  A wire update lists bids and asks apart, where the replay log interleaves them.  Only the order of
  the updates of one level matters, so the batch is the same.
\<close>

lemma apply_updates_cong:
  assumes "book_wf b" "\<And>side q. updates_at side q us = updates_at side q vs"
  shows "OrderBook_apply_updates b us = OrderBook_apply_updates b vs"
proof (rule order_book_eqI)
  note us = ob.apply_updates[OF assms(1), of us] and vs = ob.apply_updates[OF assms(1), of vs]
  show "book_wf (OrderBook_apply_updates b us)" "book_wf (OrderBook_apply_updates b vs)"
    "ob_spec (OrderBook_apply_updates b us) = ob_spec (OrderBook_apply_updates b vs)"
    using us vs by simp_all
  have "spec_updates us (book_abs b) = spec_updates vs (book_abs b)"
    using assms(2) by (intro spec_updates_permute) simp_all
  then show "book_abs (OrderBook_apply_updates b us) = book_abs (OrderBook_apply_updates b vs)"
    using us vs by simp
qed

lemma apply_batch_levels_cong:
  assumes "projection_inv p" "\<And>side q. updates_at side q us = updates_at side q vs"
  shows "apply_batch p \<lparr>db_range = rng, db_previous_final = previous, db_levels = us\<rparr> =
    apply_batch p \<lparr>db_range = rng, db_previous_final = previous, db_levels = vs\<rparr>"
proof -
  have tx: "apply_transaction p ws = p\<lparr>bp_book := OrderBook_apply_updates (bp_book p) ws\<rparr>" for ws
    using assms(1) by (intro apply_transaction_eq) (simp_all add: projection_inv_def)
  have "OrderBook_apply_updates (bp_book p) us = OrderBook_apply_updates (bp_book p) vs"
    using assms by (intro apply_updates_cong) (simp_all add: projection_inv_def)
  then show ?thesis unfolding apply_batch_def classify_def record_gap_def depth_batch.select_convs tx by (simp only:)
qed

lemma updates_at_filtered:
  "updates_at side q (updates_of spec (filter (\<lambda>l. li_side l = s) ls)) =
     (if book_side_of s = side then updates_at side q (updates_of spec ls) else [])"
proof (induction ls)
  case (Cons l ls)
  have "book_side_of (li_side l) = book_side_of s \<longleftrightarrow> li_side l = s"
    by (cases "li_side l"; cases s) simp_all
  with Cons show ?case
    by (cases "parsed_level spec l") (auto simp: updates_of_Cons parsed_update_def updates_at_def)
qed (simp add: updates_at_def)

lemma updates_at_split:
  "updates_at side q (updates_of spec (filter (\<lambda>l. li_side l = SideBid) ls) @
      updates_of spec (filter (\<lambda>l. li_side l = SideAsk) ls)) = updates_at side q (updates_of spec ls)"
  by (cases side) (simp_all add: updates_at_append updates_at_filtered)

subsection \<open>Messages\<close>

lemma required_spec:
  assumes "spec_ok rspec"
  obtains spec where "core_numeric_spec rspec = Some spec" "spec_matches spec rspec"
proof -
  obtain ps where ps: "required_scale (rs_price_scale rspec) = Some ps" "scale_digits ps = rs_price_scale rspec"
    using assms by (auto simp: spec_ok_def elim: required_scale_ok)
  obtain qs where qs: "required_scale (rs_quantity_scale rspec) = Some qs" "scale_digits qs = rs_quantity_scale rspec"
    using assms by (auto simp: spec_ok_def elim: required_scale_ok)
  from ps qs show ?thesis
    by (intro that[of "\<lparr>price_scale = ps, quantity_scale = qs\<rparr>"]) (simp_all add: core_numeric_spec_def spec_matches_def)
qed

text \<open>
  The assumptions under which a message is adapted: the Contracts, the scales of the conversion and of
  the projection, and the policy of the projection.
\<close>

definition message_setting :: "contracts \<Rightarrow> adapter_side \<Rightarrow> numeric_spec \<Rightarrow> bool" where
  "message_setting C s spec \<longleftrightarrow> contracts_ok C \<and> unknown_enum_free C \<and>
     spec_matches spec (as_conversion_numeric_spec (apd_scenario s)) \<and>
     spec_matches (bp_numeric_spec (apd_projection s)) (as_projection_numeric_spec (apd_scenario s)) \<and>
     bp_policy (apd_projection s) = core_policy (as_projection_policy (apd_scenario s))"

text \<open>What the reference adapter predicts of a message whose contents meet the error \<open>inbound\<close>, if any.\<close>

definition inbound_prediction :: "adapter_side \<Rightarrow> ref_adapter_error option \<Rightarrow> ref_adapter_error + ref_quality_flag list" where
  "inbound_prediction s inbound =
     (case inbound of Some e \<Rightarrow> Inl e | None \<Rightarrow>
        (case ref_validate_binding (reference_dimensions (apd_scenario s)) of Some e \<Rightarrow> Inl e
         | None \<Rightarrow> Inr (map_observed_quality (apd_pending_metadata s))))"

definition market_expected :: "adapter_scenario \<Rightarrow> bool" where
  "market_expected sc \<longleftrightarrow>
     policy_for_market (reference_market (as_wire_market sc)) = reference_adapter_policy (as_expected_policy sc)"

text \<open>
  A message meets one of three fates, and the prediction says which: the adapter rejects it, it is
  bound to another projection, or it reaches the projection.
\<close>

lemma message_fates:
  assumes "message_setting C s spec"
    and "predicts res inbound (\<lambda>owner. owner = made \<and> market_expected (apd_scenario s))"
    and "prediction = inbound_prediction s inbound"
  obtains (rejected) e f where "res = Inl e" "prediction = Inl f"
      "canonical_adapter_error e = canonical_ref_adapter_error f"
  | (unbound) e f where "res = Inr made" "prediction = Inl f"
      "validate_binding spec (core_policy (as_expected_policy (apd_scenario s))) (apd_projection s) = Some e"
      "canonical_adapter_error e = canonical_ref_adapter_error f"
  | (accepted) "res = Inr made" "prediction = Inr (map_observed_quality (apd_pending_metadata s))"
      "validate_binding spec (core_policy (as_expected_policy (apd_scenario s))) (apd_projection s) = None"
      "spec = bp_numeric_spec (apd_projection s)"
proof (cases res)
  case (Inl e)
  with assms(2,3) that(1) show ?thesis by (auto simp: inbound_prediction_def)
next
  case (Inr owner)
  with assms(2) have owner: "res = Inr made" "inbound = None" "market_expected (apd_scenario s)" by auto
  have binding: "predicts
      (case validate_binding spec (core_policy (as_expected_policy (apd_scenario s))) (apd_projection s) of
         Some e \<Rightarrow> Inl e | None \<Rightarrow> Inr ())
      (ref_validate_binding (reference_dimensions (apd_scenario s))) (\<lambda>_. spec = bp_numeric_spec (apd_projection s))"
    using assms(1) owner(3) by (intro binding_predicted) (simp_all add: message_setting_def market_expected_def)
  show ?thesis
  proof (cases "validate_binding spec (core_policy (as_expected_policy (apd_scenario s))) (apd_projection s)")
    case None
    with binding owner assms(3) that(3) show ?thesis by (simp add: inbound_prediction_def)
  next
    case (Some e)
    with binding owner assms(3) that(2) show ?thesis by (auto simp: inbound_prediction_def)
  qed
qed

definition adapted_snapshot ::
  "adapter_side \<Rightarrow> numeric_spec \<Rightarrow> uint64 \<Rightarrow> level_input list \<Rightarrow> level_input list \<Rightarrow> adapted_metadata \<Rightarrow> adapted_book_baseline" where
  "adapted_snapshot s spec i bids asks m =
     \<lparr>ab_numeric_spec = spec, ab_policy = core_policy (as_expected_policy (apd_scenario s)), ab_last_update_id = i,
      ab_bids = List.map_filter (parsed_level spec) bids, ab_asks = List.map_filter (parsed_level spec) asks,
      ab_metadata = m\<rparr>"

lemma snapshot_adapted:
  fixes s :: adapter_side
  defines "sc \<equiv> apd_scenario s"
  assumes "message_setting C s spec" "n \<le> kMaxOperations"
    and "list_all (level_ok (Some SideBid)) bids" "list_all (level_ok (Some SideAsk)) asks"
  obtains inbound m where
    "predicts (adapt_exchange_depth_snapshot C (replay_snapshot_wire C s n i bids asks) spec (scenario_identity sc)) inbound
      (\<lambda>owner. owner = adapted_snapshot s spec i bids asks m \<and> market_expected sc)"
    "predict_baseline_input (reference_dimensions sc) bids asks (apd_pending_metadata s) =
       Some (inbound_prediction s inbound)"
    "canonical_observed m = canonical_quality (map_observed_quality (apd_pending_metadata s))"
proof -
  have C: "contracts_ok C" "unknown_enum_free C" and spec: "spec_matches spec (as_conversion_numeric_spec sc)"
    using assms(2) by (simp_all add: message_setting_def sc_def)
  obtain m where m: "adapt_quality C (map (\<lambda>f. quality_number C (wire_quality f)) (apd_pending_metadata s)) = Inr m"
    "canonical_observed m = canonical_quality (map_observed_quality (apd_pending_metadata s))"
    using quality_predicted[OF C(1)] by blast
  obtain pb where pb: "ref_baseline_side (as_conversion_numeric_spec sc) True None bids = Some pb"
    "predicts (adapt_baseline_side (map wire_level bids) spec True) pb (\<lambda>bs. bs = List.map_filter (parsed_level spec) bids)"
    using baseline_side_predicted[OF spec levels_ok_fit[OF assms(4)] levels_ok_side[OF assms(4)], of True None "[]"]
    by (auto simp: adapt_baseline_side_def)
  obtain pa where pa: "ref_baseline_side (as_conversion_numeric_spec sc) False None asks = Some pa"
    "predicts (adapt_baseline_side (map wire_level asks) spec False) pa (\<lambda>bs. bs = List.map_filter (parsed_level spec) asks)"
    using baseline_side_predicted[OF spec levels_ok_fit[OF assms(5)] levels_ok_side[OF assms(5)], of False None "[]"]
    by (auto simp: adapt_baseline_side_def)
  let ?inbound = "case validate_inbound_identity (reference_dimensions sc) of Some e \<Rightarrow> Some e
    | None \<Rightarrow> (case pb of Some e \<Rightarrow> Some e | None \<Rightarrow> pa)"
  show ?thesis
  proof (rule that[of ?inbound m])
    show "predicts (adapt_exchange_depth_snapshot C (replay_snapshot_wire C s n i bids asks) spec (scenario_identity sc))
        ?inbound (\<lambda>owner. owner = adapted_snapshot s spec i bids asks m \<and> market_expected sc)"
      unfolding adapt_exchange_depth_snapshot_def replay_snapshot_wire_def wire_depth_snapshot.select_convs
        sc_def[symmetric] replay_text_accepted[OF assms(3)] m adapted_snapshot_def
      by (rule predicts_bind[OF identity_predicted[OF C]])
        (use pb(2) pa(2) in \<open>auto simp: predicts_def kSnapshotSchema_def market_expected_def split: sum.splits\<close>)
    show "predict_baseline_input (reference_dimensions sc) bids asks (apd_pending_metadata s) =
        Some (inbound_prediction s ?inbound)"
      unfolding predict_baseline_input_def predict_baseline_levels_def inbound_prediction_def sc_def[symmetric]
      using pb(1) pa(1) by (auto simp: reference_dimensions_def split: option.split)
  qed (rule m)
qed

lemma snapshot_message_cases:
  fixes s :: adapter_side
  defines "sc \<equiv> apd_scenario s" and "p \<equiv> apd_projection s"
  assumes "message_setting C s spec" "n \<le> kMaxOperations"
    and "list_all (level_ok (Some SideBid)) bids" "list_all (level_ok (Some SideAsk)) asks"
  obtains (rejected) e f where
      "adapt_exchange_depth_snapshot C (replay_snapshot_wire C s n i bids asks) spec (scenario_identity sc) = Inl e"
      "predict_baseline_input (reference_dimensions sc) bids asks (apd_pending_metadata s) = Some (Inl f)"
      "canonical_adapter_error e = canonical_ref_adapter_error f"
  | (unbound) owner e f where
      "adapt_exchange_depth_snapshot C (replay_snapshot_wire C s n i bids asks) spec (scenario_identity sc) = Inr owner"
      "validate_binding (ab_numeric_spec owner) (ab_policy owner) p = Some e"
      "predict_baseline_input (reference_dimensions sc) bids asks (apd_pending_metadata s) = Some (Inl f)"
      "canonical_adapter_error e = canonical_ref_adapter_error f"
  | (accepted) owner quality where
      "adapt_exchange_depth_snapshot C (replay_snapshot_wire C s n i bids asks) spec (scenario_identity sc) = Inr owner"
      "validate_binding (ab_numeric_spec owner) (ab_policy owner) p = None"
      "predict_baseline_input (reference_dimensions sc) bids asks (apd_pending_metadata s) = Some (Inr quality)"
      "canonical_observed (ab_metadata owner) = canonical_quality quality"
      "baseline_view_unchecked owner = \<lparr>bb_last_update_id = i, bb_bids = List.map_filter (parsed_level spec) bids,
         bb_asks = List.map_filter (parsed_level spec) asks\<rparr>"
      "spec = bp_numeric_spec p"
proof -
  obtain inbound m where adapted:
    "predicts (adapt_exchange_depth_snapshot C (replay_snapshot_wire C s n i bids asks) spec (scenario_identity sc)) inbound
      (\<lambda>owner. owner = adapted_snapshot s spec i bids asks m \<and> market_expected sc)"
    "predict_baseline_input (reference_dimensions sc) bids asks (apd_pending_metadata s) =
       Some (inbound_prediction s inbound)"
    "canonical_observed m = canonical_quality (map_observed_quality (apd_pending_metadata s))"
    using snapshot_adapted[OF assms(3-6)] unfolding sc_def by blast
  have sels: "ab_numeric_spec (adapted_snapshot s spec i bids asks m) = spec"
    "ab_policy (adapted_snapshot s spec i bids asks m) = core_policy (as_expected_policy sc)"
    "ab_metadata (adapted_snapshot s spec i bids asks m) = m"
    by (simp_all add: adapted_snapshot_def sc_def)
  from assms(3) adapted(1)[unfolded sc_def] refl show ?thesis
  proof (cases rule: message_fates)
    case (rejected e f)
    with adapted that(1) show ?thesis by (simp add: sc_def)
  next
    case (unbound e f)
    with adapted sels that(2) show ?thesis by (simp add: sc_def p_def)
  next
    case accepted
    show ?thesis
      by (rule that(3)[of "adapted_snapshot s spec i bids asks m"])
        (use accepted adapted sels in \<open>simp_all add: sc_def p_def baseline_view_unchecked_def adapted_snapshot_def\<close>)
  qed
qed

definition adapted_update ::
  "adapter_side \<Rightarrow> numeric_spec \<Rightarrow> uint64 \<Rightarrow> uint64 \<Rightarrow> uint64 option \<Rightarrow> level_input list \<Rightarrow> adapted_metadata \<Rightarrow>
   adapted_depth_batch" where
  "adapted_update s spec first_id final_id previous levels m =
     \<lparr>ad_numeric_spec = spec, ad_policy = core_policy (as_expected_policy (apd_scenario s)),
      ad_range = UpdateRange first_id final_id, ad_previous_final = previous,
      ad_levels = updates_of spec (filter (\<lambda>l. li_side l = SideBid) levels) @
        updates_of spec (filter (\<lambda>l. li_side l = SideAsk) levels), ad_metadata = m\<rparr>"

lemma update_adapted:
  fixes s :: adapter_side
  defines "sc \<equiv> apd_scenario s"
  assumes "message_setting C s spec" "n \<le> kMaxOperations" "list_all (level_ok side) levels" "first_id \<le> final_id"
  obtains inbound m where
    "predicts (adapt_depth_update C (replay_update_wire C s n first_id final_id previous levels) spec (scenario_identity sc))
      inbound (\<lambda>owner. owner = adapted_update s spec first_id final_id previous levels m \<and> market_expected sc)"
    "predict_depth_update_input (reference_dimensions sc) first_id final_id levels (apd_pending_metadata s) =
       inbound_prediction s inbound"
    "canonical_observed m = canonical_quality (map_observed_quality (apd_pending_metadata s))"
proof -
  have C: "contracts_ok C" "unknown_enum_free C" and spec: "spec_matches spec (as_conversion_numeric_spec sc)"
    using assms(2) by (simp_all add: message_setting_def sc_def)
  obtain m where m: "adapt_quality C (map (\<lambda>f. quality_number C (wire_quality f)) (apd_pending_metadata s)) = Inr m"
    "canonical_observed m = canonical_quality (map_observed_quality (apd_pending_metadata s))"
    using quality_predicted[OF C(1)] by blast
  have sides: "predicts (adapt_updates (map wire_level (filter (\<lambda>l. li_side l = d) levels)) spec (book_side_of d))
      (ref_update_side (as_conversion_numeric_spec sc) d levels)
      (\<lambda>us. us = updates_of spec (filter (\<lambda>l. li_side l = d) levels))" for d
    using update_side_predicted[OF spec levels_ok_fit[OF assms(4)], of d "[]"] by (simp add: adapt_updates_def)
  let ?inbound = "case validate_inbound_identity (reference_dimensions sc) of Some e \<Rightarrow> Some e
    | None \<Rightarrow> (case ref_update_side (as_conversion_numeric_spec sc) SideBid levels of Some e \<Rightarrow> Some e
      | None \<Rightarrow> ref_update_side (as_conversion_numeric_spec sc) SideAsk levels)"
  have rng: "UpdateRange_try_create first_id final_id = Some (UpdateRange first_id final_id)"
    using assms(5) by (simp add: UpdateRange_try_create_def not_less)
  show ?thesis
  proof (rule that[of ?inbound m])
    show "predicts (adapt_depth_update C (replay_update_wire C s n first_id final_id previous levels) spec (scenario_identity sc))
        ?inbound (\<lambda>owner. owner = adapted_update s spec first_id final_id previous levels m \<and> market_expected sc)"
      unfolding adapt_depth_update_def replay_update_wire_def wire_depth_update.select_convs option.case
        wire_metadata.select_convs sc_def[symmetric] replay_text_accepted[OF assms(3)] m rng side_not_bid adapted_update_def
      by (rule predicts_bind[OF identity_predicted[OF C]])
        (use sides[of SideBid] sides[of SideAsk] in
          \<open>auto simp: predicts_def kUpdateSchema_def validate_stream_def market_expected_def split: sum.splits\<close>)
    show "predict_depth_update_input (reference_dimensions sc) first_id final_id levels (apd_pending_metadata s) =
        inbound_prediction s ?inbound"
      unfolding predict_depth_update_input_def predict_update_levels_def inbound_prediction_def sc_def[symmetric]
      using leD[OF assms(5)] by (auto simp: reference_dimensions_def split: option.split)
  qed (rule m)
qed

lemma update_message_cases:
  fixes s :: adapter_side
  defines "sc \<equiv> apd_scenario s" and "p \<equiv> apd_projection s"
  assumes "message_setting C s spec" "n \<le> kMaxOperations" "list_all (level_ok side) levels" "first_id \<le> final_id"
  obtains (rejected) e f where
      "adapt_depth_update C (replay_update_wire C s n first_id final_id previous levels) spec (scenario_identity sc) = Inl e"
      "predict_depth_update_input (reference_dimensions sc) first_id final_id levels (apd_pending_metadata s) = Inl f"
      "canonical_adapter_error e = canonical_ref_adapter_error f"
  | (unbound) owner e f where
      "adapt_depth_update C (replay_update_wire C s n first_id final_id previous levels) spec (scenario_identity sc) = Inr owner"
      "validate_binding (ad_numeric_spec owner) (ad_policy owner) p = Some e"
      "predict_depth_update_input (reference_dimensions sc) first_id final_id levels (apd_pending_metadata s) = Inl f"
      "canonical_adapter_error e = canonical_ref_adapter_error f"
  | (accepted) owner quality where
      "adapt_depth_update C (replay_update_wire C s n first_id final_id previous levels) spec (scenario_identity sc) = Inr owner"
      "validate_binding (ad_numeric_spec owner) (ad_policy owner) p = None"
      "predict_depth_update_input (reference_dimensions sc) first_id final_id levels (apd_pending_metadata s) = Inr quality"
      "canonical_observed (ad_metadata owner) = canonical_quality quality"
      "batch_view_unchecked owner = \<lparr>db_range = UpdateRange first_id final_id, db_previous_final = previous,
         db_levels = updates_of spec (filter (\<lambda>l. li_side l = SideBid) levels) @
           updates_of spec (filter (\<lambda>l. li_side l = SideAsk) levels)\<rparr>"
      "spec = bp_numeric_spec p"
proof -
  let ?made = "adapted_update s spec first_id final_id previous levels"
  obtain inbound m where adapted:
    "predicts (adapt_depth_update C (replay_update_wire C s n first_id final_id previous levels) spec (scenario_identity sc))
      inbound (\<lambda>owner. owner = ?made m \<and> market_expected sc)"
    "predict_depth_update_input (reference_dimensions sc) first_id final_id levels (apd_pending_metadata s) =
       inbound_prediction s inbound"
    "canonical_observed m = canonical_quality (map_observed_quality (apd_pending_metadata s))"
    using update_adapted[OF assms(3-6)] unfolding sc_def by blast
  have sels: "ad_numeric_spec (?made m) = spec" "ad_policy (?made m) = core_policy (as_expected_policy sc)"
    "ad_metadata (?made m) = m"
    by (simp_all add: adapted_update_def sc_def)
  from assms(3) adapted(1)[unfolded sc_def] refl show ?thesis
  proof (cases rule: message_fates)
    case (rejected e f)
    with adapted that(1) show ?thesis by (simp add: sc_def)
  next
    case (unbound e f)
    with adapted sels that(2) show ?thesis by (simp add: sc_def p_def)
  next
    case accepted
    show ?thesis
      by (rule that(3)[of "?made m"])
        (use accepted adapted sels in \<open>simp_all add: sc_def p_def batch_view_unchecked_def adapted_update_def\<close>)
  qed
qed

end
