(* ===== verification/Replay_Outbound.thy ===== *)
theory Replay_Outbound
  imports Replay_Inbound
begin

text \<open>
  What the reference adapter predicts of a snapshot request is the snapshot the protobuf adapter
  produces, read back in canonical form, or the error it reports.
\<close>

subsection \<open>Flags\<close>

fun wire_flag_of :: "ref_quality_flag \<Rightarrow> quality_flag" where
  "wire_flag_of RqDuplicate = QUALITY_FLAG_DUPLICATE"
| "wire_flag_of RqOutOfOrder = QUALITY_FLAG_OUT_OF_ORDER"
| "wire_flag_of RqSequenceGap = QUALITY_FLAG_SEQUENCE_GAP"
| "wire_flag_of RqOrderBookResync = QUALITY_FLAG_ORDERBOOK_RESYNC"
| "wire_flag_of RqSnapshotBridgePending = QUALITY_FLAG_SNAPSHOT_BRIDGE_PENDING"
| "wire_flag_of RqSnapshotTooOld = QUALITY_FLAG_SNAPSHOT_TOO_OLD"
| "wire_flag_of RqBootstrapBufferOverflow = QUALITY_FLAG_BOOTSTRAP_BUFFER_OVERFLOW"
| "wire_flag_of RqRecoveredTail = QUALITY_FLAG_RECOVERED_TAIL"
| "wire_flag_of RqMalformedPayload = QUALITY_FLAG_MALFORMED_PAYLOAD"
| "wire_flag_of RqExchangeTimeMissing = QUALITY_FLAG_EXCHANGE_TIME_MISSING"
| "wire_flag_of RqReceiveClockDiscontinuity = QUALITY_FLAG_RECEIVE_CLOCK_DISCONTINUITY"
| "wire_flag_of RqSlowConsumerGap = QUALITY_FLAG_SLOW_CONSUMER_GAP"
| "wire_flag_of RqProducerRestart = QUALITY_FLAG_PRODUCER_RESTART"
| "wire_flag_of RqOverlap = QUALITY_FLAG_OVERLAP"
| "wire_flag_of RqIdentityConflict = QUALITY_FLAG_IDENTITY_CONFLICT"
| "wire_flag_of RqCrossedBook = QUALITY_FLAG_CROSSED_BOOK"

lemma wire_flag_of_agrees [simp]:
  "quality_rank (wire_flag_of x) = ref_quality_rank x" "snapshot_flag (wire_flag_of x) = Some (canonical_ref_flag x)"
  "wire_flag_of (map_inbound_fact f) = wire_quality f"
  by (cases x; simp; fail)+ (cases f; simp)

lemma rank_wire_flags:
  "remdups_adj (sort_key quality_rank (map wire_flag_of flags)) = map wire_flag_of (deduplicate_and_rank flags)"
proof (rule strictly_ranked_unique[of quality_rank])
  show "sorted_wrt (\<lambda>a b. quality_rank a < quality_rank b)
      (remdups_adj (sort_key quality_rank (map wire_flag_of flags)))"
    by (rule remdups_adj_strict[OF inj_quality_rank]) simp
qed (simp_all add: sorted_wrt_map deduplicate_and_rank_props)

lemma extract_wire_flags:
  "extract_snapshot_flags (map wire_flag_of flags) acc = Inr (acc @ canonical_quality flags)"
  by (induction flags arbitrary: acc) (simp_all add: canonical_quality_def)

lemma fact_valid_agrees:
  "host_fact_valid_for_status f (reference_status st) \<longleftrightarrow> fact_admissible st (host_fact f)"
  by (cases f; cases st) (simp_all add: fact_admissible_def)

lemma host_facts_loop_eq:
  "host_facts_loop status facts flags =
     (if list_all (\<lambda>f. host_fact_valid_for_status f status) facts then Inr (flags @ map map_inbound_fact facts)
      else Inl (ref_error RcInvalidHostQualityCombination RfHostQualityFact))"
  by (induction facts arbitrary: flags) simp_all

text \<open>The best levels are the first ones of the reference lists.\<close>

lemma crossed_agrees:
  assumes "tracks p m"
  shows "(case (OrderBook_best_bid (bp_book p), OrderBook_best_ask (bp_book p)) of
      (Some bid, Some ask) \<Rightarrow> lvl_price bid \<ge> lvl_price ask | _ \<Rightarrow> False) \<longleftrightarrow>
    rp_bids m \<noteq> [] \<and> rp_asks m \<noteq> [] \<and> raw_price (hd (rp_bids m)) \<ge> raw_price (hd (rp_asks m))"
proof -
  have wf: "book_wf (bp_book p)" using assms by (simp add: tracks_def projection_inv_def)
  show ?thesis
    using assms ob.best_bid[OF wf] ob.best_ask[OF wf]
    by (cases "OrderBook_all_levels (bp_book p) Bid"; cases "OrderBook_all_levels (bp_book p) Ask")
      (simp_all add: tracks_def first_level_def price_le_iff)
qed

definition matches :: "'a adapter_result \<Rightarrow> ref_adapter_error + 'b \<Rightarrow> ('a \<Rightarrow> 'b \<Rightarrow> bool) \<Rightarrow> bool" where
  "matches res pred P \<longleftrightarrow> (case (res, pred) of
     (Inl e, Inl f) \<Rightarrow> canonical_adapter_error e = canonical_ref_adapter_error f
   | (Inr x, Inr y) \<Rightarrow> P x y
   | _ \<Rightarrow> False)"

lemma matches_simps [simp]:
  "matches (Inl e) (Inl f) P \<longleftrightarrow> canonical_adapter_error e = canonical_ref_adapter_error f"
  "matches (Inr x) (Inr y) P \<longleftrightarrow> P x y" "\<not> matches (Inl e) (Inr y) P" "\<not> matches (Inr x) (Inl f) P"
  by (simp_all add: matches_def)

lemma matches_bind:
  assumes "matches r pred P" and "\<And>x y. P x y \<Longrightarrow> matches (f x) (g y) Q"
  shows "matches (bind_result r f) (case pred of Inl e \<Rightarrow> Inl e | Inr y \<Rightarrow> g y) Q"
  using assms by (cases r; cases pred) simp_all

lemma predicts_matches_bind:
  assumes "predicts r pred P" and "\<And>x. P x \<Longrightarrow> matches (f x) pred' Q"
  shows "matches (bind_result r f) (case pred of Some e \<Rightarrow> Inl e | None \<Rightarrow> pred') Q"
  using assms by (cases r) auto

lemma flags_predicted:
  assumes "tracks p m" and "so_host_quality_facts options = map host_fact facts"
  shows "matches (make_quality_flags (bp_book p) (bp_status p) options) (predict_host_quality m facts)
    (\<lambda>quality flags. quality = map wire_flag_of (deduplicate_and_rank flags))"
proof -
  have status: "rp_status m = reference_status (bp_status p)" using assms(1) by (simp add: tracks_def)
  have valid: "list_all (\<lambda>f. host_fact_valid_for_status f (rp_status m)) facts \<longleftrightarrow>
      list_all (fact_admissible (bp_status p)) (map host_fact facts)"
    by (simp add: status fact_valid_agrees list.pred_map comp_def)
  have facts: "map flag_of_fact (map host_fact facts) = map wire_flag_of (map map_inbound_fact facts)" by simp
  have awaiting: "rp_status m = RefAwaitingBridge \<longleftrightarrow> bp_status p = AwaitingBridge"
    "rp_status m = RefNeedsResync \<longleftrightarrow> bp_status p = NeedsResync"
    unfolding status by (cases "bp_status p"; simp)+
  show ?thesis
    unfolding make_quality_flags_def predict_host_quality_def assms(2) map_host_facts_eq host_facts_loop_eq valid
      crossed_agrees[OF assms(1)] facts Let_def awaiting
    by (auto simp: rank_wire_flags[symmetric])
qed

subsection \<open>Levels\<close>

lemma select_levels_loop_eq:
  "select_levels_loop spec limit count ls =
     map (\<lambda>l. \<lparr>rsl_price = reference_fixed (raw_price l) (rs_price_scale spec),
       rsl_quantity = reference_fixed (raw_quantity l) (rs_quantity_scale spec)\<rparr>) (take (limit - count) ls)"
  if "count \<le> limit"
  using that
proof (induction ls arbitrary: count)
  case (Cons l ls)
  then show ?case by (auto simp: take_Cons')
qed simp

lemma select_levels_eq:
  "select_levels spec depth_limit ls =
     map (\<lambda>l. \<lparr>rsl_price = reference_fixed (raw_price l) (rs_price_scale spec),
       rsl_quantity = reference_fixed (raw_quantity l) (rs_quantity_scale spec)\<rparr>)
       (case depth_limit of None \<Rightarrow> ls | Some n \<Rightarrow> take n ls)"
  by (simp add: select_levels_def select_levels_loop_eq split: option.split)

lemma wire_level_text:
  assumes "spec_matches spec rspec"
  shows "canonical_wire_level (wire_of_level spec l) =
    \<lparr>sl_price = reference_fixed (raw_price (raw_of side l)) (rs_price_scale rspec),
     sl_quantity = reference_fixed (raw_quantity (raw_of side l)) (rs_quantity_scale rspec)\<rparr>"
proof -
  have "reference_fixed (price_value (lvl_price l)) n = fixed_text (nat (price_value (lvl_price l))) n 0"
    "reference_fixed (quantity_value (lvl_quantity l)) n = fixed_text (nat (quantity_value (lvl_quantity l))) n 0" for n
    using reference_fixed_eq[of "nat (price_value (lvl_price l))" n]
      reference_fixed_eq[of "nat (quantity_value (lvl_quantity l))" n]
      price_value_range[of "lvl_price l"] quantity_value_range[of "lvl_quantity l"] by simp_all
  with assms show ?thesis by (simp add: canonical_wire_level_def wire_of_level_def spec_matches_def raw_of_def)
qed

lemma snapshot_levels_agree:
  assumes "spec_matches spec rspec" "map_option (\<lambda>l. nat (depth_limit_value l)) (so_depth_limit options) = limit"
  shows "map canonical_wire_level (map (wire_of_level spec) (limited options ls)) =
    map (\<lambda>l. \<lparr>sl_price = rsl_price l, sl_quantity = rsl_quantity l\<rparr>)
      (select_levels rspec limit (map (raw_of side) ls))"
proof -
  have "limited options ls = (case limit of None \<Rightarrow> ls | Some n \<Rightarrow> take n ls)"
    using assms(2) by (cases "so_depth_limit options") (auto simp: limited_def)
  then show ?thesis
    by (cases limit) (simp_all add: select_levels_eq wire_level_text[OF assms(1), of _ side] take_map)
qed

subsection \<open>Context and gap\<close>

text \<open>The checks of \<open>predict_snapshot\<close> between the update id and the flags.\<close>

definition predicted_context_error :: "ref_dimensions \<Rightarrow> reference_projection \<Rightarrow> snapshot_request \<Rightarrow> ref_adapter_error option" where
  "predicted_context_error d m operation =
     (let needs_resync = (rp_status m = RefNeedsResync) in
      case validate_snapshot_identity d of
        Some e \<Rightarrow> Some e
      | None \<Rightarrow>
          if \<not> ref_is_non_empty_text (sr_producer operation)
            then Some (ref_error (ref_missing_or_invalid (sr_producer operation)) RfProducer)
          else if \<not> ref_is_non_empty_text (sr_producer_version operation)
            then Some (ref_error (ref_missing_or_invalid (sr_producer_version operation)) RfProducerVersion)
          else if needs_resync \<noteq> (sr_current_gap operation \<noteq> None)
            then Some (ref_error (if needs_resync then RcMissingRequiredField else RcInvalidGapContext) RfCurrentGap)
          else None)"

lemma context_predicted:
  assumes "tracks p m" "bp_policy p = core_policy (as_projection_policy sc)"
  shows "predicts (validate_snapshot_context p (bp_status p) (replay_snapshot_context sc operation))
    (predicted_context_error (reference_dimensions sc) m operation)
    (\<lambda>source. snapshot_source_of source = Some (canonical_origin (sr_source_origin operation)) \<and>
       (bp_status p = NeedsResync \<longleftrightarrow> sr_current_gap operation \<noteq> None))"
proof -
  have needs: "rp_status m = RefNeedsResync \<longleftrightarrow> bp_status p = NeedsResync"
    using assms(1) by (cases "bp_status p") (simp_all add: tracks_def)
  show ?thesis
    unfolding predicted_context_error_def validate_snapshot_context_def needs Let_def
    by (cases "sr_source_origin operation"; cases "sr_current_gap operation")
      (simp_all add: replay_snapshot_context_def scenario_identity_def reference_dimensions_def assms(2)
        validate_snapshot_identity_def missing_or_invalid_def ref_missing_or_invalid_def)
qed

lemma gap_predicted:
  assumes "tracks p m" "ls_last_gap c = None" "bp_status p = NeedsResync \<longleftrightarrow> sr_current_gap operation \<noteq> None"
  shows "matches (append_current_gap c p (replay_snapshot_context sc operation) (bp_status p))
    (if rp_status m = RefNeedsResync then
       (case predict_gap_descriptor m (sr_current_gap operation) of
          None \<Rightarrow> Inl (ref_error RcInvalidGapContext RfGapRecoveryState)
        | Some gap \<Rightarrow> Inr (Some gap))
     else Inr None)
    (\<lambda>c' gap. c' = c\<lparr>ls_last_gap := ls_last_gap c'\<rparr> \<and>
       extract_snapshot_gap (ls_last_gap c') = Inr (map_option canonical_ref_gap_descriptor gap))"
proof (cases "bp_status p = NeedsResync")
  case True
  with assms(1,3) obtain gap detected state where gap: "bp_last_gap p = Some gap"
    "sr_current_gap operation = Some (detected, state)" "rp_status m = RefNeedsResync"
    "rp_last_gap m = Some (reference_gap gap)"
    by (auto simp: tracks_def projection_inv_def)
  with True show ?thesis
    by (cases state)
      (simp_all add: append_current_gap_def replay_snapshot_context_def map_gap_reason_eq predict_gap_descriptor_def
        extract_snapshot_gap_def canonical_ref_gap_descriptor_def reference_gap_def)
next
  case False
  then have "rp_status m \<noteq> RefNeedsResync" using assms(1) by (cases "bp_status p") (simp_all add: tracks_def)
  with False assms(2) show ?thesis by (simp add: append_current_gap_def extract_snapshot_gap_def)
qed

subsection \<open>The request\<close>

lemma depth_limit_predicted:
  "predicts (replay_depth_limit limit) (validate_depth_limit limit)
    (\<lambda>l. map_option (\<lambda>l. nat (depth_limit_value l)) l = limit)"
  by (cases limit) (auto simp: replay_depth_limit_def validate_depth_limit_def DepthLimit_create_def)

text \<open>The prediction where nothing is rejected.\<close>

definition predicted_snapshot ::
  "ref_dimensions \<Rightarrow> reference_projection \<Rightarrow> snapshot_request \<Rightarrow> uint64 \<Rightarrow> ref_quality_flag list \<Rightarrow>
   ref_gap_descriptor option \<Rightarrow> ref_snapshot_prediction" where
  "predicted_snapshot d m operation last_id flags gap =
     \<lparr>rsp_venue = RefVenueBinance,
      rsp_market = (if rd_projection_policy d = RefPolicySpot then RefMarketSpot else RefMarketUsdMPerpetual),
      rsp_schema_version = kLocalOrderBookSnapshotSchema,
      rsp_synchronized = (rp_status m = RefSynchronized), rsp_last_update_id = Some last_id,
      rsp_bids = select_levels (rd_projection_numeric_spec d) (sr_depth_limit operation) (rp_bids m),
      rsp_asks = select_levels (rd_projection_numeric_spec d) (sr_depth_limit operation) (rp_asks m),
      rsp_quality_flags = deduplicate_and_rank flags, rsp_depth_limit = sr_depth_limit operation,
      rsp_gap_descriptor = gap\<rparr>"

text \<open>\<open>predict_snapshot\<close> as the adapter composes its own steps.\<close>

lemma predict_snapshot_eq:
  assumes "validate_depth_limit (sr_depth_limit operation) = None" "rp_status m \<noteq> RefAwaitingBaseline"
    "rp_last m = Some last_id"
  shows "predict_snapshot d m operation =
    (case predicted_context_error d m operation of
       Some e \<Rightarrow> Inl e
     | None \<Rightarrow>
         (case predict_host_quality m (sr_host_quality_facts operation) of
            Inl e \<Rightarrow> Inl e
          | Inr flags \<Rightarrow>
              (case (if rp_status m = RefNeedsResync then
                  (case predict_gap_descriptor m (sr_current_gap operation) of
                     None \<Rightarrow> Inl (ref_error RcInvalidGapContext RfGapRecoveryState)
                   | Some gap \<Rightarrow> Inr (Some gap))
                else Inr None) of
                 Inl e \<Rightarrow> Inl e
               | Inr gap \<Rightarrow> Inr (predicted_snapshot d m operation last_id flags gap))))"
  unfolding predict_snapshot_def predicted_context_error_def predicted_snapshot_def Let_def assms(1)
  using assms(2,3) by (cases "sr_current_gap operation") (simp_all split: option.split sum.split)

text \<open>What the reference side reports of a prediction.\<close>

definition predicted_outcome :: "adapter_scenario \<Rightarrow> snapshot_request \<Rightarrow> ref_snapshot_prediction \<Rightarrow> snapshot_outcome" where
  "predicted_outcome sc operation predicted =
     \<lparr>sn_venue = canonical_ref_venue (rsp_venue predicted), sn_market = canonical_ref_market (rsp_market predicted),
      sn_schema_version = rsp_schema_version predicted,
      sn_policy = (if as_projection_policy sc = PolicySpot then CSpot else CUsdMPerpetual),
      sn_symbol = as_expected_symbol sc, sn_producer = sr_producer operation,
      sn_producer_version = sr_producer_version operation, sn_source = canonical_origin (sr_source_origin operation),
      sn_generated_time_utc_ns = sr_generated_time_utc_ns operation,
      sn_generated_monotonic_ns = sr_generated_monotonic_ns operation,
      sn_last_update_id = rsp_last_update_id predicted, sn_synchronized = rsp_synchronized predicted,
      sn_bids = map (\<lambda>l. \<lparr>sl_price = rsl_price l, sl_quantity = rsl_quantity l\<rparr>) (rsp_bids predicted),
      sn_asks = map (\<lambda>l. \<lparr>sl_price = rsl_price l, sl_quantity = rsl_quantity l\<rparr>) (rsp_asks predicted),
      sn_quality_flags = canonical_quality (rsp_quality_flags predicted), sn_depth_limit = rsp_depth_limit predicted,
      sn_gap_descriptor = map_option canonical_ref_gap_descriptor (rsp_gap_descriptor predicted)\<rparr>"

lemma snapshot_extracted:
  assumes "tracks p m" "spec_matches (bp_numeric_spec p) (as_projection_numeric_spec sc)"
    and "bp_policy p = core_policy (as_projection_policy sc)"
    and "map_option (\<lambda>l. nat (depth_limit_value l)) (so_depth_limit options) = sr_depth_limit operation"
    and "snapshot_source_of source = Some (canonical_origin (sr_source_origin operation))"
    and "extract_snapshot_gap gap = Inr (map_option canonical_ref_gap_descriptor predicted_gap)"
  shows "extract_snapshot_observation
      ((candidate_snapshot p last_id source (replay_snapshot_context sc operation) options)
        \<lparr>ls_last_gap := gap, ls_quality_flags := map wire_flag_of (deduplicate_and_rank flags)\<rparr>) (bp_policy p) =
    Inr (predicted_outcome sc operation
      (predicted_snapshot (reference_dimensions sc) m operation last_id flags predicted_gap))"
proof -
  note levels = snapshot_levels_agree[OF assms(2,4)]
  have "rp_bids m = map (raw_of Bid) (OrderBook_all_levels (bp_book p) Bid)"
    "rp_asks m = map (raw_of Ask) (OrderBook_all_levels (bp_book p) Ask)"
    "rp_status m = RefSynchronized \<longleftrightarrow> bp_status p = Synchronized"
    using assms(1) by (cases "bp_status p"; simp add: tracks_def)+
  moreover have "map_option (nat \<circ> depth_limit_value) (so_depth_limit options) = sr_depth_limit operation"
    using assms(4) by (simp add: comp_def)
  ultimately show ?thesis
    using assms(3,5,6)
    by (cases "as_projection_policy sc")
      (simp_all add: extract_snapshot_observation_def candidate_snapshot_def predicted_outcome_def predicted_snapshot_def
        extract_wire_flags reference_dimensions_def market_for_policy_def core_policy_def kLocalSnapshotSchema_def
        kLocalOrderBookSnapshotSchema_def replay_snapshot_context_def scenario_identity_def option.map_comp
        levels[where side = Bid, symmetric] levels[where side = Ask, symmetric] del: map_map)
qed

lemma snapshot_predicted:
  assumes "tracks p m" "spec_matches (bp_numeric_spec p) (as_projection_numeric_spec sc)"
    and "bp_policy p = core_policy (as_projection_policy sc)" "64 \<le> max_size" "max_size \<le> SIZE_MAX"
    and "validate_depth_limit (sr_depth_limit operation) = None"
    and "map_option (\<lambda>l. nat (depth_limit_value l)) limit = sr_depth_limit operation"
  shows "matches
    (make_local_order_book_snapshot max_size p (replay_snapshot_context sc operation)
      \<lparr>so_depth_limit = limit, so_host_quality_facts = map host_fact (sr_host_quality_facts operation)\<rparr>)
    (predict_snapshot (reference_dimensions sc) m operation)
    (\<lambda>produced predicted. extract_snapshot_observation produced (bp_policy p) =
       Inr (predicted_outcome sc operation predicted))"
proof (cases "bp_last_update_id p")
  case None
  with assms(1) have "bp_status p = AwaitingBaseline" "rp_status m = RefAwaitingBaseline"
    by (auto simp: tracks_def projection_inv_def)
  with assms(6) show ?thesis by (simp add: make_local_order_book_snapshot_def predict_snapshot_def)
next
  case (Some last_id)
  let ?options = "\<lparr>so_depth_limit = limit, so_host_quality_facts = map host_fact (sr_host_quality_facts operation)\<rparr>"
  let ?ctx = "replay_snapshot_context sc operation"
  have inv: "projection_inv p" using assms(1) by (simp add: tracks_def)
  have m: "rp_status m \<noteq> RefAwaitingBaseline" "rp_last m = Some last_id"
    using assms(1) Some by (cases "bp_status p"; auto simp: tracks_def projection_inv_def)+
  show ?thesis
    unfolding make_snapshot_unfold[OF inv Some assms(4,5)] predict_snapshot_eq[OF assms(6) m]
  proof (rule predicts_matches_bind[OF context_predicted[OF assms(1,3)]], rule matches_bind[OF flags_predicted[OF assms(1)]],
      simp, rule matches_bind[OF gap_predicted[OF assms(1)]])
    fix source quality flags candidate gap
    let ?candidate = "candidate_snapshot p last_id source ?ctx ?options"
    assume source: "snapshot_source_of source = Some (canonical_origin (sr_source_origin operation)) \<and>
        (bp_status p = NeedsResync \<longleftrightarrow> sr_current_gap operation \<noteq> None)"
      and quality: "quality = map wire_flag_of (deduplicate_and_rank flags)"
    show "ls_last_gap ?candidate = None" "bp_status p = NeedsResync \<longleftrightarrow> sr_current_gap operation \<noteq> None"
      using source by (simp_all add: candidate_snapshot_def)
    assume gap: "candidate = ?candidate\<lparr>ls_last_gap := ls_last_gap candidate\<rparr> \<and>
      extract_snapshot_gap (ls_last_gap candidate) = Inr (map_option canonical_ref_gap_descriptor gap)"
    have "extract_snapshot_observation (?candidate\<lparr>ls_last_gap := ls_last_gap candidate,
          ls_quality_flags := quality\<rparr>) (bp_policy p) =
        Inr (predicted_outcome sc operation (predicted_snapshot (reference_dimensions sc) m operation last_id flags gap))"
      unfolding quality using source gap by (intro snapshot_extracted[OF assms(1-3)]) (simp_all add: assms(7))
    moreover have "candidate\<lparr>ls_quality_flags := quality\<rparr> =
        ?candidate\<lparr>ls_last_gap := ls_last_gap candidate, ls_quality_flags := quality\<rparr>"
      using gap by (rule arg_cong[where f = "\<lambda>c. c\<lparr>ls_quality_flags := quality\<rparr>", OF conjunct1])
    ultimately show "matches (Inr (candidate\<lparr>ls_quality_flags := quality\<rparr>))
        (Inr (predicted_snapshot (reference_dimensions sc) m operation last_id flags gap))
        (\<lambda>produced predicted. extract_snapshot_observation produced (bp_policy p) =
           Inr (predicted_outcome sc operation predicted))"
      by (simp only: matches_simps)
  qed
qed

end
