(* ===== verification/Replay_Lockstep.thy ===== *)
theory Replay_Lockstep
  imports Replay_Outbound
begin

text \<open>
  The two sides of the adapter-enabled differential replay run in lockstep, as the core-only sides
  do.  What is assumed of the Contracts and of \<open>std::string::max_size()\<close> is part of the relation of the
  two states, so that the lockstep interface holds for every choice of them.
\<close>

subsection \<open>Corresponding states\<close>

definition adapter_environment :: "contracts \<Rightarrow> nat \<Rightarrow> bool" where
  "adapter_environment C max_size \<longleftrightarrow> contracts_ok C \<and> unknown_enum_free C \<and> 64 \<le> max_size \<and> max_size \<le> SIZE_MAX"

text \<open>What the two sides have in common beside the projection and the pending metadata.\<close>

definition scenario_related :: "adapter_scenario \<Rightarrow> book_projection \<Rightarrow> reference_side \<Rightarrow> bool" where
  "scenario_related sc p r \<longleftrightarrow> spec_ok (as_conversion_numeric_spec sc) \<and>
     bp_policy p = core_policy (as_projection_policy sc) \<and> rsd_mode r = ReplayAdapterEnabled \<and>
     rsd_adapter r = reference_dimensions sc \<and>
     rsd_conversion_numeric_spec r = as_conversion_numeric_spec sc \<and>
     rsd_projection_numeric_spec r = as_projection_numeric_spec sc \<and>
     rsd_projection_policy r = as_projection_policy sc \<and> rsd_expected_symbol r = as_expected_symbol sc"

definition adapter_related :: "contracts \<Rightarrow> nat \<Rightarrow> adapter_side \<Rightarrow> reference_side \<Rightarrow> bool" where
  "adapter_related C max_size s r \<longleftrightarrow> adapter_environment C max_size \<and>
     projections_related (apd_projection s) r \<and> scenario_related (apd_scenario s) (apd_projection s) r \<and>
     rsd_pending_metadata r = apd_pending_metadata s"

lemma install_policy: "install_baseline p b = (res, p') \<Longrightarrow> bp_policy p' = bp_policy p"
  by (auto simp: install_baseline_def Let_def split: if_splits)

lemma apply_policy: "apply_batch p b = Some (res, p') \<Longrightarrow> bp_policy p' = bp_policy p"
  by (auto simp: apply_batch_def apply_transaction_def record_gap_def Let_def
      split: if_splits option.splits sequence_decision.splits)

lemma projections_related_metadata [simp]:
  "projections_related p (r\<lparr>rsd_pending_metadata := f\<rparr>) \<longleftrightarrow> projections_related p r"
  by (simp add: projections_related_def)

lemma agree_adapter_observation:
  assumes "adapter_related C max_size s r" "res \<noteq> RangeOutcome False"
  shows "agree (adapter_observation res ds s) (reference_observation res ds r) (adapter_related C max_size)"
proof -
  have "reference_checkpoint r = production_checkpoint (apd_projection s)"
    using assms(1) by (intro checkpoint_agrees) (simp add: adapter_related_def)
  with assms show ?thesis by (simp add: agree_def adapter_observation_def reference_observation_def)
qed

text \<open>After a message both sides drop the pending metadata, and the projections may have moved on.\<close>

lemma adapter_related_after:
  assumes "adapter_related C max_size s r" "projections_related p' (r\<lparr>rsd_projection := m'\<rparr>)"
    and "bp_policy p' = bp_policy (apd_projection s)"
  shows "adapter_related C max_size (s\<lparr>apd_pending_metadata := [], apd_projection := p'\<rparr>)
    (r\<lparr>rsd_pending_metadata := [], rsd_projection := m'\<rparr>)"
  using assms by (simp add: adapter_related_def scenario_related_def projections_related_def)

lemma adapter_related_dropped:
  assumes "adapter_related C max_size s r"
  shows "adapter_related C max_size (s\<lparr>apd_pending_metadata := []\<rparr>) (r\<lparr>rsd_pending_metadata := []\<rparr>)"
  using assms by (simp add: adapter_related_def scenario_related_def)

subsection \<open>Messages\<close>

lemma related_setting:
  assumes "adapter_related C max_size s r"
  obtains spec where "core_numeric_spec (as_conversion_numeric_spec (apd_scenario s)) = Some spec"
    "spec_matches spec (as_conversion_numeric_spec (apd_scenario s))" "message_setting C s spec"
proof -
  obtain spec where spec: "core_numeric_spec (as_conversion_numeric_spec (apd_scenario s)) = Some spec"
    "spec_matches spec (as_conversion_numeric_spec (apd_scenario s))"
    using assms by (auto simp: adapter_related_def scenario_related_def elim: required_spec)
  with assms show ?thesis
    by (intro that[OF spec])
      (auto simp: message_setting_def adapter_related_def scenario_related_def adapter_environment_def
        projections_related_def)
qed

lemma related_sides:
  assumes "adapter_related C max_size s r"
  shows "projections_related (apd_projection s) r" "rsd_mode r = ReplayAdapterEnabled"
    "rsd_adapter r = reference_dimensions (apd_scenario s)"
    "rsd_conversion_numeric_spec r = as_conversion_numeric_spec (apd_scenario s)"
    "rsd_pending_metadata r = apd_pending_metadata s" "projection_inv (apd_projection s)"
    "spec_matches (bp_numeric_spec (apd_projection s)) (rsd_projection_numeric_spec r)"
  using assms by (auto simp: adapter_related_def scenario_related_def projections_related_def tracks_def)

lemma adapter_install_agrees:
  assumes "adapter_related C max_size s r" "n \<le> kMaxOperations"
    and "list_all (level_ok (Some SideBid)) bids" "list_all (level_ok (Some SideAsk)) asks"
  shows "agree (adapter_install C s n i bids asks) (reference_adapter_install r i bids asks)
    (adapter_related C max_size)"
proof -
  let ?sc = "apd_scenario s" and ?p = "apd_projection s"
  note rel = related_sides[OF assms(1)]
  obtain spec where spec: "core_numeric_spec (as_conversion_numeric_spec ?sc) = Some spec"
    "spec_matches spec (as_conversion_numeric_spec ?sc)" and setting: "message_setting C s spec"
    using assms(1) by (rule related_setting)
  note levels = observe_levels_agree[OF spec(2) levels_ok_fit[OF assms(3)]]
    observe_levels_agree[OF spec(2) levels_ok_fit[OF assms(4)]]
  note defs = adapter_install_def reference_adapter_install_def Let_def spec(1) rel(2-5) levels install_into_def
  note dropped = agree_adapter_observation[OF adapter_related_dropped[OF assms(1)]]
  from setting assms(2-4) show ?thesis
  proof (cases rule: snapshot_message_cases[where i = i])
    case (rejected e f)
    with dropped show ?thesis by (simp add: defs)
  next
    case (unbound owner e f)
    with dropped show ?thesis by (simp add: defs)
  next
    case (accepted owner quality)
    obtain res p' t m' where step:
      "install_baseline ?p (baseline_view_unchecked owner) = (res, p')"
      "rp_install (rsd_projection r) i (map raw_of_update (updates_of spec bids) @ map raw_of_update (updates_of spec asks))
         = (t, m')"
      "canonical_ref_install t = canonical_install_of res"
      "projections_related p' (r\<lparr>rsd_projection := m'\<rparr>)" "bp_numeric_spec p' = bp_numeric_spec ?p"
      unfolding accepted(5)
      using rel(1) levels_ok_side[OF assms(3)] levels_ok_side[OF assms(4)] by (rule install_step)
    note after = agree_adapter_observation[OF adapter_related_after[OF assms(1) step(4) install_policy[OF step(1)]]]
    with accepted step(1-3) show ?thesis by (simp add: defs)
  qed
qed

lemma adapter_depth_update_agrees:
  assumes "adapter_related C max_size s r" "n \<le> kMaxOperations" "first_id \<le> final_id" "list_all (level_ok e) levels"
  shows "agree (adapter_depth_update C s n first_id final_id previous levels)
    (reference_depth_update r first_id final_id previous levels) (adapter_related C max_size)"
proof -
  let ?sc = "apd_scenario s" and ?p = "apd_projection s"
  note rel = related_sides[OF assms(1)]
  obtain spec where spec: "core_numeric_spec (as_conversion_numeric_spec ?sc) = Some spec"
    "spec_matches spec (as_conversion_numeric_spec ?sc)" and setting: "message_setting C s spec"
    using assms(1) by (rule related_setting)
  note levels = observe_levels_agree[OF spec(2) levels_ok_fit[OF assms(4)]]
  note defs = adapter_depth_update_def reference_depth_update_def Let_def spec(1) rel(2-5) levels apply_to_def
  note dropped = agree_adapter_observation[OF adapter_related_dropped[OF assms(1)]]
  from setting assms(2,4,3) show ?thesis
  proof (cases rule: update_message_cases[where previous = previous])
    case (rejected e f)
    with dropped show ?thesis by (simp add: defs)
  next
    case (unbound owner e f)
    with dropped show ?thesis by (simp add: defs)
  next
    case (accepted owner quality)
    let ?rng = "UpdateRange first_id final_id"
    have rng: "range_first ?rng = first_id" "range_final ?rng = final_id" using assms(3) by simp_all
    obtain res p' t m' where step:
      "apply_batch ?p \<lparr>db_range = ?rng, db_previous_final = previous, db_levels = updates_of spec levels\<rparr> = Some (res, p')"
      "rp_apply (rsd_projection r) first_id final_id previous (map raw_of_update (updates_of spec levels)) = Some (t, m')"
      "canonical_ref_result t = canonical_apply_of res"
      "projections_related p' (r\<lparr>rsd_projection := m'\<rparr>)" "bp_numeric_spec p' = bp_numeric_spec ?p"
      using apply_step[OF rel(1), of ?rng] assms(3) unfolding rng by blast
    have batch: "apply_batch ?p (batch_view_unchecked owner) = Some (res, p')"
      unfolding accepted(5) step(1)[symmetric] by (rule apply_batch_levels_cong[OF rel(6) updates_at_split])
    note after = agree_adapter_observation[OF adapter_related_after[OF assms(1) step(4) apply_policy[OF step(1)]]]
    with accepted batch step(2,3) show ?thesis by (simp add: defs)
  qed
qed

lemma adapter_snapshot_agrees:
  assumes "adapter_related C max_size s r"
  shows "agree (adapter_snapshot_request max_size s operation) (reference_snapshot_request r operation)
    (adapter_related C max_size)"
proof -
  let ?sc = "apd_scenario s" and ?p = "apd_projection s"
  have rel: "tracks ?p (rsd_projection r)" "spec_matches (bp_numeric_spec ?p) (as_projection_numeric_spec ?sc)"
    "bp_policy ?p = core_policy (as_projection_policy ?sc)" "64 \<le> max_size" "max_size \<le> SIZE_MAX"
    and side: "rsd_mode r = ReplayAdapterEnabled" "rsd_adapter r = reference_dimensions ?sc"
    "rsd_projection_policy r = as_projection_policy ?sc" "rsd_expected_symbol r = as_expected_symbol ?sc"
    using assms by (auto simp: adapter_related_def adapter_environment_def projections_related_def scenario_related_def)
  have checkpoint: "reference_checkpoint r = production_checkpoint ?p"
    using assms by (intro checkpoint_agrees) (simp add: adapter_related_def)
  note failed = agree_adapter_observation[OF assms]
  note depth = depth_limit_predicted[of "sr_depth_limit operation"]
  show ?thesis
  proof (cases "replay_depth_limit (sr_depth_limit operation)")
    case (Inl e)
    with depth failed show ?thesis
      by (auto simp: adapter_snapshot_request_def reference_snapshot_request_def side predict_snapshot_def Let_def)
  next
    case (Inr limit)
    with depth have limit: "validate_depth_limit (sr_depth_limit operation) = None"
      "map_option (\<lambda>l. nat (depth_limit_value l)) limit = sr_depth_limit operation" by simp_all
    let ?made = "make_local_order_book_snapshot max_size ?p (replay_snapshot_context ?sc operation)
      \<lparr>so_depth_limit = limit, so_host_quality_facts = map host_fact (sr_host_quality_facts operation)\<rparr>"
    let ?predicted = "predict_snapshot (reference_dimensions ?sc) (rsd_projection r) operation"
    have made: "matches ?made ?predicted (\<lambda>produced predicted. extract_snapshot_observation produced (bp_policy ?p) =
        Inr (predicted_outcome ?sc operation predicted))"
      by (rule snapshot_predicted[OF rel limit])
    show ?thesis
    proof (cases ?made)
      case e: (Inl e)
      with made obtain f where "?predicted = Inl f" by (cases ?predicted) simp_all
      with e made failed Inr show ?thesis
        by (simp add: adapter_snapshot_request_def reference_snapshot_request_def side)
    next
      case produced: (Inr produced)
      with made obtain predicted where "?predicted = Inr predicted" by (cases ?predicted) simp_all
      with produced made Inr assms checkpoint show ?thesis
        by (simp add: adapter_snapshot_request_def reference_snapshot_request_def side agree_def
            adapter_snapshot_observation_def reference_snapshot_observation_def predicted_outcome_def
            snapshot_observation_def)
    qed
  qed
qed

subsection \<open>Lockstep\<close>

lemma adapter_on_projection:
  assumes "adapter_related C max_size s r"
    and "agree (step (apd_projection s)) R (same_projection_frame (apd_projection s) r)"
    and "\<And>ob p'. step (apd_projection s) = Some (ob, p') \<Longrightarrow> bp_policy p' = bp_policy (apd_projection s)"
  shows "agree (on_projection step s) R (adapter_related C max_size)"
proof -
  obtain ob p' m' where step: "step (apd_projection s) = Some (Some ob, p')"
    "R = Some (Some ob, r\<lparr>rsd_projection := m'\<rparr>)" "oo_result ob \<noteq> RangeOutcome False"
    "projections_related p' (r\<lparr>rsd_projection := m'\<rparr>)"
    using assms(2) unfolding agree_def same_projection_frame_def by metis
  then have "adapter_related C max_size (s\<lparr>apd_projection := p'\<rparr>) (r\<lparr>rsd_projection := m'\<rparr>)"
    using assms(1,3) by (simp add: adapter_related_def scenario_related_def projections_related_def)
  with step show ?thesis by (simp add: agree_def on_projection_def)
qed

lemma production_install_policy:
  "production_install p i bids asks = Some (ob, p') \<Longrightarrow> bp_policy p' = bp_policy p"
  by (auto simp: production_install_def production_observation_def Let_def install_policy
      split: option.splits prod.splits)

lemma adapter_step:
  assumes "adapter_related C max_size s r" "admissible op"
  shows "agree (adapter_production_observe C max_size s op) (reference_observe r op) (adapter_related C max_size)"
proof -
  note rel = related_sides(1)[OF assms(1)] and mode = related_sides(2)[OF assms(1)]
    and spec = related_sides(7)[OF assms(1)]
  show ?thesis
  proof (cases op)
    case (InstallBaselineOp src i bids asks)
    with assms mode show ?thesis
      by (auto simp: admissible_def reference_observe_install_def intro!: adapter_install_agrees)
  next
    case (RebaselineOp src i bids asks)
    with assms rel spec admissible_runnable[OF assms(2)] show ?thesis
      by (auto simp: reference_observe_install_def production_install_policy
          intro!: adapter_on_projection install_agrees)
  next
    case (DepthUpdateOp src first_id final_id previous levels)
    with assms show ?thesis by (auto simp: admissible_def intro!: adapter_depth_update_agrees)
  next
    case (ResetOp src)
    have "agree (production_observation ResetOutcome [] (BookProjection_reset (apd_projection s)))
        (reference_observation ResetOutcome [] (r\<lparr>rsd_projection := rp_reset (rsd_projection r)\<rparr>))
        (same_projection_frame (apd_projection s) r)"
      by (rule agree_observation[OF related_reset[OF rel]])
        (simp_all add: same_projection_frame_def related_reset[OF rel], simp add: BookProjection_reset_def)
    with assms(1) ResetOp show ?thesis
      by (auto simp: production_observation_def BookProjection_reset_def intro!: adapter_on_projection)
  next
    case (SnapshotRequestOp src request)
    with assms(1) show ?thesis by (simp add: adapter_snapshot_agrees)
  next
    case (AdapterMetadataOp src facts)
    have "adapter_related C max_size (s\<lparr>apd_pending_metadata := facts\<rparr>) (r\<lparr>rsd_pending_metadata := facts\<rparr>)"
      using assms(1) by (simp add: adapter_related_def scenario_related_def)
    with AdapterMetadataOp mode show ?thesis by (simp add: agree_adapter_observation)
  next
    case (MalformedRangeOp src first_id final_id)
    with assms show ?thesis
      by (simp add: agree_adapter_observation admissible_def UpdateRange_try_create_def)
  qed
qed

interpretation adapter_replay: lockstep_sides "adapter_production_observe C max_size" reference_observe
  "adapter_related C max_size" admissible for C max_size
  using adapter_step by unfold_locales (simp add: agree_def)

lemma adapter_sides_start:
  assumes "adapter_environment C max_size" "spec_ok (as_conversion_numeric_spec sc)" "spec_ok (as_projection_numeric_spec sc)"
  obtains s where "make_adapter_production_side sc = Some s"
    "adapter_related C max_size s (make_reference_side ReplayAdapterEnabled sc)"
proof -
  obtain spec where spec: "core_numeric_spec (as_projection_numeric_spec sc) = Some spec"
    "spec_matches spec (as_projection_numeric_spec sc)"
    using assms(3) by (rule required_spec)
  let ?p = "BookProjection_create spec (core_policy (as_projection_policy sc))"
  show ?thesis
  proof (rule that[of "\<lparr>apd_projection = ?p, apd_scenario = sc, apd_pending_metadata = []\<rparr>"])
    show "make_adapter_production_side sc = Some \<lparr>apd_projection = ?p, apd_scenario = sc, apd_pending_metadata = []\<rparr>"
      using spec by (simp add: make_adapter_production_side_def)
    have "bp_numeric_spec ?p = spec" "bp_policy ?p = core_policy (as_projection_policy sc)"
      by (simp_all add: BookProjection_create_def)
    moreover have "tracks ?p (ReferenceProjection_create (if as_projection_policy sc = PolicySpot then RefSpot else RefUsdM))"
      using tracks_create[of spec "core_policy (as_projection_policy sc)"]
      by (cases "as_projection_policy sc") (simp_all add: core_policy_def)
    ultimately show "adapter_related C max_size \<lparr>apd_projection = ?p, apd_scenario = sc, apd_pending_metadata = []\<rparr>
        (make_reference_side ReplayAdapterEnabled sc)"
      using spec assms
      by (simp add: adapter_related_def scenario_related_def projections_related_def make_reference_side_def)
  qed
qed

end
