(* ===== verification/Replay_Fuzz.thy ===== *)
theory Replay_Fuzz
  imports Replay_Lockstep
begin

text \<open>
  The differential replay fuzz target, \<open>fuzz/replay_fuzz.cpp\<close>: an input is decoded, the two sides of
  the mode it asks for are built, and the driver compares them on every event.  The result is shown
  never to be the abort the target reserves for a divergence.
\<close>

subsection \<open>The target\<close>

text \<open>
  The run of a case, up to the outcome of the driver.  \<open>adapter_build\<close> is
  \<open>BMD_PROJECTION_FUZZ_ADAPTER_ENABLED\<close>; \<open>Some None\<close> is the return before any side is built, in a build
  without the adapter.  The outer \<open>None\<close> is an exception, which no caller catches.
\<close>

definition structured_fuzz_outcome ::
  "bool \<Rightarrow> contracts \<Rightarrow> nat \<Rightarrow> fuzz_case \<Rightarrow> replay_outcome option option" where
  "structured_fuzz_outcome adapter_build C max_size fuzz_case =
     (let fixture = build_structured_fixture fuzz_case;
          replay_mode = (if fc_mode fuzz_case = AdapterEnabled then ReplayAdapterEnabled else ReplayCoreOnly)
      in
      if replay_mode = ReplayAdapterEnabled then
        (if adapter_build then
           let scenario = fuzz_scenario fuzz_case in
           (case make_adapter_production_side scenario of
              None \<Rightarrow> None
            | Some production \<Rightarrow>
                map_option Some (ReplayDriver_run (adapter_production_observe C max_size) reference_observe fixture
                  RetainNone production (make_reference_side replay_mode scenario)))
         else Some None)
      else
        (case make_core_production_side fixture of
           None \<Rightarrow> None
         | Some production \<Rightarrow>
             map_option Some (ReplayDriver_run core_production_observe reference_observe fixture RetainNone
               production (make_reference_side replay_mode (default_adapter_scenario fixture)))))"

text \<open>\<open>None\<close> is the end of the process: \<open>std::abort\<close> on a divergence, or an exception.\<close>

definition run_structured_fuzz_case :: "bool \<Rightarrow> contracts \<Rightarrow> nat \<Rightarrow> fuzz_case \<Rightarrow> unit option" where
  "run_structured_fuzz_case adapter_build C max_size fuzz_case =
     (case structured_fuzz_outcome adapter_build C max_size fuzz_case of
        None \<Rightarrow> None
      | Some None \<Rightarrow> Some ()
      | Some (Some outcome) \<Rightarrow> if ro_first_divergence outcome \<noteq> None then None else Some ())"

definition replay_fuzz_one_input :: "bool \<Rightarrow> contracts \<Rightarrow> nat \<Rightarrow> uint8 list \<Rightarrow> int option" where
  "replay_fuzz_one_input adapter_build C max_size data =
     (if length data < 1 then Some 0
      else case decode data of
        None \<Rightarrow> None
      | Some None \<Rightarrow> Some 0
      | Some (Some fuzz_case) \<Rightarrow>
          map_option (\<lambda>_. 0) (run_structured_fuzz_case adapter_build C max_size fuzz_case))"

subsection \<open>Properties\<close>

lemma decode_returns: "decode data \<noteq> None"
proof -
  have "fst (run_state decode_case \<lparr>bc_data = data, bc_offset = 0\<rparr>) \<noteq> None"
    using reads_case[unfolded reads_def, THEN spec, of "\<lparr>bc_data = data, bc_offset = 0\<rparr>"] by simp
  then show ?thesis by (simp add: decode_def)
qed

lemma case_operations_admissible:
  assumes "case_ok c"
  shows "list_all admissible (fc_operations c)"
  unfolding list_all_length
proof (intro allI impI)
  fix i assume "i < length (fc_operations c)"
  with assms have "operation_ok i (fc_operations c ! i)" "i \<le> kMaxOperations" by (simp_all add: case_ok_def)
  then show "admissible (fc_operations c ! i)" by (simp add: admissible_def operation_ok_index)
qed

lemma case_operations_runnable: "case_ok c \<Longrightarrow> list_all core_runnable (fc_operations c)"
  using case_operations_admissible[of c] admissible_runnable by (auto simp: list_all_iff)

lemma fixture_fields [simp]:
  "fi_numeric_spec (rf_identity (build_structured_fixture c)) = fc_numeric_spec c"
  "nr_operations (rf_replay (build_structured_fixture c)) = fc_operations c"
  by (simp_all add: build_structured_fixture_def Let_def)

lemma scenario_specs_ok:
  assumes "case_ok c"
  shows "spec_ok (as_conversion_numeric_spec (fuzz_scenario c))" "spec_ok (as_projection_numeric_spec (fuzz_scenario c))"
  using assms by (simp_all add: case_ok_def fuzz_scenario_def)

text \<open>A run that compared every event and found no difference.\<close>

definition complete_run :: "fuzz_case \<Rightarrow> replay_outcome \<Rightarrow> bool" where
  "complete_run c outcome \<longleftrightarrow> ro_first_divergence outcome = None \<and>
     ro_processed_events outcome = length (fc_operations c) \<and>
     counted_events (ro_summary outcome) = length (fc_operations c)"

lemma core_fuzz_run:
  assumes "case_ok c" "fc_mode c = CoreOnly"
  obtains outcome where "structured_fuzz_outcome adapter_build C max_size c = Some (Some outcome)" "complete_run c outcome"
proof -
  let ?fixture = "build_structured_fixture c"
  obtain p where p: "make_core_production_side ?fixture = Some p"
    "core_related p (make_reference_side ReplayCoreOnly (default_adapter_scenario ?fixture))"
    by (rule core_sides_start[of ?fixture]) (use assms(1) in \<open>simp_all add: case_ok_def\<close>)
  obtain outcome where "ReplayDriver_run core_production_observe reference_observe ?fixture RetainNone p
      (make_reference_side ReplayCoreOnly (default_adapter_scenario ?fixture)) = Some outcome"
    "ro_first_divergence outcome = None" "ro_processed_events outcome = length (fc_operations c)"
    "counted_events (ro_summary outcome) = length (fc_operations c)"
    using core_replay.run_agrees[OF p(2), of ?fixture RetainNone] case_operations_runnable[OF assms(1)] by auto
  with p assms(2) that show ?thesis by (simp add: structured_fuzz_outcome_def complete_run_def)
qed

lemma adapter_fuzz_run:
  assumes "adapter_environment C max_size" "case_ok c" "fc_mode c = AdapterEnabled"
  obtains outcome where "structured_fuzz_outcome True C max_size c = Some (Some outcome)" "complete_run c outcome"
proof -
  let ?fixture = "build_structured_fixture c" and ?scenario = "fuzz_scenario c"
  obtain s where s: "make_adapter_production_side ?scenario = Some s"
    "adapter_related C max_size s (make_reference_side ReplayAdapterEnabled ?scenario)"
    by (rule adapter_sides_start[OF assms(1) scenario_specs_ok[OF assms(2)]])
  obtain outcome where "ReplayDriver_run (adapter_production_observe C max_size) reference_observe ?fixture RetainNone s
      (make_reference_side ReplayAdapterEnabled ?scenario) = Some outcome"
    "ro_first_divergence outcome = None" "ro_processed_events outcome = length (fc_operations c)"
    "counted_events (ro_summary outcome) = length (fc_operations c)"
    using adapter_replay.run_agrees[OF s(2), of ?fixture RetainNone] case_operations_admissible[OF assms(2)] by auto
  with s assms(3) that show ?thesis by (simp add: structured_fuzz_outcome_def complete_run_def)
qed

lemma fuzz_case_runs:
  assumes "adapter_environment C max_size" "case_ok c"
  shows "if adapter_build \<or> fc_mode c = CoreOnly
    then \<exists>outcome. structured_fuzz_outcome adapter_build C max_size c = Some (Some outcome) \<and> complete_run c outcome
    else structured_fuzz_outcome adapter_build C max_size c = Some None"
proof (cases "fc_mode c")
  case CoreOnly
  with core_fuzz_run[OF assms(2)] show ?thesis by (metis (full_types))
next
  case AdapterEnabled
  show ?thesis
  proof (cases adapter_build)
    case True
    with adapter_fuzz_run[OF assms AdapterEnabled] show ?thesis by (metis (full_types))
  next
    case False
    with AdapterEnabled show ?thesis by (simp add: structured_fuzz_outcome_def)
  qed
qed

text \<open>
  C4: the replay fuzz target never aborts.  On every input, in a build with or without the adapter,
  the target returns 0.  Whenever the input decodes and its mode is available, the driver compares
  the production side with the independent reference on every one of the decoded events, finds no
  divergence in any decimal, result, state, book or snapshot, and counts each event once; a case that
  asks for the adapter in a build without it is dropped without a comparison.
\<close>

theorem replay_fuzz_never_aborts:
  assumes "adapter_environment C max_size"
  shows "replay_fuzz_one_input adapter_build C max_size data = Some 0 \<and>
    (\<forall>c. decode data = Some (Some c) \<longrightarrow>
       (if adapter_build \<or> fc_mode c = CoreOnly
        then \<exists>outcome. structured_fuzz_outcome adapter_build C max_size c = Some (Some outcome) \<and>
          complete_run c outcome
        else structured_fuzz_outcome adapter_build C max_size c = Some None))"
proof -
  have runs: "if adapter_build \<or> fc_mode c = CoreOnly
      then \<exists>outcome. structured_fuzz_outcome adapter_build C max_size c = Some (Some outcome) \<and> complete_run c outcome
      else structured_fuzz_outcome adapter_build C max_size c = Some None"
    if "decode data = Some (Some c)" for c
    using fuzz_case_runs[OF assms decoded_case_ok[OF that]] .
  have "replay_fuzz_one_input adapter_build C max_size data = Some 0"
  proof (cases "decode data")
    case (Some o1)
    show ?thesis
    proof (cases o1)
      case c: (Some c)
      have "run_structured_fuzz_case adapter_build C max_size c = Some ()"
        using runs[of c] Some c by (auto simp: run_structured_fuzz_case_def complete_run_def split: if_splits)
      with Some c show ?thesis by (simp add: replay_fuzz_one_input_def)
    qed (simp add: replay_fuzz_one_input_def Some)
  qed (simp add: decode_returns)
  with runs show ?thesis by blast
qed

lemma example_environment: "adapter_environment example_contracts 64"
proof -
  have "unknown_enum_free example_contracts"
    by (auto simp: unknown_enum_free_def example_contracts_def kRawUnknownEnumNumericValue_def
        split: market.splits venue.splits)
  then show ?thesis by (simp add: adapter_environment_def example_contracts_ok)
qed

theorem replay_fuzz_never_aborts_witness:
  "adapter_environment example_contracts 64 \<and> replay_fuzz_one_input True example_contracts 64 [1, 4, 0, 1, 3] = Some 0 \<and>
   (\<exists>c outcome. decode [1, 4, 0, 1, 3] = Some (Some c) \<and>
      structured_fuzz_outcome True example_contracts 64 c = Some (Some outcome) \<and> complete_run c outcome)"
proof -
  note runs = replay_fuzz_never_aborts[OF example_environment, of True "[1, 4, 0, 1, 3]"]
  obtain c where c: "decode [1, 4, 0, 1, 3] = Some (Some c)" using decode_reset_example by blast
  from runs c have "\<exists>outcome. structured_fuzz_outcome True example_contracts 64 c = Some (Some outcome) \<and> complete_run c outcome"
    by (metis (full_types))
  with runs c example_environment show ?thesis by blast
qed

text \<open>
  The driver does not overlook a side that stops observing: with the core-only sides of a case, a
  production side that gives no observation at one event is reported at that event, as a fault of
  the composition.
\<close>

lemma lost_observation_reported:
  assumes "case_ok c" "core_related p r" "k < length (fc_operations c)"
  shows "\<exists>out d. ReplayDriver_run (FailingSide k core_production_observe) reference_observe
      (build_structured_fixture c) retention (0, p) r = Some out \<and> ro_first_divergence out = Some d \<and>
    ro_processed_events out = k + 1 \<and> dv_event_index d = k \<and> dv_layer d = LayerD \<and> dv_category d = Composition"
  using core_replay.run_loop_failing[OF assms(2) case_operations_runnable[OF assms(1)], of 0 k empty_outcome
      "build_structured_fixture c" retention] assms(3)
  by (simp add: ReplayDriver_run_def empty_outcome_def)

end
