(* ===== verification/Separated_Text.thy ===== *)
theory Separated_Text
  imports Prelude
begin

text \<open>
  Text cut at a separator.  A \<open>std::string_view\<close> is a list of characters and a position a natural
  number, \<open>npos\<close> being \<open>None\<close>.  The readers of replay logs and manifests cut lines, tokens and lists
  with one loop; it is shown to be a traversal of the parts, and the locale \<open>item_codec\<close> turns the
  exactness of an item's reader into that of a separated list.
\<close>

subsection \<open>Cutting a text at a separator\<close>

definition sv_find :: "char \<Rightarrow> string \<Rightarrow> nat \<Rightarrow> nat option" where
  "sv_find c s start =
     (let skipped = length (takeWhile (\<lambda>x. x \<noteq> c) (drop start s)) in
      if start + skipped < length s then Some (start + skipped) else None)"

definition sv_substr :: "string \<Rightarrow> nat \<Rightarrow> nat \<Rightarrow> string" where
  "sv_substr s position count = take count (drop position s)"

text \<open>\<open>find("cc")\<close> succeeds.\<close>

fun has_double :: "char \<Rightarrow> string \<Rightarrow> bool" where
  "has_double c (x # y # s) \<longleftrightarrow> (x = c \<and> y = c) \<or> has_double c (y # s)"
| "has_double c _ \<longleftrightarrow> False"

lemma sv_find_ge: "sv_find c s start = Some stop \<Longrightarrow> start \<le> stop \<and> stop < length s"
  by (auto simp: sv_find_def Let_def split: if_splits)

text \<open>
  The loop all readers of the replay support share: from \<open>start\<close>, find the next separator, hand the
  part in between to \<open>parse\<close> with its number, stop at the first failure, collect the values.
\<close>

function parts_loop ::
  "char \<Rightarrow> string \<Rightarrow> (nat \<Rightarrow> string \<Rightarrow> 'e + 'a) \<Rightarrow> nat \<Rightarrow> nat \<Rightarrow> 'a list \<Rightarrow> 'e + 'a list" where
  "parts_loop sep s parse start item collected =
     (if start < length s then
        let stop = sv_find sep s start;
            part = sv_substr s start (case stop of None \<Rightarrow> length s - start | Some e \<Rightarrow> e - start)
        in case parse item part of
             Inl failure \<Rightarrow> Inl failure
           | Inr v \<Rightarrow>
               (case stop of
                  None \<Rightarrow> Inr (collected @ [v])
                | Some e \<Rightarrow> parts_loop sep s parse (e + 1) (item + 1) (collected @ [v]))
      else Inr collected)"
  by pat_completeness auto
termination
  by (relation "measure (\<lambda>(sep, s, parse, start, item, collected). length s - start)")
    (auto dest!: sym[of "Some _"] sv_find_ge)

declare parts_loop.simps [simp del]

text \<open>The loop where the parts themselves are collected.\<close>

definition split_at :: "char \<Rightarrow> string \<Rightarrow> string list" where
  "split_at sep s =
     (case parts_loop sep s (\<lambda>item part. Inr part :: unit + string) 0 0 [] of Inl _ \<Rightarrow> [] | Inr parts \<Rightarrow> parts)"

subsection \<open>The parts of a text\<close>

text \<open>What the loop visits: a separator at the very end opens no further part.\<close>

function split_parts :: "char \<Rightarrow> string \<Rightarrow> string list" where
  "split_parts sep s =
     (if s = [] then []
      else takeWhile (\<lambda>c. c \<noteq> sep) s # split_parts sep (tl (dropWhile (\<lambda>c. c \<noteq> sep) s)))"
  by pat_completeness auto
termination
proof (relation "measure (\<lambda>(sep, s). length s)", goal_cases)
  case (2 sep s)
  then have "0 < length s" by simp
  then show ?case
    using length_dropWhile_le[of "\<lambda>c. c \<noteq> sep" s] by (simp del: length_greater_0_conv)
qed simp

declare split_parts.simps [simp del]

fun traverse :: "(nat \<Rightarrow> 'p \<Rightarrow> 'e + 'a) \<Rightarrow> nat \<Rightarrow> 'p list \<Rightarrow> 'e + 'a list" where
  "traverse f i [] = Inr []"
| "traverse f i (p # ps) =
     bind_result (f i p) (\<lambda>v. bind_result (traverse f (i + 1) ps) (\<lambda>vs. Inr (v # vs)))"

fun join :: "char \<Rightarrow> string list \<Rightarrow> string" where
  "join sep [] = []"
| "join sep [p] = p"
| "join sep (p # q # ps) = p @ sep # join sep (q # ps)"

definition unlines :: "char \<Rightarrow> string list \<Rightarrow> string" where
  "unlines sep ps = concat (map (\<lambda>p. p @ [sep]) ps)"

lemma split_parts_Nil [simp]: "split_parts sep [] = []"
  by (simp add: split_parts.simps)

lemma split_parts_Nil_iff [simp]: "split_parts sep s = [] \<longleftrightarrow> s = []"
  by (simp add: split_parts.simps)

lemma split_parts_append [simp]:
  assumes "sep \<notin> set p"
  shows "split_parts sep (p @ sep # s) = p # split_parts sep s"
    and "p \<noteq> [] \<Longrightarrow> split_parts sep p = [p]"
proof -
  have cs: "\<forall>c\<in>set p. c \<noteq> sep" using assms by auto
  then show "split_parts sep (p @ sep # s) = p # split_parts sep s"
    by (subst split_parts.simps) (simp add: takeWhile_append2 dropWhile_append2)
  have all: "takeWhile (\<lambda>c. c \<noteq> sep) p = p" "dropWhile (\<lambda>c. c \<noteq> sep) p = []"
    using cs by (simp_all add: takeWhile_eq_all_conv)
  show "p \<noteq> [] \<Longrightarrow> split_parts sep p = [p]"
    by (subst split_parts.simps) (simp add: all)
qed

lemma split_parts_split:
  assumes "s \<noteq> []"
  obtains (only) "sep \<notin> set s" "split_parts sep s = [s]"
  | (more) p r where "s = p @ sep # r" "sep \<notin> set p" "split_parts sep s = p # split_parts sep r"
proof (cases "sep \<in> set s")
  case False
  with assms show ?thesis by (intro only) simp_all
next
  case True
  then obtain p r where "s = p @ sep # r" "sep \<notin> set p" by (metis split_list_first)
  then show ?thesis by (intro more) simp_all
qed

lemma bind_result_assoc: "bind_result (bind_result r f) g = bind_result r (\<lambda>x. bind_result (f x) g)"
  by (cases r) simp_all

lemma parts_loop_traverse:
  assumes "start \<le> length s"
  shows "parts_loop sep s f start item collected =
    bind_result (traverse f item (split_parts sep (drop start s))) (\<lambda>vs. Inr (collected @ vs))"
  using assms
proof (induction sep s f start item collected rule: parts_loop.induct)
  case (1 sep s f start item collected)
  show ?case
  proof (cases "start < length s")
    case False
    with 1 show ?thesis by (simp add: parts_loop.simps)
  next
    case True
    then have "drop start s \<noteq> []" by simp
    then show ?thesis
    proof (cases rule: split_parts_split[where sep = sep])
      case only
      then have all: "takeWhile (\<lambda>c. c \<noteq> sep) (drop start s) = drop start s"
        by (auto simp: takeWhile_eq_all_conv)
      with only True show ?thesis
        by (subst parts_loop.simps)
          (simp add: sv_find_def sv_substr_def Let_def all bind_result_def split: sum.split)
    next
      case (more p r)
      then have skipped: "takeWhile (\<lambda>c. c \<noteq> sep) (drop start s) = p"
        by (auto simp: takeWhile_append2 takeWhile_tail)
      have "length s - start = length p + Suc (length r)"
        using arg_cong[OF more(1), of length] by simp
      then have len: "start + length p < length s" by simp
      have "drop (start + length p + 1) s = r"
        using arg_cong[OF more(1), of "drop (length p + 1)"] by (simp add: add.commute add.left_commute)
      moreover have "take (length p) (drop start s) = p" using more(1) by simp
      ultimately show ?thesis
        using "1.IH"[OF True refl refl] more len True skipped
        by (subst parts_loop.simps) (simp add: sv_find_def sv_substr_def Let_def bind_result_assoc split: sum.split)
    qed
  qed
qed

lemma parts_loop_parts:
  "parts_loop sep s f 0 0 [] = traverse f 0 (split_parts sep s)"
  by (simp add: parts_loop_traverse bind_result_def split: sum.split)

lemma split_at_parts: "split_at sep s = split_parts sep s"
proof -
  have "traverse (\<lambda>item part. Inr part :: unit + string) i ps = Inr ps" for i ps
    by (induction ps arbitrary: i) simp_all
  then show ?thesis by (simp add: split_at_def parts_loop_parts)
qed

subsection \<open>Searching\<close>

lemma first_cut_unique:
  assumes "p @ c # q = p' @ c # q'" "c \<notin> set p" "c \<notin> set p'"
  shows "p = p' \<and> q = q'"
proof -
  have "takeWhile (\<lambda>x. x \<noteq> c) (r @ c # t) = r" if "c \<notin> set r" for r t
    using that by (auto simp: takeWhile_append2 takeWhile_tail)
  with assms have "p = p'" by metis
  with assms(1) show ?thesis by simp
qed

lemma sv_find_Some_iff:
  assumes "start \<le> length s"
  shows "sv_find c s start = Some n \<longleftrightarrow>
    (\<exists>p q. drop start s = p @ c # q \<and> c \<notin> set p \<and> n = start + length p)"
proof (cases "c \<in> set (drop start s)")
  case True
  then obtain p q where split: "drop start s = p @ c # q" "c \<notin> set p" by (metis split_list_first)
  then have "takeWhile (\<lambda>x. x \<noteq> c) (drop start s) = p" by (auto simp: takeWhile_append2 takeWhile_tail)
  moreover have "length s - start = length p + Suc (length q)"
    using arg_cong[OF split(1), of length] by simp
  ultimately have "sv_find c s start = Some (start + length p)" by (simp add: sv_find_def Let_def)
  then show ?thesis using split by (auto dest: first_cut_unique)
next
  case False
  then have "takeWhile (\<lambda>x. x \<noteq> c) (drop start s) = drop start s" by (auto simp: takeWhile_eq_all_conv)
  then have "sv_find c s start = None" using assms by (simp add: sv_find_def Let_def del: takeWhile_eq_all_conv)
  with False show ?thesis by auto
qed

lemma sv_find_None_iff:
  assumes "start \<le> length s"
  shows "sv_find c s start = None \<longleftrightarrow> c \<notin> set (drop start s)"
  using sv_find_Some_iff[OF assms, of c] by (metis in_set_conv_decomp not_None_eq split_list_first)

text \<open>Cutting at the only separator.\<close>

lemma cut_at_unique:
  assumes "start \<le> length s"
  shows "sv_find c s start = Some n \<and> sv_find c s (n + 1) = None \<longleftrightarrow>
    (\<exists>p q. drop start s = p @ c # q \<and> c \<notin> set p \<and> c \<notin> set q \<and> n = start + length p)"
proof -
  have "sv_find c s (n + 1) = None \<longleftrightarrow> c \<notin> set q" if "drop start s = p @ c # q" "n = start + length p" for p q
  proof -
    have "length s - start = length p + Suc (length q)" using arg_cong[OF that(1), of length] by simp
    then have "n + 1 \<le> length s" using that(2) by simp
    moreover have "drop (n + 1) s = q"
      using arg_cong[OF that(1), of "drop (length p + 1)"] that(2) by (simp add: add.commute add.left_commute)
    ultimately show ?thesis by (simp add: sv_find_None_iff)
  qed
  with sv_find_Some_iff[OF assms] show ?thesis by metis
qed

lemma cut_token:
  "(\<exists>n. sv_find c t 0 = Some n \<and> sv_find c t (n + 1) = None \<and> sv_substr t 0 n = p \<and>
      sv_substr t (n + 1) (length t) = q) \<longleftrightarrow> t = p @ c # q \<and> c \<notin> set p \<and> c \<notin> set q" (is "?L \<longleftrightarrow> ?R")
proof
  assume ?L
  then obtain n where n: "sv_find c t 0 = Some n \<and> sv_find c t (n + 1) = None"
    and pq: "sv_substr t 0 n = p" "sv_substr t (n + 1) (length t) = q" by blast
  from n obtain p' q' where "t = p' @ c # q'" "c \<notin> set p'" "c \<notin> set q'" "n = length p'"
    by (subst (asm) cut_at_unique) auto
  with pq show ?R by (auto simp: sv_substr_def)
next
  assume ?R
  then have "sv_find c t 0 = Some (length p) \<and> sv_find c t (length p + 1) = None"
    by (subst cut_at_unique) auto
  with \<open>?R\<close> show ?L by (intro exI[of _ "length p"]) (simp add: sv_substr_def)
qed

subsection \<open>Well-separated text\<close>

text \<open>The condition the list readers check first: no part is empty.\<close>

definition well_separated :: "char \<Rightarrow> string \<Rightarrow> bool" where
  "well_separated sep s \<longleftrightarrow> s \<noteq> [] \<and> hd s \<noteq> sep \<and> last s \<noteq> sep \<and> \<not> has_double sep s"

lemma split_parts_sep_free: "p \<in> set (split_parts sep s) \<Longrightarrow> sep \<notin> set p"
proof (induction sep s rule: split_parts.induct)
  case (1 sep s)
  then show ?case
    by (subst (asm) split_parts.simps) (auto dest: set_takeWhileD split: if_splits)
qed

lemma join_Cons: "ps \<noteq> [] \<Longrightarrow> join sep (p # ps) = p @ sep # join sep ps"
  by (cases ps) simp_all

lemma join_parts:
  assumes "s \<noteq> []" "last s \<noteq> sep"
  shows "join sep (split_parts sep s) = s"
  using assms
proof (induction s rule: length_induct)
  case (1 s)
  from \<open>s \<noteq> []\<close> show ?case
  proof (cases rule: split_parts_split[where sep = sep])
    case (more p r)
    with 1 have "r \<noteq> []" "last r \<noteq> sep" "length r < length s" by auto
    with 1 more show ?thesis by (simp add: join_Cons)
  qed simp
qed

lemma has_double_append: "has_double c s \<Longrightarrow> has_double c (p @ s)"
proof (induction p)
  case (Cons x p)
  then show ?case by (cases "p @ s") auto
qed simp

lemma has_double_sep_free: "c \<notin> set p \<Longrightarrow> has_double c (p @ s) \<longleftrightarrow> has_double c s"
proof (induction p)
  case (Cons x p)
  then show ?case by (cases "p @ s") auto
qed simp

lemma has_double_head: "has_double c (c # s) \<longleftrightarrow> (s \<noteq> [] \<and> hd s = c) \<or> has_double c s"
  by (cases s) auto

lemma split_parts_nonempty:
  assumes "s \<noteq> []" "hd s \<noteq> sep" "\<not> has_double sep s" "p \<in> set (split_parts sep s)"
  shows "p \<noteq> []"
  using assms
proof (induction s rule: length_induct)
  case (1 s)
  from \<open>s \<noteq> []\<close> show ?case
  proof (cases rule: split_parts_split[where sep = sep])
    case (more q r)
    with 1 have r: "r \<noteq> [] \<Longrightarrow> hd r \<noteq> sep" "\<not> has_double sep r" "length r < length s"
      by (auto simp: has_double_sep_free has_double_head)
    have "q \<noteq> []" using more 1 by auto
    with r 1 more show ?thesis by (cases "r = []") auto
  qed (use 1 in auto)
qed

lemma join_well_separated:
  assumes "list_all (\<lambda>p. p \<noteq> [] \<and> sep \<notin> set p) ps" "ps \<noteq> []"
  shows "well_separated sep (join sep ps) \<and> split_parts sep (join sep ps) = ps \<and> hd (join sep ps) = hd (hd ps)"
  using assms
proof (induction ps)
  case (Cons p ps)
  show ?case
  proof (cases "ps = []")
    case True
    with Cons.prems show ?thesis
      using has_double_sep_free[of sep p "[]"] by (auto simp: well_separated_def)
  next
    case False
    with Cons show ?thesis
      by (auto simp: join_Cons well_separated_def has_double_sep_free has_double_head)
  qed
qed simp

lemma well_separated_parts:
  "well_separated sep s \<and> split_parts sep s = ps \<longleftrightarrow>
     ps \<noteq> [] \<and> list_all (\<lambda>p. p \<noteq> [] \<and> sep \<notin> set p) ps \<and> s = join sep ps"
  using join_well_separated[of sep ps] split_parts_nonempty[of s sep] split_parts_sep_free[of _ sep s] join_parts[of s sep]
  by (auto simp: well_separated_def list_all_iff)

text \<open>Lines, each ended by its separator.\<close>

lemma unlines_simps [simp]:
  "unlines sep [] = []" "unlines sep (p # ps) = p @ sep # unlines sep ps"
  by (simp_all add: unlines_def)

lemma parts_unlines: "list_all (\<lambda>p. sep \<notin> set p) ps \<Longrightarrow> split_parts sep (unlines sep ps) = ps"
  by (induction ps) simp_all

lemma unlines_parts: "s = [] \<or> last s = sep \<Longrightarrow> unlines sep (split_parts sep s) = s"
proof (induction s rule: length_induct)
  case (1 s)
  show ?case
  proof (cases "s = []")
    case False
    then show ?thesis
    proof (cases rule: split_parts_split[where sep = sep])
      case only
      with 1 False show ?thesis by (metis last_in_set)
    next
      case (more p r)
      with 1 have "r = [] \<or> last r = sep" "length r < length s" by (auto split: if_splits)
      with 1 more show ?thesis by (cases "r = []") simp_all
    qed
  qed simp
qed

lemma last_unlines: "ps \<noteq> [] \<Longrightarrow> last (unlines sep ps) = sep"
proof (induction ps)
  case (Cons p ps)
  then show ?case by (cases ps) simp_all
qed simp

subsection \<open>Lists of items\<close>

text \<open>
  An item whose reader accepts exactly what the printer writes, wherever the item stands.  The
  reader of a separated list then accepts exactly the printed lists.
\<close>

locale item_codec =
  fixes parse :: "nat \<Rightarrow> string \<Rightarrow> 'e + 'a" and print :: "'a \<Rightarrow> string" and ok :: "'a \<Rightarrow> bool"
    and sep :: char
  assumes item_exact: "parse i t = Inr v \<longleftrightarrow> ok v \<and> t = print v"
    and item_printed: "ok v \<Longrightarrow> print v \<noteq> [] \<and> sep \<notin> set (print v)"
begin

lemma traverse_exact: "traverse parse i ts = Inr vs \<longleftrightarrow> list_all ok vs \<and> ts = map print vs"
proof (induction ts arbitrary: i vs)
  case (Cons t ts)
  then show ?case by (cases vs) (auto simp: result_iffs item_exact)
qed auto

lemma list_exact:
  "well_separated sep t \<and> parts_loop sep t parse 0 0 [] = Inr vs \<longleftrightarrow>
     vs \<noteq> [] \<and> list_all ok vs \<and> t = join sep (map print vs)"
proof -
  have printed: "list_all ok vs \<Longrightarrow> list_all (\<lambda>p. p \<noteq> [] \<and> sep \<notin> set p) (map print vs)"
    using item_printed by (auto simp: list_all_iff)
  have "well_separated sep t \<and> parts_loop sep t parse 0 0 [] = Inr vs \<longleftrightarrow>
      list_all ok vs \<and> well_separated sep t \<and> split_parts sep t = map print vs"
    by (auto simp: parts_loop_parts traverse_exact)
  with printed show ?thesis by (auto simp: well_separated_parts)
qed

lemma list_printed:
  assumes "vs \<noteq> []" "list_all ok vs"
  shows "join sep (map print vs) \<noteq> []" "hd (join sep (map print vs)) = hd (print (hd vs))"
proof -
  have "list_all (\<lambda>p. p \<noteq> [] \<and> sep \<notin> set p) (map print vs)"
    using item_printed assms(2) by (auto simp: list_all_iff)
  from join_well_separated[OF this] assms(1) show "join sep (map print vs) \<noteq> []"
    "hd (join sep (map print vs)) = hd (print (hd vs))"
    by (auto simp: well_separated_def hd_map)
qed

end

lemma set_join: "set (join sep ps) \<subseteq> insert sep (\<Union>(set ` set ps))"
  by (induction sep ps rule: join.induct) auto

end
