(* ===== verification/Canonical_Text.thy ===== *)
theory Canonical_Text
  imports Adapter_Text Separated_Text
begin

text \<open>
  The canonical text of replay logs and manifests (\<open>tests/m5/replay/canonical_text.cpp\<close>): the errors
  of the readers, the byte discipline and unsigned integers.
\<close>

unbundle bit_operations_syntax

subsection \<open>Errors\<close>

datatype error_category =
  IoFailure | InvalidCanonicalBytes | ReplaySyntax | UnsupportedSchema | ManifestParse |
  IdentityMismatch | EventCountMismatch | InvalidMetadata

record parse_error =
  pe_category :: error_category
  pe_line_number :: nat
  pe_event_index :: nat
  pe_token_index :: nat
  pe_message :: string

type_synonym 'a parsed = "parse_error + 'a"

definition parse_failure :: "error_category \<Rightarrow> nat \<Rightarrow> nat \<Rightarrow> nat \<Rightarrow> string \<Rightarrow> 'a parsed" where
  "parse_failure category line event token message =
     Inl \<lparr>pe_category = category, pe_line_number = line, pe_event_index = event,
          pe_token_index = token, pe_message = message\<rparr>"

lemma parse_failure_neq [simp]: "parse_failure category line event token message \<noteq> Inr x"
  by (simp add: parse_failure_def)

lemma guard_passed: "(if P then parse_failure category line event token message else r) = Inr x \<longleftrightarrow> \<not> P \<and> r = Inr x"
  by simp

subsection \<open>Bytes\<close>

text \<open>
  The continuation bytes of a code point: \<open>remaining\<close> iterations left, from \<open>offset\<close> on.  The 32-bit
  code point stays below \<open>2 ^ 21\<close>.
\<close>

fun continuation_loop :: "string \<Rightarrow> nat \<Rightarrow> nat \<Rightarrow> nat \<Rightarrow> nat \<Rightarrow> nat option" where
  "continuation_loop bytes index 0 offset code_point = Some code_point"
| "continuation_loop bytes index (Suc remaining) offset code_point =
     (let continuation = char_code (bytes ! (index + offset)) in
      if continuation AND 0xC0 \<noteq> 0x80 then None
      else continuation_loop bytes index remaining (offset + 1)
             (push_bit 6 code_point OR (continuation AND 0x3F)))"

text \<open>The width a lead byte announces and the bits it contributes.\<close>

definition utf8_lead :: "nat \<Rightarrow> (nat \<times> nat) option" where
  "utf8_lead first =
     (if first \<ge> 0xC2 \<and> first \<le> 0xDF then Some (2, first AND 0x1F)
      else if first \<ge> 0xE0 \<and> first \<le> 0xEF then Some (3, first AND 0x0F)
      else if first \<ge> 0xF0 \<and> first \<le> 0xF4 then Some (4, first AND 0x07)
      else None)"

lemma utf8_lead_width: "utf8_lead first = Some (len, start) \<Longrightarrow> 2 \<le> len"
  by (auto simp: utf8_lead_def split: if_splits)

function valid_utf8_from :: "string \<Rightarrow> nat \<Rightarrow> bool" where
  "valid_utf8_from bytes index =
     (if index < length bytes then
        let first = char_code (bytes ! index) in
        if first \<le> 0x7F then valid_utf8_from bytes (index + 1)
        else
          (case utf8_lead first of
             None \<Rightarrow> False
           | Some (len, start) \<Rightarrow>
               if index + len > length bytes then False
               else
                 (case continuation_loop bytes index (len - 1) 1 start of
                    None \<Rightarrow> False
                  | Some code_point \<Rightarrow>
                      if (len = 3 \<and> code_point < 0x800) \<or> (len = 4 \<and> code_point < 0x10000) \<or>
                         code_point > 0x10FFFF \<or> (code_point \<ge> 0xD800 \<and> code_point \<le> 0xDFFF)
                        then False
                      else valid_utf8_from bytes (index + len)))
      else True)"
  by pat_completeness auto
termination
  by (relation "measure (\<lambda>(bytes, index). length bytes - index)")
    (auto dest!: sym[of "Some _"] utf8_lead_width)

declare valid_utf8_from.simps [simp del]

definition valid_utf8 :: "string \<Rightarrow> bool" where
  "valid_utf8 bytes = valid_utf8_from bytes 0"

definition is_forbidden_control :: "char \<Rightarrow> bool" where
  "is_forbidden_control c \<longleftrightarrow>
     char_code c = 0 \<or> c = CHR 0x09 \<or> c = CHR 0x0D \<or> c = CHR 0x0A"

text \<open>The body of the line loop of \<open>validate_canonical_bytes\<close>.\<close>

definition check_canonical_line :: "nat \<Rightarrow> string \<Rightarrow> unit parsed" where
  "check_canonical_line line_number line =
     (if line = [] then
        parse_failure InvalidCanonicalBytes line_number 0 0 ''blank lines are forbidden''
      else if hd line = CHR '' '' \<or> last line = CHR '' '' then
        parse_failure InvalidCanonicalBytes line_number 0 0
          ''leading and trailing whitespace are forbidden''
      else if has_double (CHR '' '') line then
        parse_failure InvalidCanonicalBytes line_number 0 0
          ''token separator must be exactly one ASCII space''
      else if list_ex is_forbidden_control line then
        parse_failure InvalidCanonicalBytes line_number 0 0
          ''tabs, carriage returns, and control whitespace are forbidden''
      else Inr ())"

definition validate_canonical_bytes :: "string \<Rightarrow> unit parsed" where
  "validate_canonical_bytes bytes =
     (if length bytes \<ge> 3 \<and> char_code (bytes ! 0) = 0xEF \<and> char_code (bytes ! 1) = 0xBB \<and>
         char_code (bytes ! 2) = 0xBF then
        parse_failure InvalidCanonicalBytes 1 0 0 ''UTF-8 BOM is forbidden''
      else if \<not> valid_utf8 bytes then
        parse_failure InvalidCanonicalBytes 0 0 0 ''invalid UTF-8''
      else if bytes = [] \<or> last bytes \<noteq> CHR 0x0A then
        parse_failure InvalidCanonicalBytes 0 0 0 ''canonical text requires a final LF''
      else
        bind_result
          (parts_loop (CHR 0x0A) bytes (\<lambda>index line. check_canonical_line (index + 1) line) 0 0 [])
          (\<lambda>_. Inr ()))"

subsection \<open>Integers\<close>

definition is_canonical_integer :: "string \<Rightarrow> bool" where
  "is_canonical_integer token =
     (if token = [] \<or> (length token > 1 \<and> hd token = CHR ''0'') then False
      else list_all is_ascii_digit token)"

text \<open>
  \<open>std::from_chars\<close> on a string of digits reads all of it, and fails exactly when the value does not
  fit the type.
\<close>

definition parse_uint64 :: "string \<Rightarrow> nat \<Rightarrow> nat \<Rightarrow> nat \<Rightarrow> uint64 parsed" where
  "parse_uint64 token line event field =
     (if \<not> is_canonical_integer token then
        parse_failure ReplaySyntax line event field ''unsigned integer is not canonically spelled''
      else if digits_value token > 18446744073709551615 then
        parse_failure ReplaySyntax line event field ''unsigned integer is out of range''
      else Inr (word_of_nat (digits_value token)))"

definition parse_uint32 :: "string \<Rightarrow> nat \<Rightarrow> nat \<Rightarrow> nat \<Rightarrow> nat parsed" where
  "parse_uint32 token line event field =
     bind_result (parse_uint64 token line event field) (\<lambda>v.
       if v > 4294967295 then
         parse_failure ReplaySyntax line event field ''unsigned integer exceeds uint32 range''
       else Inr (unat v))"

subsection \<open>Valid UTF-8\<close>

lemma decode_continuations_loop:
  "decode_continuations v i n offset d =
     map_option (\<lambda>cp. d\<lparr>cp_code_point := cp\<rparr>) (continuation_loop v i n offset (cp_code_point d))"
  by (induction n arbitrary: offset d) (simp_all add: Let_def)

text \<open>One step of the validator, in terms of the decoder of \<open>Adapter_Text\<close>.\<close>

lemma valid_utf8_ascii:
  "i < length v \<Longrightarrow> byte_at v i < 0x80 \<Longrightarrow> valid_utf8_from v i \<longleftrightarrow> valid_utf8_from v (i + 1)"
  by (subst valid_utf8_from.simps) (simp add: byte_at_def)

lemma decode_two_minimum:
  assumes "decode_utf8_symbol_code_point v i = Some d" "byte_at v i \<le> 0xDF"
  shows "0x80 \<le> cp_code_point d"
proof -
  note d = decode_two[OF assms]
  then have "2 \<le> byte_at v i mod 32" using assms(2) by (simp add: lead_mod) linarith
  then have "0x80 \<le> byte_at v i mod 32 * 64 + payload_at v (i + 1)" by linarith
  with d show ?thesis by simp
qed

lemma valid_utf8_step:
  assumes "i < length v" "\<not> byte_at v i < 0x80"
  shows "valid_utf8_from v i \<longleftrightarrow>
    (\<exists>d. decode_utf8_symbol_code_point v i = Some d \<and>
       is_valid_utf8_symbol_code_point (cp_code_point d) (cp_minimum d) \<and> valid_utf8_from v (i + cp_width d))"
proof -
  let ?b = "byte_at v i"
  have unfolded: "valid_utf8_from v i \<longleftrightarrow> (case utf8_lead ?b of None \<Rightarrow> False | Some (len, start) \<Rightarrow>
      i + len \<le> length v \<and> (case continuation_loop v i (len - 1) 1 start of None \<Rightarrow> False
        | Some cp \<Rightarrow> \<not> (len = 3 \<and> cp < 0x800) \<and> \<not> (len = 4 \<and> cp < 0x10000) \<and> cp \<le> 0x10FFFF \<and>
            (cp < 0xD800 \<or> 0xDFFF < cp) \<and> valid_utf8_from v (i + len)))"
    using assms by (subst valid_utf8_from.simps) (auto simp: byte_at_def split: option.split)
  have decoded: "decode_utf8_symbol_code_point v i = (case utf8_lead ?b of None \<Rightarrow> None | Some (len, start) \<Rightarrow>
      if i + len \<le> length v then map_option (\<lambda>cp. \<lparr>cp_width = len, cp_code_point = cp,
        cp_minimum = if len = 2 then 0x80 else if len = 3 then 0x800 else 0x10000\<rparr>) (continuation_loop v i (len - 1) 1 start)
      else None)"
    using assms(1) unfolding decode_utf8_symbol_code_point_def Let_def utf8_lead_def byte_at_def
    by (simp add: decode_continuations_loop not_less less_diff_conv2 comp_def)
  show ?thesis
  proof (cases "utf8_lead ?b")
    case (Some lead)
    then obtain len start where lead: "utf8_lead ?b = Some (len, start)" "len = 2 \<or> len = 3 \<or> len = 4"
      by (cases lead) (auto simp: utf8_lead_def split: if_splits)
    have two: "0x80 \<le> cp" if "len = 2" "continuation_loop v i (len - 1) 1 start = Some cp" "i + len \<le> length v" for cp
    proof -
      have "?b \<le> 0xDF" using that(1) lead(1) by (auto simp: utf8_lead_def split: if_splits)
      with decode_two_minimum[of v i] show ?thesis using that lead by (simp add: decoded)
    qed
    show ?thesis
      using lead two unfolding unfolded decoded
      by (auto simp: is_valid_utf8_symbol_code_point_def not_less split: option.split)
  qed (simp add: unfolded decoded)
qed

interpretation scalar_class: code_point_class scalar_value
  by unfold_locales

lemma valid_utf8_from_iff: "i \<le> length v \<Longrightarrow> valid_utf8_from v i \<longleftrightarrow> text_of scalar_value (drop i v)"
proof (induction "length v - i" arbitrary: i rule: less_induct)
  case less
  consider "i = length v" | "i < length v" "byte_at v i < 0x80" | "i < length v" "\<not> byte_at v i < 0x80"
    using less.prems by linarith
  then show ?case
  proof cases
    case 1
    then show ?thesis by (simp add: valid_utf8_from.simps[of v] scalar_class.text_of_Nil)
  next
    case 2
    then have "scalar_value (byte_at v i)" by (simp add: scalar_value_def)
    with 2 less.hyps[of "i + 1"] show ?thesis
      by (simp add: valid_utf8_ascii scalar_class.text_of_ascii)
  next
    case 3
    have "valid_utf8_from v (i + cp_width d) \<longleftrightarrow> text_of scalar_value (drop (i + cp_width d) v)"
      if "decode_utf8_symbol_code_point v i = Some d" for d
      using decode_width[OF that] 3(1) by (intro less.hyps) auto
    with 3 show ?thesis by (auto simp: valid_utf8_step scalar_class.text_of_multi)
  qed
qed

lemma valid_utf8_iff: "valid_utf8 v \<longleftrightarrow> text_of scalar_value v"
  using valid_utf8_from_iff[of 0 v] by (simp add: valid_utf8_def)

lemma ascii_text: "list_all (\<lambda>c. char_code c < 0x80) v \<Longrightarrow> text_of scalar_value v"
proof (induction v)
  case (Cons c v)
  then have "scalar_value (byte_at (c # v) 0)" by (simp add: byte_at_def scalar_value_def)
  with Cons scalar_class.text_of_ascii[of 0 "c # v"] show ?case by (simp add: byte_at_def)
qed (simp add: scalar_class.text_of_Nil)

subsection \<open>Canonical lines\<close>

definition canonical_line :: "string \<Rightarrow> bool" where
  "canonical_line line \<longleftrightarrow> well_separated (CHR '' '') line \<and> list_all (\<lambda>c. \<not> is_forbidden_control c) line"

lemma check_canonical_line_iff: "check_canonical_line n line = Inr () \<longleftrightarrow> canonical_line line"
  by (auto simp: check_canonical_line_def canonical_line_def well_separated_def list_all_iff list_ex_iff)

lemma canonical_line_no_newline: "canonical_line line \<Longrightarrow> CHR 0x0A \<notin> set line"
  by (auto simp: canonical_line_def list_all_iff is_forbidden_control_def)

lemma traverse_lines:
  "traverse (\<lambda>index. check_canonical_line (Suc index)) i lines = Inr us \<longleftrightarrow>
     list_all canonical_line lines \<and> us = replicate (length lines) ()"
proof (induction lines arbitrary: i us)
  case (Cons line lines)
  then show ?case by (auto simp: result_iffs check_canonical_line_iff)
qed auto

definition starts_with_bom :: "string \<Rightarrow> bool" where
  "starts_with_bom bytes \<longleftrightarrow> take 3 (map char_code bytes) = [0xEF, 0xBB, 0xBF]"

lemma bom_iff:
  "length bytes \<ge> 3 \<and> char_code (bytes ! 0) = 0xEF \<and> char_code (bytes ! 1) = 0xBB \<and> char_code (bytes ! 2) = 0xBF
     \<longleftrightarrow> starts_with_bom bytes"
proof (cases "length bytes \<ge> 3")
  case True
  then obtain a b c rest where "bytes = a # b # c # rest"
    by (metis Suc_le_length_iff numeral_3_eq_3)
  then show ?thesis by (simp add: starts_with_bom_def)
next
  case False
  then have "length (take 3 (map char_code bytes)) \<noteq> 3" by simp
  with False show ?thesis unfolding starts_with_bom_def by (metis length_Cons list.size(3) numeral_3_eq_3)
qed

lemma validate_canonical_bytes_iff:
  "validate_canonical_bytes bytes = Inr () \<longleftrightarrow>
     \<not> starts_with_bom bytes \<and> text_of scalar_value bytes \<and>
     (\<exists>lines. lines \<noteq> [] \<and> list_all canonical_line lines \<and> bytes = unlines (CHR 0x0A) lines)"
proof -
  let ?nl = "CHR 0x0A :: char"
  have "validate_canonical_bytes bytes = Inr () \<longleftrightarrow> \<not> starts_with_bom bytes \<and> text_of scalar_value bytes \<and>
      bytes \<noteq> [] \<and> last bytes = ?nl \<and> list_all canonical_line (split_parts ?nl bytes)"
    unfolding validate_canonical_bytes_def bom_iff
    by (auto simp: valid_utf8_iff parts_loop_parts traverse_lines result_iffs)
  moreover have "bytes \<noteq> [] \<and> last bytes = ?nl \<and> list_all canonical_line (split_parts ?nl bytes) \<longleftrightarrow>
      (\<exists>lines. lines \<noteq> [] \<and> list_all canonical_line lines \<and> bytes = unlines ?nl lines)" (is "?L \<longleftrightarrow> ?R")
  proof
    assume ?L
    then show ?R using unlines_parts[of bytes ?nl] by (intro exI[of _ "split_parts ?nl bytes"]) simp
  next
    assume ?R
    then obtain lines where lines: "lines \<noteq> []" "list_all canonical_line lines" "bytes = unlines ?nl lines" by blast
    then have "split_parts ?nl bytes = lines"
      using canonical_line_no_newline by (auto simp: list_all_iff intro!: parts_unlines)
    moreover from this have "bytes \<noteq> []" using lines(1) by auto
    ultimately show ?L using lines last_unlines[of lines ?nl] by simp
  qed
  ultimately show ?thesis by blast
qed

subsection \<open>Integers\<close>

lemma is_canonical_integer_iff:
  "is_canonical_integer token \<longleftrightarrow>
     token \<noteq> [] \<and> list_all is_ascii_digit token \<and> (hd token = CHR ''0'' \<longrightarrow> length token = 1)"
  by (cases token) (auto simp: is_canonical_integer_def)

lemma canonical_integer_printed:
  "is_canonical_integer token \<longleftrightarrow> token = to_chars_nat (digits_value token)"
proof
  assume "is_canonical_integer token"
  then show "token = to_chars_nat (digits_value token)"
    by (simp add: is_canonical_integer_iff to_chars_nat_unique)
next
  assume "token = to_chars_nat (digits_value token)"
  moreover have "is_canonical_integer (to_chars_nat n)" for n
  proof (cases "n = 0")
    case True
    then show ?thesis by (simp add: is_canonical_integer_iff to_chars_nat.simps digit_char_props)
  next
    case False
    then show ?thesis
      by (simp add: is_canonical_integer_iff to_chars_nat_digits to_chars_nat_no_leading_zero)
  qed
  ultimately show "is_canonical_integer token" by metis
qed

lemma to_chars_nat_inject [simp]: "to_chars_nat a = to_chars_nat b \<longleftrightarrow> a = b"
  by (metis to_chars_nat_value)

text \<open>The readers accept exactly the printed numbers of their width.\<close>

lemma parse_uint64_iff: "parse_uint64 token line event field = Inr v \<longleftrightarrow> token = to_chars_nat (unat v)"
proof
  assume "parse_uint64 token line event field = Inr v"
  then have "token = to_chars_nat (digits_value token)" "digits_value token \<le> 18446744073709551615"
    "v = word_of_nat (digits_value token)"
    by (auto simp: parse_uint64_def canonical_integer_printed split: if_splits)
  then show "token = to_chars_nat (unat v)" by (simp add: unat_of_nat take_bit_eq_mod)
next
  assume "token = to_chars_nat (unat v)"
  moreover have "unat v < 2 ^ LENGTH(64)" by (rule unsigned_less)
  ultimately show "parse_uint64 token line event field = Inr v"
    by (simp add: parse_uint64_def canonical_integer_printed)
qed

lemma parse_uint32_iff:
  "parse_uint32 token line event field = Inr n \<longleftrightarrow> n \<le> 4294967295 \<and> token = to_chars_nat n"
proof -
  have "parse_uint32 token line event field = Inr n \<longleftrightarrow>
      (\<exists>v :: uint64. v \<le> 4294967295 \<and> n = unat v \<and> token = to_chars_nat (unat v))"
  proof -
    have "(if v > 4294967295 then parse_failure ReplaySyntax line event field ''unsigned integer exceeds uint32 range''
        else Inr (unat v)) = Inr n \<longleftrightarrow> v \<le> 4294967295 \<and> n = unat v" for v :: uint64
      by (auto simp: not_less)
    then show ?thesis unfolding parse_uint32_def bind_result_Inr_iff parse_uint64_iff by blast
  qed
  also have "\<dots> \<longleftrightarrow> n \<le> 4294967295 \<and> token = to_chars_nat n"
  proof
    assume "n \<le> 4294967295 \<and> token = to_chars_nat n"
    then show "\<exists>v :: uint64. v \<le> 4294967295 \<and> n = unat v \<and> token = to_chars_nat (unat v)"
      by (intro exI[of _ "word_of_nat n"]) (simp add: unat_of_nat take_bit_eq_mod word_le_nat_alt)
  qed (auto simp: word_le_nat_alt)
  finally show ?thesis .
qed

end
