(* ===== verification/Replay_Parser.thy ===== *)
theory Replay_Parser
  imports Canonical_Text Fuzz_Fixture Ordered_Map "HOL-Library.Char_ord" "HOL-Library.List_Lexorder"
begin

text \<open>
  The replay log grammar (\<open>tests/m5/replay/replay_parser.cpp\<close>): a header line and one event per line.
  Strings are ordered as \<open>std::string\<close> orders them, byte by byte.
\<close>

subsection \<open>Tokens\<close>

definition split_spaces :: "string \<Rightarrow> string list" where
  "split_spaces line = split_at (CHR '' '') line"

definition token_char :: "char \<Rightarrow> bool" where
  "token_char c \<longleftrightarrow>
     (char_code c \<ge> char_code CHR ''A'' \<and> char_code c \<le> char_code CHR ''Z'') \<or>
     (char_code c \<ge> char_code CHR ''a'' \<and> char_code c \<le> char_code CHR ''z'') \<or>
     (char_code c \<ge> char_code CHR ''0'' \<and> char_code c \<le> char_code CHR ''9'') \<or>
     c = CHR ''.'' \<or> c = CHR ''_'' \<or> c = CHR '':'' \<or> c = CHR ''/'' \<or> c = CHR ''+'' \<or> c = CHR ''-''"

definition valid_symbolic_token :: "string \<Rightarrow> bool" where
  "valid_symbolic_token token \<longleftrightarrow> token \<noteq> [] \<and> list_all token_char token"

definition valid_identifier_token :: "string \<Rightarrow> bool" where
  "valid_identifier_token token \<longleftrightarrow> token \<noteq> ''-'' \<and> valid_symbolic_token token"

definition valid_decimal_lexeme :: "string \<Rightarrow> bool" where
  "valid_decimal_lexeme token =
     (if token = [] \<or> token = ''-'' then False
      else list_all (\<lambda>c. is_ascii_digit c \<or> c = CHR ''+'' \<or> c = CHR ''-'' \<or> c = CHR ''.'' \<or>
             c = CHR ''e'' \<or> c = CHR ''E'') token)"

definition starts_with :: "string \<Rightarrow> string \<Rightarrow> bool" where
  "starts_with s prefix \<longleftrightarrow> length s \<ge> length prefix \<and> sv_substr s 0 (length prefix) = prefix"

subsection \<open>Enumerations\<close>

definition parse_market :: "string \<Rightarrow> nat \<Rightarrow> nat \<Rightarrow> nat \<Rightarrow> replay_market parsed" where
  "parse_market token line event field =
     (if token = ''Spot'' then Inr ReplaySpot
      else if token = ''UsdMPerpetual'' then Inr ReplayUsdMPerpetual
      else parse_failure InvalidMetadata line event field ''unknown market'')"

definition parse_policy :: "string \<Rightarrow> nat \<Rightarrow> nat \<Rightarrow> nat \<Rightarrow> replay_policy parsed" where
  "parse_policy token line event field =
     (if token = ''Spot'' then Inr PolicySpot
      else if token = ''UsdMPerpetual'' then Inr PolicyUsdMPerpetual
      else parse_failure InvalidMetadata line event field ''unknown sequence policy'')"

definition quality_values :: "(string \<times> replay_quality_fact) list" where
  "quality_values =
     [(''Duplicate'', FactDuplicate), (''OutOfOrder'', FactOutOfOrder),
      (''OrderBookResync'', FactOrderBookResync), (''SnapshotTooOld'', FactSnapshotTooOld),
      (''BootstrapBufferOverflow'', FactBootstrapBufferOverflow), (''RecoveredTail'', FactRecoveredTail),
      (''MalformedPayload'', FactMalformedPayload), (''ExchangeTimeMissing'', FactExchangeTimeMissing),
      (''ReceiveClockDiscontinuity'', FactReceiveClockDiscontinuity),
      (''SlowConsumerGap'', FactSlowConsumerGap), (''ProducerRestart'', FactProducerRestart),
      (''Overlap'', FactOverlap), (''IdentityConflict'', FactIdentityConflict)]"

definition parse_quality :: "string \<Rightarrow> nat \<Rightarrow> nat \<Rightarrow> nat \<Rightarrow> replay_quality_fact parsed" where
  "parse_quality token line event field =
     (case map_of quality_values token of
        None \<Rightarrow> parse_failure ReplaySyntax line event field ''unknown quality fact''
      | Some quality \<Rightarrow> Inr quality)"

definition parse_origin :: "string \<Rightarrow> nat \<Rightarrow> nat \<Rightarrow> nat \<Rightarrow> replay_origin parsed" where
  "parse_origin token line event field =
     (if token = ''GatewayLive'' then Inr OriginGatewayLive
      else if token = ''RecorderReplay'' then Inr OriginRecorderReplay
      else if token = ''HistoryReplay'' then Inr OriginHistoryReplay
      else parse_failure ReplaySyntax line event field ''unknown snapshot origin'')"

definition parse_recovery :: "string \<Rightarrow> nat \<Rightarrow> nat \<Rightarrow> nat \<Rightarrow> replay_recovery parsed" where
  "parse_recovery token line event field =
     (if token = ''Synchronized'' then Inr GapStateSynchronized
      else if token = ''ResyncRequired'' then Inr GapStateResyncRequired
      else if token = ''ResyncInProgress'' then Inr GapStateResyncInProgress
      else if token = ''Recovered'' then Inr GapStateRecovered
      else if token = ''ResyncFailed'' then Inr GapStateResyncFailed
      else parse_failure ReplaySyntax line event field ''unknown gap recovery state'')"

subsection \<open>Lists\<close>

text \<open>The guard of both list readers: the list is empty, or it begins, ends or doubles its separator.\<close>

definition bad_list :: "char \<Rightarrow> string \<Rightarrow> bool" where
  "bad_list sep token \<longleftrightarrow> token = [] \<or> hd token = sep \<or> last token = sep \<or> has_double sep token"

definition parse_comma_values ::
  "string \<Rightarrow> nat \<Rightarrow> nat \<Rightarrow> nat \<Rightarrow> (string \<Rightarrow> nat \<Rightarrow> nat \<Rightarrow> nat \<Rightarrow> 'a parsed) \<Rightarrow> 'a list parsed" where
  "parse_comma_values token line event field parse =
     (if token = ''-'' then Inr []
      else if bad_list (CHR '','') token then
        parse_failure ReplaySyntax line event field ''invalid comma list''
      else parts_loop (CHR '','') token (\<lambda>item part. parse part line event (field + item)) 0 0 [])"

definition parse_quality_list :: "string \<Rightarrow> nat \<Rightarrow> nat \<Rightarrow> nat \<Rightarrow> replay_quality_fact list parsed" where
  "parse_quality_list token line event field = parse_comma_values token line event field parse_quality"

text \<open>The body of the loop of \<open>parse_levels\<close>.\<close>

definition parse_level_entry ::
  "replay_side option \<Rightarrow> nat \<Rightarrow> nat \<Rightarrow> nat \<Rightarrow> string \<Rightarrow> level_input parsed" where
  "parse_level_entry expected_side line event field entry =
     (if length entry < 5 \<or> (hd entry \<noteq> CHR ''B'' \<and> hd entry \<noteq> CHR ''A'') \<or> entry ! 1 \<noteq> CHR '':'' then
        parse_failure ReplaySyntax line event field ''level must be Side:price,quantity''
      else
        let side = (if hd entry = CHR ''B'' then SideBid else SideAsk) in
        if expected_side \<noteq> None \<and> side \<noteq> the expected_side then
          parse_failure ReplaySyntax line event field ''level side does not match its field''
        else
          (case sv_find (CHR '','') entry 2 of
             None \<Rightarrow> parse_failure ReplaySyntax line event field ''level must contain exactly price,quantity''
           | Some comma \<Rightarrow>
               if comma = 2 \<or> comma + 1 \<ge> length entry \<or> sv_find (CHR '','') entry (comma + 1) \<noteq> None then
                 parse_failure ReplaySyntax line event field ''level must contain exactly price,quantity''
               else
                 let price = sv_substr entry 2 (comma - 2);
                     quantity = sv_substr entry (comma + 1) (length entry)
                 in
                 if \<not> valid_decimal_lexeme price \<or> \<not> valid_decimal_lexeme quantity then
                   parse_failure ReplaySyntax line event field ''invalid decimal token in level''
                 else Inr \<lparr>li_side = side, li_price = price, li_quantity = quantity\<rparr>))"

definition parse_levels ::
  "string \<Rightarrow> replay_side option \<Rightarrow> nat \<Rightarrow> nat \<Rightarrow> nat \<Rightarrow> level_input list parsed" where
  "parse_levels token expected_side line event field =
     (if token = ''-'' then Inr []
      else if bad_list (CHR ''|'') token then
        parse_failure ReplaySyntax line event field ''invalid level list''
      else
        parts_loop (CHR ''|'') token (\<lambda>item. parse_level_entry expected_side line event (field + item)) 0 0 [])"

subsection \<open>Optional fields\<close>

definition parse_optional_uint :: "string \<Rightarrow> nat \<Rightarrow> nat \<Rightarrow> nat \<Rightarrow> uint64 option parsed" where
  "parse_optional_uint token line event field =
     (if token = ''-'' then Inr None
      else bind_result (parse_uint64 token line event field) (\<lambda>v. Inr (Some v)))"

definition parse_current_gap :: "string \<Rightarrow> nat \<Rightarrow> nat \<Rightarrow> nat \<Rightarrow> (uint64 \<times> replay_recovery) option parsed" where
  "parse_current_gap token line event field =
     (if token = ''-'' then Inr None
      else
        (case sv_find (CHR '','') token 0 of
           None \<Rightarrow> parse_failure ReplaySyntax line event field ''current gap must be detected_time,recovery_state''
         | Some comma \<Rightarrow>
             if sv_find (CHR '','') token (comma + 1) \<noteq> None then
               parse_failure ReplaySyntax line event field ''current gap must be detected_time,recovery_state''
             else
               bind_result (parse_uint64 (sv_substr token 0 comma) line event field) (\<lambda>detected.
               bind_result (parse_recovery (sv_substr token (comma + 1) (length token)) line event (field + 1)) (\<lambda>state.
                 Inr (Some (detected, state))))))"

subsection \<open>Header\<close>

definition key_value :: "string \<Rightarrow> nat \<Rightarrow> nat \<Rightarrow> nat \<Rightarrow> (string \<times> string) parsed" where
  "key_value token line event field =
     (case sv_find (CHR ''='') token 0 of
        None \<Rightarrow> parse_failure InvalidMetadata line event field ''header field must be key=value''
      | Some separator \<Rightarrow>
          if separator = 0 \<or> separator + 1 \<ge> length token \<or> sv_find (CHR ''='') token (separator + 1) \<noteq> None then
            parse_failure InvalidMetadata line event field ''header field must be key=value''
          else
            let key = sv_substr token 0 separator; val = sv_substr token (separator + 1) (length token) in
            if \<not> valid_symbolic_token key \<or> \<not> valid_symbolic_token val then
              parse_failure InvalidMetadata line event field ''header field contains an invalid token''
            else Inr (key, val))"

definition kRequiredHeaderFields :: "string list" where
  "kRequiredHeaderFields = [''market'', ''symbol'', ''price_scale'', ''quantity_scale'', ''policy'', ''fixture_id'']"

type_synonym header_fields = "(string, string) std_map"

definition fields_contain :: "header_fields \<Rightarrow> string \<Rightarrow> bool" where
  "fields_contain m key \<longleftrightarrow> map_find (<) key m \<noteq> None"

text \<open>\<open>fields.at(key)\<close>, used only after \<open>check_header_fields_present\<close>.\<close>

definition fields_at :: "header_fields \<Rightarrow> string \<Rightarrow> string" where
  "fields_at m key = the (map_find (<) key m)"

text \<open>The last condition of the loop, negated.\<close>

definition known_header_field :: "string \<Rightarrow> bool" where
  "known_header_field key \<longleftrightarrow> key = ''market'' \<or> key = ''symbol'' \<or> key = ''price_scale'' \<or>
     key = ''quantity_scale'' \<or> key = ''policy'' \<or> key = ''fixture_id'' \<or> starts_with key ''provenance_''"

text \<open>
  The loop over the tokens after the schema name, \<open>index\<close> being the position of the next one.  As the
  key is not in the map, \<open>emplace\<close> inserts it.
\<close>

primrec collect_header_loop ::
  "nat \<Rightarrow> string list \<Rightarrow> header_fields \<Rightarrow> string \<Rightarrow> header_fields parsed" where
  "collect_header_loop index [] m previous_provenance = Inr m"
| "collect_header_loop index (token # tokens) m previous_provenance =
     bind_result (key_value token 1 0 index) (\<lambda>(key, val).
       if index \<le> length kRequiredHeaderFields \<and> key \<noteq> kRequiredHeaderFields ! (index - 1) then
         parse_failure InvalidMetadata 1 0 index ''header fields are not in canonical order''
       else if \<not> index \<le> length kRequiredHeaderFields \<and>
           (\<not> starts_with key ''provenance_'' \<or> (previous_provenance \<noteq> [] \<and> key \<le> previous_provenance)) then
         parse_failure InvalidMetadata 1 0 index ''provenance fields are not in canonical order''
       else if fields_contain m key then
         parse_failure InvalidMetadata 1 0 index ''duplicate header field''
       else if \<not> known_header_field key then
         parse_failure InvalidMetadata 1 0 index ''unknown header field''
       else
         collect_header_loop (index + 1) tokens (map_insert_or_assign (<) key val m)
           (if starts_with key ''provenance_'' then key else previous_provenance))"

definition collect_header_fields :: "string list \<Rightarrow> header_fields parsed" where
  "collect_header_fields tokens = collect_header_loop 1 (drop 1 tokens) [] []"

definition check_header_fields_present :: "header_fields \<Rightarrow> unit parsed" where
  "check_header_fields_present m =
     (if \<not> list_all (fields_contain m) kRequiredHeaderFields then
        parse_failure InvalidMetadata 1 0 0 ''missing header field''
      else Inr ())"

definition parse_header_market_policy :: "header_fields \<Rightarrow> (replay_market \<times> replay_policy) parsed" where
  "parse_header_market_policy m =
     bind_result (parse_market (fields_at m ''market'') 1 0 1) (\<lambda>market.
     bind_result (parse_policy (fields_at m ''policy'') 1 0 4) (\<lambda>policy. Inr (market, policy)))"

definition parse_header_scalars :: "header_fields \<Rightarrow> replay_spec parsed" where
  "parse_header_scalars m =
     bind_result (parse_uint32 (fields_at m ''price_scale'') 1 0 3) (\<lambda>price_scale.
     bind_result (parse_uint32 (fields_at m ''quantity_scale'') 1 0 4) (\<lambda>quantity_scale.
       if price_scale > 18 \<or> quantity_scale > 18 then
         parse_failure InvalidMetadata 1 0 3 ''NumericSpec scale must be 0..18''
       else if \<not> valid_identifier_token (fields_at m ''symbol'') \<or> \<not> valid_identifier_token (fields_at m ''fixture_id'') then
         parse_failure InvalidMetadata 1 0 0 ''symbol and fixture ID must be non-empty identifier tokens''
       else Inr \<lparr>rs_price_scale = price_scale, rs_quantity_scale = quantity_scale\<rparr>))"

definition check_header_market_policy_agreement :: "replay_market \<times> replay_policy \<Rightarrow> unit parsed" where
  "check_header_market_policy_agreement market_policy =
     (if (fst market_policy = ReplaySpot \<and> snd market_policy \<noteq> PolicySpot) \<or>
         (fst market_policy = ReplayUsdMPerpetual \<and> snd market_policy \<noteq> PolicyUsdMPerpetual) then
        parse_failure InvalidMetadata 1 0 4 ''market and policy disagree''
      else Inr ())"

definition kReplaySchemaName :: string where
  "kReplaySchemaName = ''REPLAY_V1''"

definition parse_header :: "string \<Rightarrow> replay_header parsed" where
  "parse_header line =
     (let tokens = split_spaces line in
      if tokens = [] \<or> hd tokens \<noteq> kReplaySchemaName then
        parse_failure UnsupportedSchema 1 0 0 ''unsupported replay schema''
      else
        bind_result (collect_header_fields tokens) (\<lambda>m.
        bind_result (check_header_fields_present m) (\<lambda>_.
        bind_result (parse_header_market_policy m) (\<lambda>market_policy.
        bind_result (parse_header_scalars m) (\<lambda>scalars.
        bind_result (check_header_market_policy_agreement market_policy) (\<lambda>_.
          Inr \<lparr>rh_schema_version = kReplaySchemaVersion, rh_market = fst market_policy,
               rh_symbol = fields_at m ''symbol'', rh_numeric_spec = scalars,
               rh_sequence_policy = snd market_policy, rh_fixture_id = fields_at m ''fixture_id'',
               rh_provenance = filter (\<lambda>(key, val). starts_with key ''provenance_'') m\<rparr>))))))"

subsection \<open>Events\<close>

definition parse_baseline_event ::
  "string list \<Rightarrow> bool \<Rightarrow> source_location \<Rightarrow> nat \<Rightarrow> nat \<Rightarrow> replay_operation parsed" where
  "parse_baseline_event tokens rebaseline location line event =
     (if length tokens \<noteq> 4 then
        parse_failure ReplaySyntax line event (length tokens) ''baseline event requires id, bids, asks''
      else
        bind_result (parse_uint64 (tokens ! 1) line event 1) (\<lambda>i.
        bind_result (parse_levels (tokens ! 2) (Some SideBid) line event 2) (\<lambda>bids.
        bind_result (parse_levels (tokens ! 3) (Some SideAsk) line event 3) (\<lambda>asks.
          Inr (if rebaseline then RebaselineOp location i bids asks
               else InstallBaselineOp location i bids asks)))))"

definition parse_depth_update_event ::
  "string list \<Rightarrow> source_location \<Rightarrow> nat \<Rightarrow> nat \<Rightarrow> replay_operation parsed" where
  "parse_depth_update_event tokens location line event =
     (if length tokens \<noteq> 5 \<or> \<not> starts_with (tokens ! 3) ''pu='' then
        parse_failure ReplaySyntax line event (length tokens) ''depth event requires first final pu=... levels''
      else
        bind_result (parse_uint64 (tokens ! 1) line event 1) (\<lambda>first_id.
        bind_result (parse_uint64 (tokens ! 2) line event 2) (\<lambda>final_id.
        bind_result (parse_optional_uint (sv_substr (tokens ! 3) 3 (length (tokens ! 3))) line event 3) (\<lambda>previous.
        bind_result (parse_levels (tokens ! 4) None line event 4) (\<lambda>levels.
          Inr (DepthUpdateOp location first_id final_id previous levels))))))"

definition parse_reset_event ::
  "string list \<Rightarrow> source_location \<Rightarrow> nat \<Rightarrow> nat \<Rightarrow> replay_operation parsed" where
  "parse_reset_event tokens location line event =
     (if length tokens \<noteq> 1 then
        parse_failure ReplaySyntax line event (length tokens) ''reset takes no arguments''
      else Inr (ResetOp location))"

definition parse_adapter_metadata_event ::
  "string list \<Rightarrow> source_location \<Rightarrow> nat \<Rightarrow> nat \<Rightarrow> replay_operation parsed" where
  "parse_adapter_metadata_event tokens location line event =
     (if length tokens \<noteq> 2 then
        parse_failure ReplaySyntax line event (length tokens) ''adapter metadata requires one quality list''
      else
        bind_result (parse_quality_list (tokens ! 1) line event 1) (\<lambda>facts.
          Inr (AdapterMetadataOp location facts)))"

definition parse_malformed_range_event ::
  "string list \<Rightarrow> source_location \<Rightarrow> nat \<Rightarrow> nat \<Rightarrow> replay_operation parsed" where
  "parse_malformed_range_event tokens location line event =
     (if length tokens \<noteq> 3 then
        parse_failure ReplaySyntax line event (length tokens) ''malformed range requires first and final IDs''
      else
        bind_result (parse_uint64 (tokens ! 1) line event 1) (\<lambda>first_id.
        bind_result (parse_uint64 (tokens ! 2) line event 2) (\<lambda>final_id.
          Inr (MalformedRangeOp location first_id final_id))))"

text \<open>The loop over the three identifier tokens reports the first invalid one.\<close>

fun check_identifier_tokens :: "string list \<Rightarrow> nat \<Rightarrow> nat \<Rightarrow> nat list \<Rightarrow> unit parsed" where
  "check_identifier_tokens tokens line event [] = Inr ()"
| "check_identifier_tokens tokens line event (token_index # rest) =
     (if \<not> valid_identifier_token (tokens ! token_index) then
        parse_failure ReplaySyntax line event token_index ''invalid snapshot context token''
      else check_identifier_tokens tokens line event rest)"

text \<open>The depth limit, read before the other fields.\<close>

definition parse_depth_token :: "string \<Rightarrow> nat \<Rightarrow> nat \<Rightarrow> nat option parsed" where
  "parse_depth_token token line event =
     (if token \<noteq> ''-'' then
        bind_result (parse_uint32 token line event 1) (\<lambda>parsed. Inr (Some parsed))
      else Inr None)"

definition parse_snapshot_request_event ::
  "string list \<Rightarrow> source_location \<Rightarrow> nat \<Rightarrow> nat \<Rightarrow> replay_operation parsed" where
  "parse_snapshot_request_event tokens location line event =
     (if length tokens \<noteq> 10 then
        parse_failure ReplaySyntax line event (length tokens) ''snapshot request has ten fields''
      else
        bind_result (parse_depth_token (tokens ! 1) line event) (\<lambda>depth.
        bind_result (parse_quality_list (tokens ! 2) line event 2) (\<lambda>facts.
        bind_result (parse_origin (tokens ! 6) line event 6) (\<lambda>origin.
        bind_result (parse_uint64 (tokens ! 7) line event 7) (\<lambda>generated.
        bind_result (parse_optional_uint (tokens ! 8) line event 8) (\<lambda>monotonic.
        bind_result (parse_current_gap (tokens ! 9) line event 9) (\<lambda>gap.
        bind_result (check_identifier_tokens tokens line event [3, 4, 5]) (\<lambda>_.
          Inr (SnapshotRequestOp location
            \<lparr>sr_depth_limit = depth, sr_host_quality_facts = facts, sr_snapshot_id = tokens ! 3,
             sr_producer = tokens ! 4, sr_producer_version = tokens ! 5, sr_source_origin = origin,
             sr_generated_time_utc_ns = generated, sr_generated_monotonic_ns = monotonic,
             sr_current_gap = gap\<rparr>)))))))))"

definition parse_event ::
  "string list \<Rightarrow> source_location \<Rightarrow> nat \<Rightarrow> nat \<Rightarrow> replay_operation parsed" where
  "parse_event tokens location line event =
     (if hd tokens = ''INSTALL_BASELINE'' \<or> hd tokens = ''REBASELINE'' then
        parse_baseline_event tokens (hd tokens = ''REBASELINE'') location line event
      else if hd tokens = ''DEPTH_UPDATE'' then parse_depth_update_event tokens location line event
      else if hd tokens = ''RESET'' then parse_reset_event tokens location line event
      else if hd tokens = ''ADAPTER_METADATA'' then parse_adapter_metadata_event tokens location line event
      else if hd tokens = ''MALFORMED_RANGE'' then parse_malformed_range_event tokens location line event
      else if hd tokens = ''SNAPSHOT_REQUEST'' then parse_snapshot_request_event tokens location line event
      else parse_failure ReplaySyntax line event 0 ''unknown event name'')"

subsection \<open>The log\<close>

definition source_of_line :: "nat \<Rightarrow> nat \<Rightarrow> string \<Rightarrow> source_location" where
  "source_of_line event line text =
     \<lparr>sl_event_index = event, sl_line_number = line, sl_canonical_line = text\<rparr>"

fun holds_metadata :: "replay_operation \<Rightarrow> bool" where
  "holds_metadata (AdapterMetadataOp _ _) = True"
| "holds_metadata _ = False"

fun takes_metadata :: "replay_operation \<Rightarrow> bool" where
  "takes_metadata (DepthUpdateOp _ _ _ _ _) = True"
| "takes_metadata (InstallBaselineOp _ _ _ _) = True"
| "takes_metadata _ = False"

fun check_ordering_loop :: "nat \<Rightarrow> replay_operation list \<Rightarrow> unit parsed" where
  "check_ordering_loop index [] = Inr ()"
| "check_ordering_loop index (operation # rest) =
     (if \<not> holds_metadata operation then check_ordering_loop (index + 1) rest
      else if rest = [] \<or> \<not> takes_metadata (hd rest) then
        parse_failure ReplaySyntax (sl_line_number (operation_source operation)) index 0
          ''ADAPTER_METADATA must immediately precede INSTALL_BASELINE or DEPTH_UPDATE''
      else check_ordering_loop (index + 1) rest)"

definition check_adapter_metadata_ordering :: "normalized_replay \<Rightarrow> unit parsed" where
  "check_adapter_metadata_ordering replay = check_ordering_loop 0 (nr_operations replay)"

text \<open>The loop over the lines after the first, \<open>line_index\<close> being the position of the next one.\<close>

fun parse_event_lines ::
  "nat \<Rightarrow> string list \<Rightarrow> replay_operation list \<Rightarrow> replay_operation list parsed" where
  "parse_event_lines line_index [] operations = Inr operations"
| "parse_event_lines line_index (line # rest) operations =
     (let event_index = length operations; tokens = split_spaces line in
      if tokens = [] then
        parse_failure ReplaySyntax (line_index + 1) event_index 0 ''empty event''
      else
        bind_result
          (parse_event tokens (source_of_line event_index (line_index + 1) line) (line_index + 1) event_index)
          (\<lambda>operation. parse_event_lines (line_index + 1) rest (operations @ [operation])))"

definition parse_replay_log :: "string \<Rightarrow> normalized_replay parsed" where
  "parse_replay_log bytes =
     bind_result (validate_canonical_bytes bytes) (\<lambda>_.
       let lines = split_at (CHR 0x0A) bytes in
       bind_result (parse_header (hd lines)) (\<lambda>header.
       bind_result (parse_event_lines 1 (tl lines) []) (\<lambda>operations.
         let replay = \<lparr>nr_header = header, nr_operations = operations\<rparr> in
         bind_result (check_adapter_metadata_ordering replay) (\<lambda>_. Inr replay))))"

text \<open>What opening and reading a file gives.\<close>

datatype file_read = CannotOpen | CannotRead | FileBytes string

definition load_replay_log :: "file_read \<Rightarrow> normalized_replay parsed" where
  "load_replay_log file =
     (case file of
        CannotOpen \<Rightarrow> parse_failure IoFailure 0 0 0 ''cannot open replay log''
      | CannotRead \<Rightarrow> parse_failure IoFailure 0 0 0 ''cannot read replay log''
      | FileBytes bytes \<Rightarrow> parse_replay_log bytes)"

end
