(* ===== verification/Replay_Grammar.thy ===== *)
theory Replay_Grammar
  imports Replay_Parser
begin

text \<open>
  The grammar of \<open>docs/M5_PHASE1_CANONICAL_REPLAY.md\<close> as a printer, and the proof that the parser
  accepts exactly the printed logs.  Each reader is paired with the printer of its values: it accepts
  a token if and only if the token is the print of the value it returns, so no two texts are read as
  the same value.
\<close>

subsection \<open>Names\<close>

fun market_name :: "replay_market \<Rightarrow> string" where
  "market_name ReplaySpot = ''Spot''"
| "market_name ReplayUsdMPerpetual = ''UsdMPerpetual''"

fun policy_name :: "replay_policy \<Rightarrow> string" where
  "policy_name PolicySpot = ''Spot''"
| "policy_name PolicyUsdMPerpetual = ''UsdMPerpetual''"

fun quality_name :: "replay_quality_fact \<Rightarrow> string" where
  "quality_name FactDuplicate = ''Duplicate''"
| "quality_name FactOutOfOrder = ''OutOfOrder''"
| "quality_name FactOrderBookResync = ''OrderBookResync''"
| "quality_name FactSnapshotTooOld = ''SnapshotTooOld''"
| "quality_name FactBootstrapBufferOverflow = ''BootstrapBufferOverflow''"
| "quality_name FactRecoveredTail = ''RecoveredTail''"
| "quality_name FactMalformedPayload = ''MalformedPayload''"
| "quality_name FactExchangeTimeMissing = ''ExchangeTimeMissing''"
| "quality_name FactReceiveClockDiscontinuity = ''ReceiveClockDiscontinuity''"
| "quality_name FactSlowConsumerGap = ''SlowConsumerGap''"
| "quality_name FactProducerRestart = ''ProducerRestart''"
| "quality_name FactOverlap = ''Overlap''"
| "quality_name FactIdentityConflict = ''IdentityConflict''"

fun origin_name :: "replay_origin \<Rightarrow> string" where
  "origin_name OriginGatewayLive = ''GatewayLive''"
| "origin_name OriginRecorderReplay = ''RecorderReplay''"
| "origin_name OriginHistoryReplay = ''HistoryReplay''"

fun recovery_name :: "replay_recovery \<Rightarrow> string" where
  "recovery_name GapStateSynchronized = ''Synchronized''"
| "recovery_name GapStateResyncRequired = ''ResyncRequired''"
| "recovery_name GapStateResyncInProgress = ''ResyncInProgress''"
| "recovery_name GapStateRecovered = ''Recovered''"
| "recovery_name GapStateResyncFailed = ''ResyncFailed''"

lemma parse_market_iff: "parse_market t l e f = Inr m \<longleftrightarrow> t = market_name m"
  by (cases m) (auto simp: parse_market_def)

lemma parse_policy_iff: "parse_policy t l e f = Inr p \<longleftrightarrow> t = policy_name p"
  by (cases p) (auto simp: parse_policy_def)

lemma parse_origin_iff: "parse_origin t l e f = Inr r \<longleftrightarrow> t = origin_name r"
  by (cases r) (auto simp: parse_origin_def)

lemma parse_recovery_iff: "parse_recovery t l e f = Inr r \<longleftrightarrow> t = recovery_name r"
  by (cases r) (auto simp: parse_recovery_def)

lemma quality_values_map: "map_of quality_values t = Some q \<longleftrightarrow> t = quality_name q"
proof
  assume "map_of quality_values t = Some q"
  then have "(t, q) \<in> set quality_values" by (rule map_of_SomeD)
  then show "t = quality_name q" by (auto simp: quality_values_def)
next
  assume "t = quality_name q"
  then show "map_of quality_values t = Some q" by (cases q) (simp_all add: quality_values_def)
qed

lemma parse_quality_iff: "parse_quality t l e f = Inr q \<longleftrightarrow> t = quality_name q"
  by (auto simp: parse_quality_def quality_values_map[symmetric] split: option.splits)

subsection \<open>Safe tokens\<close>

text \<open>What a token of a printed line is made of: visible ASCII characters.\<close>

definition visible :: "char \<Rightarrow> bool" where
  "visible c \<longleftrightarrow> 0x20 < char_code c \<and> char_code c < 0x80"

definition log_token :: "string \<Rightarrow> bool" where
  "log_token t \<longleftrightarrow> t \<noteq> [] \<and> list_all visible t"

lemma log_token_Cons [simp]: "log_token (c # t) \<longleftrightarrow> visible c \<and> list_all visible t"
  by (simp add: log_token_def)

lemma space_not_visible: "visible c \<Longrightarrow> c \<noteq> CHR '' ''"
  by (auto simp: visible_def)

lemma digits_visible: "list_all is_ascii_digit t \<Longrightarrow> list_all visible t"
  by (auto simp: list_all_iff is_ascii_digit_alt visible_def)

lemma number_token [simp]: "log_token (to_chars_nat n)" "list_all visible (to_chars_nat n)"
  using to_chars_nat_digits[of n] by (simp_all add: log_token_def digits_visible)

lemma symbolic_visible: "valid_symbolic_token t \<Longrightarrow> log_token t"
proof -
  have "token_char c \<Longrightarrow> visible c" for c by (auto simp: token_char_def visible_def)
  then show "valid_symbolic_token t \<Longrightarrow> ?thesis"
    by (auto simp: valid_symbolic_token_def log_token_def list_all_iff)
qed

lemma lexeme_visible: "valid_decimal_lexeme t \<Longrightarrow> log_token t"
proof -
  have "is_ascii_digit c \<or> c = CHR ''+'' \<or> c = CHR ''-'' \<or> c = CHR ''.'' \<or> c = CHR ''e'' \<or> c = CHR ''E'' \<Longrightarrow> visible c" for c
    by (auto simp: is_ascii_digit_alt visible_def)
  then show "valid_decimal_lexeme t \<Longrightarrow> ?thesis"
    by (auto simp: valid_decimal_lexeme_def log_token_def list_all_iff split: if_splits)
qed

lemma names_visible [simp]:
  "log_token (market_name m)" "log_token (policy_name p)" "log_token (quality_name q)"
  "log_token (origin_name s)" "log_token (recovery_name r)"
  by (cases m, simp_all add: visible_def) (cases p, simp_all add: visible_def, cases q, simp_all add: visible_def,
      cases s, simp_all add: visible_def, cases r, simp_all add: visible_def)

subsection \<open>Levels\<close>

definition side_name :: "replay_side \<Rightarrow> char" where
  "side_name s = (if s = SideBid then CHR ''B'' else CHR ''A'')"

definition print_level :: "level_input \<Rightarrow> string" where
  "print_level l = side_name (li_side l) # CHR '':'' # li_price l @ CHR '','' # li_quantity l"

definition level_written :: "replay_side option \<Rightarrow> level_input \<Rightarrow> bool" where
  "level_written expected l \<longleftrightarrow> valid_decimal_lexeme (li_price l) \<and> valid_decimal_lexeme (li_quantity l) \<and>
     (expected \<noteq> None \<longrightarrow> li_side l = the expected)"

definition print_list :: "char \<Rightarrow> ('a \<Rightarrow> string) \<Rightarrow> 'a list \<Rightarrow> string" where
  "print_list sep print xs = (if xs = [] then ''-'' else join sep (map print xs))"

lemma lexeme_chars:
  assumes "valid_decimal_lexeme t"
  shows "t \<noteq> []" "CHR '','' \<notin> set t" "CHR ''|'' \<notin> set t"
  using assms by (auto simp: valid_decimal_lexeme_def list_all_iff is_ascii_digit_alt split: if_splits)

lemma parse_level_entry_iff:
  "parse_level_entry expected l e f t = Inr v \<longleftrightarrow> level_written expected v \<and> t = print_level v"
proof
  assume accepted: "parse_level_entry expected l e f t = Inr v"
  then have len: "\<not> length t < 5" by (auto simp: parse_level_entry_def)
  then obtain a b rest where t: "t = a # b # rest" by (cases t; cases "tl t") auto
  from accepted obtain comma where comma: "sv_find (CHR '','') t 2 = Some comma" "sv_find (CHR '','') t (comma + 1) = None"
    and v: "v = \<lparr>li_side = if a = CHR ''B'' then SideBid else SideAsk, li_price = sv_substr t 2 (comma - 2),
      li_quantity = sv_substr t (comma + 1) (length t)\<rparr>"
    and lex: "valid_decimal_lexeme (li_price v)" "valid_decimal_lexeme (li_quantity v)"
    and head: "a = CHR ''B'' \<or> a = CHR ''A''" "b = CHR '':''" "expected \<noteq> None \<longrightarrow> li_side v = the expected"
    using t by (auto simp: parse_level_entry_def Let_def split: if_splits option.splits)
  obtain p q where "rest = p @ CHR '','' # q" "comma = 2 + length p"
    using comma cut_at_unique[of 2 t "CHR '',''" comma] len t by auto
  with v t head lex show "level_written expected v \<and> t = print_level v"
    by (auto simp: level_written_def print_level_def side_name_def sv_substr_def)
next
  assume written: "level_written expected v \<and> t = print_level v"
  let ?p = "li_price v" and ?q = "li_quantity v"
  have chars: "?p \<noteq> []" "CHR '','' \<notin> set ?p" "?q \<noteq> []" "CHR '','' \<notin> set ?q"
    using written lexeme_chars by (auto simp: level_written_def)
  let ?n = "2 + length ?p"
  have "drop 2 t = ?p @ CHR '','' # ?q" using written by (simp add: print_level_def)
  then have "sv_find (CHR '','') t 2 = Some ?n \<and> sv_find (CHR '','') t (?n + 1) = None"
    using chars written by (subst cut_at_unique) (auto simp: print_level_def)
  moreover have "sv_substr t 2 (length ?p) = ?p" "sv_substr t (Suc (Suc (Suc (length ?p)))) (length t) = ?q"
    using written by (simp_all add: print_level_def sv_substr_def)
  moreover have "length t = 3 + length ?p + length ?q" "1 \<le> length ?p" "1 \<le> length ?q"
    using written chars by (simp_all add: print_level_def Suc_le_eq)
  ultimately show "parse_level_entry expected l e f t = Inr v"
    using written chars
    by (cases v; cases "li_side v") (auto simp: parse_level_entry_def Let_def level_written_def print_level_def side_name_def)
qed

interpretation level_codec: item_codec "\<lambda>item. parse_level_entry expected l e (f + item)" print_level
  "level_written expected" "CHR ''|''" for expected l e f
proof
  fix v assume "level_written expected v"
  then show "print_level v \<noteq> [] \<and> CHR ''|'' \<notin> set (print_level v)"
    using lexeme_chars by (auto simp: level_written_def print_level_def side_name_def)
qed (rule parse_level_entry_iff)

interpretation quality_codec: item_codec "\<lambda>item part. parse_quality part l e (f + item)" quality_name
  "\<lambda>_. True" "CHR '',''" for l e f
proof
  fix q
  show "quality_name q \<noteq> [] \<and> CHR '','' \<notin> set (quality_name q)" by (cases q) simp_all
qed (simp add: parse_quality_iff)

lemma bad_list_iff: "bad_list sep t \<longleftrightarrow> \<not> well_separated sep t"
  by (auto simp: bad_list_def well_separated_def)

lemma parse_levels_iff:
  "parse_levels t expected l e f = Inr ls \<longleftrightarrow>
     list_all (level_written expected) ls \<and> t = print_list (CHR ''|'') print_level ls"
proof -
  have dash: "join (CHR ''|'') (map print_level ls) \<noteq> ''-''" if "ls \<noteq> []" "list_all (level_written expected) ls"
    using level_codec.list_printed[OF that] by (auto simp: print_level_def side_name_def split: if_splits)
  then show ?thesis
    using level_codec.list_exact[of t expected l e f ls] by (auto simp: parse_levels_def bad_list_iff print_list_def)
qed

lemma parse_quality_list_iff:
  "parse_quality_list t l e f = Inr qs \<longleftrightarrow> t = print_list (CHR '','') quality_name qs"
proof -
  have dash: "join (CHR '','') (map quality_name qs) \<noteq> ''-''" if "qs \<noteq> []"
  proof -
    have "hd (quality_name q) \<noteq> CHR ''-''" for q by (cases q) simp_all
    moreover have "list_all (\<lambda>_. True) qs" by (simp add: list_all_iff)
    ultimately show ?thesis using quality_codec.list_printed[OF that] by (metis list.sel(1))
  qed
  then show ?thesis
    using quality_codec.list_exact[of t l e f qs]
    by (auto simp: parse_quality_list_def parse_comma_values_def bad_list_iff print_list_def list_all_iff)
qed

subsection \<open>Optional fields\<close>

definition print_optional :: "('a \<Rightarrow> string) \<Rightarrow> 'a option \<Rightarrow> string" where
  "print_optional print x = (case x of None \<Rightarrow> ''-'' | Some v \<Rightarrow> print v)"

definition print_uint64 :: "uint64 \<Rightarrow> string" where
  "print_uint64 v = to_chars_nat (unat v)"

definition print_gap :: "uint64 \<times> replay_recovery \<Rightarrow> string" where
  "print_gap gap = print_uint64 (fst gap) @ CHR '','' # recovery_name (snd gap)"

lemma number_not_dash [simp]: "to_chars_nat n \<noteq> ''-''" "''-'' \<noteq> to_chars_nat n"
proof -
  show "to_chars_nat n \<noteq> ''-''" using to_chars_nat_digits[of n] by auto
  then show "''-'' \<noteq> to_chars_nat n" by metis
qed

lemma number_no_comma [simp]: "CHR '','' \<notin> set (to_chars_nat n)"
  using to_chars_nat_digits[of n] by (auto simp: list_all_iff is_ascii_digit_alt)

lemma recovery_no_comma [simp]: "CHR '','' \<notin> set (recovery_name r)"
  by (cases r) simp_all

lemma parse_optional_uint_iff: "parse_optional_uint t l e f = Inr x \<longleftrightarrow> t = print_optional print_uint64 x"
  by (cases x) (auto simp: parse_optional_uint_def result_iffs parse_uint64_iff print_optional_def print_uint64_def)

lemma parse_current_gap_iff: "parse_current_gap t l e f = Inr x \<longleftrightarrow> t = print_optional print_gap x"
proof (cases x)
  case None
  then show ?thesis
    by (auto simp: parse_current_gap_def print_optional_def result_iffs split: option.splits if_splits)
next
  case (Some g)
  obtain v r where g: "g = (v, r)" by force
  have "parse_current_gap t l e f = Inr (Some (v, r)) \<longleftrightarrow>
      (\<exists>comma. sv_find (CHR '','') t 0 = Some comma \<and> sv_find (CHR '','') t (comma + 1) = None \<and>
        sv_substr t 0 comma = to_chars_nat (unat v) \<and> sv_substr t (comma + 1) (length t) = recovery_name r)"
    by (auto simp: parse_current_gap_def result_iffs parse_uint64_iff parse_recovery_iff sv_find_def split: option.splits)
  also have "\<dots> \<longleftrightarrow> t = to_chars_nat (unat v) @ CHR '','' # recovery_name r"
    unfolding cut_token by simp
  finally show ?thesis using Some g by (simp add: print_optional_def print_gap_def print_uint64_def)
qed

subsection \<open>Events\<close>

abbreviation (input) print_levels :: "level_input list \<Rightarrow> string" where
  "print_levels \<equiv> print_list (CHR ''|'') print_level"

abbreviation (input) print_qualities :: "replay_quality_fact list \<Rightarrow> string" where
  "print_qualities \<equiv> print_list (CHR '','') quality_name"

fun event_tokens :: "replay_operation \<Rightarrow> string list" where
  "event_tokens (InstallBaselineOp _ i bids asks) =
     [''INSTALL_BASELINE'', print_uint64 i, print_levels bids, print_levels asks]"
| "event_tokens (DepthUpdateOp _ first_id final_id previous levels) =
     [''DEPTH_UPDATE'', print_uint64 first_id, print_uint64 final_id,
      ''pu='' @ print_optional print_uint64 previous, print_levels levels]"
| "event_tokens (RebaselineOp _ i bids asks) =
     [''REBASELINE'', print_uint64 i, print_levels bids, print_levels asks]"
| "event_tokens (ResetOp _) = [''RESET'']"
| "event_tokens (SnapshotRequestOp _ request) =
     [''SNAPSHOT_REQUEST'', print_optional to_chars_nat (sr_depth_limit request),
      print_qualities (sr_host_quality_facts request), sr_snapshot_id request, sr_producer request,
      sr_producer_version request, origin_name (sr_source_origin request),
      print_uint64 (sr_generated_time_utc_ns request),
      print_optional print_uint64 (sr_generated_monotonic_ns request),
      print_optional print_gap (sr_current_gap request)]"
| "event_tokens (AdapterMetadataOp _ facts) = [''ADAPTER_METADATA'', print_qualities facts]"
| "event_tokens (MalformedRangeOp _ first_id final_id) =
     [''MALFORMED_RANGE'', print_uint64 first_id, print_uint64 final_id]"

text \<open>The operations a log can hold.\<close>

fun event_written :: "replay_operation \<Rightarrow> bool" where
  "event_written (InstallBaselineOp _ _ bids asks) \<longleftrightarrow>
     list_all (level_written (Some SideBid)) bids \<and> list_all (level_written (Some SideAsk)) asks"
| "event_written (DepthUpdateOp _ _ _ _ levels) \<longleftrightarrow> list_all (level_written None) levels"
| "event_written (RebaselineOp _ _ bids asks) \<longleftrightarrow>
     list_all (level_written (Some SideBid)) bids \<and> list_all (level_written (Some SideAsk)) asks"
| "event_written (SnapshotRequestOp _ request) \<longleftrightarrow>
     (\<forall>n. sr_depth_limit request = Some n \<longrightarrow> n \<le> 4294967295) \<and>
     valid_identifier_token (sr_snapshot_id request) \<and> valid_identifier_token (sr_producer request) \<and>
     valid_identifier_token (sr_producer_version request)"
| "event_written _ \<longleftrightarrow> True"

lemmas reader_iffs = parse_uint64_iff parse_uint32_iff parse_levels_iff parse_quality_list_iff parse_optional_uint_iff
  parse_current_gap_iff parse_origin_iff

lemma length_numeral_conv:
  "length ts = 2 \<longleftrightarrow> (\<exists>a b. ts = [a, b])"
  "length ts = 3 \<longleftrightarrow> (\<exists>a b c. ts = [a, b, c])"
  "length ts = 4 \<longleftrightarrow> (\<exists>a b c d. ts = [a, b, c, d])"
  "length ts = 5 \<longleftrightarrow> (\<exists>a b c d e. ts = [a, b, c, d, e])"
  by (auto simp: numeral_eq_Suc length_Suc_conv)

lemma length_ten:
  assumes "length ts = 10"
  obtains a b c d e f g h i j where "ts = [a, b, c, d, e, f, g, h, i, j]"
  using assms by (auto simp: numeral_eq_Suc length_Suc_conv)

lemma parse_baseline_event_iff:
  "parse_baseline_event ts rebaseline loc l e = Inr op \<longleftrightarrow>
     (\<exists>name i bids asks. ts = [name, print_uint64 i, print_levels bids, print_levels asks] \<and>
        list_all (level_written (Some SideBid)) bids \<and> list_all (level_written (Some SideAsk)) asks \<and>
        op = (if rebaseline then RebaselineOp loc i bids asks else InstallBaselineOp loc i bids asks))"
  by (cases "length ts = 4")
    (auto simp: parse_baseline_event_def result_iffs reader_iffs length_numeral_conv print_uint64_def)

lemma starts_with_iff: "starts_with s prefix \<longleftrightarrow> (\<exists>r. s = prefix @ r)"
proof
  assume "starts_with s prefix"
  then have "s = prefix @ drop (length prefix) s"
    by (metis append_take_drop_id drop0 starts_with_def sv_substr_def)
  then show "\<exists>r. s = prefix @ r" ..
qed (auto simp: starts_with_def sv_substr_def)

lemma parse_depth_update_event_iff:
  "parse_depth_update_event ts loc l e = Inr op \<longleftrightarrow>
     (\<exists>name first_id final_id previous levels.
        ts = [name, print_uint64 first_id, print_uint64 final_id, ''pu='' @ print_optional print_uint64 previous,
              print_levels levels] \<and>
        list_all (level_written None) levels \<and> op = DepthUpdateOp loc first_id final_id previous levels)"
  by (cases "length ts = 5")
    (auto simp: parse_depth_update_event_def result_iffs reader_iffs length_numeral_conv print_uint64_def
      starts_with_iff sv_substr_def)

lemma parse_small_events_iff:
  "parse_reset_event ts loc l e = Inr op \<longleftrightarrow> (\<exists>name. ts = [name] \<and> op = ResetOp loc)"
  "parse_adapter_metadata_event ts loc l e = Inr op \<longleftrightarrow>
     (\<exists>name facts. ts = [name, print_qualities facts] \<and> op = AdapterMetadataOp loc facts)"
  "parse_malformed_range_event ts loc l e = Inr op \<longleftrightarrow>
     (\<exists>name first_id final_id. ts = [name, print_uint64 first_id, print_uint64 final_id] \<and>
        op = MalformedRangeOp loc first_id final_id)"
proof -
  show "parse_reset_event ts loc l e = Inr op \<longleftrightarrow> (\<exists>name. ts = [name] \<and> op = ResetOp loc)"
    by (cases "length ts = 1") (auto simp: parse_reset_event_def length_Suc_conv)
  show "parse_adapter_metadata_event ts loc l e = Inr op \<longleftrightarrow>
     (\<exists>name facts. ts = [name, print_qualities facts] \<and> op = AdapterMetadataOp loc facts)"
    by (cases "length ts = 2")
      (auto simp: parse_adapter_metadata_event_def result_iffs reader_iffs length_numeral_conv)
  show "parse_malformed_range_event ts loc l e = Inr op \<longleftrightarrow>
     (\<exists>name first_id final_id. ts = [name, print_uint64 first_id, print_uint64 final_id] \<and>
        op = MalformedRangeOp loc first_id final_id)"
    by (cases "length ts = 3")
      (auto simp: parse_malformed_range_event_def result_iffs reader_iffs length_numeral_conv print_uint64_def)
qed

lemma parse_depth_token_iff:
  "parse_depth_token t l e = Inr x \<longleftrightarrow>
     (\<forall>n. x = Some n \<longrightarrow> n \<le> 4294967295) \<and> t = print_optional to_chars_nat x"
  by (cases x) (auto simp: parse_depth_token_def result_iffs parse_uint32_iff print_optional_def)

lemma check_identifier_tokens_iff:
  "check_identifier_tokens ts l e is = Inr u \<longleftrightarrow> list_all (\<lambda>i. valid_identifier_token (ts ! i)) is"
  by (induction "is") auto

declare check_identifier_tokens.simps [simp del]

lemma parse_snapshot_request_event_iff:
  "parse_snapshot_request_event ts loc l e = Inr op \<longleftrightarrow>
     (\<exists>name request. ts = name # tl (event_tokens (SnapshotRequestOp loc request)) \<and>
        event_written (SnapshotRequestOp loc request) \<and> op = SnapshotRequestOp loc request)"
proof (cases "length ts = 10")
  case True
  then obtain a b c d f g h i j k where ts: "ts = [a, b, c, d, f, g, h, i, j, k]"
    by (rule length_ten)
  note iffs = parse_depth_token_iff parse_quality_list_iff parse_origin_iff parse_uint64_iff
    parse_optional_uint_iff parse_current_gap_iff check_identifier_tokens_iff
  show ?thesis (is "?L \<longleftrightarrow> ?R")
  proof
    assume ?L
    then show ?R
      by (auto simp: parse_snapshot_request_event_def ts bind_result_Inr_iff iffs print_uint64_def)
  next
    assume ?R
    then obtain request where r: "ts = a # tl (event_tokens (SnapshotRequestOp loc request))"
      "event_written (SnapshotRequestOp loc request)" "op = SnapshotRequestOp loc request"
      using ts by auto
    have read: "parse_depth_token b l e = Inr (sr_depth_limit request)"
      "parse_quality_list c l e 2 = Inr (sr_host_quality_facts request)"
      "parse_origin h l e 6 = Inr (sr_source_origin request)"
      "parse_uint64 i l e 7 = Inr (sr_generated_time_utc_ns request)"
      "parse_optional_uint j l e 8 = Inr (sr_generated_monotonic_ns request)"
      "parse_current_gap k l e 9 = Inr (sr_current_gap request)"
      "check_identifier_tokens ts l e [3, 4, 5] = Inr ()"
      using r ts by (simp_all add: iffs print_uint64_def)
    show ?L using r(1,3) ts read by (simp add: parse_snapshot_request_event_def)
  qed
next
  case False
  then show ?thesis by (auto simp: parse_snapshot_request_event_def)
qed

lemma parse_event_iff:
  assumes "ts \<noteq> []"
  shows "parse_event ts loc l e = Inr op \<longleftrightarrow> event_written op \<and> operation_source op = loc \<and> ts = event_tokens op"
  using assms unfolding parse_event_def
  by (cases op) (auto simp: parse_baseline_event_iff parse_depth_update_event_iff parse_small_events_iff
      parse_snapshot_request_event_iff)

end
