(* ===== verification/Replay_Fields.thy ===== *)
theory Replay_Fields
  imports Replay_Grammar
begin

text \<open>
  Ordered \<open>key=value\<close> fields.  The header of a log and the manifest are both read field by field:
  required keys in a fixed order, then provenance keys in ascending order.  The locale
  \<open>field_reader\<close> is what one step of such a reader promises; it gives the fields a reader accepts.
\<close>

definition print_field :: "string \<times> string \<Rightarrow> string" where
  "print_field kv = fst kv @ CHR ''='' # snd kv"

definition is_provenance :: "string \<Rightarrow> bool" where
  "is_provenance key \<longleftrightarrow> starts_with key ''provenance_''"

lemma zip_keys: "fst ` set (zip ks vs) = set (take (length vs) ks)"
  by (metis map_fst_zip_take set_map min.absorb2 nat_le_linear take_all min_def)

text \<open>Too few fields leave a required key out.\<close>

lemma required_incomplete:
  assumes "distinct ks" "length vs < length ks"
  shows "\<not> set ks \<subseteq> fst ` set (zip ks vs)"
proof -
  have "card (set (take (length vs) ks)) < card (set ks)"
    using card_length[of "take (length vs) ks"] distinct_card[OF assms(1)] assms(2) by simp
  then show ?thesis using card_mono[of "set (take (length vs) ks)" "set ks"] by (auto simp: zip_keys)
qed

locale field_reader =
  fixes scan :: "nat \<Rightarrow> string list \<Rightarrow> 'c \<Rightarrow> string \<Rightarrow> 'e + 'r"
    and add :: "'c \<Rightarrow> string \<times> string \<Rightarrow> 'c" and out :: "'c \<Rightarrow> 'r"
    and keys :: "'c \<Rightarrow> string set" and good :: "'c \<Rightarrow> bool"
    and token_ok :: "string \<Rightarrow> bool" and required :: "string list"
  assumes scan_Nil: "scan i [] c previous = Inr (out c)"
    and scan_required: "0 < i \<Longrightarrow> i \<le> length required \<Longrightarrow> good c \<Longrightarrow> required ! (i - 1) \<notin> keys c \<Longrightarrow>
      scan i (t # ts) c previous = Inr r \<longleftrightarrow>
        (\<exists>v. token_ok v \<and> t = print_field (required ! (i - 1), v) \<and>
          scan (i + 1) ts (add c (required ! (i - 1), v)) previous = Inr r)"
    and scan_optional: "length required < i \<Longrightarrow> good c \<Longrightarrow>
      (\<And>k. k \<in> keys c \<Longrightarrow> is_provenance k \<Longrightarrow> previous \<noteq> [] \<and> k \<le> previous) \<Longrightarrow>
      scan i (t # ts) c previous = Inr r \<longleftrightarrow>
        (\<exists>k v. is_provenance k \<and> token_ok k \<and> token_ok v \<and> t = print_field (k, v) \<and>
          (previous \<noteq> [] \<longrightarrow> previous < k) \<and> scan (i + 1) ts (add c (k, v)) k = Inr r)"
    and good_add: "good c \<Longrightarrow> good (add c kv)"
    and keys_add: "good c \<Longrightarrow> keys (add c kv) = insert (fst kv) (keys c)"
    and required_distinct: "distinct required"
    and required_not_provenance: "k \<in> set required \<Longrightarrow> \<not> is_provenance k"
begin

definition entry_ok :: "string \<times> string \<Rightarrow> bool" where
  "entry_ok kv \<longleftrightarrow> is_provenance (fst kv) \<and> token_ok (fst kv) \<and> token_ok (snd kv)"

abbreviation (input) adds :: "'c \<Rightarrow> (string \<times> string) list \<Rightarrow> 'c" where
  "adds \<equiv> foldl add"

lemma ex_list_Suc: "(\<exists>vs. length vs = Suc n \<and> P vs) \<longleftrightarrow> (\<exists>v vs. length vs = n \<and> P (v # vs))"
  by (metis length_Suc_conv)

lemma good_adds: "good c \<Longrightarrow> good (adds c kvs)"
  by (induction kvs arbitrary: c) (simp_all add: good_add)

lemma keys_adds: "good c \<Longrightarrow> keys (adds c kvs) = fst ` set kvs \<union> keys c"
  by (induction kvs arbitrary: c) (auto simp: good_add keys_add)

lemma scan_provenance:
  assumes "length required < i" "good c" "\<And>k. k \<in> keys c \<Longrightarrow> is_provenance k \<Longrightarrow> previous \<noteq> [] \<and> k \<le> previous"
  shows "scan i ts c previous = Inr r \<longleftrightarrow>
    (\<exists>kvs. ts = map print_field kvs \<and> list_all entry_ok kvs \<and> sorted_wrt (<) (map fst kvs) \<and>
       (previous \<noteq> [] \<longrightarrow> list_all (\<lambda>kv. previous < fst kv) kvs) \<and> r = out (adds c kvs))"
  using assms
proof (induction ts arbitrary: i c previous)
  case Nil
  then show ?case by (auto simp: scan_Nil)
next
  case (Cons t ts)
  have next_step: "scan (i + 1) ts (add c (k, v)) k = Inr r \<longleftrightarrow>
      (\<exists>kvs. ts = map print_field kvs \<and> list_all entry_ok kvs \<and> sorted_wrt (<) (map fst kvs) \<and>
         list_all (\<lambda>kv. k < fst kv) kvs \<and> r = out (adds c ((k, v) # kvs)))"
    if k: "is_provenance k" "previous \<noteq> [] \<longrightarrow> previous < k" for k v
  proof -
    have ne: "k \<noteq> []" using k(1) by (auto simp: is_provenance_def starts_with_iff)
    have bound: "k \<noteq> [] \<and> j \<le> k" if "j \<in> keys (add c (k, v))" "is_provenance j" for j
      using that Cons.prems(3)[OF _ that(2)] k(2) ne keys_add[OF Cons.prems(2), of "(k, v)"] by fastforce
    show ?thesis
      using Cons.IH[OF _ good_add[OF Cons.prems(2)] bound, of "i + 1"] Cons.prems(1) ne by simp
  qed
  have step: "scan i (t # ts) c previous = Inr r \<longleftrightarrow> (\<exists>k v. is_provenance k \<and> token_ok k \<and> token_ok v \<and>
      t = print_field (k, v) \<and> (previous \<noteq> [] \<longrightarrow> previous < k) \<and> scan (i + 1) ts (add c (k, v)) k = Inr r)"
    using Cons.prems by (intro scan_optional)
  show ?case (is "_ \<longleftrightarrow> ?R")
  proof
    assume "scan i (t # ts) c previous = Inr r"
    then obtain k v where k: "is_provenance k" "previous \<noteq> [] \<longrightarrow> previous < k" "token_ok k" "token_ok v"
      "t = print_field (k, v)" and rest: "scan (i + 1) ts (add c (k, v)) k = Inr r"
      unfolding step by blast
    from rest obtain kvs where kvs: "ts = map print_field kvs" "list_all entry_ok kvs"
      "sorted_wrt (<) (map fst kvs)" "list_all (\<lambda>kv. k < fst kv) kvs" "r = out (adds c ((k, v) # kvs))"
      unfolding next_step[OF k(1,2)] by blast
    with k(2) have "previous \<noteq> [] \<longrightarrow> list_all (\<lambda>kv. previous < fst kv) kvs"
      by (auto simp: list_all_iff intro: less_trans)
    with k kvs show ?R by (intro exI[of _ "(k, v) # kvs"]) (auto simp: list_all_iff entry_ok_def)
  next
    assume ?R
    then obtain kvs' where kvs': "t # ts = map print_field kvs'" "list_all entry_ok kvs'"
      "sorted_wrt (<) (map fst kvs')" "previous \<noteq> [] \<longrightarrow> list_all (\<lambda>kv. previous < fst kv) kvs'"
      "r = out (adds c kvs')" by (elim exE conjE)
    then obtain k v kvs where kv: "kvs' = (k, v) # kvs" by (cases kvs') auto
    with kvs' have k: "is_provenance k" "previous \<noteq> [] \<longrightarrow> previous < k" "token_ok k" "token_ok v" "t = print_field (k, v)"
      by (auto simp: entry_ok_def)
    have "scan (i + 1) ts (add c (k, v)) k = Inr r"
      unfolding next_step[OF k(1,2)] using kvs' kv by (intro exI[of _ kvs]) (auto simp: list_all_iff)
    with k show "scan i (t # ts) c previous = Inr r" unfolding step by blast
  qed
qed

text \<open>\<open>seen\<close> is the part of the required keys already read, \<open>todo\<close> what is left of them.\<close>

lemma scan_todo:
  assumes "seen @ todo = required" "good c" "keys c = set seen"
  shows "scan (length seen + 1) ts c [] = Inr r \<longleftrightarrow>
    (\<exists>vs. length vs = min (length todo) (length ts) \<and> list_all token_ok vs \<and>
       take (length todo) ts = map print_field (zip todo vs) \<and>
       (if length ts < length todo then r = out (adds c (zip todo vs))
        else scan (length required + 1) (drop (length todo) ts) (adds c (zip todo vs)) [] = Inr r))"
  using assms
proof (induction todo arbitrary: seen c ts)
  case Nil
  then show ?case by auto
next
  case (Cons k todo)
  show ?case
  proof (cases ts)
    case Nil
    then show ?thesis by (auto simp: scan_Nil)
  next
    case ts: (Cons t ts')
    have "distinct (seen @ k # todo)" using required_distinct Cons.prems(1) by simp
    then have fresh: "k \<notin> keys c" using Cons.prems(3) by simp
    have k: "required ! length seen = k" "length seen + 1 \<le> length required"
      unfolding Cons.prems(1)[symmetric] by simp_all
    have IH: "scan (length seen + 1 + 1) ts' (add c (k, v)) [] = Inr r \<longleftrightarrow>
        (\<exists>vs. length vs = min (length todo) (length ts') \<and> list_all token_ok vs \<and>
          take (length todo) ts' = map print_field (zip todo vs) \<and>
          (if length ts' < length todo then r = out (adds c ((k, v) # zip todo vs))
           else scan (length required + 1) (drop (length todo) ts') (adds c ((k, v) # zip todo vs)) [] = Inr r))" for v
      using Cons.IH[of "seen @ [k]" "add c (k, v)" ts'] Cons.prems by (simp add: good_add keys_add)
    have "scan (length seen + 1) ts c [] = Inr r \<longleftrightarrow>
        (\<exists>v. token_ok v \<and> t = print_field (k, v) \<and> scan (length seen + 1 + 1) ts' (add c (k, v)) [] = Inr r)"
      unfolding ts using scan_required[of "length seen + 1" c t ts' "[]" r] k Cons.prems(2) fresh by simp
    also have "\<dots> \<longleftrightarrow> (\<exists>v vs. length vs = min (length todo) (length ts') \<and> list_all token_ok (v # vs) \<and>
        take (length (k # todo)) ts = map print_field (zip (k # todo) (v # vs)) \<and>
        (if length ts < length (k # todo) then r = out (adds c (zip (k # todo) (v # vs)))
         else scan (length required + 1) (drop (length (k # todo)) ts) (adds c (zip (k # todo) (v # vs))) [] = Inr r))"
      unfolding IH ts by auto
    finally show ?thesis by (simp add: ts ex_list_Suc)
  qed
qed

lemma scan_all:
  assumes "good c" "keys c = {}"
  shows "length required \<le> length ts \<Longrightarrow> scan 1 ts c [] = Inr r \<longleftrightarrow>
      (\<exists>vs ps. length vs = length required \<and> list_all token_ok vs \<and> list_all entry_ok ps \<and> sorted_wrt (<) (map fst ps) \<and>
         ts = map print_field (zip required vs @ ps) \<and> r = out (adds c (zip required vs @ ps)))"
    and "length ts < length required \<Longrightarrow> scan 1 ts c [] = Inr r \<Longrightarrow>
      \<exists>vs. length vs = length ts \<and> r = out (adds c (zip required vs))"
proof -
  note todo = scan_todo[of "[]" required c ts r, simplified, OF assms]
  have optional: "scan (Suc (length required)) us (adds c (zip required vs)) [] = Inr r \<longleftrightarrow>
      (\<exists>ps. us = map print_field ps \<and> list_all entry_ok ps \<and> sorted_wrt (<) (map fst ps) \<and>
        r = out (adds c (zip required vs @ ps)))" for us vs
  proof -
    have "\<not> is_provenance k" if "k \<in> keys (adds c (zip required vs))" for k
      using that assms required_not_provenance by (auto simp: keys_adds dest!: set_zip_leftD)
    then show ?thesis using assms(1) by (subst scan_provenance) (auto simp: good_adds)
  qed
  show "scan 1 ts c [] = Inr r \<longleftrightarrow>
      (\<exists>vs ps. length vs = length required \<and> list_all token_ok vs \<and> list_all entry_ok ps \<and> sorted_wrt (<) (map fst ps) \<and>
         ts = map print_field (zip required vs @ ps) \<and> r = out (adds c (zip required vs @ ps)))"
    if len: "length required \<le> length ts"
  proof -
    have "scan 1 ts c [] = Inr r \<longleftrightarrow> (\<exists>vs. length vs = length required \<and> list_all token_ok vs \<and>
        take (length required) ts = map print_field (zip required vs) \<and>
        (\<exists>ps. drop (length required) ts = map print_field ps \<and> list_all entry_ok ps \<and> sorted_wrt (<) (map fst ps) \<and>
          r = out (adds c (zip required vs @ ps))))"
      using todo len by (simp add: optional min_absorb1 not_less)
    also have "\<dots> \<longleftrightarrow> (\<exists>vs ps. length vs = length required \<and> list_all token_ok vs \<and> list_all entry_ok ps \<and>
        sorted_wrt (<) (map fst ps) \<and> ts = map print_field (zip required vs @ ps) \<and> r = out (adds c (zip required vs @ ps)))"
    proof -
      have "ts = map print_field (zip required vs @ ps) \<longleftrightarrow>
          take (length required) ts = map print_field (zip required vs) \<and> drop (length required) ts = map print_field ps"
        if "length vs = length required" for vs ps
        using that by (metis append_eq_conv_conj append_take_drop_id length_map length_zip map_append min.idem)
      then show ?thesis by blast
    qed
    finally show ?thesis .
  qed
  show "\<exists>vs. length vs = length ts \<and> r = out (adds c (zip required vs))"
    if "length ts < length required" "scan 1 ts c [] = Inr r"
    using that todo by (auto simp: min_def)
qed

end

end
