(* ===== verification/Replay_Log.thy ===== *)
theory Replay_Log
  imports Replay_Fields
begin

text \<open>
  Headers and whole logs: the parser of \<open>replay_parser.cpp\<close> accepts exactly the printed logs, and
  returns what was printed.
\<close>

subsection \<open>Key and value\<close>

lemma symbolic_chars: "valid_symbolic_token t \<Longrightarrow> t \<noteq> [] \<and> CHR ''='' \<notin> set t"
  by (auto simp: valid_symbolic_token_def list_all_iff token_char_def)

lemma key_value_iff:
  "key_value t l e f = Inr (k, v) \<longleftrightarrow> valid_symbolic_token k \<and> valid_symbolic_token v \<and> t = print_field (k, v)"
proof -
  have "key_value t l e f = Inr (k, v) \<longleftrightarrow> valid_symbolic_token k \<and> valid_symbolic_token v \<and>
      (\<exists>n. sv_find (CHR ''='') t 0 = Some n \<and> sv_find (CHR ''='') t (n + 1) = None \<and> sv_substr t 0 n = k \<and>
        sv_substr t (n + 1) (length t) = v)" (is "_ \<longleftrightarrow> ?R")
  proof
    assume "key_value t l e f = Inr (k, v)"
    then show ?R by (auto simp: key_value_def Let_def split: option.splits if_splits)
  next
    assume r: ?R
    then obtain n where n: "sv_find (CHR ''='') t 0 = Some n" "sv_find (CHR ''='') t (n + 1) = None"
      "sv_substr t 0 n = k" "sv_substr t (n + 1) (length t) = v" by blast
    have "n \<noteq> 0" "n + 1 < length t" using r n symbolic_chars[of k] symbolic_chars[of v] by (auto simp: sv_substr_def)
    with r n show "key_value t l e f = Inr (k, v)" by (simp add: key_value_def Let_def)
  qed
  then show ?thesis unfolding cut_token print_field_def using symbolic_chars by auto
qed

subsection \<open>The fields of a header\<close>

definition insert_fields :: "header_fields \<Rightarrow> (string \<times> string) list \<Rightarrow> header_fields" where
  "insert_fields m kvs = foldl (\<lambda>m (k, v). map_insert_or_assign (<) k v m) m kvs"

lemma insert_fields_simps [simp]:
  "insert_fields m [] = m"
  "insert_fields m ((k, v) # kvs) = insert_fields (map_insert_or_assign (<) k v m) kvs"
  by (simp_all add: insert_fields_def)

lemma insert_fields_contents:
  "map_inv (<) m \<Longrightarrow> map_inv (<) (insert_fields m kvs) \<and> map_of (insert_fields m kvs) = map_of m ++ map_of (rev kvs)"
proof (induction kvs arbitrary: m)
  case (Cons kv kvs)
  obtain k v where kv: "kv = (k, v)" by force
  have "map_inv (<) (map_insert_or_assign (<) k v m)" using Cons.prems by (rule ascending.map_inv_insert)
  from Cons.IH[OF this] Cons.prems show ?case
    by (auto simp: kv ascending.map_of_map_insert map_add_def fun_eq_iff split: option.split)
qed simp

lemma fields_contain_iff: "map_inv (<) m \<Longrightarrow> fields_contain m k \<longleftrightarrow> map_of m k \<noteq> None"
  by (simp add: fields_contain_def ascending.map_find_map_of)

lemma empty_inv [simp]: "map_inv (<) []"
  by (simp add: map_inv_def)

lemma kRequired_length [simp]: "length kRequiredHeaderFields = 6"
  by (simp add: kRequiredHeaderFields_def)

lemma required_key:
  assumes "k \<in> set kRequiredHeaderFields"
  shows "valid_symbolic_token k" "\<not> is_provenance k" "known_header_field k"
  using assms
  by (auto simp: kRequiredHeaderFields_def is_provenance_def starts_with_iff valid_symbolic_token_def token_char_def
      known_header_field_def)

lemma provenance_known: "is_provenance k \<Longrightarrow> known_header_field k"
  by (simp add: is_provenance_def known_header_field_def)

lemma header_required_step:
  assumes "0 < i" "i \<le> 6" "k = kRequiredHeaderFields ! (i - 1)" "\<not> fields_contain m k"
  shows "collect_header_loop i (t # ts) m previous = Inr r \<longleftrightarrow>
    (\<exists>v. valid_symbolic_token v \<and> t = print_field (k, v) \<and>
       collect_header_loop (i + 1) ts (map_insert_or_assign (<) k v m) previous = Inr r)"
proof -
  have "k \<in> set kRequiredHeaderFields" using assms(1-3) by simp
  note k = required_key[OF this, unfolded is_provenance_def]
  have "collect_header_loop i (t # ts) m previous = Inr r \<longleftrightarrow>
      (\<exists>v. key_value t 1 0 i = Inr (k, v) \<and>
        collect_header_loop (i + 1) ts (map_insert_or_assign (<) k v m) previous = Inr r)"
    using assms k by (auto simp: bind_result_Inr_iff split: if_splits)
  with k(1) show ?thesis by (simp add: key_value_iff)
qed

lemma header_optional_step:
  assumes "6 < i" "\<And>k. fields_contain m k \<Longrightarrow> is_provenance k \<Longrightarrow> previous \<noteq> [] \<and> k \<le> previous"
  shows "collect_header_loop i (t # ts) m previous = Inr r \<longleftrightarrow>
    (\<exists>k v. is_provenance k \<and> valid_symbolic_token k \<and> valid_symbolic_token v \<and> t = print_field (k, v) \<and>
       (previous \<noteq> [] \<longrightarrow> previous < k) \<and>
       collect_header_loop (i + 1) ts (map_insert_or_assign (<) k v m) k = Inr r)"
proof -
  have fresh: "\<not> fields_contain m k" if "is_provenance k" "previous \<noteq> [] \<longrightarrow> previous < k" for k
    using assms(2)[OF _ that(1)] that(2) by fastforce
  then show ?thesis
    using assms(1) provenance_known
    by (auto simp: bind_result_Inr_iff key_value_iff is_provenance_def[symmetric] not_le split: if_splits)
qed

interpretation header_reader: field_reader collect_header_loop "\<lambda>m (k, v). map_insert_or_assign (<) k v m" "\<lambda>m. m"
  "\<lambda>m. {k. fields_contain m k}" "map_inv (<)" valid_symbolic_token kRequiredHeaderFields
proof (unfold_locales, goal_cases)
  case (2 i c t ts previous r)
  then show ?case using header_required_step[of i _ c t ts previous r] by simp
next
  case (3 i c previous t ts r)
  then show ?case using header_optional_step[of i c previous t ts r] by simp
next
  case (5 c kv)
  then show ?case
    by (cases kv) (auto simp: fields_contain_iff ascending.map_inv_insert ascending.map_of_map_insert)
qed (auto simp: ascending.map_inv_insert required_key(2), simp add: kRequiredHeaderFields_def)

abbreviation (input) provenance_entry :: "string \<times> string \<Rightarrow> bool" where
  "provenance_entry \<equiv> header_reader.entry_ok"

lemmas provenance_entry_def = header_reader.entry_ok_def is_provenance_def

subsection \<open>Headers\<close>

definition required_fields :: "replay_header \<Rightarrow> (string \<times> string) list" where
  "required_fields h =
     [(''market'', market_name (rh_market h)), (''symbol'', rh_symbol h),
      (''price_scale'', to_chars_nat (rs_price_scale (rh_numeric_spec h))),
      (''quantity_scale'', to_chars_nat (rs_quantity_scale (rh_numeric_spec h))),
      (''policy'', policy_name (rh_sequence_policy h)), (''fixture_id'', rh_fixture_id h)]"

definition header_tokens :: "replay_header \<Rightarrow> string list" where
  "header_tokens h = kReplaySchemaName # map print_field (required_fields h @ rh_provenance h)"

definition markets_agree :: "replay_market \<Rightarrow> replay_policy \<Rightarrow> bool" where
  "markets_agree market policy \<longleftrightarrow> (market = ReplaySpot \<longleftrightarrow> policy = PolicySpot)"

definition header_written :: "replay_header \<Rightarrow> bool" where
  "header_written h \<longleftrightarrow> rh_schema_version h = kReplaySchemaVersion \<and>
     valid_identifier_token (rh_symbol h) \<and> valid_identifier_token (rh_fixture_id h) \<and>
     spec_ok (rh_numeric_spec h) \<and> markets_agree (rh_market h) (rh_sequence_policy h) \<and>
     list_all provenance_entry (rh_provenance h) \<and> sorted_wrt (<) (map fst (rh_provenance h))"

lemma required_distinct:
  assumes "list_all provenance_entry ps" "sorted_wrt (<) (map fst ps)"
  shows "distinct (map fst (required_fields h @ ps))"
proof -
  have "k \<notin> fst ` set ps" if "k \<in> set kRequiredHeaderFields" for k
    using assms(1) that by (auto simp: list_all_iff provenance_entry_def starts_with_iff kRequiredHeaderFields_def)
  moreover have "distinct (map fst ps)" using ascending.sorted_wrt_distinct[OF assms(2)] .
  ultimately show ?thesis by (auto simp: required_fields_def kRequiredHeaderFields_def)
qed

text \<open>The map the collected fields end up in, and the provenance read back from it in key order.\<close>

lemma inserted_fields:
  assumes "distinct (map fst kvs)"
  shows "map_find (<) k (insert_fields [] kvs) = map_of kvs k"
    and "set (insert_fields [] kvs) = set kvs"
    and "sorted_wrt (<) (map fst (insert_fields [] kvs))"
proof -
  let ?m = "insert_fields [] kvs"
  have "map_of (rev kvs) = map_of kvs"
    using assms by (simp add: map_of_inject_set rev_map[symmetric])
  then have inv: "map_inv (<) ?m" and contents: "map_of ?m = map_of kvs"
    using insert_fields_contents[of "[]" kvs] by simp_all
  show "sorted_wrt (<) (map fst ?m)" using inv by (simp add: map_inv_def)
  show "map_find (<) k ?m = map_of kvs k" using inv contents by (simp add: ascending.map_find_map_of)
  have "distinct (map fst ?m)" using inv ascending.sorted_wrt_distinct by (simp add: map_inv_def)
  with assms contents have "x \<in> set ?m \<longleftrightarrow> x \<in> set kvs" for x
    by (cases x) (metis map_of_eq_Some_iff)
  then show "set ?m = set kvs" by blast
qed

lemma provenance_read_back:
  assumes "list_all provenance_entry ps" "sorted_wrt (<) (map fst ps)"
  shows "filter (\<lambda>(key, val). starts_with key ''provenance_'') (insert_fields [] (required_fields h @ ps)) = ps"
proof -
  let ?m = "insert_fields [] (required_fields h @ ps)"
  let ?f = "filter (\<lambda>(key, val). starts_with key ''provenance_'') ?m"
  note ins = inserted_fields[OF required_distinct[OF assms, of h]]
  have "set ?f = set ps"
    using ins(2) assms(1) by (auto simp: required_fields_def list_all_iff provenance_entry_def starts_with_iff)
  moreover have "sorted_wrt (<) (map fst ?f)"
    using ins(3) by (simp add: sorted_wrt_map sorted_wrt_filter)
  moreover have "inj_on fst (set ps)"
    using ascending.sorted_wrt_distinct[OF assms(2)] by (simp add: distinct_map)
  ultimately show ?thesis
    using assms(2) by (intro map_sorted_distinct_set_unique[of fst])
      (auto simp: strict_sorted_iff)
qed

lemma insert_fields_append: "insert_fields m (xs @ ys) = insert_fields (insert_fields m xs) ys"
  by (simp add: insert_fields_def)

lemma inserted_contains: "fields_contain (insert_fields [] kvs) k \<longleftrightarrow> k \<in> fst ` set kvs"
proof -
  have "fields_contain (insert_fields [] kvs) k \<longleftrightarrow> map_of (rev kvs) k \<noteq> None"
    using insert_fields_contents[of "[]" kvs] by (simp add: fields_contain_iff)
  also have "\<dots> \<longleftrightarrow> k \<in> fst ` set kvs" by (simp only: map_of_eq_None_iff set_rev) simp
  finally show ?thesis .
qed

lemma collect_header_iff:
  "collect_header_fields (name # ts) = Inr m \<and> check_header_fields_present m = Inr () \<longleftrightarrow>
     (\<exists>vs ps. length vs = 6 \<and> list_all valid_symbolic_token vs \<and> list_all provenance_entry ps \<and>
        sorted_wrt (<) (map fst ps) \<and> ts = map print_field (zip kRequiredHeaderFields vs @ ps) \<and>
        m = insert_fields [] (zip kRequiredHeaderFields vs @ ps))"
proof -
  have present: "check_header_fields_present m = Inr () \<longleftrightarrow> set kRequiredHeaderFields \<subseteq> {k. fields_contain m k}" for m
    by (auto simp: check_header_fields_present_def list_all_iff)
  have empty: "{k. fields_contain [] k} = {}" by (simp add: fields_contain_def)
  note all = header_reader.scan_all[of "[]" ts m, OF empty_inv empty, folded insert_fields_def]
  have keys: "set kRequiredHeaderFields \<subseteq> {k. fields_contain (insert_fields [] (zip kRequiredHeaderFields vs @ ps)) k}"
    if "length vs = 6" for vs ps
    using that by (auto simp: inserted_contains image_Un zip_keys)
  show ?thesis
  proof (cases "6 \<le> length ts")
    case True
    with all(1) keys show ?thesis by (auto simp: collect_header_fields_def present)
  next
    case False
    have "\<not> set kRequiredHeaderFields \<subseteq> {k. fields_contain (insert_fields [] (zip kRequiredHeaderFields vs)) k}"
      if "length vs = length ts" for vs :: "string list"
      using required_incomplete[OF header_reader.required_distinct, of vs] that False by (simp add: inserted_contains)
    moreover have "length (map print_field (zip kRequiredHeaderFields vs @ ps)) \<ge> 6" if "length vs = 6" for vs ps
      using that by simp
    ultimately show ?thesis using all(2) False by (fastforce simp: collect_header_fields_def present)
  qed
qed

lemma fields_at_inserted:
  assumes "length vs = 6" "list_all provenance_entry ps" "sorted_wrt (<) (map fst ps)"
  shows "vs = map (fields_at (insert_fields [] (zip kRequiredHeaderFields vs @ ps))) kRequiredHeaderFields"
proof -
  obtain a b c d e f where vs: "vs = [a, b, c, d, e, f]"
    using assms(1) by (auto simp: numeral_eq_Suc length_Suc_conv)
  have "k \<notin> fst ` set ps" if "k \<in> set kRequiredHeaderFields" for k
    using assms(2) that by (auto simp: list_all_iff provenance_entry_def starts_with_iff kRequiredHeaderFields_def)
  moreover have "distinct (map fst ps)" using ascending.sorted_wrt_distinct[OF assms(3)] .
  ultimately have "distinct (map fst (zip kRequiredHeaderFields vs @ ps))"
    by (auto simp: vs kRequiredHeaderFields_def)
  note found = inserted_fields(1)[OF this]
  show ?thesis unfolding fields_at_def found by (simp add: vs kRequiredHeaderFields_def)
qed

lemma names_symbolic: "valid_symbolic_token (market_name m)" "valid_symbolic_token (policy_name p)"
  "valid_symbolic_token (to_chars_nat n)"
proof -
  show "valid_symbolic_token (market_name m)" by (cases m) (simp_all add: valid_symbolic_token_def token_char_def)
  show "valid_symbolic_token (policy_name p)" by (cases p) (simp_all add: valid_symbolic_token_def token_char_def)
  show "valid_symbolic_token (to_chars_nat n)"
    using to_chars_nat_digits[of n] by (auto simp: valid_symbolic_token_def list_all_iff token_char_def is_ascii_digit_alt)
qed

lemma parse_header_scalars_iff:
  "parse_header_scalars m = Inr spec \<longleftrightarrow> spec_ok spec \<and>
     fields_at m ''price_scale'' = to_chars_nat (rs_price_scale spec) \<and>
     fields_at m ''quantity_scale'' = to_chars_nat (rs_quantity_scale spec) \<and>
     valid_identifier_token (fields_at m ''symbol'') \<and> valid_identifier_token (fields_at m ''fixture_id'')"
  by (cases spec) (auto simp: parse_header_scalars_def bind_result_Inr_iff guard_passed parse_uint32_iff spec_ok_def)

lemma agreement_iff:
  "check_header_market_policy_agreement mp = Inr u \<longleftrightarrow> markets_agree (fst mp) (snd mp)"
  by (cases "fst mp"; cases "snd mp") (simp_all add: check_header_market_policy_agreement_def markets_agree_def)

lemma parse_header_market_policy_iff:
  "parse_header_market_policy m = Inr mp \<longleftrightarrow>
     fields_at m ''market'' = market_name (fst mp) \<and> fields_at m ''policy'' = policy_name (snd mp)"
  by (cases mp) (auto simp: parse_header_market_policy_def bind_result_Inr_iff parse_market_iff parse_policy_iff)

lemma parse_header_fields:
  "parse_header line = Inr h \<longleftrightarrow>
     (\<exists>ts m. split_spaces line = kReplaySchemaName # ts \<and>
        (collect_header_fields (kReplaySchemaName # ts) = Inr m \<and> check_header_fields_present m = Inr ()) \<and>
        rh_schema_version h = kReplaySchemaVersion \<and>
        map (fields_at m) kRequiredHeaderFields = map snd (required_fields h) \<and>
        spec_ok (rh_numeric_spec h) \<and> valid_identifier_token (rh_symbol h) \<and> valid_identifier_token (rh_fixture_id h) \<and>
        markets_agree (rh_market h) (rh_sequence_policy h) \<and>
        rh_provenance h = filter (\<lambda>(key, val). starts_with key ''provenance_'') m)"
proof (cases "split_spaces line")
  case Nil
  then show ?thesis by (simp add: parse_header_def)
next
  case (Cons name ts)
  show ?thesis
    by (cases h)
      (auto simp: parse_header_def Cons bind_result_Inr_iff parse_header_market_policy_iff parse_header_scalars_iff
        agreement_iff kRequiredHeaderFields_def required_fields_def)
qed

lemma parse_header_iff: "parse_header line = Inr h \<longleftrightarrow> header_written h \<and> split_spaces line = header_tokens h"
proof
  assume "parse_header line = Inr h"
  then obtain ts m where line: "split_spaces line = kReplaySchemaName # ts"
    and collected: "collect_header_fields (kReplaySchemaName # ts) = Inr m \<and> check_header_fields_present m = Inr ()"
    and h: "rh_schema_version h = kReplaySchemaVersion" "map (fields_at m) kRequiredHeaderFields = map snd (required_fields h)"
      "spec_ok (rh_numeric_spec h)" "valid_identifier_token (rh_symbol h)" "valid_identifier_token (rh_fixture_id h)"
      "markets_agree (rh_market h) (rh_sequence_policy h)"
      "rh_provenance h = filter (\<lambda>(key, val). starts_with key ''provenance_'') m"
    unfolding parse_header_fields by blast
  from collected obtain vs ps where vs: "length vs = 6" "list_all provenance_entry ps" "sorted_wrt (<) (map fst ps)"
    and ts: "ts = map print_field (zip kRequiredHeaderFields vs @ ps)"
    and m: "m = insert_fields [] (zip kRequiredHeaderFields vs @ ps)"
    unfolding collect_header_iff by blast
  have "vs = map snd (required_fields h)" using fields_at_inserted[OF vs] h(2) m by simp
  then have zip: "zip kRequiredHeaderFields vs = required_fields h"
    by (simp add: kRequiredHeaderFields_def required_fields_def)
  then have "rh_provenance h = ps" using h(7) m provenance_read_back[OF vs(2,3)] by simp
  with h vs line ts zip show "header_written h \<and> split_spaces line = header_tokens h"
    by (simp add: header_written_def header_tokens_def)
next
  assume written: "header_written h \<and> split_spaces line = header_tokens h"
  let ?vs = "map snd (required_fields h)" and ?ps = "rh_provenance h"
  have zip: "zip kRequiredHeaderFields ?vs = required_fields h"
    by (simp add: kRequiredHeaderFields_def required_fields_def)
  have vs: "length ?vs = 6" "list_all provenance_entry ?ps" "sorted_wrt (<) (map fst ?ps)" "list_all valid_symbolic_token ?vs"
    using written names_symbolic by (simp_all add: header_written_def required_fields_def valid_identifier_token_def)
  let ?m = "insert_fields [] (required_fields h @ ?ps)"
  have "collect_header_fields (header_tokens h) = Inr ?m \<and> check_header_fields_present ?m = Inr ()"
    unfolding header_tokens_def collect_header_iff using vs zip by (intro exI[of _ ?vs] exI[of _ ?ps]) simp
  moreover have "map (fields_at ?m) kRequiredHeaderFields = ?vs" using fields_at_inserted[OF vs(1-3)] zip by simp
  moreover have "?ps = filter (\<lambda>(key, val). starts_with key ''provenance_'') ?m" using provenance_read_back[OF vs(2,3)] by simp
  ultimately show "parse_header line = Inr h"
    unfolding parse_header_fields using written
    by (intro exI[of _ "tl (header_tokens h)"] exI[of _ ?m]) (simp add: header_tokens_def header_written_def)
qed

subsection \<open>Lines\<close>

definition print_line :: "string list \<Rightarrow> string" where
  "print_line ts = join (CHR '' '') ts"

lemma printed_line:
  assumes "list_all log_token ts" "ts \<noteq> []"
  shows "canonical_line (print_line ts)" "split_spaces (print_line ts) = ts"
    "list_all (\<lambda>c. char_code c < 0x80) (print_line ts)"
proof -
  have chars: "visible c \<or> c = CHR '' ''" if "c \<in> set (print_line ts)" for c
    using that assms(1) set_join[of "CHR '' ''" ts] by (auto simp: print_line_def list_all_iff log_token_def)
  have "list_all (\<lambda>p. p \<noteq> [] \<and> CHR '' '' \<notin> set p) ts"
    using assms(1) space_not_visible by (auto simp: list_all_iff log_token_def)
  note sep = join_well_separated[OF this assms(2)]
  have "\<not> is_forbidden_control c" "char_code c < 0x80" if "c \<in> set (print_line ts)" for c
    using chars[OF that] by (auto simp: is_forbidden_control_def visible_def)
  with sep show "canonical_line (print_line ts)" "split_spaces (print_line ts) = ts"
    "list_all (\<lambda>c. char_code c < 0x80) (print_line ts)"
    by (auto simp: canonical_line_def print_line_def list_all_iff split_spaces_def split_at_parts)
qed

lemma line_tokens:
  assumes "canonical_line line" "split_spaces line = ts"
  shows "ts \<noteq> []" "line = print_line ts"
  using assms well_separated_parts[of "CHR '' ''" line ts]
  by (auto simp: canonical_line_def print_line_def split_spaces_def split_at_parts)

lemma print_list_token:
  assumes "\<And>x. x \<in> set xs \<Longrightarrow> log_token (print x)" "visible sep"
  shows "log_token (print_list sep print xs)"
proof (cases "xs = []")
  case False
  have "join sep (map print xs) \<noteq> []" using False assms(1) by (cases xs; cases "tl xs") (auto simp: log_token_def)
  with False assms set_join[of sep "map print xs"] show ?thesis
    by (auto simp: print_list_def log_token_def list_all_iff)
qed (simp add: print_list_def visible_def)

lemma level_token: "level_written e l \<Longrightarrow> log_token (print_level l)"
  using lexeme_visible[of "li_price l"] lexeme_visible[of "li_quantity l"]
  by (auto simp: level_written_def print_level_def side_name_def visible_def log_token_def)

lemma levels_token: "list_all (level_written e) ls \<Longrightarrow> log_token (print_list (CHR ''|'') print_level ls)"
  by (rule print_list_token) (auto simp: list_all_iff visible_def intro: level_token)

lemma qualities_token: "log_token (print_list (CHR '','') quality_name qs)"
  by (rule print_list_token) (simp_all add: visible_def)

lemma optional_tokens:
  "log_token (print_optional to_chars_nat n)" "log_token (print_optional print_uint64 x)" "list_all visible (print_optional print_uint64 x)"
  "log_token (print_optional print_gap g)" "log_token (print_uint64 v)"
proof -
  show "log_token (print_optional to_chars_nat n)" by (cases n) (simp_all add: print_optional_def visible_def)
  show x: "log_token (print_optional print_uint64 x)" by (cases x) (simp_all add: print_optional_def print_uint64_def visible_def)
  then show "list_all visible (print_optional print_uint64 x)" by (simp add: log_token_def)
  have "log_token (print_gap p)" for p
    using names_visible(5)[of "snd p"] by (simp add: print_gap_def print_uint64_def log_token_def) (simp add: visible_def)
  then show "log_token (print_optional print_gap g)" by (cases g) (simp_all add: print_optional_def visible_def)
  show "log_token (print_uint64 v)" by (simp add: print_uint64_def)
qed

lemma identifier_token: "valid_identifier_token t \<Longrightarrow> log_token t"
  by (simp add: valid_identifier_token_def symbolic_visible)

lemma event_tokens_safe: "event_written op \<Longrightarrow> list_all log_token (event_tokens op) \<and> event_tokens op \<noteq> []"
  by (cases op) (auto simp: levels_token qualities_token optional_tokens identifier_token,
      simp_all add: visible_def)

lemma field_token: "valid_symbolic_token (fst kv) \<Longrightarrow> valid_symbolic_token (snd kv) \<Longrightarrow> log_token (print_field kv)"
  using symbolic_visible[of "fst kv"] symbolic_visible[of "snd kv"]
  by (simp add: print_field_def log_token_def) (simp add: visible_def)

lemma header_tokens_safe:
  assumes "header_written h"
  shows "list_all log_token (header_tokens h) \<and> header_tokens h \<noteq> []"
proof -
  have "list_all (\<lambda>kv. valid_symbolic_token (fst kv) \<and> valid_symbolic_token (snd kv)) (required_fields h @ rh_provenance h)"
    using assms names_symbolic
    by (auto simp: header_written_def required_fields_def valid_identifier_token_def provenance_entry_def list_all_iff)
      (simp_all add: valid_symbolic_token_def token_char_def)
  then have "list_all log_token (map print_field (required_fields h @ rh_provenance h))"
    by (auto simp: list_all_iff intro!: field_token)
  moreover have "log_token kReplaySchemaName" by (simp add: kReplaySchemaName_def visible_def)
  ultimately show ?thesis by (simp add: header_tokens_def)
qed

subsection \<open>Logs\<close>

definition print_event :: "replay_operation \<Rightarrow> string" where
  "print_event op = print_line (event_tokens op)"

definition print_log :: "normalized_replay \<Rightarrow> string" where
  "print_log r = unlines (CHR 0x0A) (print_line (header_tokens (nr_header r)) # map print_event (nr_operations r))"

text \<open>Every operation carries its position, its line number and its line.\<close>

fun located :: "nat \<Rightarrow> nat \<Rightarrow> replay_operation list \<Rightarrow> bool" where
  "located event line_index [] \<longleftrightarrow> True"
| "located event line_index (op # ops) \<longleftrightarrow>
     operation_source op = source_of_line event (line_index + 1) (print_event op) \<and>
     located (event + 1) (line_index + 1) ops"

text \<open>Metadata stands right before the baseline or the update it is for.\<close>

fun metadata_placed :: "replay_operation list \<Rightarrow> bool" where
  "metadata_placed [] \<longleftrightarrow> True"
| "metadata_placed (op # ops) \<longleftrightarrow>
     (holds_metadata op \<longrightarrow> ops \<noteq> [] \<and> takes_metadata (hd ops)) \<and> metadata_placed ops"

definition log_written :: "normalized_replay \<Rightarrow> bool" where
  "log_written r \<longleftrightarrow> header_written (nr_header r) \<and> list_all event_written (nr_operations r) \<and>
     located 0 1 (nr_operations r) \<and> metadata_placed (nr_operations r)"

lemma check_ordering_iff: "check_ordering_loop i ops = Inr u \<longleftrightarrow> metadata_placed ops"
  by (induction ops arbitrary: i) auto

lemma parse_event_line_iff:
  assumes "canonical_line line"
  shows "parse_event (split_spaces line) (source_of_line e n line) n e = Inr op \<longleftrightarrow>
    event_written op \<and> operation_source op = source_of_line e n line \<and> line = print_event op"
proof
  assume "parse_event (split_spaces line) (source_of_line e n line) n e = Inr op"
  then show "event_written op \<and> operation_source op = source_of_line e n line \<and> line = print_event op"
    using line_tokens[OF assms refl] by (simp add: parse_event_iff print_event_def)
next
  assume op: "event_written op \<and> operation_source op = source_of_line e n line \<and> line = print_event op"
  then show "parse_event (split_spaces line) (source_of_line e n line) n e = Inr op"
    using event_tokens_safe[of op] printed_line(2)[of "event_tokens op"] by (simp add: parse_event_iff print_event_def)
qed

lemma parse_event_lines_iff:
  assumes "list_all canonical_line lines"
  shows "parse_event_lines line_index lines ops0 = Inr ops \<longleftrightarrow>
    (\<exists>new. ops = ops0 @ new \<and> lines = map print_event new \<and> list_all event_written new \<and>
       located (length ops0) line_index new)"
  using assms
proof (induction lines arbitrary: line_index ops0)
  case (Cons line lines)
  then have line: "canonical_line line" "split_spaces line \<noteq> []" using line_tokens(1)[of line] by auto
  have "parse_event_lines line_index (line # lines) ops0 = Inr ops \<longleftrightarrow>
      (\<exists>op. (event_written op \<and> operation_source op = source_of_line (length ops0) (line_index + 1) line \<and> line = print_event op) \<and>
        (\<exists>new. ops = (ops0 @ [op]) @ new \<and> lines = map print_event new \<and> list_all event_written new \<and>
          located (length (ops0 @ [op])) (line_index + 1) new))"
    using line Cons by (simp add: Let_def bind_result_Inr_iff parse_event_line_iff)
  also have "\<dots> \<longleftrightarrow> (\<exists>new. ops = ops0 @ new \<and> line # lines = map print_event new \<and> list_all event_written new \<and>
       located (length ops0) line_index new)" (is "?L \<longleftrightarrow> ?R")
  proof
    assume ?L
    then obtain op new where "event_written op" "operation_source op = source_of_line (length ops0) (line_index + 1) line"
      "line = print_event op" "ops = ops0 @ op # new" "lines = map print_event new" "list_all event_written new"
      "located (length ops0 + 1) (line_index + 1) new" by auto
    then show ?R by (intro exI[of _ "op # new"]) simp
  next
    assume ?R
    then obtain new' where new': "ops = ops0 @ new'" "line # lines = map print_event new'" "list_all event_written new'"
      "located (length ops0) line_index new'" by (elim exE conjE)
    then obtain op new where "new' = op # new" by (cases new') auto
    with new' show ?L by (intro exI[of _ op] conjI exI[of _ new]) simp_all
  qed
  finally show ?case .
qed auto

lemma parse_log_lines:
  assumes "list_all canonical_line lines" "lines \<noteq> []"
  shows "bind_result (parse_header (hd lines)) (\<lambda>header. bind_result (parse_event_lines 1 (tl lines) []) (\<lambda>operations.
      let replay = \<lparr>nr_header = header, nr_operations = operations\<rparr> in
      bind_result (check_adapter_metadata_ordering replay) (\<lambda>_. Inr replay))) = Inr r \<longleftrightarrow>
    log_written r \<and> lines = print_line (header_tokens (nr_header r)) # map print_event (nr_operations r)"
proof -
  obtain line rest where lines: "lines = line # rest" using assms(2) by (cases lines) auto
  have "parse_header line = Inr h \<longleftrightarrow> header_written h \<and> line = print_line (header_tokens h)" for h
    using line_tokens(2)[of line] printed_line(2)[of "header_tokens h"] header_tokens_safe[of h] assms(1) lines
    by (auto simp: parse_header_iff)
  moreover have "parse_event_lines 1 rest [] = Inr ops \<longleftrightarrow>
      rest = map print_event ops \<and> list_all event_written ops \<and> located 0 1 ops" for ops
    using parse_event_lines_iff[of rest 1 "[]"] assms(1) lines by simp
  ultimately show ?thesis
    by (cases r) (auto simp: lines bind_result_Inr_iff Let_def check_adapter_metadata_ordering_def check_ordering_iff log_written_def)
qed

text \<open>A printed log is canonical text.\<close>

lemma log_lines_safe:
  assumes "log_written r"
  shows "list_all (\<lambda>line. canonical_line line \<and> list_all (\<lambda>c. char_code c < 0x80) line)
    (print_line (header_tokens (nr_header r)) # map print_event (nr_operations r))"
proof -
  have "canonical_line (print_event op) \<and> list_all (\<lambda>c. char_code c < 0x80) (print_event op)"
    if "op \<in> set (nr_operations r)" for op
    using that assms event_tokens_safe[of op] printed_line[of "event_tokens op"]
    by (auto simp: log_written_def list_all_iff print_event_def)
  then show ?thesis
    using assms header_tokens_safe[of "nr_header r"] printed_line[of "header_tokens (nr_header r)"]
    by (auto simp: log_written_def list_all_iff)
qed

lemma safe_text:
  assumes "lines \<noteq> []" "list_all (\<lambda>line. canonical_line line \<and> list_all (\<lambda>c. char_code c < 0x80) line) lines"
  shows "validate_canonical_bytes (unlines (CHR 0x0A) lines) = Inr ()"
    and "split_at (CHR 0x0A) (unlines (CHR 0x0A) lines) = lines"
proof -
  let ?bytes = "unlines (CHR 0x0A) lines"
  have "list_all (\<lambda>c. char_code c < 0x80) ?bytes" using assms(2) by (auto simp: unlines_def list_all_iff)
  moreover from this have "\<not> starts_with_bom ?bytes" by (cases ?bytes) (auto simp: starts_with_bom_def)
  ultimately show "validate_canonical_bytes ?bytes = Inr ()"
    unfolding validate_canonical_bytes_iff using assms by (auto simp: list_all_iff intro!: ascii_text exI[of _ lines])
  show "split_at (CHR 0x0A) ?bytes = lines"
    using assms(2) canonical_line_no_newline by (auto simp: split_at_parts list_all_iff intro!: parts_unlines)
qed

lemma canonical_text:
  assumes "validate_canonical_bytes bytes = Inr ()"
  obtains lines where "lines \<noteq> []" "list_all canonical_line lines" "split_at (CHR 0x0A) bytes = lines"
    "bytes = unlines (CHR 0x0A) lines"
proof -
  from assms obtain lines where lines: "lines \<noteq> []" "list_all canonical_line lines" "bytes = unlines (CHR 0x0A) lines"
    unfolding validate_canonical_bytes_iff by blast
  then have "split_at (CHR 0x0A) bytes = lines"
    using canonical_line_no_newline by (auto simp: split_at_parts list_all_iff intro!: parts_unlines)
  with lines that show ?thesis by blast
qed

lemma parse_replay_log_iff: "parse_replay_log bytes = Inr r \<longleftrightarrow> log_written r \<and> bytes = print_log r"
proof
  assume accepted: "parse_replay_log bytes = Inr r"
  then have "validate_canonical_bytes bytes = Inr ()" by (auto simp: parse_replay_log_def bind_result_Inr_iff)
  then obtain lines where lines: "lines \<noteq> []" "list_all canonical_line lines" "split_at (CHR 0x0A) bytes = lines"
    "bytes = unlines (CHR 0x0A) lines" by (rule canonical_text)
  with accepted show "log_written r \<and> bytes = print_log r"
    using parse_log_lines[OF lines(2,1), of r] by (auto simp: parse_replay_log_def bind_result_Inr_iff print_log_def)
next
  let ?lines = "print_line (header_tokens (nr_header r)) # map print_event (nr_operations r)"
  assume r: "log_written r \<and> bytes = print_log r"
  then have safe: "list_all (\<lambda>line. canonical_line line \<and> list_all (\<lambda>c. char_code c < 0x80) line) ?lines"
    using log_lines_safe[of r] by simp
  then have "list_all canonical_line ?lines" by (auto simp: list_all_iff)
  with r show "parse_replay_log bytes = Inr r"
    using safe_text[OF _ safe] parse_log_lines[of ?lines r] by (simp add: parse_replay_log_def print_log_def)
qed

text \<open>
  C10: the log reader is exact.  A byte string is accepted if and only if it is the print of a
  well-formed log, and then the reader returns that very log: every header field, level, optional
  value and number is read back as it was printed, with its line and event index.  So every
  well-formed log can be stored and loaded, and two different files never load as the same log.
\<close>

theorem parse_replay_log_exact: "parse_replay_log bytes = Inr r \<longleftrightarrow> log_written r \<and> bytes = print_log r"
  by (rule parse_replay_log_iff)

end
