(* ===== verification/Sha256.thy ===== *)
theory Sha256
  imports Canonical_Text
begin

unbundle bit_operations_syntax

text \<open>
  The digest of replay logs (\<open>sha256_hex\<close> of \<open>tests/m5/replay/canonical_text.cpp\<close>), on 32-bit words
  whose addition wraps.  Shown are that the padding loop ends on a whole number of blocks and that the
  digest always has the form the manifest reader demands.
\<close>

subsection \<open>Padding\<close>

text \<open>How far a length is from the next one that leaves room for the bit count.\<close>

definition pad_distance :: "nat \<Rightarrow> nat" where
  "pad_distance n = (if n mod 64 \<le> 56 then 56 - n mod 64 else 120 - n mod 64)"

lemma pad_distance_less: "n mod 64 \<noteq> 56 \<Longrightarrow> pad_distance (Suc n) < pad_distance n"
  by (auto simp: pad_distance_def mod_Suc)

function pad_loop :: "string \<Rightarrow> string" where
  "pad_loop padded = (if length padded mod 64 \<noteq> 56 then pad_loop (padded @ [CHR 0x00]) else padded)"
  by pat_completeness auto
termination
  by (relation "measure (\<lambda>padded. pad_distance (length padded))") (simp_all add: pad_distance_less)

declare pad_loop.simps [simp del]

definition bit_count_bytes :: "uint64 \<Rightarrow> string" where
  "bit_count_bytes bit_count =
     map (\<lambda>shift. char_of (unat (drop_bit shift bit_count AND 0xFF))) [56, 48, 40, 32, 24, 16, 8, 0]"

definition sha256_padded :: "string \<Rightarrow> string" where
  "sha256_padded bytes = pad_loop (bytes @ [char_of (0x80 :: nat)]) @ bit_count_bytes (word_of_nat (length bytes) * 8)"

subsection \<open>Rounds\<close>

definition round_constants :: "uint32 list" where
  "round_constants = concat
    [[0x428a2f98, 0x71374491, 0xb5c0fbcf, 0xe9b5dba5, 0x3956c25b, 0x59f111f1, 0x923f82a4],
     [0xab1c5ed5, 0xd807aa98, 0x12835b01, 0x243185be, 0x550c7dc3, 0x72be5d74, 0x80deb1fe],
     [0x9bdc06a7, 0xc19bf174, 0xe49b69c1, 0xefbe4786, 0x0fc19dc6, 0x240ca1cc, 0x2de92c6f],
     [0x4a7484aa, 0x5cb0a9dc, 0x76f988da, 0x983e5152, 0xa831c66d, 0xb00327c8, 0xbf597fc7],
     [0xc6e00bf3, 0xd5a79147, 0x06ca6351, 0x14292967, 0x27b70a85, 0x2e1b2138, 0x4d2c6dfc],
     [0x53380d13, 0x650a7354, 0x766a0abb, 0x81c2c92e, 0x92722c85, 0xa2bfe8a1, 0xa81a664b],
     [0xc24b8b70, 0xc76c51a3, 0xd192e819, 0xd6990624, 0xf40e3585, 0x106aa070, 0x19a4c116],
     [0x1e376c08, 0x2748774c, 0x34b0bcb5, 0x391c0cb3, 0x4ed8aa4a, 0x5b9cca4f, 0x682e6ff3],
     [0x748f82ee, 0x78a5636f, 0x84c87814, 0x8cc70208, 0x90befffa, 0xa4506ceb, 0xbef9a3f7],
     [0xc67178f2]]"

definition initial_state :: "uint32 list" where
  "initial_state =
     [0x6a09e667, 0xbb67ae85, 0x3c6ef372, 0xa54ff53a, 0x510e527f, 0x9b05688c, 0x1f83d9ab, 0x5be0cd19]"

definition rotr :: "uint32 \<Rightarrow> nat \<Rightarrow> uint32" where
  "rotr x n = drop_bit n x OR push_bit (32 - n) x"

text \<open>The big-endian word at a byte offset.\<close>

definition block_word :: "string \<Rightarrow> nat \<Rightarrow> uint32" where
  "block_word padded offset =
     push_bit 24 (word_of_nat (char_code (padded ! offset))) OR
     push_bit 16 (word_of_nat (char_code (padded ! (offset + 1)))) OR
     push_bit 8 (word_of_nat (char_code (padded ! (offset + 2)))) OR
     word_of_nat (char_code (padded ! (offset + 3)))"

text \<open>The message schedule: the first sixteen words are read, the others follow from earlier ones.\<close>

definition schedule_word :: "uint32 list \<Rightarrow> nat \<Rightarrow> uint32" where
  "schedule_word ws index =
     (let sigma0 = rotr (ws ! (index - 15)) 7 XOR rotr (ws ! (index - 15)) 18 XOR drop_bit 3 (ws ! (index - 15));
          sigma1 = rotr (ws ! (index - 2)) 17 XOR rotr (ws ! (index - 2)) 19 XOR drop_bit 10 (ws ! (index - 2))
      in ws ! (index - 16) + sigma0 + ws ! (index - 7) + sigma1)"

definition message_schedule :: "string \<Rightarrow> nat \<Rightarrow> uint32 list" where
  "message_schedule padded block =
     fold (\<lambda>index ws. ws @ [schedule_word ws index]) [16..<64]
       (map (\<lambda>index. block_word padded (block + index * 4)) [0..<16])"

record working =
  w_a :: uint32
  w_b :: uint32
  w_c :: uint32
  w_d :: uint32
  w_e :: uint32
  w_f :: uint32
  w_g :: uint32
  w_h :: uint32

definition sha256_round :: "uint32 \<times> uint32 \<Rightarrow> working \<Rightarrow> working" where
  "sha256_round kw s =
     (let sigma1 = rotr (w_e s) 6 XOR rotr (w_e s) 11 XOR rotr (w_e s) 25;
          choice = (w_e s AND w_f s) XOR ((NOT (w_e s)) AND w_g s);
          temp1 = w_h s + sigma1 + choice + fst kw + snd kw;
          sigma0 = rotr (w_a s) 2 XOR rotr (w_a s) 13 XOR rotr (w_a s) 22;
          majority = (w_a s AND w_b s) XOR (w_a s AND w_c s) XOR (w_b s AND w_c s);
          temp2 = sigma0 + majority
      in \<lparr>w_a = temp1 + temp2, w_b = w_a s, w_c = w_b s, w_d = w_c s, w_e = w_d s + temp1,
          w_f = w_e s, w_g = w_f s, w_h = w_g s\<rparr>)"

definition sha256_block :: "string \<Rightarrow> nat \<Rightarrow> uint32 list \<Rightarrow> uint32 list" where
  "sha256_block padded block state =
     (let start = \<lparr>w_a = state ! 0, w_b = state ! 1, w_c = state ! 2, w_d = state ! 3, w_e = state ! 4,
            w_f = state ! 5, w_g = state ! 6, w_h = state ! 7\<rparr>;
          s = fold sha256_round (zip round_constants (message_schedule padded block)) start
      in [state ! 0 + w_a s, state ! 1 + w_b s, state ! 2 + w_c s, state ! 3 + w_d s,
          state ! 4 + w_e s, state ! 5 + w_f s, state ! 6 + w_g s, state ! 7 + w_h s])"

subsection \<open>The digest\<close>

definition hex_digit :: "nat \<Rightarrow> char" where
  "hex_digit d = (if d < 10 then char_of (48 + d) else char_of (87 + d))"

text \<open>\<open>std::hex\<close> with width eight and fill \<open>'0'\<close>.\<close>

definition hex_word :: "uint32 \<Rightarrow> string" where
  "hex_word w = map (\<lambda>shift. hex_digit (unat (drop_bit shift w AND 0xF))) [28, 24, 20, 16, 12, 8, 4, 0]"

definition hex_digest :: "uint32 list \<Rightarrow> string" where
  "hex_digest state = concat (map hex_word state)"

definition sha256_hex :: "string \<Rightarrow> string parsed" where
  "sha256_hex bytes =
     (let padded = sha256_padded bytes in
      Inr (hex_digest
        (fold (\<lambda>block. sha256_block padded (block * 64)) [0..<length padded div 64] initial_state)))"

subsection \<open>Properties\<close>

text \<open>The loop appends exactly the zeros that are missing.\<close>

lemma pad_distance_Suc: "n mod 64 \<noteq> 56 \<Longrightarrow> pad_distance n = Suc (pad_distance (Suc n))"
  by (auto simp: pad_distance_def mod_Suc)

lemma pad_distance_end: "(n + pad_distance n) mod 64 = 56"
proof -
  have "n mod 64 < 64" by simp
  then have "n mod 64 + pad_distance n = 56 \<or> n mod 64 + pad_distance n = 120" by (auto simp: pad_distance_def)
  then have "(n mod 64 + pad_distance n) mod 64 = 56" by (elim disjE) simp_all
  then show ?thesis by (simp only: mod_add_left_eq)
qed

lemma pad_distance_bound: "pad_distance n < 64"
proof -
  have "n mod 64 < 64" by simp
  then show ?thesis by (auto simp: pad_distance_def)
qed

lemma pad_loop_appends: "pad_loop s = s @ replicate (pad_distance (length s)) (CHR 0x00)"
proof (induction s rule: pad_loop.induct)
  case (1 s)
  show ?case
  proof (cases "length s mod 64 = 56")
    case True
    then show ?thesis by (simp add: pad_loop.simps[of s] pad_distance_def)
  next
    case False
    with 1 show ?thesis by (simp add: pad_loop.simps[of s] pad_distance_Suc)
  qed
qed

text \<open>The loop over the blocks reads whole blocks only.\<close>

lemma padded_blocks: "length (sha256_padded bytes) mod 64 = 0"
proof -
  let ?n = "Suc (length bytes)"
  have "(8 + (?n + pad_distance ?n)) mod 64 = (8 + 56) mod 64"
    using pad_distance_end[of ?n] by (metis mod_add_right_eq)
  then show ?thesis by (simp add: sha256_padded_def bit_count_bytes_def pad_loop_appends)
qed

text \<open>The check of \<open>replay_manifest.cpp\<close> on digests.\<close>

definition is_hex_digit :: "char \<Rightarrow> bool" where
  "is_hex_digit c \<longleftrightarrow> is_ascii_digit c \<or>
     (char_code c \<ge> char_code CHR ''a'' \<and> char_code c \<le> char_code CHR ''f'')"

definition valid_sha256 :: "string \<Rightarrow> bool" where
  "valid_sha256 v \<longleftrightarrow> length v = 64 \<and> list_all is_hex_digit v"

lemma hex_digit_valid: "d < 16 \<Longrightarrow> is_hex_digit (hex_digit d)"
  by (auto simp: hex_digit_def is_hex_digit_def is_ascii_digit_alt)

lemma hex_word_valid: "length (hex_word w) = 8 \<and> list_all is_hex_digit (hex_word w)"
proof -
  have "unat (v AND 0xF) < 16" for v :: uint32
  proof -
    have "unat (take_bit 4 v) = take_bit 4 (unat v)" by (rule unsigned_take_bit_eq)
    also have "\<dots> < 2 ^ 4" by (rule take_bit_nat_less_exp)
    finally show ?thesis by (simp add: take_bit_eq_mask mask_eq_exp_minus_1)
  qed
  then show ?thesis by (simp add: hex_word_def list_all_iff hex_digit_valid)
qed

lemma sha256_hex_valid: "\<exists>digest. sha256_hex bytes = Inr digest \<and> valid_sha256 digest"
proof -
  have "length (fold (\<lambda>block. sha256_block padded (block * 64)) bs state) = 8" if "length state = 8" for padded bs state
    using that by (induction bs arbitrary: state) (simp_all add: sha256_block_def Let_def)
  moreover have "length initial_state = 8" by (simp add: initial_state_def)
  moreover have "length (hex_digest state) = 8 * length state \<and> list_all is_hex_digit (hex_digest state)" for state
    using hex_word_valid by (induction state) (simp_all add: hex_digest_def)
  ultimately show ?thesis by (simp add: sha256_hex_def Let_def valid_sha256_def)
qed

text \<open>
  C34: the hash is total.  The padding loop ends after fewer than 64 zeros, on every byte string:
  what it leaves is the message, the byte 0x80, zeros and the bit count modulo the width of a 64-bit
  integer, a whole number of 64-byte blocks, so no block is read past the end; and the digest that is
  returned is always 64 lowercase hexadecimal digits.
\<close>

theorem sha256_total:
  "pad_loop s = s @ replicate (pad_distance (length s)) (CHR 0x00) \<and> pad_distance (length s) < 64 \<and>
   sha256_padded bytes = bytes @ char_of (0x80 :: nat) #
     replicate (pad_distance (Suc (length bytes))) (CHR 0x00) @ bit_count_bytes (word_of_nat (length bytes) * 8) \<and>
   length (sha256_padded bytes) mod 64 = 0 \<and>
   (\<exists>digest. sha256_hex bytes = Inr digest \<and> length digest = 64 \<and> list_all is_hex_digit digest)"
  using pad_loop_appends[of s] pad_distance_bound[of "length s"] padded_blocks[of bytes] sha256_hex_valid[of bytes]
  by (simp add: sha256_padded_def pad_loop_appends valid_sha256_def)

end
