(* ===== verification/Replay_Manifest.thy ===== *)
theory Replay_Manifest
  imports Replay_Log Sha256
begin

text \<open>
  Manifests and fixtures (\<open>tests/m5/replay/replay_manifest.cpp\<close>, \<open>replay_fixture.cpp\<close>): a manifest is read
  line by line, and a fixture is a log and a manifest that agree.
\<close>

subsection \<open>Reading a manifest\<close>

definition manifest_failure :: "error_category \<Rightarrow> nat \<Rightarrow> nat \<Rightarrow> string \<Rightarrow> 'a parsed" where
  "manifest_failure category line token message = parse_failure category line 0 token message"

definition parse_field :: "string \<Rightarrow> nat \<Rightarrow> (string \<times> string) parsed" where
  "parse_field line line_number =
     (case sv_find (CHR ''='') line 0 of
        None \<Rightarrow> manifest_failure ManifestParse line_number 0 ''manifest field must be key=value''
      | Some separator \<Rightarrow>
          if separator = 0 \<or> separator + 1 \<ge> length line \<or> sv_find (CHR ''='') line (separator + 1) \<noteq> None then
            manifest_failure ManifestParse line_number 0 ''manifest field must be key=value''
          else Inr (sv_substr line 0 separator, sv_substr line (separator + 1) (length line)))"

definition parse_manifest_market :: "string \<Rightarrow> nat \<Rightarrow> replay_market parsed" where
  "parse_manifest_market val line =
     (if val = ''Spot'' then Inr ReplaySpot
      else if val = ''UsdMPerpetual'' then Inr ReplayUsdMPerpetual
      else manifest_failure ManifestParse line 0 ''unknown manifest market'')"

definition parse_manifest_policy :: "string \<Rightarrow> nat \<Rightarrow> replay_policy parsed" where
  "parse_manifest_policy val line =
     (if val = ''Spot'' then Inr PolicySpot
      else if val = ''UsdMPerpetual'' then Inr PolicyUsdMPerpetual
      else manifest_failure ManifestParse line 0 ''unknown manifest policy'')"

definition kRequiredFields :: "string list" where
  "kRequiredFields =
     [''fixture_id'', ''schema_version'', ''log_sha256'', ''market'', ''symbol'',
      ''price_scale'', ''quantity_scale'', ''policy'', ''event_count'']"

definition kTokenCharacters :: string where
  "kTokenCharacters = ''ABCDEFGHIJKLMNOPQRSTUVWXYZabcdefghijklmnopqrstuvwxyz0123456789._:/+-''"

definition valid_token :: "string \<Rightarrow> bool" where
  "valid_token token \<longleftrightarrow> token \<noteq> [] \<and> token \<noteq> ''-'' \<and> list_all (\<lambda>c. c \<in> set kTokenCharacters) token"

definition manifest_lines :: "string \<Rightarrow> string list parsed" where
  "manifest_lines bytes =
     (case validate_canonical_bytes bytes of
        Inl failure \<Rightarrow>
          Inl (failure\<lparr>pe_category := ManifestParse,
            pe_message := ''invalid canonical manifest bytes: '' @ pe_message failure\<rparr>)
      | Inr _ \<Rightarrow> Inr (split_at (CHR 0x0A) bytes))"

record manifest_fields =
  mf_fields :: header_fields
  mf_provenance :: "(string \<times> string) list"

text \<open>
  The loop over the lines after the first.  \<open>seen_keys\<close> is the set of the keys of the source's map of
  flags.
\<close>

primrec collect_fields_loop ::
  "nat \<Rightarrow> string list \<Rightarrow> manifest_fields \<Rightarrow> string set \<Rightarrow> string \<Rightarrow> manifest_fields parsed" where
  "collect_fields_loop index [] collected seen_keys previous_provenance = Inr collected"
| "collect_fields_loop index (line # lines) collected seen_keys previous_provenance =
     bind_result (parse_field line (index + 1)) (\<lambda>(key, val).
       if \<not> valid_token key \<or> \<not> valid_token val then
         manifest_failure ManifestParse (index + 1) 0 ''manifest field contains an invalid token''
       else if index \<le> length kRequiredFields \<and> key \<noteq> kRequiredFields ! (index - 1) then
         manifest_failure ManifestParse (index + 1) 0 ''manifest fields are not in canonical order''
       else if \<not> index \<le> length kRequiredFields \<and>
           (\<not> starts_with key ''provenance_'' \<or> (previous_provenance \<noteq> [] \<and> key \<le> previous_provenance)) then
         manifest_failure ManifestParse (index + 1) 0 ''provenance fields are not in canonical order''
       else if key \<in> seen_keys then
         manifest_failure ManifestParse (index + 1) 0 ''duplicate manifest field''
       else if starts_with key ''provenance_'' then
         collect_fields_loop (index + 1) lines
           (collected\<lparr>mf_provenance := mf_provenance collected @ [(key, val)]\<rparr>) (insert key seen_keys) key
       else
         collect_fields_loop (index + 1) lines
           (collected\<lparr>mf_fields := map_insert_or_assign (<) key val (mf_fields collected)\<rparr>)
           (insert key seen_keys) previous_provenance)"

definition collect_fields :: "string list \<Rightarrow> manifest_fields parsed" where
  "collect_fields lines = collect_fields_loop 1 (drop 1 lines) \<lparr>mf_fields = [], mf_provenance = []\<rparr> {} []"

definition check_required_present :: "manifest_fields \<Rightarrow> unit parsed" where
  "check_required_present collected =
     (if \<not> list_all (fields_contain (mf_fields collected)) kRequiredFields then
        manifest_failure ManifestParse 0 0 ''missing manifest field''
      else Inr ())"

definition check_unknown_fields :: "manifest_fields \<Rightarrow> unit parsed" where
  "check_unknown_fields collected =
     (if \<not> list_all (\<lambda>(key, val). key \<in> set kRequiredFields) (mf_fields collected) then
        manifest_failure ManifestParse 0 0 ''unknown manifest field''
      else Inr ())"

definition check_identity_fields :: "manifest_fields \<Rightarrow> unit parsed" where
  "check_identity_fields collected =
     (if fields_at (mf_fields collected) ''schema_version'' \<noteq> kReplaySchemaName then
        manifest_failure UnsupportedSchema 0 0 ''unsupported manifest schema''
      else if \<not> valid_sha256 (fields_at (mf_fields collected) ''log_sha256'') then
        manifest_failure ManifestParse 0 0 ''invalid schema or log SHA-256''
      else Inr ())"

definition parse_market_policy :: "manifest_fields \<Rightarrow> (replay_market \<times> replay_policy) parsed" where
  "parse_market_policy collected =
     bind_result (parse_manifest_market (fields_at (mf_fields collected) ''market'') 0) (\<lambda>market.
     bind_result (parse_manifest_policy (fields_at (mf_fields collected) ''policy'') 0) (\<lambda>policy. Inr (market, policy)))"

definition check_market_policy_agreement :: "replay_market \<times> replay_policy \<Rightarrow> unit parsed" where
  "check_market_policy_agreement market_policy =
     (if (fst market_policy = ReplaySpot \<and> snd market_policy \<noteq> PolicySpot) \<or>
         (fst market_policy = ReplayUsdMPerpetual \<and> snd market_policy \<noteq> PolicyUsdMPerpetual) then
        manifest_failure ManifestParse 0 0 ''manifest market and policy disagree''
      else Inr ())"

record manifest_scalars =
  ms_price_scale :: nat
  ms_quantity_scale :: nat
  ms_event_count :: nat

text \<open>\<open>std::size_t\<close> has 64 bits, so the last check never fails.\<close>

definition parse_scalars :: "manifest_fields \<Rightarrow> manifest_scalars parsed" where
  "parse_scalars collected =
     bind_result (parse_uint32 (fields_at (mf_fields collected) ''price_scale'') 0 0 0) (\<lambda>price_scale.
     bind_result (parse_uint32 (fields_at (mf_fields collected) ''quantity_scale'') 0 0 0) (\<lambda>quantity_scale.
     bind_result (parse_uint64 (fields_at (mf_fields collected) ''event_count'') 0 0 0) (\<lambda>event_count.
       if unat event_count > SIZE_MAX then
         manifest_failure ManifestParse 0 0 ''event count exceeds platform size''
       else Inr \<lparr>ms_price_scale = price_scale, ms_quantity_scale = quantity_scale,
                 ms_event_count = unat event_count\<rparr>)))"

definition check_scale_and_identity :: "manifest_fields \<Rightarrow> manifest_scalars \<Rightarrow> unit parsed" where
  "check_scale_and_identity collected scalars =
     (if ms_price_scale scalars > 18 \<or> ms_quantity_scale scalars > 18 \<or>
         fields_at (mf_fields collected) ''fixture_id'' = ''-'' \<or> fields_at (mf_fields collected) ''symbol'' = ''-'' then
        manifest_failure ManifestParse 0 0 ''invalid NumericSpec or identity token''
      else Inr ())"

definition build_manifest ::
  "manifest_fields \<Rightarrow> manifest_scalars \<Rightarrow> replay_market \<times> replay_policy \<Rightarrow> replay_manifest" where
  "build_manifest collected scalars market_policy =
     \<lparr>rm_identity =
        \<lparr>fi_schema_version = kReplaySchemaVersion,
         fi_replay_log_sha256 = fields_at (mf_fields collected) ''log_sha256'',
         fi_fixture_id = fields_at (mf_fields collected) ''fixture_id'', fi_market = fst market_policy,
         fi_symbol = fields_at (mf_fields collected) ''symbol'',
         fi_numeric_spec = \<lparr>rs_price_scale = ms_price_scale scalars, rs_quantity_scale = ms_quantity_scale scalars\<rparr>,
         fi_sequence_policy = snd market_policy\<rparr>,
      rm_event_count = ms_event_count scalars,
      rm_provenance = mf_provenance collected\<rparr>"

definition parse_manifest :: "string \<Rightarrow> replay_manifest parsed" where
  "parse_manifest bytes =
     bind_result (manifest_lines bytes) (\<lambda>lines.
       if lines = [] \<or> hd lines \<noteq> ''MANIFEST_V1'' then
         manifest_failure UnsupportedSchema 1 0 ''unsupported manifest schema''
       else
         bind_result (collect_fields lines) (\<lambda>collected.
         bind_result (check_required_present collected) (\<lambda>_.
         bind_result (check_unknown_fields collected) (\<lambda>_.
         bind_result (check_identity_fields collected) (\<lambda>_.
         bind_result (parse_market_policy collected) (\<lambda>market_policy.
         bind_result (parse_scalars collected) (\<lambda>scalars.
         bind_result (check_scale_and_identity collected scalars) (\<lambda>_.
         bind_result (check_market_policy_agreement market_policy) (\<lambda>_.
           Inr (build_manifest collected scalars market_policy))))))))))"

definition load_manifest :: "file_read \<Rightarrow> replay_manifest parsed" where
  "load_manifest file =
     (case file of
        CannotOpen \<Rightarrow> manifest_failure IoFailure 0 0 ''cannot open manifest''
      | CannotRead \<Rightarrow> manifest_failure IoFailure 0 0 ''cannot read manifest''
      | FileBytes bytes \<Rightarrow> parse_manifest bytes)"

subsection \<open>Fixtures\<close>

definition fixture_failure :: "error_category \<Rightarrow> string \<Rightarrow> 'a parsed" where
  "fixture_failure category message = parse_failure category 0 0 0 message"

definition validate_fixture :: "string \<Rightarrow> replay_manifest \<Rightarrow> replay_fixture parsed" where
  "validate_fixture replay_log_bytes parsed_manifest =
     bind_result (parse_replay_log replay_log_bytes) (\<lambda>normalized.
     bind_result (sha256_hex replay_log_bytes) (\<lambda>actual_hash.
       let header = nr_header normalized;
           header_identity =
             \<lparr>fi_schema_version = rh_schema_version header, fi_replay_log_sha256 = actual_hash,
              fi_fixture_id = rh_fixture_id header, fi_market = rh_market header, fi_symbol = rh_symbol header,
              fi_numeric_spec = rh_numeric_spec header, fi_sequence_policy = rh_sequence_policy header\<rparr>;
           identity = rm_identity parsed_manifest
       in
       if fi_replay_log_sha256 identity \<noteq> actual_hash then
         fixture_failure IdentityMismatch ''manifest log SHA-256 does not match canonical bytes''
       else if rm_event_count parsed_manifest \<noteq> length (nr_operations normalized) then
         fixture_failure EventCountMismatch ''manifest event count does not match replay log''
       else if fi_schema_version identity \<noteq> fi_schema_version header_identity \<or>
           fi_fixture_id identity \<noteq> fi_fixture_id header_identity \<or>
           fi_market identity \<noteq> fi_market header_identity \<or>
           fi_symbol identity \<noteq> fi_symbol header_identity \<or>
           fi_numeric_spec identity \<noteq> fi_numeric_spec header_identity \<or>
           fi_sequence_policy identity \<noteq> fi_sequence_policy header_identity \<or>
           fi_replay_log_sha256 identity \<noteq> fi_replay_log_sha256 header_identity then
         fixture_failure IdentityMismatch ''manifest interpretation metadata does not match replay header''
       else if rm_provenance parsed_manifest \<noteq> rh_provenance header then
         fixture_failure IdentityMismatch ''manifest provenance does not match replay header''
       else if fi_symbol identity = [] \<or> rh_fixture_id header = [] then
         fixture_failure InvalidMetadata ''fixture identity contains an empty field''
       else Inr \<lparr>rf_replay = normalized, rf_manifest = parsed_manifest, rf_identity = header_identity,
                 rf_canonical_log_sha256 = actual_hash\<rparr>))"

text \<open>The overload on bytes: the log first, then the manifest.\<close>

definition load_fixture_bytes :: "string \<Rightarrow> string \<Rightarrow> replay_fixture parsed" where
  "load_fixture_bytes replay_log manifest =
     bind_result (parse_manifest manifest) (validate_fixture replay_log)"

definition read_fixture_bytes :: "file_read \<Rightarrow> string parsed" where
  "read_fixture_bytes file =
     (case file of
        CannotOpen \<Rightarrow> fixture_failure IoFailure ''cannot open fixture file''
      | CannotRead \<Rightarrow> fixture_failure IoFailure ''cannot read fixture file''
      | FileBytes bytes \<Rightarrow> Inr bytes)"

text \<open>The overload on a directory: what reading \<open>replay.log\<close> and \<open>manifest.txt\<close> in it gives.\<close>

definition load_fixture :: "file_read \<Rightarrow> file_read \<Rightarrow> replay_fixture parsed" where
  "load_fixture log_file manifest_file =
     bind_result (read_fixture_bytes log_file) (\<lambda>log_bytes.
     bind_result (load_manifest manifest_file) (validate_fixture log_bytes))"

end
