(* ===== verification/Replay_Fixture.thy ===== *)
theory Replay_Fixture
  imports Replay_Manifest
begin

text \<open>
  What the readers of \<open>Replay_Manifest\<close> accept: exactly the printed manifests, and exactly the pairs of
  a log and a manifest that agree.
\<close>

subsection \<open>Fields of a manifest\<close>

lemma manifest_failure_neq [simp]: "manifest_failure category line token message \<noteq> Inr x"
  by (simp add: manifest_failure_def)

lemma manifest_guard_passed:
  "(if P then manifest_failure category line token message else r) = Inr x \<longleftrightarrow> \<not> P \<and> r = Inr x"
  by simp

lemma token_char_listed: "c \<in> set kTokenCharacters \<longleftrightarrow> token_char c"
proof -
  have listed: "kTokenCharacters = map char_of ([65..<91] @ [97..<123] @ [48..<58 :: nat]) @ ''._:/+-''"
    by code_simp
  have run: "c \<in> set (map char_of [a..<b]) \<longleftrightarrow> a \<le> char_code c \<and> char_code c < b" if "b < 256" for a b :: nat
    using that by (auto simp: image_iff) (metis atLeastLessThan_iff char_of_char)
  have "c \<in> set kTokenCharacters \<longleftrightarrow> (65 \<le> char_code c \<and> char_code c < 91) \<or> (97 \<le> char_code c \<and> char_code c < 123) \<or>
      (48 \<le> char_code c \<and> char_code c < 58) \<or> c \<in> set ''._:/+-''"
    using run[of 91 65] run[of 123 97] run[of 58 48] unfolding listed map_append set_append Un_iff
    by (simp only: less_numeral_extra) (simp only: disj_assoc numeral_less_iff semiring_norm simp_thms)
  then show ?thesis by (auto simp: token_char_def)
qed

lemma valid_token_iff: "valid_token t \<longleftrightarrow> valid_identifier_token t"
  by (auto simp: valid_token_def valid_identifier_token_def valid_symbolic_token_def token_char_listed)

lemma parse_field_iff:
  assumes "valid_token k" "valid_token v"
  shows "parse_field t n = Inr (k, v) \<longleftrightarrow> t = print_field (k, v)"
proof -
  have chars: "k \<noteq> []" "CHR ''='' \<notin> set k" "v \<noteq> []" "CHR ''='' \<notin> set v"
    using assms symbolic_chars by (auto simp: valid_token_iff valid_identifier_token_def)
  have "parse_field t n = Inr (k, v) \<longleftrightarrow>
      (\<exists>n. sv_find (CHR ''='') t 0 = Some n \<and> sv_find (CHR ''='') t (n + 1) = None \<and> sv_substr t 0 n = k \<and>
        sv_substr t (n + 1) (length t) = v)" (is "_ \<longleftrightarrow> ?R")
  proof
    assume "parse_field t n = Inr (k, v)"
    then show ?R by (auto simp: parse_field_def split: option.splits if_splits)
  next
    assume ?R
    then obtain n where n: "sv_find (CHR ''='') t 0 = Some n" "sv_find (CHR ''='') t (n + 1) = None"
      "sv_substr t 0 n = k" "sv_substr t (n + 1) (length t) = v" by blast
    moreover have "n \<noteq> 0" "n + 1 < length t" using n chars by (auto simp: sv_substr_def)
    ultimately show "parse_field t n' = Inr (k, v)" for n' by (simp add: parse_field_def)
  qed
  then show ?thesis unfolding cut_token print_field_def using chars by auto
qed

lemma kRequiredFields_length [simp]: "length kRequiredFields = 9"
  by (simp add: kRequiredFields_def)

lemma manifest_key:
  assumes "k \<in> set kRequiredFields"
  shows "valid_token k" "\<not> is_provenance k"
proof -
  have "valid_identifier_token k"
    using assms by (auto simp: kRequiredFields_def valid_identifier_token_def valid_symbolic_token_def token_char_def)
  then show "valid_token k" by (simp add: valid_token_iff)
  show "\<not> is_provenance k" using assms by (auto simp: kRequiredFields_def is_provenance_def starts_with_iff)
qed

definition add_field :: "manifest_fields \<times> string set \<Rightarrow> string \<times> string \<Rightarrow> manifest_fields \<times> string set" where
  "add_field c kv =
     (if is_provenance (fst kv) then (fst c)\<lparr>mf_provenance := mf_provenance (fst c) @ [kv]\<rparr>
      else (fst c)\<lparr>mf_fields := map_insert_or_assign (<) (fst kv) (snd kv) (mf_fields (fst c))\<rparr>,
      insert (fst kv) (snd c))"

definition scan_fields :: "nat \<Rightarrow> string list \<Rightarrow> manifest_fields \<times> string set \<Rightarrow> string \<Rightarrow> manifest_fields parsed" where
  "scan_fields i ls c previous = collect_fields_loop i ls (fst c) (snd c) previous"

lemma parse_field_ok:
  "(\<exists>k v. parse_field t n = Inr (k, v) \<and> valid_token k \<and> valid_token v \<and> Q k v) \<longleftrightarrow>
     (\<exists>k v. valid_token k \<and> valid_token v \<and> t = print_field (k, v) \<and> Q k v)"
  using parse_field_iff by blast

lemma scan_fields_step:
  "scan_fields i (t # ts) c previous = Inr r \<longleftrightarrow>
     (\<exists>k v. parse_field t (i + 1) = Inr (k, v) \<and> valid_token k \<and> valid_token v \<and>
        ((if i \<le> 9 then k = kRequiredFields ! (i - 1) else is_provenance k \<and> (previous \<noteq> [] \<longrightarrow> previous < k)) \<and>
         k \<notin> snd c \<and> scan_fields (i + 1) ts (add_field c (k, v)) (if is_provenance k then k else previous) = Inr r))"
  by (auto simp: scan_fields_def add_field_def bind_result_Inr_iff is_provenance_def manifest_guard_passed not_le
      split: if_splits)

interpretation manifest_reader: field_reader scan_fields add_field fst snd "\<lambda>_. True" valid_token kRequiredFields
proof (unfold_locales, goal_cases)
  case (2 i c t ts previous r)
  let ?k = "kRequiredFields ! (i - 1)"
  have k: "valid_token ?k" "\<not> is_provenance ?k" "i \<le> 9" using manifest_key[of ?k] 2 by simp_all
  show ?case unfolding scan_fields_step parse_field_ok using k 2 by auto
next
  case (3 i c previous t ts r)
  have "k \<notin> snd c" if "is_provenance k" "previous \<noteq> [] \<longrightarrow> previous < k" for k
    using 3(3)[OF _ that(1)] that(2) by fastforce
  then show ?case unfolding scan_fields_step parse_field_ok using 3(1) by auto
qed (auto simp: scan_fields_def add_field_def manifest_key, simp add: kRequiredFields_def)

abbreviation (input) manifest_entry :: "string \<times> string \<Rightarrow> bool" where
  "manifest_entry \<equiv> manifest_reader.entry_ok"

lemmas manifest_entry_def = manifest_reader.entry_ok_def

definition empty_fields :: "manifest_fields \<times> string set" where
  "empty_fields = (\<lparr>mf_fields = [], mf_provenance = []\<rparr>, {})"

text \<open>Required fields go to the map, provenance to the list.\<close>

lemma add_required:
  assumes "list_all (\<lambda>kv. \<not> is_provenance (fst kv)) kvs"
  shows "fst (foldl add_field c kvs) = (fst c)\<lparr>mf_fields := insert_fields (mf_fields (fst c)) kvs\<rparr>"
  using assms by (induction kvs arbitrary: c) (auto simp: add_field_def)

lemma add_provenance:
  assumes "list_all manifest_entry kvs"
  shows "fst (foldl add_field c kvs) = (fst c)\<lparr>mf_provenance := mf_provenance (fst c) @ kvs\<rparr>"
  using assms by (induction kvs arbitrary: c) (auto simp: add_field_def manifest_entry_def)

lemma added_fields:
  assumes "list_all manifest_entry ps"
  shows "fst (foldl add_field empty_fields (zip kRequiredFields vs @ ps)) =
    \<lparr>mf_fields = insert_fields [] (zip kRequiredFields vs), mf_provenance = ps\<rparr>"
proof -
  have "list_all (\<lambda>kv. \<not> is_provenance (fst kv)) (zip kRequiredFields vs)"
    using manifest_key(2) by (auto simp: list_all_iff dest!: set_zip_leftD)
  with assms show ?thesis by (simp add: add_required add_provenance empty_fields_def)
qed

lemma collect_fields_iff:
  "collect_fields (name # ts) = Inr c \<and> check_required_present c = Inr () \<longleftrightarrow>
     (\<exists>vs ps. length vs = 9 \<and> list_all valid_token vs \<and> list_all manifest_entry ps \<and> sorted_wrt (<) (map fst ps) \<and>
        ts = map print_field (zip kRequiredFields vs @ ps) \<and>
        c = \<lparr>mf_fields = insert_fields [] (zip kRequiredFields vs), mf_provenance = ps\<rparr>)"
proof -
  have present: "check_required_present c = Inr () \<longleftrightarrow> set kRequiredFields \<subseteq> {k. fields_contain (mf_fields c) k}" for c
    by (auto simp: check_required_present_def list_all_iff)
  have scan: "collect_fields (name # ts) = scan_fields 1 ts empty_fields []"
    by (simp add: collect_fields_def scan_fields_def empty_fields_def)
  have "snd empty_fields = {}" by (simp add: empty_fields_def)
  note all = manifest_reader.scan_all[of empty_fields ts c, OF TrueI this]
  show ?thesis
  proof (cases "9 \<le> length ts")
    case True
    have keys: "set kRequiredFields \<subseteq> {k. fields_contain (insert_fields [] (zip kRequiredFields vs)) k}"
      if "length vs = 9" for vs
      using that by (simp add: inserted_contains zip_keys)
    then have present': "check_required_present \<lparr>mf_fields = insert_fields [] (zip kRequiredFields vs), mf_provenance = ps\<rparr> = Inr ()"
      if "length vs = 9" for vs ps
      using that by (simp add: present)
    have len: "length kRequiredFields \<le> length ts" using True by simp
    show ?thesis unfolding scan all(1)[OF len] kRequiredFields_length
      using added_fields present' by metis
  next
    case False
    have "\<not> check_required_present c = Inr ()" if collected: "collect_fields (name # ts) = Inr c"
    proof -
      obtain vs where vs: "length vs = length ts" "c = fst (foldl add_field empty_fields (zip kRequiredFields vs))"
        using all(2) False collected by (auto simp: scan)
      have "\<not> set kRequiredFields \<subseteq> fst ` set (zip kRequiredFields vs)"
        using False vs(1) by (intro required_incomplete manifest_reader.required_distinct) simp
      with vs(2) show ?thesis
        using added_fields[of "[]" vs] by (auto simp: present inserted_contains)
    qed
    moreover have "length (map print_field (zip kRequiredFields vs @ ps)) \<ge> 9" if "length vs = 9" for vs ps
      using that by simp
    ultimately show ?thesis using False by fastforce
  qed
qed

subsection \<open>Manifests\<close>

definition manifest_required :: "replay_manifest \<Rightarrow> (string \<times> string) list" where
  "manifest_required m =
     (let identity = rm_identity m in
      [(''fixture_id'', fi_fixture_id identity), (''schema_version'', kReplaySchemaName),
       (''log_sha256'', fi_replay_log_sha256 identity), (''market'', market_name (fi_market identity)),
       (''symbol'', fi_symbol identity),
       (''price_scale'', to_chars_nat (rs_price_scale (fi_numeric_spec identity))),
       (''quantity_scale'', to_chars_nat (rs_quantity_scale (fi_numeric_spec identity))),
       (''policy'', policy_name (fi_sequence_policy identity)), (''event_count'', to_chars_nat (rm_event_count m))])"

definition print_manifest :: "replay_manifest \<Rightarrow> string" where
  "print_manifest m =
     unlines (CHR 0x0A) (''MANIFEST_V1'' # map print_field (manifest_required m @ rm_provenance m))"

definition manifest_written :: "replay_manifest \<Rightarrow> bool" where
  "manifest_written m \<longleftrightarrow>
     (let identity = rm_identity m in
      fi_schema_version identity = kReplaySchemaVersion \<and> valid_sha256 (fi_replay_log_sha256 identity) \<and>
      valid_identifier_token (fi_fixture_id identity) \<and> valid_identifier_token (fi_symbol identity) \<and>
      spec_ok (fi_numeric_spec identity) \<and> markets_agree (fi_market identity) (fi_sequence_policy identity)) \<and>
     rm_event_count m \<le> SIZE_MAX \<and>
     list_all (\<lambda>kv. is_provenance (fst kv) \<and> valid_identifier_token (fst kv) \<and> valid_identifier_token (snd kv))
       (rm_provenance m) \<and>
     sorted_wrt (<) (map fst (rm_provenance m))"

lemma parse_manifest_market_iff: "parse_manifest_market t l = Inr m \<longleftrightarrow> t = market_name m"
  by (cases m) (auto simp: parse_manifest_market_def)

lemma parse_manifest_policy_iff: "parse_manifest_policy t l = Inr p \<longleftrightarrow> t = policy_name p"
  by (cases p) (auto simp: parse_manifest_policy_def)

lemma parse_market_policy_iff:
  "parse_market_policy c = Inr mp \<longleftrightarrow>
     fields_at (mf_fields c) ''market'' = market_name (fst mp) \<and> fields_at (mf_fields c) ''policy'' = policy_name (snd mp)"
  by (cases mp) (auto simp: parse_market_policy_def bind_result_Inr_iff parse_manifest_market_iff parse_manifest_policy_iff)

lemma manifest_agreement_iff: "check_market_policy_agreement mp = Inr u \<longleftrightarrow> markets_agree (fst mp) (snd mp)"
  by (cases "fst mp"; cases "snd mp") (simp_all add: check_market_policy_agreement_def markets_agree_def)

lemma print_uint64_nat: "(\<exists>v :: uint64. t = to_chars_nat (unat v) \<and> n = unat v) \<longleftrightarrow> t = to_chars_nat n \<and> n \<le> SIZE_MAX"
proof
  assume "\<exists>v :: uint64. t = to_chars_nat (unat v) \<and> n = unat v"
  then obtain v :: uint64 where "t = to_chars_nat (unat v)" "n = unat v" by blast
  moreover have "unat v < 2 ^ LENGTH(64)" by (rule unsigned_less)
  ultimately show "t = to_chars_nat n \<and> n \<le> SIZE_MAX" by simp
next
  assume "t = to_chars_nat n \<and> n \<le> SIZE_MAX"
  then show "\<exists>v :: uint64. t = to_chars_nat (unat v) \<and> n = unat v"
    by (intro exI[of _ "word_of_nat n"]) (simp add: unat_of_nat take_bit_eq_mod)
qed

lemma parse_scalars_iff:
  "parse_scalars c = Inr s \<and> check_scale_and_identity c s = Inr () \<longleftrightarrow>
     fields_at (mf_fields c) ''price_scale'' = to_chars_nat (ms_price_scale s) \<and>
     fields_at (mf_fields c) ''quantity_scale'' = to_chars_nat (ms_quantity_scale s) \<and>
     fields_at (mf_fields c) ''event_count'' = to_chars_nat (ms_event_count s) \<and> ms_event_count s \<le> SIZE_MAX \<and>
     ms_price_scale s \<le> 18 \<and> ms_quantity_scale s \<le> 18 \<and>
     fields_at (mf_fields c) ''fixture_id'' \<noteq> ''-'' \<and> fields_at (mf_fields c) ''symbol'' \<noteq> ''-''"
proof -
  have small: "\<not> unat v > SIZE_MAX" for v :: uint64
  proof -
    have "unat v < 2 ^ LENGTH(64)" by (rule unsigned_less)
    then show ?thesis by simp
  qed
  have "parse_scalars c = Inr s \<longleftrightarrow>
      ms_price_scale s \<le> 4294967295 \<and> fields_at (mf_fields c) ''price_scale'' = to_chars_nat (ms_price_scale s) \<and>
      ms_quantity_scale s \<le> 4294967295 \<and> fields_at (mf_fields c) ''quantity_scale'' = to_chars_nat (ms_quantity_scale s) \<and>
      (\<exists>v :: uint64. fields_at (mf_fields c) ''event_count'' = to_chars_nat (unat v) \<and> ms_event_count s = unat v)"
    by (cases s) (auto simp: parse_scalars_def bind_result_Inr_iff parse_uint32_iff parse_uint64_iff small)
  then show ?thesis unfolding print_uint64_nat by (auto simp: check_scale_and_identity_def)
qed

text \<open>The checks after the fields are collected, on the values the map holds for the required keys.\<close>

definition check_manifest :: "manifest_fields \<Rightarrow> replay_manifest parsed" where
  "check_manifest collected =
     bind_result (check_unknown_fields collected) (\<lambda>_.
     bind_result (check_identity_fields collected) (\<lambda>_.
     bind_result (parse_market_policy collected) (\<lambda>market_policy.
     bind_result (parse_scalars collected) (\<lambda>scalars.
     bind_result (check_scale_and_identity collected scalars) (\<lambda>_.
     bind_result (check_market_policy_agreement market_policy) (\<lambda>_.
       Inr (build_manifest collected scalars market_policy)))))))"

lemma check_manifest_iff:
  "check_manifest c = Inr m \<longleftrightarrow> check_unknown_fields c = Inr () \<and>
     map (fields_at (mf_fields c)) kRequiredFields = map snd (manifest_required m) \<and>
     fi_schema_version (rm_identity m) = kReplaySchemaVersion \<and> valid_sha256 (fi_replay_log_sha256 (rm_identity m)) \<and>
     fi_fixture_id (rm_identity m) \<noteq> ''-'' \<and> fi_symbol (rm_identity m) \<noteq> ''-'' \<and>
     spec_ok (fi_numeric_spec (rm_identity m)) \<and>
     markets_agree (fi_market (rm_identity m)) (fi_sequence_policy (rm_identity m)) \<and>
     rm_event_count m \<le> SIZE_MAX \<and> rm_provenance m = mf_provenance c" (is "_ \<longleftrightarrow> ?R")
proof -
  let ?f = "fields_at (mf_fields c)"
  have identity: "check_identity_fields c = Inr u \<longleftrightarrow> ?f ''schema_version'' = kReplaySchemaName \<and> valid_sha256 (?f ''log_sha256'')" for u
    by (auto simp: check_identity_fields_def)
  have "check_manifest c = Inr m \<longleftrightarrow> check_unknown_fields c = Inr () \<and> check_identity_fields c = Inr () \<and>
      (\<exists>mp s. parse_market_policy c = Inr mp \<and> (parse_scalars c = Inr s \<and> check_scale_and_identity c s = Inr ()) \<and>
        check_market_policy_agreement mp = Inr () \<and> m = build_manifest c s mp)"
    by (auto simp: check_manifest_def bind_result_Inr_iff)
  also have "\<dots> \<longleftrightarrow> check_unknown_fields c = Inr () \<and> (?f ''schema_version'' = kReplaySchemaName \<and> valid_sha256 (?f ''log_sha256'')) \<and>
      (\<exists>mp s. (?f ''market'' = market_name (fst mp) \<and> ?f ''policy'' = policy_name (snd mp)) \<and>
        (?f ''price_scale'' = to_chars_nat (ms_price_scale s) \<and> ?f ''quantity_scale'' = to_chars_nat (ms_quantity_scale s) \<and>
         ?f ''event_count'' = to_chars_nat (ms_event_count s) \<and> ms_event_count s \<le> SIZE_MAX \<and>
         ms_price_scale s \<le> 18 \<and> ms_quantity_scale s \<le> 18 \<and> ?f ''fixture_id'' \<noteq> ''-'' \<and> ?f ''symbol'' \<noteq> ''-'') \<and>
        markets_agree (fst mp) (snd mp) \<and> m = build_manifest c s mp)" (is "_ \<longleftrightarrow> ?L")
    unfolding identity parse_market_policy_iff parse_scalars_iff manifest_agreement_iff ..
  also have "?L \<longleftrightarrow> ?R"
  proof
    assume ?L
    then show ?R
      by (elim conjE exE) (simp add: build_manifest_def kRequiredFields_def manifest_required_def Let_def spec_ok_def)
  next
    assume r: ?R
    let ?mp = "(fi_market (rm_identity m), fi_sequence_policy (rm_identity m))"
    let ?s = "\<lparr>ms_price_scale = rs_price_scale (fi_numeric_spec (rm_identity m)),
      ms_quantity_scale = rs_quantity_scale (fi_numeric_spec (rm_identity m)), ms_event_count = rm_event_count m\<rparr>"
    have at: "?f ''fixture_id'' = fi_fixture_id (rm_identity m)" "?f ''schema_version'' = kReplaySchemaName"
      "?f ''log_sha256'' = fi_replay_log_sha256 (rm_identity m)" "?f ''market'' = market_name (fst ?mp)"
      "?f ''symbol'' = fi_symbol (rm_identity m)" "?f ''price_scale'' = to_chars_nat (ms_price_scale ?s)"
      "?f ''quantity_scale'' = to_chars_nat (ms_quantity_scale ?s)" "?f ''policy'' = policy_name (snd ?mp)"
      "?f ''event_count'' = to_chars_nat (ms_event_count ?s)"
      using r by (simp_all add: kRequiredFields_def manifest_required_def Let_def)
    have "m = build_manifest c ?s ?mp"
      using r at by (intro replay_manifest.equality fixture_identity.equality) (simp_all add: build_manifest_def)
    with r at show ?L
      by (intro conjI exI[of _ ?mp] exI[of _ ?s]) (simp_all add: spec_ok_def)
  qed
  finally show ?thesis .
qed

lemma fields_at_zip:
  assumes "distinct ks" "length vs = length ks"
  shows "map (fields_at (insert_fields [] (zip ks vs))) ks = vs"
proof -
  have "distinct (map fst (zip ks vs))" using assms by (simp add: map_fst_zip)
  note found = inserted_fields(1)[OF this]
  show ?thesis
    unfolding fields_at_def found using assms by (intro nth_equalityI) (simp_all add: map_of_zip_nth)
qed

lemma no_unknown_fields:
  assumes "length vs = 9"
  shows "check_unknown_fields \<lparr>mf_fields = insert_fields [] (zip kRequiredFields vs), mf_provenance = ps\<rparr> = Inr ()"
proof -
  have "distinct (map fst (zip kRequiredFields vs))"
    using assms manifest_reader.required_distinct by (simp add: map_fst_zip)
  note set = inserted_fields(2)[OF this]
  then show ?thesis by (auto simp: check_unknown_fields_def list_all_iff dest: set_zip_leftD)
qed

lemma manifest_values_ok: "valid_sha256 h \<Longrightarrow> valid_token h"
proof -
  have "is_hex_digit c \<Longrightarrow> token_char c" for c
    by (auto simp: is_hex_digit_def token_char_def is_ascii_digit_alt)
  then show "valid_sha256 h \<Longrightarrow> valid_token h"
    by (auto simp: valid_sha256_def valid_token_iff valid_identifier_token_def valid_symbolic_token_def list_all_iff)
qed

lemma names_identifiers: "valid_token (market_name m)" "valid_token (policy_name p)" "valid_token (to_chars_nat n)"
proof -
  have "market_name m \<noteq> ''-''" by (cases m) simp_all
  moreover have "policy_name p \<noteq> ''-''" by (cases p) simp_all
  ultimately show "valid_token (market_name m)" "valid_token (policy_name p)" "valid_token (to_chars_nat n)"
    using names_symbolic by (simp_all add: valid_token_iff valid_identifier_token_def)
qed

lemma manifest_written_iff:
  "manifest_written m \<longleftrightarrow>
     (fi_schema_version (rm_identity m) = kReplaySchemaVersion \<and> valid_sha256 (fi_replay_log_sha256 (rm_identity m)) \<and>
      fi_fixture_id (rm_identity m) \<noteq> ''-'' \<and> fi_symbol (rm_identity m) \<noteq> ''-'' \<and>
      spec_ok (fi_numeric_spec (rm_identity m)) \<and>
      markets_agree (fi_market (rm_identity m)) (fi_sequence_policy (rm_identity m)) \<and> rm_event_count m \<le> SIZE_MAX) \<and>
     list_all valid_token (map snd (manifest_required m)) \<and>
     list_all manifest_entry (rm_provenance m) \<and> sorted_wrt (<) (map fst (rm_provenance m))"
proof -
  have schema: "valid_token kReplaySchemaName"
    by (simp add: kReplaySchemaName_def valid_token_iff valid_identifier_token_def valid_symbolic_token_def token_char_def)
  have dash: "valid_token t \<Longrightarrow> t \<noteq> ''-''" for t by (simp add: valid_token_def)
  have entry: "(\<lambda>kv. is_provenance (fst kv) \<and> valid_token (fst kv) \<and> valid_token (snd kv)) = manifest_entry"
    by (simp add: fun_eq_iff manifest_entry_def)
  show ?thesis
    unfolding manifest_written_def valid_token_iff[symmetric] entry
    using manifest_values_ok[of "fi_replay_log_sha256 (rm_identity m)"]
    by (auto simp: manifest_required_def Let_def names_identifiers schema dest: dash)
qed

lemma parse_manifest_lines_iff:
  "bind_result (collect_fields (name # ts)) (\<lambda>collected. bind_result (check_required_present collected) (\<lambda>_. check_manifest collected)) = Inr m \<longleftrightarrow>
     manifest_written m \<and> ts = map print_field (manifest_required m @ rm_provenance m)" (is "?L \<longleftrightarrow> ?R")
proof
  assume ?L
  then obtain c where c: "collect_fields (name # ts) = Inr c \<and> check_required_present c = Inr ()" "check_manifest c = Inr m"
    by (auto simp: bind_result_Inr_iff)
  from c(1) obtain vs ps where vs: "length vs = 9" "list_all valid_token vs" "list_all manifest_entry ps" "sorted_wrt (<) (map fst ps)"
    "ts = map print_field (zip kRequiredFields vs @ ps)"
    "c = \<lparr>mf_fields = insert_fields [] (zip kRequiredFields vs), mf_provenance = ps\<rparr>"
    unfolding collect_fields_iff by blast
  have "vs = map snd (manifest_required m)"
    using c(2) vs(1,6) fields_at_zip[OF manifest_reader.required_distinct, of vs] by (simp add: check_manifest_iff)
  moreover from this have "zip kRequiredFields vs = manifest_required m"
    by (simp add: kRequiredFields_def manifest_required_def Let_def)
  ultimately show ?R using c(2) vs by (simp add: check_manifest_iff manifest_written_iff)
next
  assume r: ?R
  let ?vs = "map snd (manifest_required m)" and ?ps = "rm_provenance m"
  let ?c = "\<lparr>mf_fields = insert_fields [] (manifest_required m), mf_provenance = ?ps\<rparr>"
  have zip: "zip kRequiredFields ?vs = manifest_required m" and len: "length ?vs = 9"
    by (simp_all add: kRequiredFields_def manifest_required_def Let_def)
  have "collect_fields (name # ts) = Inr ?c \<and> check_required_present ?c = Inr ()"
    unfolding collect_fields_iff using r zip len
    by (intro exI[of _ ?vs] exI[of _ ?ps]) (simp add: manifest_written_iff)
  moreover have "check_manifest ?c = Inr m"
    using r fields_at_zip[OF manifest_reader.required_distinct, of ?vs] no_unknown_fields[OF len, of ?ps] zip len
    by (simp add: check_manifest_iff manifest_written_iff)
  ultimately show ?L by simp
qed

lemma manifest_lines_safe:
  assumes "manifest_written m"
  shows "list_all (\<lambda>line. canonical_line line \<and> list_all (\<lambda>c. char_code c < 0x80) line)
    (''MANIFEST_V1'' # map print_field (manifest_required m @ rm_provenance m))"
proof -
  have line: "canonical_line t \<and> list_all (\<lambda>c. char_code c < 0x80) t" if "log_token t" for t
    using printed_line[of "[t]"] that by (simp add: print_line_def)
  have "valid_token (fst kv) \<and> valid_token (snd kv)" if "kv \<in> set (manifest_required m @ rm_provenance m)" for kv
  proof -
    have "fst ` set (manifest_required m) \<subseteq> set kRequiredFields"
      by (auto simp: manifest_required_def Let_def kRequiredFields_def)
    then show ?thesis
      using that assms manifest_key(1) by (auto simp: manifest_written_iff list_all_iff manifest_entry_def)
  qed
  then have "log_token (print_field kv)" if "kv \<in> set (manifest_required m @ rm_provenance m)" for kv
    using that by (intro field_token) (auto simp: valid_token_iff valid_identifier_token_def)
  moreover have "log_token ''MANIFEST_V1''" by (simp add: visible_def)
  ultimately show ?thesis using line by (auto simp: list_all_iff)
qed

lemma parse_manifest_iff: "parse_manifest bytes = Inr m \<longleftrightarrow> manifest_written m \<and> bytes = print_manifest m"
proof -
  have unfolded: "parse_manifest bytes = Inr m \<longleftrightarrow> validate_canonical_bytes bytes = Inr () \<and>
      (\<exists>ts. split_at (CHR 0x0A) bytes = ''MANIFEST_V1'' # ts \<and>
        bind_result (collect_fields (''MANIFEST_V1'' # ts)) (\<lambda>collected.
          bind_result (check_required_present collected) (\<lambda>_. check_manifest collected)) = Inr m)"
  proof (cases "validate_canonical_bytes bytes")
    case (Inr u)
    then show ?thesis
      by (cases "split_at (CHR 0x0A) bytes")
        (auto simp: parse_manifest_def manifest_lines_def check_manifest_def manifest_guard_passed)
  qed (simp add: parse_manifest_def manifest_lines_def)
  let ?lines = "''MANIFEST_V1'' # map print_field (manifest_required m @ rm_provenance m)"
  show ?thesis unfolding unfolded parse_manifest_lines_iff
  proof
    assume l: "validate_canonical_bytes bytes = Inr () \<and> (\<exists>ts. split_at (CHR 0x0A) bytes = ''MANIFEST_V1'' # ts \<and>
      manifest_written m \<and> ts = map print_field (manifest_required m @ rm_provenance m))"
    then obtain lines where "split_at (CHR 0x0A) bytes = lines" "bytes = unlines (CHR 0x0A) lines"
      by (elim conjE canonical_text)
    with l show "manifest_written m \<and> bytes = print_manifest m" unfolding print_manifest_def by metis
  next
    assume r: "manifest_written m \<and> bytes = print_manifest m"
    then show "validate_canonical_bytes bytes = Inr () \<and> (\<exists>ts. split_at (CHR 0x0A) bytes = ''MANIFEST_V1'' # ts \<and>
      manifest_written m \<and> ts = map print_field (manifest_required m @ rm_provenance m))"
      using safe_text[of ?lines] manifest_lines_safe[of m] unfolding print_manifest_def by blast
  qed
qed

subsection \<open>Fixtures\<close>

definition identity_of :: "replay_header \<Rightarrow> string \<Rightarrow> fixture_identity" where
  "identity_of h digest =
     \<lparr>fi_schema_version = rh_schema_version h, fi_replay_log_sha256 = digest, fi_fixture_id = rh_fixture_id h,
      fi_market = rh_market h, fi_symbol = rh_symbol h, fi_numeric_spec = rh_numeric_spec h,
      fi_sequence_policy = rh_sequence_policy h\<rparr>"

definition fixture_consistent :: "replay_fixture \<Rightarrow> bool" where
  "fixture_consistent f \<longleftrightarrow>
     log_written (rf_replay f) \<and> manifest_written (rf_manifest f) \<and>
     sha256_hex (print_log (rf_replay f)) = Inr (rf_canonical_log_sha256 f) \<and>
     rf_identity f = identity_of (nr_header (rf_replay f)) (rf_canonical_log_sha256 f) \<and>
     rm_identity (rf_manifest f) = rf_identity f \<and>
     rm_event_count (rf_manifest f) = length (nr_operations (rf_replay f)) \<and>
     rm_provenance (rf_manifest f) = rh_provenance (nr_header (rf_replay f))"

lemma validate_fixture_iff:
  assumes "manifest_written m"
  shows "validate_fixture bytes m = Inr f \<longleftrightarrow>
    fixture_consistent f \<and> bytes = print_log (rf_replay f) \<and> rf_manifest f = m"
proof -
  have failure: "fixture_failure c t \<noteq> Inr x" for c t and x :: replay_fixture by (simp add: fixture_failure_def)
  have identities: "(fi_replay_log_sha256 i = h \<and> fi_schema_version i = rh_schema_version d \<and> fi_fixture_id i = rh_fixture_id d \<and>
      fi_market i = rh_market d \<and> fi_symbol i = rh_symbol d \<and> fi_numeric_spec i = rh_numeric_spec d \<and>
      fi_sequence_policy i = rh_sequence_policy d) \<longleftrightarrow> i = identity_of d h" for i d h
    by (auto simp: identity_of_def)
  have "fi_symbol (rm_identity m) \<noteq> [] \<and> fi_fixture_id (rm_identity m) \<noteq> []"
    using assms by (auto simp: manifest_written_def Let_def valid_identifier_token_def valid_symbolic_token_def)
  then have "validate_fixture bytes m = Inr f \<longleftrightarrow> (\<exists>r h. parse_replay_log bytes = Inr r \<and> sha256_hex bytes = Inr h \<and>
      rm_identity m = identity_of (nr_header r) h \<and> rm_event_count m = length (nr_operations r) \<and>
      rm_provenance m = rh_provenance (nr_header r) \<and>
      f = \<lparr>rf_replay = r, rf_manifest = m, rf_identity = identity_of (nr_header r) h, rf_canonical_log_sha256 = h\<rparr>)"
    unfolding validate_fixture_def bind_result_Inr_iff Let_def
    by (auto simp: failure identities[symmetric] identity_of_def split: if_splits)
  then show ?thesis
    using assms by (cases f) (auto simp: parse_replay_log_iff fixture_consistent_def)
qed

lemma load_fixture_bytes_iff:
  "load_fixture_bytes log_bytes manifest = Inr f \<longleftrightarrow>
     fixture_consistent f \<and> log_bytes = print_log (rf_replay f) \<and> manifest = print_manifest (rf_manifest f)"
  unfolding load_fixture_bytes_def bind_result_Inr_iff parse_manifest_iff
  using validate_fixture_iff by (metis fixture_consistent_def)

text \<open>
  The log reader takes \<open>-\<close> as the value of a provenance field, the manifest reader does not: such a log
  is accepted on its own, but no manifest makes a fixture of it.
\<close>

lemma dash_provenance_unloadable:
  assumes "(key, ''-'') \<in> set (rh_provenance (nr_header (rf_replay f)))"
  shows "\<not> fixture_consistent f"
proof
  assume "fixture_consistent f"
  then have "list_all (\<lambda>kv. valid_identifier_token (snd kv)) (rh_provenance (nr_header (rf_replay f)))"
    by (auto simp: fixture_consistent_def manifest_written_def list_all_iff)
  with assms have "valid_identifier_token ''-''" by (auto simp: list_all_iff)
  then show False by (simp add: valid_identifier_token_def)
qed

lemma load_fixture_files:
  "load_fixture log_file manifest_file = Inr f \<longleftrightarrow>
     (\<exists>log_bytes manifest. log_file = FileBytes log_bytes \<and> manifest_file = FileBytes manifest \<and>
        load_fixture_bytes log_bytes manifest = Inr f)"
  by (cases log_file; cases manifest_file)
    (simp_all add: load_fixture_def read_fixture_bytes_def load_manifest_def load_fixture_bytes_def fixture_failure_def
      manifest_failure_def bind_result_Inr_iff)

text \<open>
  C11: the fixture loader is exact.  A fixture is loaded from two files if and only if both can be
  read, they hold the canonical prints of the log and of the manifest, the SHA-256 digest of the log
  is the one the manifest names, and the manifest agrees with the header of the log on every field
  of the identity, on the provenance and on the number of events.  Nothing else is accepted, and
  nothing of this kind is refused.
\<close>

theorem load_fixture_exact:
  "load_fixture log_file manifest_file = Inr f \<longleftrightarrow> fixture_consistent f \<and>
     log_file = FileBytes (print_log (rf_replay f)) \<and> manifest_file = FileBytes (print_manifest (rf_manifest f))"
  by (auto simp: load_fixture_files load_fixture_bytes_iff)

end
