(* ===== verification/Replay_Corpus.thy ===== *)
theory Replay_Corpus
  imports Replay_Core Replay_Fixture
begin

text \<open>
  The core-only differential replay of a stored fixture, from its two files to the
  outcome of the driver: \<open>load_fixture\<close> of \<open>tests/m5/replay/replay_fixture.cpp\<close> followed by
  \<open>run_core_only\<close> of \<open>tests/m5/oracle/differential_replay_test.cpp\<close>.  The lemmas carry what the reader
  guarantees over to what the lockstep of the two sides needs.
\<close>

subsection \<open>The run\<close>

definition run_core_only :: "replay_fixture \<Rightarrow> replay_outcome option" where
  "run_core_only fixture =
     (case make_core_production_side fixture of
        None \<Rightarrow> None
      | Some production \<Rightarrow>
          ReplayDriver_run core_production_observe reference_observe fixture RetainAll production
            (make_reference_side ReplayCoreOnly (default_adapter_scenario fixture)))"

text \<open>The helper of the tests that loads a fixture or ends the process, and the run on a stored fixture.\<close>

definition required_fixture :: "file_read \<Rightarrow> file_read \<Rightarrow> replay_fixture option" where
  "required_fixture log_file manifest_file =
     (case load_fixture log_file manifest_file of Inl _ \<Rightarrow> None | Inr fixture \<Rightarrow> Some fixture)"

definition run_core_only_stored :: "file_read \<Rightarrow> file_read \<Rightarrow> replay_outcome option" where
  "run_core_only_stored log_file manifest_file =
     (case required_fixture log_file manifest_file of
        None \<Rightarrow> None
      | Some fixture \<Rightarrow>
          (case make_core_production_side fixture of
             None \<Rightarrow> None
           | Some production \<Rightarrow>
               ReplayDriver_run core_production_observe reference_observe fixture RetainAll production
                 (make_reference_side ReplayCoreOnly (default_adapter_scenario fixture))))"

lemma run_core_only_loaded:
  "load_fixture log_file manifest_file = Inr fixture \<Longrightarrow> run_core_only_stored log_file manifest_file = run_core_only fixture"
  by (simp add: run_core_only_stored_def required_fixture_def run_core_only_def)

subsection \<open>A read log fits its strings\<close>

lemma length_join_member: "x \<in> set xs \<Longrightarrow> length x \<le> length (join sep xs)"
  by (induction xs rule: induct_list012) auto

lemma length_unlines_member: "x \<in> set xs \<Longrightarrow> length x \<le> length (unlines sep xs)"
  by (induction xs) auto

lemma length_levels_member: "l \<in> set ls \<Longrightarrow> length (print_level l) \<le> length (print_list (CHR ''|'') print_level ls)"
  using length_join_member[of "print_level l" "map print_level ls"] by (auto simp: print_list_def)

text \<open>No level is longer than the event it stands in, and no event longer than the log.\<close>

lemma level_fits_within:
  assumes "l \<in> set ls" "print_list (CHR ''|'') print_level ls \<in> set (event_tokens op)" "length (print_event op) \<le> SIZE_MAX"
  shows "level_fits l"
proof -
  have "length (li_price l) \<le> length (print_level l)" "length (li_quantity l) \<le> length (print_level l)"
    by (simp_all add: print_level_def)
  moreover have "length (print_list (CHR ''|'') print_level ls) \<le> length (print_event op)"
    using length_join_member[OF assms(2)] by (simp add: print_event_def print_line_def)
  ultimately show ?thesis
    using length_levels_member[OF assms(1)] assms(3) unfolding level_fits_def by linarith
qed

text \<open>
  The reader checks the form of an event, not the order of its update identifiers: that an update has
  a valid range and a range event an invalid one is up to whoever wrote the log.
\<close>

fun range_as_named :: "replay_operation \<Rightarrow> bool" where
  "range_as_named (DepthUpdateOp _ first_id final_id _ _) \<longleftrightarrow> first_id \<le> final_id"
| "range_as_named (MalformedRangeOp _ first_id final_id) \<longleftrightarrow> first_id > final_id"
| "range_as_named _ \<longleftrightarrow> True"

lemma written_runnable:
  assumes "event_written op" "range_as_named op" "length (print_event op) \<le> SIZE_MAX"
  shows "core_runnable op"
proof -
  note fits = level_fits_within[where op = op, OF _ _ assms(3)]
  have side: "list_all (level_written (Some s)) ls \<Longrightarrow> list_all (\<lambda>l. li_side l = s) ls" for s ls
    by (auto simp: list_all_iff level_written_def)
  from assms(1,2) show ?thesis
    by (cases op) (auto simp: side list_all_iff level_written_def intro: fits)
qed

lemma consistent_runnable:
  assumes "fixture_consistent fixture" "length (print_log (rf_replay fixture)) \<le> SIZE_MAX"
    and "list_all range_as_named (nr_operations (rf_replay fixture))"
  shows "list_all core_runnable (nr_operations (rf_replay fixture))"
  unfolding list_all_iff
proof
  fix op assume op: "op \<in> set (nr_operations (rf_replay fixture))"
  then have "length (print_event op) \<le> length (print_log (rf_replay fixture))"
    unfolding print_log_def by (intro length_unlines_member) simp
  with op assms show "core_runnable op"
    by (intro written_runnable) (auto simp: fixture_consistent_def log_written_def list_all_iff)
qed

subsection \<open>Properties\<close>

text \<open>A run that compared every event of a fixture and found no difference.\<close>

definition agreeing_run :: "replay_fixture \<Rightarrow> replay_outcome \<Rightarrow> bool" where
  "agreeing_run fixture outcome \<longleftrightarrow> ro_first_divergence outcome = None \<and>
     ro_processed_events outcome = length (nr_operations (rf_replay fixture)) \<and>
     counted_events (ro_summary outcome) = rm_event_count (rf_manifest fixture)"

lemma consistent_replays:
  assumes "fixture_consistent fixture" "length (print_log (rf_replay fixture)) \<le> SIZE_MAX"
    and "list_all range_as_named (nr_operations (rf_replay fixture))"
  shows "\<exists>outcome. run_core_only fixture = Some outcome \<and> agreeing_run fixture outcome"
proof -
  have count: "rm_event_count (rf_manifest fixture) = length (nr_operations (rf_replay fixture))"
    and "spec_ok (fi_numeric_spec (rf_identity fixture))"
    using assms(1) by (simp_all add: fixture_consistent_def identity_of_def log_written_def header_written_def)
  from this(2) obtain p where p: "make_core_production_side fixture = Some p"
    "core_related p (make_reference_side ReplayCoreOnly (default_adapter_scenario fixture))"
    by (rule core_sides_start)
  obtain outcome where "ReplayDriver_run core_production_observe reference_observe fixture RetainAll p
      (make_reference_side ReplayCoreOnly (default_adapter_scenario fixture)) = Some outcome"
    "ro_first_divergence outcome = None" "ro_processed_events outcome = length (nr_operations (rf_replay fixture))"
    "counted_events (ro_summary outcome) = length (nr_operations (rf_replay fixture))"
    by (rule core_replay.run_agrees[OF p(2) consistent_runnable[OF assms], of RetainAll])
  with p(1) count show ?thesis by (auto simp: run_core_only_def agreeing_run_def)
qed

text \<open>
  C5: a stored fixture replays without divergence.  Take a log and a manifest the loader accepts,
  where every depth update names a valid range and every malformed-range event an invalid one.  Then
  the core-only replay of the two files builds both sides, runs to the end of the log, finds
  production and reference equal on every event, and counts exactly as many events as the manifest
  announces.
\<close>

theorem stored_fixture_replays:
  assumes "load_fixture (FileBytes log_bytes) manifest_file = Inr fixture" and "length log_bytes \<le> SIZE_MAX"
    and "list_all range_as_named (nr_operations (rf_replay fixture))"
  shows "\<exists>outcome. run_core_only_stored (FileBytes log_bytes) manifest_file = Some outcome \<and> agreeing_run fixture outcome"
proof -
  from assms(1) have "fixture_consistent fixture \<and> log_bytes = print_log (rf_replay fixture)"
    by (auto simp: load_fixture_files load_fixture_bytes_iff)
  with assms(2,3) show ?thesis
    unfolding run_core_only_loaded[OF assms(1)] by (intro consistent_replays) simp_all
qed

text \<open>A fixture for every well-formed log: its manifest is determined up to the digest of the log.\<close>

definition manifest_for :: "normalized_replay \<Rightarrow> string \<Rightarrow> replay_manifest" where
  "manifest_for r digest =
     \<lparr>rm_identity = identity_of (nr_header r) digest, rm_event_count = length (nr_operations r),
      rm_provenance = rh_provenance (nr_header r)\<rparr>"

definition fixture_for :: "normalized_replay \<Rightarrow> string \<Rightarrow> replay_fixture" where
  "fixture_for r digest =
     \<lparr>rf_replay = r, rf_manifest = manifest_for r digest, rf_identity = identity_of (nr_header r) digest,
      rf_canonical_log_sha256 = digest\<rparr>"

lemma fixture_for_loads:
  assumes "log_written r" "rh_provenance (nr_header r) = []" "length (nr_operations r) \<le> SIZE_MAX"
  obtains digest where "load_fixture (FileBytes (print_log r)) (FileBytes (print_manifest (manifest_for r digest))) =
    Inr (fixture_for r digest)"
proof -
  obtain digest where digest: "sha256_hex (print_log r) = Inr digest" "valid_sha256 digest"
    using sha256_hex_valid by blast
  have "manifest_written (manifest_for r digest)"
    using assms digest(2)
    by (simp add: manifest_written_def manifest_for_def identity_of_def log_written_def header_written_def Let_def)
  with assms digest(1) have "fixture_consistent (fixture_for r digest)"
    by (simp add: fixture_consistent_def fixture_for_def manifest_for_def)
  then show ?thesis
    by (intro that[of digest]) (simp add: load_fixture_files load_fixture_bytes_iff, simp add: fixture_for_def)
qed

definition example_log :: normalized_replay where
  "example_log =
     \<lparr>nr_header = \<lparr>rh_schema_version = 1, rh_market = ReplaySpot, rh_symbol = ''BTCUSDT'',
        rh_numeric_spec = \<lparr>rs_price_scale = 8, rs_quantity_scale = 8\<rparr>, rh_sequence_policy = PolicySpot,
        rh_fixture_id = ''tiny'', rh_provenance = []\<rparr>,
      nr_operations =
        [InstallBaselineOp (source_of_line 0 2 ''INSTALL_BASELINE 100 B:100.00,1.23 A:101,1'') 100
           [\<lparr>li_side = SideBid, li_price = ''100.00'', li_quantity = ''1.23''\<rparr>]
           [\<lparr>li_side = SideAsk, li_price = ''101'', li_quantity = ''1''\<rparr>],
         MalformedRangeOp (source_of_line 1 3 ''MALFORMED_RANGE 5 4'') 5 4,
         ResetOp (source_of_line 2 4 ''RESET'')]\<rparr>"


lemma example_log_written: "log_written example_log"
proof -
  have "event_written op" if "op \<in> set (nr_operations example_log)" for op
    using that by (auto simp: example_log_def level_written_def valid_decimal_lexeme_def is_ascii_digit_alt)
  moreover have "header_written (nr_header example_log)"
    by (simp add: example_log_def header_written_def kReplaySchemaVersion_def spec_ok_def markets_agree_def
        valid_identifier_token_def valid_symbolic_token_def token_char_def)
  moreover have "located 0 1 (nr_operations example_log)" by code_simp
  moreover have "metadata_placed (nr_operations example_log)" by (simp add: example_log_def)
  ultimately show ?thesis by (simp add: log_written_def list_all_iff)
qed

lemma example_log_length: "length (print_log example_log) \<le> SIZE_MAX"
proof -
  have "length (print_log example_log) < 256" by code_simp
  then show ?thesis by simp
qed

theorem stored_fixture_replays_witness:
  "\<exists>manifest fixture outcome. load_fixture (FileBytes (print_log example_log)) (FileBytes manifest) = Inr fixture \<and>
     length (print_log example_log) \<le> SIZE_MAX \<and> list_all range_as_named (nr_operations (rf_replay fixture)) \<and>
     run_core_only_stored (FileBytes (print_log example_log)) (FileBytes manifest) = Some outcome \<and>
     agreeing_run fixture outcome \<and> ro_processed_events outcome = 3"
proof -
  obtain digest where loads: "load_fixture (FileBytes (print_log example_log))
      (FileBytes (print_manifest (manifest_for example_log digest))) = Inr (fixture_for example_log digest)"
    by (rule fixture_for_loads[OF example_log_written]) (simp_all add: example_log_def)
  have named: "list_all range_as_named (nr_operations (rf_replay (fixture_for example_log digest)))"
    by (simp add: fixture_for_def example_log_def)
  obtain outcome where "run_core_only_stored (FileBytes (print_log example_log))
      (FileBytes (print_manifest (manifest_for example_log digest))) = Some outcome"
    "agreeing_run (fixture_for example_log digest) outcome"
    using stored_fixture_replays[OF loads example_log_length named] by blast
  moreover from this(2) have "ro_processed_events outcome = 3"
    by (simp add: agreeing_run_def fixture_for_def example_log_def)
  ultimately show ?thesis using loads example_log_length named by blast
qed

end
