(* ===== verification/Replay_Archive.thy ===== *)
theory Replay_Archive
  imports Book_Projection Sha256
begin

text \<open>
  The contract of the tool that turns recorded archives into replay logs
  (\<open>tests/m5/replay/replay_types.cpp\<close>): how it sorts the events buffered before a Spot snapshot, the
  rules it states for the two markets, and the provenance it demands of an archive.  Its classification
  of Spot events is shown to be the one the production projection makes while it awaits its bridge.
\<close>

subsection \<open>Bootstrap events\<close>

datatype spot_bootstrap_outcome = BootstrapStale | NonAdvancingDuplicate | BridgeCandidate | ForwardGap

record spot_bootstrap_range =
  sbr_first_update_id :: uint64
  sbr_final_update_id :: uint64

definition materializer_classify_spot_bootstrap :: "uint64 \<Rightarrow> spot_bootstrap_range \<Rightarrow> spot_bootstrap_outcome" where
  "materializer_classify_spot_bootstrap snapshot_last_update_id rng =
     (if sbr_final_update_id rng < snapshot_last_update_id then BootstrapStale
      else if sbr_final_update_id rng = snapshot_last_update_id then NonAdvancingDuplicate
      else if snapshot_last_update_id = UINT64_MAX then ForwardGap
      else if sbr_first_update_id rng \<le> snapshot_last_update_id + 1 then BridgeCandidate
      else ForwardGap)"

subsection \<open>Stated rules\<close>

datatype market_rule = SpotRule | UsdMPerpetualRule

record materializer_contract =
  mc_market_rule :: market_rule
  mc_snapshot_identity :: string
  mc_buffer_window :: string
  mc_discard_rule :: string
  mc_first_bridge_rule :: string
  mc_post_bridge_rule :: string
  mc_failure_rule :: string
  mc_acquisition_boundary :: string

definition spot_materializer_contract :: materializer_contract where
  "spot_materializer_contract =
     \<lparr>mc_market_rule = SpotRule,
      mc_snapshot_identity = ''REST depth snapshot lastUpdateId=L'',
      mc_buffer_window = ''all diff-depth events received from stream start through snapshot acquisition'',
      mc_discard_rule = ''stale: u < L; duplicate/non-advancing: u == L and cannot form a bridge'',
      mc_first_bridge_rule = ''first advancing bridge covers the successor: U <= L + 1'',
      mc_post_bridge_rule =
        ''after synchronization, each live event must cover local_last_update_id+1 per the '' @
        ''accepted M3 Spot live policy, then advance to u'',
      mc_failure_rule =
        ''snapshot-too-old, forward gap, integrity, or provenance failure rejects the fixture '' @
        ''and triggers resync'',
      mc_acquisition_boundary =
        ''consume only explicitly supplied immutable source archive plus expected provenance '' @
        ''identity; no live discovery''\<rparr>"

definition usdm_materializer_contract :: materializer_contract where
  "usdm_materializer_contract =
     \<lparr>mc_market_rule = UsdMPerpetualRule,
      mc_snapshot_identity = ''REST depth snapshot lastUpdateId=L'',
      mc_buffer_window = ''all U/u/pu diff-depth events received from stream start through snapshot acquisition'',
      mc_discard_rule = ''discard buffered events with u < L'',
      mc_first_bridge_rule = ''first eligible event satisfies U <= L <= u'',
      mc_post_bridge_rule = ''after bridge, each next event requires pu == local_last_update_id and applies u'',
      mc_failure_rule =
        ''snapshot-too-old, missing/mismatched pu, gap, integrity, or provenance failure '' @
        ''rejects the fixture and triggers resync'',
      mc_acquisition_boundary =
        ''consume only explicitly supplied immutable source archive plus expected provenance '' @
        ''identity; no live discovery''\<rparr>"

subsection \<open>Archives\<close>

record immutable_source_archive =
  sa_root_identity :: string
  sa_recorder_commit :: string
  sa_recorder_wheel_sha256 :: string
  sa_recorder_config_sha256 :: string
  sa_run_identity :: string
  sa_raw_chunk_sha256 :: "(string \<times> string) list"
  sa_market :: string
  sa_symbol :: string
  sa_source_interval :: string

definition archive_failure :: "string \<Rightarrow> 'a parsed" where
  "archive_failure message = parse_failure InvalidMetadata 0 0 0 message"

primrec check_raw_chunks :: "(string \<times> string) list \<Rightarrow> unit parsed" where
  "check_raw_chunks [] = Inr ()"
| "check_raw_chunks (entry # rest) =
     (if fst entry = [] \<or> \<not> valid_sha256 (snd entry)
      then archive_failure ''raw chunk provenance requires lowercase SHA-256''
      else check_raw_chunks rest)"

definition validate_source_archive :: "immutable_source_archive \<Rightarrow> unit parsed" where
  "validate_source_archive source =
     (if sa_root_identity source = [] \<or> sa_recorder_commit source = [] \<or>
         length (sa_recorder_wheel_sha256 source) \<noteq> 64 \<or> length (sa_recorder_config_sha256 source) \<noteq> 64 \<or>
         sa_run_identity source = [] \<or> sa_raw_chunk_sha256 source = [] \<or> sa_market source = [] \<or>
         sa_symbol source = [] \<or> sa_source_interval source = []
      then archive_failure ''materializer source archive requires complete provenance identity''
      else if sa_market source \<noteq> ''Spot'' \<and> sa_market source \<noteq> ''UsdMPerpetual''
      then archive_failure ''unsupported source market''
      else if \<not> valid_sha256 (sa_recorder_wheel_sha256 source) \<or> \<not> valid_sha256 (sa_recorder_config_sha256 source)
      then archive_failure ''Recorder wheel/config identity must be lowercase SHA-256''
      else check_raw_chunks (sa_raw_chunk_sha256 source))"

subsection \<open>Properties\<close>

lemma check_raw_chunks_iff:
  "check_raw_chunks entries = Inr u \<longleftrightarrow> list_all (\<lambda>entry. fst entry \<noteq> [] \<and> valid_sha256 (snd entry)) entries"
  by (induction entries) (auto simp: archive_failure_def parse_failure_def)

text \<open>An archive passes exactly when its whole provenance is there and every hash has its form.\<close>

lemma validate_source_archive_iff:
  "validate_source_archive source = Inr () \<longleftrightarrow>
     (\<forall>field \<in> {sa_root_identity, sa_recorder_commit, sa_run_identity, sa_symbol, sa_source_interval}. field source \<noteq> []) \<and>
     sa_market source \<in> {''Spot'', ''UsdMPerpetual''} \<and>
     valid_sha256 (sa_recorder_wheel_sha256 source) \<and> valid_sha256 (sa_recorder_config_sha256 source) \<and>
     sa_raw_chunk_sha256 source \<noteq> [] \<and>
     list_all (\<lambda>entry. fst entry \<noteq> [] \<and> valid_sha256 (snd entry)) (sa_raw_chunk_sha256 source)"
  by (auto simp: validate_source_archive_def check_raw_chunks_iff archive_failure_def parse_failure_def valid_sha256_def)

text \<open>What an outcome makes of an event when it is applied.\<close>

fun bootstrap_disposition :: "spot_bootstrap_outcome \<Rightarrow> apply_disposition" where
  "bootstrap_disposition BootstrapStale = IgnoredStale"
| "bootstrap_disposition NonAdvancingDuplicate = IgnoredDuplicate"
| "bootstrap_disposition BridgeCandidate = Applied"
| "bootstrap_disposition ForwardGap = GapDetected"

lemma covers_guarded_successor:
  fixes L :: uint64
  assumes "L \<noteq> UINT64_MAX"
  shows "covers_successor L first \<longleftrightarrow> first \<le> L + 1"
proof -
  have "unat L < 2 ^ 64" using unsigned_less[of L] by simp
  moreover have "unat L \<noteq> 2 ^ 64 - 1" using assms by (simp add: word_unat_eq_iff)
  ultimately have "unat L + 1 < 2 ^ 64" by linarith
  then have "unat (L + 1) = unat L + 1"
    by (subst unat_plus_simple[THEN iffD1]) (simp_all add: no_olen_add_nat)
  then show ?thesis by (simp add: covers_successor_iff word_le_nat_alt)
qed

lemma nothing_above_max: "(u :: uint64) \<le> UINT64_MAX"
proof -
  have "unat u < 2 ^ 64" using unsigned_less[of u] by simp
  then show ?thesis by (simp add: word_le_nat_alt)
qed

text \<open>The two classifications of a Spot event before the bridge.\<close>

lemma bootstrap_classes_agree:
  "decision (classify_spot_bootstrap L rng) =
     (case materializer_classify_spot_bootstrap L
        \<lparr>sbr_first_update_id = range_first rng, sbr_final_update_id = range_final rng\<rparr> of
        BootstrapStale \<Rightarrow> Stale | NonAdvancingDuplicate \<Rightarrow> Duplicate | BridgeCandidate \<Rightarrow> Apply | ForwardGap \<Rightarrow> Gap)"
proof (cases "L = UINT64_MAX")
  case True
  with nothing_above_max[of "range_final rng"] show ?thesis
    by (auto simp: classify_spot_bootstrap_def materializer_classify_spot_bootstrap_def stale_decision_def
        duplicate_decision_def)
next
  case False
  then show ?thesis
    by (simp add: classify_spot_bootstrap_def materializer_classify_spot_bootstrap_def covers_guarded_successor
        stale_decision_def duplicate_decision_def apply_decision_def gap_decision_def)
qed

lemma disposition_of_decision:
  assumes "projection_inv p" "bp_status p = AwaitingBridge" "bp_last_update_id p = Some L"
    and "apply_batch p batch = Some (r, p')"
  shows "ar_disposition r =
    (case decision (classify p L batch) of
       Stale \<Rightarrow> IgnoredStale | Duplicate \<Rightarrow> IgnoredDuplicate | Apply \<Rightarrow> Applied | Gap \<Rightarrow> GapDetected)"
  using assms(2-)
  by (auto simp: apply_batch_def Let_def make_apply_result_def record_gap_def
      split: sequence_decision.splits option.splits)

text \<open>
  C28: the archive tool and the library agree on Spot bootstrap.  For every update id L, the wrapping
  end of the range included, a Spot projection that has installed a snapshot with last update id L
  and awaits its bridge does with an event exactly what the tool predicts from L and the ids of the
  event: stale events and duplicates are ignored, a bridge candidate is applied and anything else is
  a gap.
\<close>

theorem materializer_predicts_bootstrap:
  assumes "projection_run spec Spot h p" and "bp_status p = AwaitingBridge" and "bp_last_update_id p = Some L"
  shows "\<exists>r p'. apply_batch p batch = Some (r, p') \<and>
    ar_disposition r = bootstrap_disposition (materializer_classify_spot_bootstrap L
      \<lparr>sbr_first_update_id = range_first (db_range batch), sbr_final_update_id = range_final (db_range batch)\<rparr>)"
proof -
  have inv: "projection_inv p" and policy: "bp_policy p = Spot"
    using projection_run_config[OF assms(1)] by simp_all
  obtain r p' where step: "apply_batch p batch = Some (r, p')" using apply_batch_total[OF inv] by blast
  have "classify p L batch = classify_spot_bootstrap L (db_range batch)"
    using assms(2) policy by (simp add: classify_def)
  with disposition_of_decision[OF inv assms(2,3) step] step show ?thesis
    by (auto simp: bootstrap_classes_agree split: spot_bootstrap_outcome.splits)
qed

theorem materializer_predicts_bootstrap_witness:
  "\<exists>r0 p r p'. install_baseline (BookProjection_create example_spec Spot) example_baseline = (r0, p) \<and>
     bp_status p = AwaitingBridge \<and> apply_batch p example_batch = Some (r, p') \<and>
     ar_disposition r = bootstrap_disposition (materializer_classify_spot_bootstrap (bb_last_update_id example_baseline)
       \<lparr>sbr_first_update_id = range_first (db_range example_batch), sbr_final_update_id = range_final (db_range example_batch)\<rparr>)"
proof -
  obtain r0 p where install: "install_baseline (BookProjection_create example_spec Spot) example_baseline = (r0, p)"
    by fastforce
  then have state: "bp_status p = AwaitingBridge" "bp_last_update_id p = Some (bb_last_update_id example_baseline)"
    "ir_disposition r0 = Installed"
    by (auto simp: install_baseline_def BookProjection_create_def make_install_result_def Let_def)
  moreover have "projection_run example_spec Spot (Some (example_baseline, [])) p"
    by (rule projection_run.installed[OF projection_run.created install state(3)])
  ultimately show ?thesis using materializer_predicts_bootstrap install by blast
qed

end
