(* ===== verification/Spec2Isabelle.thy ===== *)
theory Spec2Isabelle
  imports Feed_Pipeline Phase8_Std_Map Phase8_Sorted_Vector Phase8_Btree Reference_Decimal
    Fuzz_Decimal Fuzz_Projection Fuzz_Adapter Replay_Fuzz Replay_Corpus Replay_Archive
begin

text \<open>
  A verification library of the market data projection: the C++ library that turns Binance depth
  messages into local order books, the protobuf adapter in front of it, its fuzz targets and the
  candidate books of its benchmarks.

  \<^bold>\<open>The program.\<close>  Prices and quantities are decimal texts on the wire and scaled 64-bit integers
  inside.  \<open>src/numeric\<close> parses and prints them exactly or refuses.  \<open>OrderBook\<close> (\<open>src/order_book\<close>)
  keeps the levels of the two sides in \<open>std::map\<close>s, best price first.  \<open>BookProjection\<close>
  (\<open>src/projection_state\<close>) owns a book and decides, by the update ids of each batch and the sequence
  policy of the market, whether the batch connects, is stale or duplicate, or reveals a gap.  The
  adapter (\<open>src/proto_adapter\<close>) checks exchange messages, adapts them into baselines and batches bound
  to one numeric specification and policy, and renders a projection as a local snapshot message.
  The fuzz targets (\<open>fuzz/\<close>) drive each component with arbitrary bytes against independent
  references; the replay target runs a whole production stack and a whole reference stack side by side
  (\<open>tests/m5/oracle\<close>, \<open>tests/m5/reference\<close>).  The same comparison is run on stored fixtures, a log and a
  manifest in a canonical text format (\<open>tests/m5/replay\<close>); \<open>benchmarks/phase8\<close> holds alternative books
  behind one model protocol.

  \<^bold>\<open>How it is modelled.\<close>  Each theory follows one source file, one definition per function, in the
  order of the file, and state is passed and returned.  An early return with an error is \<open>Inl\<close> of a
  sum; an exception (reading an empty \<open>std::optional\<close>, \<open>at\<close> out of range in a \<open>noexcept\<close> function) and
  \<open>std::abort\<close> are \<open>None\<close>, and the theorems say when they cannot happen.  Update ids, scales and fuzz
  bytes are words of their width; the 64-bit accumulator of the parser is an integer with its guards
  written out, and staying in range is a theorem.  Loops are structural recursion over what they
  traverse or have a termination proof; nothing is cut off by fuel.

  \<^item> \<open>Prelude\<close>: widths, results, digits, the order \<open>key_order\<close> of a map's comparator.
  \<^item> \<open>Numeric_Types\<close>: \<open>PriceUnits\<close>, \<open>QuantityUnits\<close>, \<open>DecimalScale\<close>, \<open>DecimalError\<close>, \<open>BookSide\<close>,
    \<open>BookLevel\<close>, \<open>LevelUpdate\<close>.  Private constructors become subtypes: only factories make values.
  \<^item> \<open>Decimal_Text\<close>, \<open>Decimal_Parse\<close>, \<open>Decimal_Format\<close>: the grammar of decimal texts and the rational
    they denote; \<open>decimal_parse.cpp\<close> and \<open>decimal_format.cpp\<close>.  A text is accepted exactly when its
    value is a representable integer at the scale, the error code and offset say what is wrong, no
    step overflows and the guards refuse exactly the steps that would, and parsing and printing are
    inverse both ways.
  \<^item> \<open>Ordered_Map\<close>: \<open>std::map\<close> with its comparator, and the locale \<open>ordered_store\<close>, what a client may
    assume of it; interpreted on both comparators.
  \<^item> \<open>Book_Model\<close>: the abstract book (a map from side and price to quantity), the operation table of
    \<open>phase8_model.hpp\<close>, the contract \<open>book_model\<close> of such a table and the locale \<open>book_simulation\<close> by
    which one table inherits the contract from another.
  \<^item> \<open>Order_Book\<close>: \<open>order_book.cpp\<close>; keeps \<open>book_model\<close>, so after any calls it returns and shows what
    the abstract book does; sortedness, no zero levels, last write wins, best and top levels.
  \<^item> \<open>Book_Projection\<close>: \<open>book_projection.cpp\<close>; the classifiers, the state machine, and the inductive
    runs \<open>projection_run\<close> with their histories.  A book handed out is the replay of the last baseline
    and the batches applied since; no Spot update id is skipped; USD-M batches are chained; \<open>apply\<close>
    never throws; a gap freezes the data until a new baseline; \<open>reset\<close> gives a fresh projection in every state.
  \<^item> \<open>Adapter_Types\<close>, \<open>Adapter_Text\<close>, \<open>Adapter_Inbound\<close>, \<open>Adapter_Outbound\<close>: \<open>proto_adapter.hpp\<close> and
    \<open>proto_adapter.cpp\<close>.  A message is accepted exactly when it is well formed, and then means its
    decimals; symbols are exactly the safe UTF-8 strings; a snapshot is produced exactly when it may
    be and reads back as the book.
  \<^item> \<open>Feed_Pipeline\<close>: adapter, projection and adapter again, composed; from wire texts to wire texts.
  \<^item> \<open>Phase8_Std_Map\<close>, \<open>Phase8_Sorted_Vector\<close>: \<open>phase8_std_map_control.hpp\<close>,
    \<open>phase8_sorted_vector_naive.hpp\<close>, \<open>phase8_sorted_vector_batch_lww.hpp\<close>; each interprets
    \<open>book_simulation\<close> over the production book.  Binary search is logarithmic and finds the insertion
    point; the batched class writes each price once with the same result.
  \<^item> \<open>Phase8_Btree\<close>: \<open>phase8_absl_btree_map.hpp\<close> over a container parameter; under the contract of an
    ordered map it simulates the production book, and red-black trees keep the contract.
  \<^item> \<open>Reference_Decimal\<close>: the independent two-phase decimal reference of \<open>tests/m5/reference\<close>, shown
    to agree with the parser and the fixed formatters on every text, error offsets included.
  \<^item> \<open>Fuzz_Decimal\<close>, \<open>Fuzz_Order_Book\<close>, \<open>Reference_Projection\<close>, \<open>Fuzz_Projection\<close>, \<open>Fuzz_Adapter\<close>: the
    fuzz targets with their reference implementations and all their checks.  No input makes one
    abort: the references and the production code agree on every input.  The adapter target keeps the
    results of its calls, and the theorem says which calls are made and what they return.
  \<^item> \<open>Fuzz_Decoder\<close>, \<open>Fuzz_Fixture\<close>: \<open>fuzz/m5\<close> and the scenario selection of \<open>replay_fuzz.cpp\<close>; the
    byte cursor as a state monad, the promised bounds on every input, and consistent fixtures.
  \<^item> \<open>Replay_Observation\<close>, \<open>Replay_Compare\<close>, \<open>Replay_Driver\<close>: the canonical observations, the comparator
    (\<open>divergence.cpp\<close>) and the driver of the differential replay.  The comparator reports nothing
    exactly when two observations agree in every compared field, and a report is charged to the first
    comparison that fails.  The locale \<open>lockstep_sides\<close> is what
    the driver relies on: two sides that, from related states, observe the same and stay related; from
    it follows that a run processes every event, finds no divergence and counts each event once.
  \<^item> \<open>Reference_Adapter\<close>: \<open>reference_adapter.cpp\<close>, the reference of the adapter boundary; its symbol
    validator, a table of byte ranges, accepts the symbols the production validator decodes.
  \<^item> \<open>Replay_Production\<close>, \<open>Replay_Reference\<close>, \<open>Replay_Adapter\<close>: the sides of the replay,
    \<open>core_production_side.cpp\<close>, \<open>reference_side.cpp\<close> and \<open>adapter_production_side.cpp\<close>.
  \<^item> \<open>Replay_Levels\<close>, \<open>Replay_Core\<close>: decimals and core operations agree; \<open>lockstep_sides\<close> holds of the
    core-only sides.  \<open>Replay_Inbound\<close>, \<open>Replay_Outbound\<close>, \<open>Replay_Lockstep\<close>: the reference adapter predicts
    what the protobuf adapter does with messages and snapshot requests, errors included;
    \<open>lockstep_sides\<close> holds of the adapter-enabled sides.
  \<^item> \<open>Replay_Fuzz\<close>: \<open>replay_fuzz.cpp\<close>; no input makes the replay target abort, in either mode.
  \<^item> \<open>Separated_Text\<close>, \<open>Canonical_Text\<close>, \<open>Sha256\<close>: the loop that cuts a text at a separator, with the
    locale \<open>item_codec\<close> that lifts the exactness of an item's reader to separated lists; the byte
    discipline, UTF-8 validation (through the locale \<open>code_point_class\<close> of \<open>Adapter_Text\<close>, which the
    symbol validator shares), integers and the digest of \<open>canonical_text.cpp\<close>.
  \<^item> \<open>Replay_Parser\<close>, \<open>Replay_Grammar\<close>, \<open>Replay_Fields\<close>, \<open>Replay_Log\<close>: \<open>replay_parser.cpp\<close>; a printer for the
    documented grammar, and for each reader the proof that it accepts exactly the printed tokens.  The
    locale \<open>field_reader\<close> is the loop over required fields in order followed by sorted provenance, used
    for headers and for manifests.  A log is accepted exactly when it is a printed one.
  \<^item> \<open>Replay_Manifest\<close>, \<open>Replay_Fixture\<close>: \<open>replay_manifest.cpp\<close> and \<open>replay_fixture.cpp\<close>; a fixture loads
    exactly when log and manifest are canonical and agree, digest included.
  \<^item> \<open>Replay_Corpus\<close>: \<open>run_core_only\<close> of \<open>differential_replay_test.cpp\<close>; a fixture that loads replays to
    its end without divergence.  \<open>Replay_Archive\<close>: \<open>replay_types.cpp\<close>; the archive tool classifies Spot
    events before the bridge as the projection does.

  \<^bold>\<open>Parameters and bounds.\<close>  The Contracts repository is not part of the sources: its enumeration
  numbers and \<open>QualityFlag_IsValid\<close> are the record \<open>contracts\<close>, and \<open>contracts_ok\<close> states what the adapter
  relies on (distinct numbers, unspecified values); the replay side further takes 999 for an unknown enumerator,
  and \<open>unknown_enum_free\<close> states that the Contracts do not use it.  \<open>std::string::max_size\<close> is a parameter of the
  formatter; 64 bytes are enough for any level (a 63-bit value, a point and up to 18 leading zeros).
  \<open>SIZE_MAX\<close> bounds containers; a side can never reach it, since prices are 63-bit values.  Texts are
  assumed shorter than \<open>2 ^ 64\<close> bytes where an offset is computed.  \<open>std::sort\<close> is modelled by a stable
  sort; it is only applied to levels of distinct prices, where every sort gives the same result.

  Opening and reading a file is the datatype \<open>file_read\<close>: it cannot be opened, cannot be read, or gives bytes.
  \<open>absl::btree_map\<close> is the record \<open>ordered_container\<close> of the functions the B-tree candidate calls, and
  \<open>ordered_container_ok\<close> what the candidate relies on.

  \<^bold>\<open>Not modelled.\<close>  Failure of allocation (\<open>std::bad_alloc\<close> and the clean-up paths for it, the throwing
  allocator of the benchmarks); the protobuf runtime and its generated classes, which are records of
  the fields the adapter uses; a host that casts a number which is no enumerator to an \<open>enum class\<close>, so
  the \<open>enum_error\<close> after the switches of \<open>map_snapshot_origin\<close>, \<open>map_gap_recovery\<close>, \<open>map_gap_reason\<close> and
  \<open>map_host_quality\<close>; \<open>version.cpp\<close>, a generated constant; the text of the divergence reports,
  which a run without divergence never renders; the semantic digests of \<open>tests/m5/semantic\<close>, a rendering of
  observations compared across builds; the test cases themselves and their generated workloads, whose
  inputs the theorems quantify over; that the digest is collision free, which nothing here needs; and
  the measuring parts of \<open>benchmarks/\<close>.  The adapter-enabled replay is proved for decoded fuzz cases,
  whose texts are bounded; for stored fixtures only the core-only replay is.
\<close>

section \<open>Candidate books\<close>

text \<open>What a client of a book sees: the results of its calls and, at the end, every observer.\<close>

definition observations :: "'m book_ops \<Rightarrow> numeric_spec \<Rightarrow> book_cmd list \<Rightarrow> level_change option list \<times> book_view" where
  "observations ops spec cs = (let (rs, m) = exec_all ops cs (bo_create ops spec) in (rs, view ops m))"

text \<open>
  C35: the candidates of the benchmarks are interchangeable with the production book.  For every
  sequence of calls, the \<open>std::map\<close> control, the sorted vector and the batching sorted vector return
  the same \<open>LevelChange\<close> values and end with the same answer of every observer as \<open>OrderBook\<close>; and so
  does the B-tree candidate, whatever container it is given that behaves as an ordered map.
\<close>

theorem phase8_candidates_conform:
  "observations StdMapControl_ops spec cs = observations OrderBook_ops spec cs \<and>
   observations SortedVectorNaive_ops spec cs = observations OrderBook_ops spec cs \<and>
   observations SortedVectorBatchLww_ops spec cs = observations OrderBook_ops spec cs \<and>
   (ordered_container_ok (>) B \<and> ordered_container_ok (<) A \<longrightarrow>
      observations (AbslBtreeMap_ops B A) spec cs = observations OrderBook_ops spec cs)"
  unfolding observations_def ob.run_refines smc.sim.run_refines svn.sim.run_refines svb.sim.run_refines
  using abm_run_refines[of B A] by simp

theorem phase8_candidates_conform_witness:
  "ordered_container_ok (>) (rbt_container rev :: (price_units, quantity_units, _) ordered_container) \<and>
   ordered_container_ok (<) (rbt_container (\<lambda>es. es) :: (price_units, quantity_units, _) ordered_container) \<and>
   observations (AbslBtreeMap_ops (rbt_container rev) (rbt_container (\<lambda>es. es))) example_spec example_cmds =
     observations OrderBook_ops example_spec example_cmds"
  using phase8_candidates_conform[where B = "rbt_container rev" and A = "rbt_container (\<lambda>es. es)"
      and spec = example_spec and cs = example_cmds]
  by (simp add: rbt_container_ok)

end
